(* ===== verification/Prelude.thy ===== *)
theory Prelude
  imports Main "HOL-Library.Word" "HOL-Library.Char_ord" "HOL-Library.List_Lexorder"
    "HOL-Library.Sublist" "HOL-Library.Multiset" "HOL-Library.Product_Lexorder" "HOL-Library.Option_ord"
begin

text \<open>
  Shared vocabulary of the development. Rust strings are UTF-8 byte strings and are modelled as
  \<open>string\<close>, one \<open>char\<close> per byte; the order \<open>String: Ord\<close> (bytewise lexicographic) is the
  library's lexicographic order on \<open>char list\<close>. \<open>Result<T, E>\<close> is the sum \<open>'e + 'a\<close> with
  \<open>Inl\<close> for \<open>Err\<close>; the operator \<open>?\<close> is \<open>and_then\<close>. The theory also holds the string,
  vector and \<open>u64\<close> operations of the Rust standard library that the sources call, and the
  lemmas about them that the component theories share.
\<close>

named_theorems result_simps "inversion rules for results built by and_then, map_err and traverse"
named_theorems str_simps "rules about splitting and joining strings"

section \<open>Results\<close>

type_synonym ('e, 'a) result = "'e + 'a"

fun and_then :: "('e, 'a) result \<Rightarrow> ('a \<Rightarrow> ('e, 'b) result) \<Rightarrow> ('e, 'b) result" where
  "and_then (Inl e) f = Inl e"
| "and_then (Inr x) f = f x"

fun map_err :: "('e \<Rightarrow> 'f) \<Rightarrow> ('e, 'a) result \<Rightarrow> ('f, 'a) result" where
  "map_err g (Inl e) = Inl (g e)"
| "map_err g (Inr x) = Inr x"

fun ok_or :: "'e \<Rightarrow> 'a option \<Rightarrow> ('e, 'a) result" where
  "ok_or e None = Inl e"
| "ok_or e (Some x) = Inr x"

text \<open>\<open>iter().map(f).collect::<Result<Vec<_>, _>>()\<close>: stops at the first error.\<close>

fun traverse :: "('a \<Rightarrow> ('e, 'b) result) \<Rightarrow> 'a list \<Rightarrow> ('e, 'b list) result" where
  "traverse f [] = Inr []"
| "traverse f (x # xs) =
     and_then (f x) (\<lambda>y. and_then (traverse f xs) (\<lambda>ys. Inr (y # ys)))"

text \<open>A \<open>for\<close> loop whose body may return early with an error.\<close>

fun for_each :: "('a \<Rightarrow> ('e, unit) result) \<Rightarrow> 'a list \<Rightarrow> ('e, unit) result" where
  "for_each f [] = Inr ()"
| "for_each f (x # xs) = and_then (f x) (\<lambda>_. for_each f xs)"

text \<open>A \<open>for\<close> loop that updates a state and may return early with an error.\<close>

fun try_fold :: "('a \<Rightarrow> 's \<Rightarrow> ('e, 's) result) \<Rightarrow> 'a list \<Rightarrow> 's \<Rightarrow> ('e, 's) result" where
  "try_fold f [] s = Inr s"
| "try_fold f (x # xs) s = and_then (f x s) (try_fold f xs)"

lemma and_then_eq_Inr [result_simps]:
  "and_then m f = Inr y \<longleftrightarrow> (\<exists>x. m = Inr x \<and> f x = Inr y)"
  by (cases m) auto

lemma and_then_eq_Inl [result_simps]:
  "and_then m f = Inl e \<longleftrightarrow> m = Inl e \<or> (\<exists>x. m = Inr x \<and> f x = Inl e)"
  by (cases m) auto

lemma map_err_eq_Inr [result_simps]: "map_err g m = Inr y \<longleftrightarrow> m = Inr y"
  by (cases m) auto

lemma map_err_eq_Inl [result_simps]: "map_err g m = Inl e \<longleftrightarrow> (\<exists>d. m = Inl d \<and> e = g d)"
  by (cases m) auto

lemma ok_or_eq_Inr [result_simps]: "ok_or e x = Inr y \<longleftrightarrow> x = Some y"
  by (cases x) auto

lemma ok_or_eq_Inl [result_simps]: "ok_or e x = Inl d \<longleftrightarrow> x = None \<and> d = e"
  by (cases x) auto

lemma traverse_eq_Inr:
  "traverse f xs = Inr ys \<longleftrightarrow> list_all2 (\<lambda>x y. f x = Inr y) xs ys"
  by (induction xs arbitrary: ys) (auto simp: result_simps list_all2_Cons1)

lemma traverse_eq_map: "traverse f xs = Inr ys \<Longrightarrow> ys = map (projr \<circ> f) xs"
  by (induction xs arbitrary: ys) (auto simp: result_simps)

lemma traverse_mset:
  assumes "traverse f xs = Inr ys" "traverse f xs' = Inr ys'" "mset xs = mset xs'"
  shows "mset ys = mset ys'"
  using traverse_eq_map [OF assms(1)] traverse_eq_map [OF assms(2)] assms(3) by (metis mset_map)

lemma mset_concat_map: "mset xs = mset ys \<Longrightarrow> mset (concat (map g xs)) = mset (concat (map g ys))"
proof -
  have "mset (concat (map g zs)) = \<Sum>\<^sub># (image_mset (\<lambda>z. mset (g z)) (mset zs))" for zs
    by (induction zs) auto
  then show "mset xs = mset ys \<Longrightarrow> mset (concat (map g xs)) = mset (concat (map g ys))" by simp
qed

lemma traverse_length: "traverse f xs = Inr ys \<Longrightarrow> length ys = length xs"
  by (auto simp: traverse_eq_Inr dest: list_all2_lengthD)

lemma traverse_set:
  "traverse f xs = Inr ys \<Longrightarrow> x \<in> set xs \<Longrightarrow> \<exists>y \<in> set ys. f x = Inr y"
  by (auto simp: traverse_eq_Inr list_all2_conv_all_nth in_set_conv_nth)

lemma traverse_set_rev:
  "traverse f xs = Inr ys \<Longrightarrow> y \<in> set ys \<Longrightarrow> \<exists>x \<in> set xs. f x = Inr y"
  by (auto simp: traverse_eq_Inr list_all2_conv_all_nth in_set_conv_nth intro!: bexI [OF _ nth_mem])

lemma traverse_eq_InlD: "traverse f xs = Inl e \<Longrightarrow> \<exists>x \<in> set xs. f x = Inl e"
  by (induction xs) (auto simp: result_simps)

lemma traverse_Inl_iff: "(\<exists>e. traverse f xs = Inl e) \<longleftrightarrow> (\<exists>x \<in> set xs. \<exists>e. f x = Inl e)"
proof (induction xs)
  case (Cons x xs)
  then show ?case by (cases "f x"; cases "traverse f xs") auto
qed simp

lemma traverse_map_Inr: "(\<And>x. x \<in> set xs \<Longrightarrow> f x = Inr (g x)) \<Longrightarrow> traverse f xs = Inr (map g xs)"
  by (induction xs) auto

lemma for_each_eq_Inr [result_simps]: "for_each f xs = Inr u \<longleftrightarrow> (\<forall>x \<in> set xs. f x = Inr ())"
  by (induction xs) (auto simp: result_simps)

lemma for_each_eq_InlD: "for_each f xs = Inl e \<Longrightarrow> \<exists>x \<in> set xs. f x = Inl e"
  by (induction xs) (auto simp: result_simps)

lemma try_fold_append: "try_fold f (xs @ ys) s = and_then (try_fold f xs s) (try_fold f ys)"
proof (induction xs arbitrary: s)
  case (Cons x xs)
  then show ?case by (cases "f x s") auto
qed simp

text \<open>A loop that only ever succeeds by extending the state one guarded element at a time.\<close>

lemma try_fold_guarded:
  assumes "\<And>x s. f x s = (if P x s then Inr (g x s) else Inl (err x s))"
  shows "try_fold f xs s = Inr t \<longleftrightarrow>
    (\<forall>i < length xs. P (xs ! i) (fold g (take i xs) s)) \<and> t = fold g xs s"
proof (induction xs arbitrary: s)
  case (Cons x xs)
  show ?case
    by (auto simp: assms [of x s] Cons.IH result_simps All_less_Suc2 split: if_splits)
qed auto

section \<open>Strings\<close>

subsection \<open>Splitting and joining\<close>

text \<open>\<open>str::split(c)\<close>: always at least one piece.\<close>

fun split_on :: "char \<Rightarrow> string \<Rightarrow> string list" where
  "split_on c [] = [[]]"
| "split_on c (x # xs) =
     (if x = c then [] # split_on c xs
      else (case split_on c xs of [] \<Rightarrow> [[x]] | p # ps \<Rightarrow> (x # p) # ps))"

text \<open>\<open>str::split_once(c)\<close>.\<close>

fun split_once :: "char \<Rightarrow> string \<Rightarrow> (string \<times> string) option" where
  "split_once c [] = None"
| "split_once c (x # xs) =
     (if x = c then Some ([], xs)
      else (case split_once c xs of None \<Rightarrow> None | Some (a, b) \<Rightarrow> Some (x # a, b)))"

text \<open>\<open>str::splitn(n, c)\<close>: at most \<open>n\<close> pieces, the last one unsplit.\<close>

fun splitn :: "nat \<Rightarrow> char \<Rightarrow> string \<Rightarrow> string list" where
  "splitn 0 c s = []"
| "splitn (Suc 0) c s = [s]"
| "splitn (Suc (Suc n)) c s =
     (case split_once c s of None \<Rightarrow> [s] | Some (a, b) \<Rightarrow> a # splitn (Suc n) c b)"

text \<open>\<open>[&str]::join(sep)\<close>.\<close>

fun join :: "string \<Rightarrow> string list \<Rightarrow> string" where
  "join sep [] = []"
| "join sep [p] = p"
| "join sep (p # q # ps) = p @ sep @ join sep (q # ps)"

lemma split_on_not_Nil [simp]: "split_on c s \<noteq> []"
  by (induction s) (auto split: list.splits)

lemma split_on_pieces: "p \<in> set (split_on c s) \<Longrightarrow> c \<notin> set p"
  by (induction s arbitrary: p) (auto split: list.splits if_splits)

lemma split_on_no_sep [str_simps]: "c \<notin> set s \<Longrightarrow> split_on c s = [s]"
  by (induction s) auto

lemma split_on_append_sep [str_simps]:
  "c \<notin> set p \<Longrightarrow> split_on c (p @ c # s) = p # split_on c s"
  by (induction p) auto

lemma join_split_on: "join [c] (split_on c s) = s"
proof (induction s)
  case (Cons x xs)
  then show ?case
    by (cases "split_on c xs"; cases "tl (split_on c xs)") auto
qed simp

lemma join_Cons: "ps \<noteq> [] \<Longrightarrow> join sep (p # ps) = p @ sep @ join sep ps"
  by (cases ps) auto

lemma split_on_join [str_simps]:
  assumes "ps \<noteq> []" "\<And>p. p \<in> set ps \<Longrightarrow> c \<notin> set p"
  shows "split_on c (join [c] ps) = ps"
  using assms
proof (induction ps rule: list_nonempty_induct)
  case (single p)
  then show ?case by (simp add: split_on_no_sep)
next
  case (cons p ps)
  then have "split_on c (p @ c # join [c] ps) = p # split_on c (join [c] ps)"
    by (intro split_on_append_sep) auto
  with cons show ?case by (simp add: join_Cons)
qed

lemma set_join: "set (join sep ps) \<subseteq> set sep \<union> (\<Union>p \<in> set ps. set p)"
  by (induction ps rule: induct_list012) auto

lemma set_join_pieces: "p \<in> set ps \<Longrightarrow> set p \<subseteq> set (join sep ps)"
  by (induction ps rule: induct_list012) auto

lemma count_join:
  "ps \<noteq> [] \<Longrightarrow> Suc (count_list (join [c] ps) c) = length ps + (\<Sum>p \<leftarrow> ps. count_list p c)"
  by (induction ps rule: induct_list012) auto

text \<open>Two joins with the same number of pieces agree piece by piece if one side is separator-free.\<close>

lemma join_eq_pieces:
  assumes "length xs = length us" "join [c] xs = join [c] us" "\<And>u. u \<in> set us \<Longrightarrow> c \<notin> set u"
  shows "xs = us"
proof (cases "us = []")
  case False
  with assms(1) have ne: "xs \<noteq> []" by auto
  have "count_list u c = 0" if "u \<in> set us" for u
    using assms(3) [OF that] by (simp add: count_list_0_iff)
  then have "(\<Sum>u \<leftarrow> us. count_list u c) = 0" by (simp add: sum_list_nonneg_eq_0_iff)
  with count_join [OF False, of c] count_join [OF ne, of c] assms(1,2)
  have "(\<Sum>x \<leftarrow> xs. count_list x c) = 0" by simp
  then have "c \<notin> set x" if "x \<in> set xs" for x
    using that by (simp add: sum_list_nonneg_eq_0_iff count_list_0_iff)
  then have "xs = split_on c (join [c] xs)" using ne by (simp add: split_on_join)
  also have "\<dots> = us" using assms(2,3) False by (simp add: split_on_join)
  finally show ?thesis .
qed (use assms in auto)

lemma split_once_None [str_simps]: "split_once c s = None \<longleftrightarrow> c \<notin> set s"
  by (induction s) (auto split: option.splits)

lemma split_once_Some [str_simps]:
  "split_once c s = Some (a, b) \<longleftrightarrow> s = a @ c # b \<and> c \<notin> set a"
proof (induction s arbitrary: a)
  case (Cons x xs)
  show ?case
  proof (cases a)
    case Nil
    then show ?thesis by (auto split: option.splits)
  next
    case (Cons y ys)
    then show ?thesis using Cons.IH [of ys] by (auto split: option.splits)
  qed
qed simp

lemma split_once_append [simp]: "c \<notin> set a \<Longrightarrow> split_once c (a @ c # b) = Some (a, b)"
  by (simp add: split_once_Some)

lemma split_once_append_left:
  "c \<notin> set a \<Longrightarrow> split_once c (a @ b) = map_option (\<lambda>(x, y). (a @ x, y)) (split_once c b)"
  by (induction a) (auto simp: map_option.identity id_def split: option.splits)

lemma splitn_full_iff:
  "splitn (Suc n) c s = ps \<and> length ps = Suc n \<longleftrightarrow>
     s = join [c] ps \<and> length ps = Suc n \<and> (\<forall>p \<in> set (butlast ps). c \<notin> set p)"
proof (induction n arbitrary: s ps)
  case 0
  then show ?case by (cases ps) auto
next
  case (Suc n)
  show ?case
  proof (cases "length ps = Suc (Suc n)")
    case True
    then obtain p q qs where ps: "ps = p # q # qs" "length qs = n"
      by (metis length_Suc_conv)
    have "splitn (Suc (Suc n)) c s = ps \<longleftrightarrow>
        (\<exists>b. split_once c s = Some (p, b) \<and> splitn (Suc n) c b = q # qs)"
      by (auto simp: ps split: option.splits)
    also have "\<dots> \<longleftrightarrow> (\<exists>b. s = p @ c # b \<and> c \<notin> set p \<and> b = join [c] (q # qs) \<and>
        (\<forall>p \<in> set (butlast (q # qs)). c \<notin> set p))"
      using Suc.IH [of _ "q # qs"] ps(2) by (auto simp: split_once_Some)
    also have "\<dots> \<longleftrightarrow> s = join [c] ps \<and> (\<forall>p \<in> set (butlast ps). c \<notin> set p)"
      by (auto simp: ps)
    finally show ?thesis using True by blast
  qed auto
qed

subsection \<open>Characters, case and white space\<close>

text \<open>Code of a byte, the bridge to the numeric classes of the Rust \<open>u8\<close> and \<open>char\<close> methods.\<close>

abbreviation code :: "char \<Rightarrow> nat" where
  "code \<equiv> (of_char :: char \<Rightarrow> nat)"

definition is_ascii_digit :: "char \<Rightarrow> bool" where
  "is_ascii_digit c \<longleftrightarrow> 48 \<le> code c \<and> code c \<le> 57"

text \<open>The continuation bytes of UTF-8.\<close>

definition is_continuation :: "char \<Rightarrow> bool" where
  "is_continuation c \<longleftrightarrow> 128 \<le> code c \<and> code c < 192"

definition is_ascii_alphanumeric :: "char \<Rightarrow> bool" where
  "is_ascii_alphanumeric c \<longleftrightarrow> is_ascii_digit c \<or> (65 \<le> code c \<and> code c \<le> 90) \<or>
     (97 \<le> code c \<and> code c \<le> 122)"

definition is_ascii_graphic :: "char \<Rightarrow> bool" where
  "is_ascii_graphic c \<longleftrightarrow> 33 \<le> code c \<and> code c \<le> 126"

definition to_ascii_lower :: "char \<Rightarrow> char" where
  "to_ascii_lower c = (if 65 \<le> code c \<and> code c \<le> 90 then char_of (code c + 32) else c)"

definition to_ascii_lowercase :: "string \<Rightarrow> string" where
  "to_ascii_lowercase s = map to_ascii_lower s"

definition eq_ignore_ascii_case :: "string \<Rightarrow> string \<Rightarrow> bool" where
  "eq_ignore_ascii_case s t \<longleftrightarrow> to_ascii_lowercase s = to_ascii_lowercase t"

lemma eq_ignore_ascii_case_refl [simp]: "eq_ignore_ascii_case s s"
  by (simp add: eq_ignore_ascii_case_def)

text \<open>
  The UTF-8 encodings of the code points with the property \<open>White_Space\<close>, which
  \<open>str::trim\<close> removes at both ends.
\<close>

definition white_space :: "string list" where
  "white_space =
     [[CHR 0x09], [CHR 0x0A], [CHR 0x0B], [CHR 0x0C], [CHR 0x0D], [CHR 0x20], [CHR 0xC2, CHR 0x85],
      [CHR 0xC2, CHR 0xA0], [CHR 0xE1, CHR 0x9A, CHR 0x80]] @
     map (\<lambda>b. [CHR 0xE2, CHR 0x80, b])
       [CHR 0x80, CHR 0x81, CHR 0x82, CHR 0x83, CHR 0x84, CHR 0x85, CHR 0x86, CHR 0x87, CHR 0x88,
        CHR 0x89, CHR 0x8A, CHR 0xA8, CHR 0xA9, CHR 0xAF] @
     [[CHR 0xE2, CHR 0x81, CHR 0x9F], [CHR 0xE3, CHR 0x80, CHR 0x80]]"

fun strip_first :: "string list \<Rightarrow> string \<Rightarrow> string option" where
  "strip_first [] s = None"
| "strip_first (w # ws) s =
     (if w \<noteq> [] \<and> take (length w) s = w then Some (drop (length w) s) else strip_first ws s)"

lemma strip_first_shorter: "strip_first ws s = Some t \<Longrightarrow> length t < length s"
proof (induction ws)
  case (Cons w ws)
  show ?case
  proof (cases "w \<noteq> [] \<and> take (length w) s = w")
    case True
    then have "s \<noteq> []" by (cases s) auto
    with True Cons.prems show ?thesis by auto
  next
    case False
    with Cons show ?thesis by auto
  qed
qed simp

function strip_all :: "string list \<Rightarrow> string \<Rightarrow> string" where
  "strip_all ws s = (case strip_first ws s of None \<Rightarrow> s | Some t \<Rightarrow> strip_all ws t)"
  by pat_completeness auto
termination
  by (relation "measure (\<lambda>(ws, s). length s)") (auto dest: strip_first_shorter)

declare strip_all.simps [simp del]

definition trim_start :: "string \<Rightarrow> string" where
  "trim_start s = strip_all white_space s"

definition trim_end :: "string \<Rightarrow> string" where
  "trim_end s = rev (strip_all (map rev white_space) (rev s))"

text \<open>\<open>str::trim\<close>.\<close>

definition trim :: "string \<Rightarrow> string" where
  "trim s = trim_end (trim_start s)"

text \<open>
  \<open>chars().any(char::is_control)\<close>: the code points U+0000 to U+001F and U+007F to U+009F, the
  latter from U+0080 on encoded as \<open>C2 80\<close> to \<open>C2 9F\<close>.
\<close>

fun has_control :: "string \<Rightarrow> bool" where
  "has_control [] = False"
| "has_control [x] = (code x < 32 \<or> code x = 127)"
| "has_control (x # y # s) =
     (code x < 32 \<or> code x = 127 \<or> (code x = 194 \<and> 128 \<le> code y \<and> code y < 160) \<or>
      has_control (y # s))"

lemma strip_all_le: "length (strip_all ws s) \<le> length s"
proof (induction ws s rule: strip_all.induct)
  case (1 ws s)
  then show ?case
    by (subst strip_all.simps) (fastforce split: option.split dest: strip_first_shorter)
qed

lemma strip_all_Nil [simp]: "strip_all ws [] = []"
  using strip_all_le [of ws "[]"] by simp

lemma trim_Nil [simp]: "trim [] = []"
  by (simp add: trim_def trim_start_def trim_end_def)

lemma trim_not_Nil: "trim s \<noteq> [] \<Longrightarrow> s \<noteq> []"
  by auto

text \<open>SQL \<open>TRIM\<close>: blanks only.\<close>

definition sql_trim :: "string \<Rightarrow> string" where
  "sql_trim s = rev (dropWhile ((=) CHR '' '') (rev (dropWhile ((=) CHR '' '') s)))"

lemma sql_trim_eq_Nil: "sql_trim s = [] \<longleftrightarrow> set s \<subseteq> {CHR '' ''}"
proof -
  have "dropWhile ((=) c) t = [] \<longleftrightarrow> set t \<subseteq> {c}" for c :: char and t
    by (induction t) auto
  moreover have "set (dropWhile ((=) c) t) \<subseteq> {c} \<longleftrightarrow> set t \<subseteq> {c}" for c :: char and t
    by (induction t) auto
  ultimately show ?thesis by (simp add: sql_trim_def)
qed

lemma strip_all_blank:
  assumes "[c] \<in> set ws" "set s \<subseteq> {c}"
  shows "strip_all ws s = []"
  using assms(2)
proof (induction s rule: length_induct)
  case (1 s)
  show ?case
  proof (cases s)
    case (Cons d cs)
    have some: "strip_first vs s \<noteq> None" if "[c] \<in> set vs" for vs
      using that "1.prems" Cons by (induction vs) auto
    have sub: "set t \<subseteq> set s" if "strip_first vs s = Some t" for vs t
      using that by (induction vs) (auto split: if_splits dest: in_set_dropD)
    from some [OF assms(1)] obtain t where t: "strip_first ws s = Some t" by auto
    with "1" sub [OF t] strip_first_shorter [OF t] have "strip_all ws t = []" by blast
    with t show ?thesis by (simp add: strip_all.simps [of ws s])
  qed simp
qed

lemma trim_nonblank_sql_trim: "trim s \<noteq> [] \<Longrightarrow> sql_trim s \<noteq> []"
proof
  assume "trim s \<noteq> []" "sql_trim s = []"
  moreover have "[CHR '' ''] \<in> set white_space" by (simp add: white_space_def)
  ultimately have "trim_start s = []" by (simp add: sql_trim_eq_Nil trim_start_def strip_all_blank)
  with \<open>trim s \<noteq> []\<close> show False by (simp add: trim_def trim_end_def)
qed

section \<open>Vectors\<close>

text \<open>\<open>sort\<close> followed by \<open>dedup\<close>.\<close>

definition sort_dedup :: "string list \<Rightarrow> string list" where
  "sort_dedup xs = remdups_adj (sort xs)"

lemma set_sort_dedup [simp]: "set (sort_dedup xs) = set xs"
  by (simp add: sort_dedup_def)

lemma sorted_sort_dedup [simp]: "sorted (sort_dedup xs)"
  by (simp add: sort_dedup_def sorted_remdups_adj)

lemma distinct_remdups_adj_sorted: "sorted xs \<Longrightarrow> distinct (remdups_adj xs)"
proof (induction xs rule: remdups_adj.induct)
  case (3 x y xs)
  then show ?case by (auto simp: dual_order.antisym)
qed auto

lemma distinct_sort_dedup [simp]: "distinct (sort_dedup xs)"
  by (simp add: sort_dedup_def distinct_remdups_adj_sorted)

lemma length_sort_dedup: "length (sort_dedup xs) \<le> length xs"
  by (simp add: sort_dedup_def) (metis length_sort remdups_adj_length)

lemma sort_dedup_cong: "set xs = set ys \<Longrightarrow> sort_dedup xs = sort_dedup ys"
  by (rule sorted_distinct_set_unique) auto

text \<open>
  \<open>iter_mut().find(p)\<close> followed by an assignment: the first element that satisfies the
  predicate is replaced, \<open>None\<close> when there is none.
\<close>

fun replace_first :: "('a \<Rightarrow> bool) \<Rightarrow> 'a \<Rightarrow> 'a list \<Rightarrow> 'a list option" where
  "replace_first p y [] = None"
| "replace_first p y (x # xs) = (if p x then Some (y # xs) else map_option ((#) x) (replace_first p y xs))"

lemma replace_first_None: "replace_first p y xs = None \<longleftrightarrow> (\<forall>x \<in> set xs. \<not> p x)"
  by (induction xs) auto

lemma replace_first_map:
  "replace_first p y xs = Some ys \<Longrightarrow> (\<And>x. x \<in> set xs \<Longrightarrow> p x \<Longrightarrow> f x = f y) \<Longrightarrow> map f ys = map f xs"
  by (induction xs arbitrary: ys) (auto split: if_splits)

lemma replace_first_set:
  "replace_first p y xs = Some ys \<Longrightarrow> y \<in> set ys \<and> set ys \<subseteq> insert y (set xs)"
  by (induction xs arbitrary: ys) (auto split: if_splits)

section \<open>JSON documents\<close>

text \<open>
  \<open>serde_json::Value\<close>. A number is kept as its text; an object is the list of its members.
\<close>

datatype json =
    JNull
  | JBool bool
  | JNumber string
  | JString string
  | JArray "json list"
  | JObject "(string \<times> json) list"

section \<open>Machine integers and durations\<close>

type_synonym u8 = "8 word"
type_synonym u32 = "32 word"
type_synonym u64 = "64 word"

text \<open>\<open>u64::saturating_add\<close>, \<open>checked_add\<close> and \<open>checked_sub\<close>.\<close>

definition saturating_add :: "u64 \<Rightarrow> u64 \<Rightarrow> u64" where
  "saturating_add a b = (if unat a + unat b < 2 ^ 64 then a + b else - 1)"

definition checked_add :: "u64 \<Rightarrow> u64 \<Rightarrow> u64 option" where
  "checked_add a b = (if unat a + unat b < 2 ^ 64 then Some (a + b) else None)"

definition checked_sub :: "u64 \<Rightarrow> u64 \<Rightarrow> u64 option" where
  "checked_sub a b = (if b \<le> a then Some (a - b) else None)"

text \<open>Evaluation compares words instead of their values.\<close>

lemma no_overflow: "unat a + unat b < 2 ^ 64 \<longleftrightarrow> a \<le> a + b" for a b :: u64
  using no_olen_add_nat [of a b] by simp

lemma add_code [code]:
  "saturating_add a b = (if a \<le> a + b then a + b else - 1)"
  "checked_add a b = (if a \<le> a + b then Some (a + b) else None)"
  by (simp_all only: saturating_add_def checked_add_def no_overflow)

lemma unat_saturating_add: "unat (saturating_add a b) = min (unat a + unat b) (2 ^ 64 - 1)"
  by (auto simp: saturating_add_def unat_word_ariths unsigned_minus_1_eq_mask mask_eq_exp_minus_1)

lemma saturating_add_ge: "a \<le> saturating_add a b"
proof -
  have "unat a < 2 ^ LENGTH(64)" by (rule unsigned_less)
  then show ?thesis by (simp add: word_le_nat_alt unat_saturating_add)
qed

lemma checked_add_Some: "checked_add a b = Some c \<Longrightarrow> unat c = unat a + unat b"
  by (auto simp: checked_add_def unat_word_ariths split: if_splits)

lemma checked_sub_Some: "checked_sub a b = Some c \<Longrightarrow> unat c = unat a - unat b \<and> b \<le> a"
  by (auto simp: checked_sub_def unat_sub split: if_splits)

text \<open>\<open>std::time::Duration\<close>: whole seconds and the nanoseconds below one second.\<close>

record duration =
  as_secs :: u64
  subsec_nanos :: nat

definition duration_min :: "duration \<Rightarrow> duration \<Rightarrow> duration" where
  "duration_min d e =
     (if as_secs e < as_secs d \<or> (as_secs e = as_secs d \<and> subsec_nanos e < subsec_nanos d)
      then e else d)"

definition from_secs :: "u64 \<Rightarrow> duration" where
  "from_secs n = \<lparr>as_secs = n, subsec_nanos = 0\<rparr>"

lemma as_secs_duration_min: "as_secs (duration_min d e) = min (as_secs d) (as_secs e)"
  by (auto simp: duration_min_def min_def)

lemma as_secs_from_secs [simp]: "as_secs (from_secs n) = n"
  by (simp add: from_secs_def)

section \<open>The interface of a textual format\<close>

text \<open>
  A printer and a parser that agree: the parser accepts exactly the printed forms of the
  well-formed values. Clients that send values as text and read them back on the other side rely
  on this interface only.
\<close>

locale codec =
  fixes print_text :: "'a \<Rightarrow> string"
    and parse_text :: "string \<Rightarrow> ('e, 'a) result"
    and wf_value :: "'a \<Rightarrow> bool"
  assumes parse_iff: "parse_text s = Inr x \<longleftrightarrow> wf_value x \<and> s = print_text x"
begin

lemma parse_print: "wf_value x \<Longrightarrow> parse_text (print_text x) = Inr x"
  by (simp add: parse_iff)

lemma print_inject: "wf_value x \<Longrightarrow> wf_value y \<Longrightarrow> print_text x = print_text y \<longleftrightarrow> x = y"
  by (metis parse_print sum.inject(2))

lemma parse_total: "(\<exists>x. parse_text s = Inr x) \<longleftrightarrow> s \<in> print_text ` Collect wf_value"
  by (auto simp: parse_iff)

lemma traverse_print:
  "(\<And>x. x \<in> set xs \<Longrightarrow> wf_value x) \<Longrightarrow> traverse parse_text (map print_text xs) = Inr xs"
  by (induction xs) (auto simp: parse_print)

lemma traverse_parse_iff:
  "traverse parse_text ss = Inr xs \<longleftrightarrow> (\<forall>x \<in> set xs. wf_value x) \<and> ss = map print_text xs"
  by (induction ss arbitrary: xs) (auto simp: result_simps parse_iff Cons_eq_map_conv)

end

end
