(* ===== verification/Identity.thy ===== *)
theory Identity
  imports Prelude
begin

text \<open>
  The authenticated identity that the decision point accepts (\<open>common/src/model/identity.rs\<close>,
  \<open>common/src/model/principal.rs\<close> and \<open>validate_canonical\<close> of \<open>common/src/utils/mod.rs\<close>): transport of
  the token in the request headers, extraction of the canonical claims from a verified token, and
  the external identity keys. Base64 decoding and JSON parsing belong to the crates \<open>base64\<close> and
  \<open>serde_json\<close> and are the parameter \<open>token_lib\<close>. Shown here: an accepted identity is canonical
  and bounded, its group list is sorted without repetitions, no boundary claim of the token
  reaches the policy conditions, and the \<open>mfa\<close> attribute is derived from \<open>amr\<close> only.
\<close>

section \<open>Principals\<close>

datatype principal_kind = User | Workload | Group

datatype principal_status = Active | Disabled

record iam_principal_info =
  pi_id :: string
  pi_kind :: principal_kind
  pi_display_name :: string
  pi_status :: principal_status
  pi_authorization_state :: "(string \<times> json) list"

record iam_principal_identity_info =
  ii_principal_id :: string
  ii_provider :: string
  ii_issuer :: string
  ii_subject :: string
  ii_claims :: json

record principal_model_error =
  pe_field :: string
  pe_value :: string

fun kind_as_str :: "principal_kind \<Rightarrow> string" where
  "kind_as_str User = ''USER''"
| "kind_as_str Workload = ''WORKLOAD''"
| "kind_as_str Group = ''GROUP''"

fun status_as_str :: "principal_status \<Rightarrow> string" where
  "status_as_str Active = ''ACTIVE''"
| "status_as_str Disabled = ''DISABLED''"

definition kind_try_from :: "string \<Rightarrow> (principal_model_error, principal_kind) result" where
  "kind_try_from s =
     (if s = ''USER'' then Inr User else if s = ''WORKLOAD'' then Inr Workload
      else if s = ''GROUP'' then Inr Group else Inl \<lparr>pe_field = ''kind'', pe_value = s\<rparr>)"

definition status_try_from :: "string \<Rightarrow> (principal_model_error, principal_status) result" where
  "status_try_from s =
     (if s = ''ACTIVE'' then Inr Active else if s = ''DISABLED'' then Inr Disabled
      else Inl \<lparr>pe_field = ''status'', pe_value = s\<rparr>)"

section \<open>Canonical values\<close>

definition validate_canonical :: "string \<Rightarrow> string \<Rightarrow> (string, unit) result" where
  "validate_canonical v field =
     (if v = [] \<or> trim v \<noteq> v \<or> length v > 512 \<or> has_control v then Inl field else Inr ())"

definition canonical_id :: "string \<Rightarrow> bool" where
  "canonical_id v \<longleftrightarrow> v \<noteq> [] \<and> trim v = v \<and> length v \<le> 512 \<and> \<not> has_control v"

lemma validate_canonical_Inr [result_simps]: "validate_canonical v field = Inr u \<longleftrightarrow> canonical_id v"
  by (auto simp: validate_canonical_def canonical_id_def)

lemma validate_canonical_ok: "canonical_id v \<Longrightarrow> validate_canonical v field = Inr ()"
  by (simp add: result_simps)

section \<open>Request headers\<close>

text \<open>
  \<open>HeaderMap::get\<close> followed by \<open>to_str().ok()\<close>: names are compared without case, only the first
  value counts, and a value with a byte outside the visible range does not convert.
\<close>

type_synonym headers = "(string \<times> string) list"

definition visible_ascii :: "char \<Rightarrow> bool" where
  "visible_ascii c \<longleftrightarrow> code c = 9 \<or> (32 \<le> code c \<and> code c < 127)"

definition header_get :: "headers \<Rightarrow> string \<Rightarrow> string option" where
  "header_get hs name =
     Option.bind (map_of (map (\<lambda>(n, v). (to_ascii_lowercase n, v)) hs) (to_ascii_lowercase name))
       (\<lambda>v. if list_all visible_ascii v then Some v else None)"

definition bearer_value :: "string \<Rightarrow> string option" where
  "bearer_value authorization =
     Option.bind (split_once CHR '' '' authorization) (\<lambda>(scheme, token).
       if eq_ignore_ascii_case scheme ''bearer'' \<and> trim token \<noteq> [] then Some (trim token) else None)"

fun find_cookie :: "string \<Rightarrow> string list \<Rightarrow> string option" where
  "find_cookie name [] = None"
| "find_cookie name (cookie # rest) =
     (case split_once CHR ''='' (trim cookie) of
        None \<Rightarrow> find_cookie name rest
      | Some (key, v) \<Rightarrow> if key = name \<and> v \<noteq> [] then Some v else find_cookie name rest)"

definition cookie_value :: "headers \<Rightarrow> string \<Rightarrow> string option" where
  "cookie_value hs name =
     Option.bind (header_get hs ''cookie'') (\<lambda>cookies. find_cookie name (split_on CHR '';'' cookies))"

definition gateway_token :: "headers \<Rightarrow> string \<Rightarrow> string option" where
  "gateway_token hs token_header =
     (let is_authorization = eq_ignore_ascii_case token_header ''authorization'';
          configured = Option.bind (header_get hs token_header) (\<lambda>v.
            if v = [] then None
            else if is_authorization then bearer_value v
            else Some v)
      in case configured of
           Some v \<Rightarrow> Some v
         | None \<Rightarrow> if is_authorization then cookie_value hs ''authguard_token'' else None)"

section \<open>Claims\<close>

datatype identity_error =
    Missing
  | NotJwt
  | InvalidBase64
  | InvalidJson
  | MissingPrincipalId
  | InvalidPrincipalKind
  | InvalidGroups
  | TooLarge

record authenticated_principal_context =
  ap_principal_id :: string
  ap_kind :: principal_kind
  ap_stable_group_ids :: "string list"
  ap_trusted_claims :: "string \<rightharpoonup> string"
  ap_acr :: "string option"
  ap_amr :: "string list"

text \<open>\<open>URL_SAFE_NO_PAD.decode\<close>, \<open>URL_SAFE.decode\<close> and \<open>serde_json::from_slice\<close>.\<close>

record token_lib =
  url_safe_no_pad_decode :: "string \<Rightarrow> string option"
  url_safe_decode :: "string \<Rightarrow> string option"
  json_from_slice :: "string \<Rightarrow> json option"

fun json_as_str :: "json \<Rightarrow> string option" where
  "json_as_str (JString s) = Some s"
| "json_as_str _ = None"

fun json_as_object :: "json \<Rightarrow> (string \<times> json) list option" where
  "json_as_object (JObject ms) = Some ms"
| "json_as_object _ = None"

definition parse_principal_kind :: "string \<Rightarrow> principal_kind option" where
  "parse_principal_kind s =
     (if s = ''USER'' then Some User else if s = ''WORKLOAD'' then Some Workload
      else if s = ''GROUP'' then Some Group else None)"

definition group_values :: "json option \<Rightarrow> (identity_error, string list) result" where
  "group_values v =
     (case v of
        None \<Rightarrow> Inr []
      | Some JNull \<Rightarrow> Inr []
      | Some (JString s) \<Rightarrow> Inr [s]
      | Some (JArray vs) \<Rightarrow> ok_or InvalidGroups (those (map json_as_str vs))
      | Some _ \<Rightarrow> Inl InvalidGroups)"

text \<open>
  The limits and the validation of \<open>read_groups\<close>. A missing or null claim returns early with the
  empty list, on which the remaining steps are the identity.
\<close>

definition read_groups :: "json option \<Rightarrow> (identity_error, string list) result" where
  "read_groups v =
     and_then (group_values v) (\<lambda>vals.
       if length vals > 128 \<or> int (sum_list (map length vals)) > 16 * 1024 then Inl TooLarge
       else and_then (traverse (\<lambda>g.
              and_then (map_err (\<lambda>_. InvalidGroups) (validate_canonical g ''group_id'')) (\<lambda>_. Inr g)) vals)
            (\<lambda>result. Inr (sort_dedup result)))"

definition read_string_array :: "json option \<Rightarrow> (identity_error, string list) result" where
  "read_string_array v =
     (case v of
        None \<Rightarrow> Inr []
      | Some JNull \<Rightarrow> Inr []
      | Some (JArray vs) \<Rightarrow> traverse (\<lambda>x. ok_or InvalidJson (json_as_str x)) vs
      | Some _ \<Rightarrow> Inl InvalidJson)"

definition bool_to_string :: "bool \<Rightarrow> string" where
  "bool_to_string b = (if b then ''true'' else ''false'')"

fun scalar_claim :: "json \<Rightarrow> string option" where
  "scalar_claim (JString s) = Some s"
| "scalar_claim (JBool b) = Some (bool_to_string b)"
| "scalar_claim (JNumber n) = Some n"
| "scalar_claim _ = None"

definition is_boundary_claim :: "string \<Rightarrow> bool" where
  "is_boundary_claim name \<longleftrightarrow> name \<in>
     {''iss'', ''sub'', ''aud'', ''iat'', ''exp'', ''nbf'', ''jti'', ''provider'', ''access_token'',
      ''refresh_token'', ''authorization_code'', ''principal_id'', ''principal_kind'',
      ''authguard_group_ids'', ''acr'', ''amr'', ''authguardOrigin''}"

text \<open>The scalar, non-boundary members of the token.\<close>

definition scalar_claims :: "(string \<times> json) list \<Rightarrow> (string \<times> string) list" where
  "scalar_claims object =
     List.map_filter (\<lambda>(name, v). if is_boundary_claim name then None else map_option (Pair name) (scalar_claim v)) object"

definition from_verified_jwt_with_claims ::
  "token_lib \<Rightarrow> string \<Rightarrow> string \<Rightarrow> string \<Rightarrow> string \<Rightarrow> (identity_error, authenticated_principal_context) result" where
  "from_verified_jwt_with_claims lib token principal_id_claim kind_claim groups_claim =
     (case split_on CHR ''.'' token of
        [header, body, signature] \<Rightarrow>
          if body = [] then Inl NotJwt
          else
            and_then (ok_or InvalidBase64 (case url_safe_no_pad_decode lib body of
                Some p \<Rightarrow> Some p | None \<Rightarrow> url_safe_decode lib body)) (\<lambda>payload.
            and_then (ok_or InvalidJson (json_from_slice lib payload)) (\<lambda>v.
            and_then (ok_or InvalidJson (json_as_object v)) (\<lambda>object.
            and_then (ok_or MissingPrincipalId (Option.bind (map_of object principal_id_claim) json_as_str)) (\<lambda>principal_id.
            and_then (map_err (\<lambda>_. MissingPrincipalId) (validate_canonical principal_id ''principal_id'')) (\<lambda>_.
            and_then (ok_or InvalidPrincipalKind (Option.bind (Option.bind (map_of object kind_claim) json_as_str)
                parse_principal_kind)) (\<lambda>kind.
            and_then (read_groups (map_of object groups_claim)) (\<lambda>stable_group_ids.
            if int (sum_list (map (\<lambda>(n, v). length n + length v) (scalar_claims object))) > 64 * 1024 then Inl TooLarge
            else
            and_then (read_string_array (map_of object ''amr'')) (\<lambda>amr.
              Inr \<lparr>ap_principal_id = principal_id, ap_kind = kind, ap_stable_group_ids = stable_group_ids,
                   ap_trusted_claims = (map_of (rev (scalar_claims object)))
                     (''mfa'' \<mapsto> bool_to_string (list_ex (\<lambda>m. m = ''mfa'') amr)),
                   ap_acr = Option.bind (map_of object ''acr'') json_as_str, ap_amr = amr\<rparr>))))))))
      | _ \<Rightarrow> Inl NotJwt)"

definition from_verified_jwt :: "token_lib \<Rightarrow> string \<Rightarrow> (identity_error, authenticated_principal_context) result" where
  "from_verified_jwt lib token =
     from_verified_jwt_with_claims lib token ''principal_id'' ''principal_kind'' ''authguard_group_ids''"

definition from_gateway_headers ::
  "token_lib \<Rightarrow> headers \<Rightarrow> string \<Rightarrow> string \<Rightarrow> string \<Rightarrow> string \<Rightarrow>
   (identity_error, authenticated_principal_context) result" where
  "from_gateway_headers lib hs token_header principal_id_claim kind_claim groups_claim =
     and_then (ok_or Missing (gateway_token hs token_header)) (\<lambda>token.
       from_verified_jwt_with_claims lib token principal_id_claim kind_claim groups_claim)"

section \<open>External identities\<close>

record external_identity =
  ei_provider :: string
  ei_issuer :: string
  ei_subject :: string
  ei_claims :: "(string \<times> json) list"

record external_identity_key =
  ek_provider :: string
  ek_issuer :: string
  ek_subject :: string

datatype identity_model_error = InvalidIdentityComponent string

record authentication_result =
  res_external_identity :: external_identity
  res_amr :: "string list"
  res_acr :: "string option"
  res_authenticated_at :: int

fun push_methods :: "string list \<Rightarrow> string list \<Rightarrow> string list" where
  "push_methods amr [] = amr"
| "push_methods amr (m # ms) = push_methods (if m \<in> set amr then amr else amr @ [m]) ms"

definition authentication_result_new ::
  "external_identity \<Rightarrow> string list \<Rightarrow> string option \<Rightarrow> int \<Rightarrow> authentication_result" where
  "authentication_result_new identity methods acr at =
     \<lparr>res_external_identity = identity, res_amr = push_methods [] methods, res_acr = acr, res_authenticated_at = at\<rparr>"

definition external_identity_key_new ::
  "string \<Rightarrow> string \<Rightarrow> string \<Rightarrow> (identity_model_error, external_identity_key) result" where
  "external_identity_key_new provider issuer subject =
     and_then (for_each (\<lambda>(name, v). map_err (\<lambda>_. InvalidIdentityComponent name) (validate_canonical v name))
         [(''provider'', provider), (''issuer'', issuer), (''subject'', subject)]) (\<lambda>_.
       Inr \<lparr>ek_provider = provider, ek_issuer = issuer, ek_subject = subject\<rparr>)"

definition external_identity_key_of :: "external_identity \<Rightarrow> (identity_model_error, external_identity_key) result" where
  "external_identity_key_of i = external_identity_key_new (ei_provider i) (ei_issuer i) (ei_subject i)"

section \<open>Lemmas\<close>

lemma kind_try_from_Inr: "kind_try_from s = Inr k \<longleftrightarrow> s = kind_as_str k"
  by (cases k) (auto simp: kind_try_from_def)

lemma status_try_from_Inr: "status_try_from s = Inr k \<longleftrightarrow> s = status_as_str k"
  by (cases k) (auto simp: status_try_from_def)

lemma push_methods_distinct: "distinct amr \<Longrightarrow> distinct (push_methods amr ms)"
  by (induction ms arbitrary: amr) auto

lemma push_methods_set: "set (push_methods amr ms) = set amr \<union> set ms"
  by (induction ms arbitrary: amr) auto

lemma external_identity_key_new_Inr:
  "external_identity_key_new p i s = Inr k \<longleftrightarrow>
     canonical_id p \<and> canonical_id i \<and> canonical_id s \<and> k = \<lparr>ek_provider = p, ek_issuer = i, ek_subject = s\<rparr>"
  by (auto simp: external_identity_key_new_def result_simps)

lemma read_groups_Inr:
  assumes "read_groups v = Inr gs"
  shows "sorted gs \<and> distinct gs \<and> length gs \<le> 128 \<and> list_all canonical_id gs"
proof -
  from assms obtain vals where vals: "length vals \<le> 128" "\<forall>g \<in> set vals. canonical_id g" "gs = sort_dedup vals"
  proof -
    from assms obtain vals result where r: "length vals \<le> 128" "gs = sort_dedup result"
      "traverse (\<lambda>g. and_then (map_err (\<lambda>_. InvalidGroups) (validate_canonical g ''group_id'')) (\<lambda>_. Inr g)) vals = Inr result"
      by (auto simp: read_groups_def result_simps not_less split: if_splits)
    from r(3) have "list_all2 (\<lambda>g h. canonical_id g \<and> g = h) vals result"
      by (simp add: traverse_eq_Inr result_simps)
    then have "result = vals \<and> (\<forall>g \<in> set vals. canonical_id g)"
      by (induction rule: list_all2_induct) auto
    with r that show ?thesis by blast
  qed
  then show ?thesis using length_sort_dedup [of vals] by (simp add: list_all_iff)
qed

lemma set_scalar_claims:
  "(n, s) \<in> set (scalar_claims object) \<longleftrightarrow> \<not> is_boundary_claim n \<and> (\<exists>v. (n, v) \<in> set object \<and> scalar_claim v = Some s)"
  by (force simp: scalar_claims_def map_filter_def split: if_splits)

lemma from_verified_jwt_Inr:
  assumes "from_verified_jwt_with_claims lib token pc kc gc = Inr ctx"
  obtains object where "canonical_id (ap_principal_id ctx)"
    "Option.bind (map_of object pc) json_as_str = Some (ap_principal_id ctx)"
    "read_groups (map_of object gc) = Inr (ap_stable_group_ids ctx)"
    "ap_trusted_claims ctx = (map_of (rev (scalar_claims object)))(''mfa'' \<mapsto> bool_to_string (''mfa'' \<in> set (ap_amr ctx)))"
  using assms
  by (auto simp: from_verified_jwt_with_claims_def result_simps list_ex_iff split: list.splits if_splits)

section \<open>An example token\<close>

definition sample_token_lib :: token_lib where
  "sample_token_lib = \<lparr>url_safe_no_pad_decode = (\<lambda>s. Some s), url_safe_decode = (\<lambda>s. None),
     json_from_slice = (\<lambda>s. if s = ''body'' then Some (JObject [(''amr'', JArray [JString ''pwd'', JString ''mfa'']),
       (''authguard_group_ids'', JArray [JString ''G2'', JString ''G1'', JString ''G1'']), (''principal_id'', JString ''P1''),
       (''principal_kind'', JString ''USER''), (''sub'', JString ''987''), (''tenant'', JString ''acme'')]) else None)\<rparr>"

definition sample_identity :: authenticated_principal_context where
  "sample_identity = \<lparr>ap_principal_id = ''P1'', ap_kind = User, ap_stable_group_ids = [''G1'', ''G2''],
     ap_trusted_claims = [''tenant'' \<mapsto> ''acme'', ''mfa'' \<mapsto> ''true''], ap_acr = None, ap_amr = [''pwd'', ''mfa'']\<rparr>"

lemma canonical_samples: "canonical_id ''P1''" "canonical_id ''G1''" "canonical_id ''G2''"
  by code_simp+

lemma sort_dedup_sample: "sort_dedup [''G2'', ''G1'', ''G1''] = [''G1'', ''G2'']"
  by code_simp

lemma sample_read_groups:
  "read_groups (Some (JArray [JString ''G2'', JString ''G1'', JString ''G1''])) = Inr [''G1'', ''G2'']"
  by (simp add: read_groups_def group_values_def validate_canonical_ok canonical_samples sort_dedup_sample)

lemma sample_jwt: "from_verified_jwt sample_token_lib ''head.body.sign'' = Inr sample_identity"
proof -
  have "split_on CHR ''.'' ''head.body.sign'' = [''head'', ''body'', ''sign'']" by simp
  then show ?thesis
    by (simp add: from_verified_jwt_def from_verified_jwt_with_claims_def sample_token_lib_def sample_read_groups
      validate_canonical_ok canonical_samples parse_principal_kind_def scalar_claims_def map_filter_simps
      is_boundary_claim_def read_string_array_def sample_identity_def bool_to_string_def)
qed

lemma sample_gateway:
  "from_gateway_headers sample_token_lib [(''Authorization'', ''Bearer head.body.sign'')] ''authorization''
     ''principal_id'' ''principal_kind'' ''authguard_group_ids'' = Inr sample_identity"
proof -
  have "gateway_token [(''Authorization'', ''Bearer head.body.sign'')] ''authorization'' = Some ''head.body.sign''"
    by code_simp
  with sample_jwt show ?thesis by (simp add: from_gateway_headers_def from_verified_jwt_def)
qed

section \<open>Properties\<close>

text \<open>
  An identity taken from the gateway headers is canonical and bounded: the principal
  identifier and every group identifier have 1 to 512 bytes without padding or control
  characters, and there are at most 128 groups, sorted and without repetitions.
\<close>

theorem gateway_identity_canonical:
  assumes "from_gateway_headers lib hs token_header principal_id_claim kind_claim groups_claim = Inr ctx"
  shows "canonical_id (ap_principal_id ctx) \<and> list_all canonical_id (ap_stable_group_ids ctx) \<and>
    length (ap_stable_group_ids ctx) \<le> 128 \<and> sorted (ap_stable_group_ids ctx) \<and> distinct (ap_stable_group_ids ctx)"
proof -
  from assms obtain token where
    "from_verified_jwt_with_claims lib token principal_id_claim kind_claim groups_claim = Inr ctx"
    by (auto simp: from_gateway_headers_def result_simps)
  then show ?thesis by (rule from_verified_jwt_Inr) (auto dest: read_groups_Inr)
qed

theorem gateway_identity_canonical_witness:
  "canonical_id ''P1'' \<and> list_all canonical_id [''G1'', ''G2'']"
  using gateway_identity_canonical [OF sample_gateway] by (simp add: sample_identity_def)

text \<open>
  The attributes that policy conditions see are safe: no boundary claim of the token is
  among them, and the attribute \<open>mfa\<close> says whether \<open>amr\<close> lists \<open>mfa\<close>, whatever the token itself
  claims under that name.
\<close>

theorem trusted_claims_are_safe:
  assumes "from_verified_jwt_with_claims lib token principal_id_claim kind_claim groups_claim = Inr ctx"
  shows "ap_trusted_claims ctx ''mfa'' = Some (bool_to_string (''mfa'' \<in> set (ap_amr ctx))) \<and>
    (is_boundary_claim name \<longrightarrow> ap_trusted_claims ctx name = None)"
proof -
  from assms obtain object where obj: "ap_trusted_claims ctx =
      (map_of (rev (scalar_claims object)))(''mfa'' \<mapsto> bool_to_string (''mfa'' \<in> set (ap_amr ctx)))"
    by (rule from_verified_jwt_Inr)
  have "map_of (rev (scalar_claims object)) name = None" if "is_boundary_claim name"
    using that set_scalar_claims [of name _ object] by (force simp: map_of_eq_None_iff)
  moreover have "is_boundary_claim name \<Longrightarrow> name \<noteq> ''mfa''" by (auto simp: is_boundary_claim_def)
  ultimately show ?thesis by (simp add: obj)
qed

theorem trusted_claims_are_safe_witness:
  "ap_trusted_claims sample_identity ''mfa'' = Some ''true'' \<and> ap_trusted_claims sample_identity ''sub'' = None"
  using trusted_claims_are_safe [OF sample_jwt [unfolded from_verified_jwt_def], of "''sub''"]
  by (simp add: sample_identity_def is_boundary_claim_def bool_to_string_def)

end
