(* ===== verification/Access_Context.thy ===== *)
theory Access_Context
  imports Prelude
begin

text \<open>
  Signed access contexts (module \<open>access\<close> of \<open>common/src/utils/context.rs\<close>) and the compact JWT
  primitive (\<open>common/src/utils/jwt.rs\<close>). A context carries the principal, the action and the resource
  scope of one allowed request for a bounded time; the direct delivery header is the encoded context
  with an HMAC. The codecs, the MAC and the RSA scheme are parameters; the locales \<open>context_codec\<close>
  and \<open>rsa_scheme\<close> hold what their documentation promises. The lemmas show that verification accepts
  exactly the strings that signing with the same key produces, and when a context is valid.
\<close>

section \<open>Data\<close>

record access_context_input =
  ci_principal_id :: string
  ci_action :: string
  ci_resource_urn :: string
  ci_allow_resource_urns :: "string list"
  ci_deny_resource_urns :: "string list"
  ci_policy_revision :: u64

record access_context =
  ac_version :: u8
  ac_principal_id :: string
  ac_action :: string
  ac_resource_urn :: string
  ac_allow_resource_urns :: "string list"
  ac_deny_resource_urns :: "string list"
  ac_policy_revision :: u64
  ac_issued_at_epoch_seconds :: u64
  ac_expires_at_epoch_seconds :: u64

abbreviation access_context_header :: string where
  "access_context_header \<equiv> ''x-authguard-context''"

abbreviation scope_token_header :: string where
  "scope_token_header \<equiv> ''x-authguard-scope-token''"

datatype access_context_error =
    ContextBase64
  | ContextJson
  | UnsupportedVersion u8
  | Expired
  | IssuedInFuture
  | InvalidLifetime
  | InvalidSigningKey
  | InvalidSignedFormat
  | InvalidSignature

record access_context_signer =
  sg_key :: string

text \<open>
  The crates behind the module: base64url without padding, \<open>serde_json\<close> on contexts, and the HMAC of a
  key and a message (\<open>None\<close> when the key is refused).
\<close>

record access_lib =
  b64_encode :: "string \<Rightarrow> string"
  b64_decode :: "string \<Rightarrow> string option"
  context_to_vec :: "access_context \<Rightarrow> string option"
  context_from_slice :: "string \<Rightarrow> access_context option"
  hmac_sha256 :: "string \<Rightarrow> string \<Rightarrow> string option"

section \<open>Operations\<close>

definition signer_new :: "string \<Rightarrow> (access_context_error, access_context_signer) result" where
  "signer_new key = (if length key < 32 then Inl InvalidSigningKey else Inr \<lparr>sg_key = key\<rparr>)"

text \<open>\<open>from_env\<close>, with the value of the secret variable, if it is set.\<close>

definition signer_from_env :: "string option \<Rightarrow> (access_context_error, access_context_signer) result" where
  "signer_from_env secret = and_then (ok_or InvalidSigningKey secret) signer_new"

definition sign_encoded ::
  "access_lib \<Rightarrow> access_context_signer \<Rightarrow> string \<Rightarrow> (access_context_error, string) result" where
  "sign_encoded lib s encoded =
     (let signing_input = ''agctx1'' @ ''.'' @ encoded in
      and_then (ok_or InvalidSigningKey (hmac_sha256 lib (sg_key s) signing_input)) (\<lambda>mac.
        Inr (signing_input @ ''.'' @ b64_encode lib mac)))"

definition context_verify ::
  "access_lib \<Rightarrow> access_context_signer \<Rightarrow> string \<Rightarrow> (access_context_error, string) result" where
  "context_verify lib s token =
     (case split_on CHR ''.'' token of
        [scheme, payload, signature] \<Rightarrow>
          if scheme \<noteq> ''agctx1'' \<or> payload = [] \<or> signature = [] then Inl InvalidSignedFormat
          else and_then (ok_or InvalidSignedFormat (b64_decode lib signature)) (\<lambda>bytes.
               and_then (ok_or InvalidSigningKey (hmac_sha256 lib (sg_key s) (''agctx1'' @ ''.'' @ payload))) (\<lambda>mac.
                 if mac = bytes then Inr payload else Inl InvalidSignature))
      | _ \<Rightarrow> Inl InvalidSignedFormat)"

definition context_new :: "access_context_input \<Rightarrow> u64 \<Rightarrow> duration \<Rightarrow> access_context" where
  "context_new i issued ttl =
     \<lparr>ac_version = 3, ac_principal_id = ci_principal_id i, ac_action = ci_action i,
      ac_resource_urn = ci_resource_urn i, ac_allow_resource_urns = ci_allow_resource_urns i,
      ac_deny_resource_urns = ci_deny_resource_urns i, ac_policy_revision = ci_policy_revision i,
      ac_issued_at_epoch_seconds = issued,
      ac_expires_at_epoch_seconds = saturating_add issued (as_secs ttl)\<rparr>"

definition context_encode :: "access_lib \<Rightarrow> access_context \<Rightarrow> string option" where
  "context_encode lib c = map_option (b64_encode lib) (context_to_vec lib c)"

definition context_validate :: "access_context \<Rightarrow> u64 \<Rightarrow> (access_context_error, unit) result" where
  "context_validate c now =
     (if ac_version c \<noteq> 3 then Inl (UnsupportedVersion (ac_version c))
      else if ac_expires_at_epoch_seconds c \<le> ac_issued_at_epoch_seconds c then Inl InvalidLifetime
      else if ac_issued_at_epoch_seconds c > saturating_add now 30 then Inl IssuedInFuture
      else if ac_expires_at_epoch_seconds c \<le> now then Inl Expired
      else Inr ())"

definition context_decode ::
  "access_lib \<Rightarrow> u64 \<Rightarrow> string \<Rightarrow> (access_context_error, access_context) result" where
  "context_decode lib now encoded =
     and_then (ok_or ContextBase64 (b64_decode lib encoded)) (\<lambda>js.
     and_then (ok_or ContextJson (context_from_slice lib js)) (\<lambda>c.
     and_then (context_validate c now) (\<lambda>_. Inr c)))"

section \<open>Compact JWTs\<close>

datatype jwt_error = JwtInvalidSigningKey | InvalidTokenFormat | JwtInvalidSignature

text \<open>
  The crate \<open>rsa\<close>, over the types of private and public keys: PEM codecs, key size and validity,
  PKCS#1 v1.5 signatures and their verification, and the conversion of bytes to a signature.
\<close>

record ('k, 'p) rsa_lib =
  from_pkcs8_pem :: "string \<Rightarrow> 'k option"
  key_bits :: "'k \<Rightarrow> nat"
  key_validates :: "'k \<Rightarrow> bool"
  rsa_public :: "'k \<Rightarrow> 'p"
  to_pkcs1_pem :: "'p \<Rightarrow> string option"
  from_pkcs1_pem :: "string \<Rightarrow> 'p option"
  modulus_bytes :: "'p \<Rightarrow> string"
  exponent_bytes :: "'p \<Rightarrow> string"
  rsa_sign :: "'k \<Rightarrow> string \<Rightarrow> string"
  signature_try_from :: "string \<Rightarrow> string option"
  rsa_verify :: "'p \<Rightarrow> string \<Rightarrow> string \<Rightarrow> bool"
  jwt_b64_encode :: "string \<Rightarrow> string"
  jwt_b64_decode :: "string \<Rightarrow> string option"

definition jwt_header :: string where
  "jwt_header = ''eyJhbGciOiJSUzI1NiIsInR5cCI6IkpXVCJ9''"

definition load_signing_key :: "('k, 'p) rsa_lib \<Rightarrow> string \<Rightarrow> (jwt_error, 'k) result" where
  "load_signing_key lib pem =
     and_then (ok_or JwtInvalidSigningKey (from_pkcs8_pem lib pem)) (\<lambda>key.
       if key_bits lib key < 2048 then Inl JwtInvalidSigningKey
       else if \<not> key_validates lib key then Inl JwtInvalidSigningKey
       else Inr key)"

definition public_key_pem :: "('k, 'p) rsa_lib \<Rightarrow> 'k \<Rightarrow> (jwt_error, string) result" where
  "public_key_pem lib key = ok_or JwtInvalidSigningKey (to_pkcs1_pem lib (rsa_public lib key))"

definition public_key_jwk_components :: "('k, 'p) rsa_lib \<Rightarrow> 'k \<Rightarrow> string \<times> string" where
  "public_key_jwk_components lib key =
     (modulus_bytes lib (rsa_public lib key), exponent_bytes lib (rsa_public lib key))"

definition jwt_sign :: "('k, 'p) rsa_lib \<Rightarrow> 'k \<Rightarrow> string \<Rightarrow> (jwt_error, string) result" where
  "jwt_sign lib key payload_bytes =
     (let signing_input = jwt_header @ ''.'' @ jwt_b64_encode lib payload_bytes
      in Inr (signing_input @ ''.'' @ jwt_b64_encode lib (rsa_sign lib key signing_input)))"

definition jwt_verify :: "('k, 'p) rsa_lib \<Rightarrow> string \<Rightarrow> string \<Rightarrow> (jwt_error, string) result" where
  "jwt_verify lib pem token =
     and_then (ok_or JwtInvalidSigningKey (from_pkcs1_pem lib pem)) (\<lambda>public.
       case split_on CHR ''.'' token of
         [header, payload, signature] \<Rightarrow>
           if header \<noteq> jwt_header \<or> payload = [] \<or> signature = [] then Inl InvalidTokenFormat
           else and_then (ok_or InvalidTokenFormat (jwt_b64_decode lib signature)) (\<lambda>bytes.
                and_then (ok_or InvalidTokenFormat (signature_try_from lib bytes)) (\<lambda>sig.
                  if \<not> rsa_verify lib public (jwt_header @ ''.'' @ payload) sig then Inl JwtInvalidSignature
                  else ok_or InvalidTokenFormat (jwt_b64_decode lib payload)))
       | _ \<Rightarrow> Inl InvalidTokenFormat)"

section \<open>Interfaces\<close>

text \<open>
  Base64url without padding decodes what it encodes, accepts only encodings (non-zero trailing bits and
  padding are refused), and does not use a full stop; a serialized context parses back; a MAC is not empty.
\<close>

locale base64url =
  fixes enc :: "string \<Rightarrow> string" and dec :: "string \<Rightarrow> string option"
  assumes dec_iff: "dec s = Some x \<longleftrightarrow> s = enc x"
    and enc_alphabet: "CHR ''.'' \<notin> set (enc x)"
    and enc_Nil: "enc x = [] \<longleftrightarrow> x = []"
begin

lemma dec_enc [simp]: "dec (enc x) = Some x"
  by (simp add: dec_iff)

lemma enc_inject: "enc x = enc y \<longleftrightarrow> x = y"
  by (metis dec_enc option.inject)

lemma split_signed:
  "CHR ''.'' \<notin> set a \<Longrightarrow> CHR ''.'' \<notin> set b \<Longrightarrow>
   split_on CHR ''.'' (a @ CHR ''.'' # b @ CHR ''.'' # enc x) = [a, b, enc x]"
  by (simp add: str_simps enc_alphabet)

end

locale context_codec = base64url "b64_encode lib" "b64_decode lib" for lib :: access_lib +
  assumes context_parses: "context_to_vec lib c = Some js \<Longrightarrow> js \<noteq> [] \<and> context_from_slice lib js = Some c"
    and mac_nonempty: "hmac_sha256 lib k m = Some mac \<Longrightarrow> mac \<noteq> []"

text \<open>A signature made with a private key is well formed and verifies under the public key.\<close>

locale rsa_scheme = base64url "jwt_b64_encode lib" "jwt_b64_decode lib" for lib :: "('k, 'p) rsa_lib" +
  assumes pem_parses: "to_pkcs1_pem lib p = Some pem \<Longrightarrow> from_pkcs1_pem lib pem = Some p"
    and signature_bytes: "rsa_sign lib k m \<noteq> [] \<and> signature_try_from lib (rsa_sign lib k m) = Some (rsa_sign lib k m)"
    and signature_verifies: "rsa_verify lib (rsa_public lib k) m (rsa_sign lib k m)"

section \<open>Lemmas\<close>

lemma split_on_three: "split_on c s = [a, b, d] \<Longrightarrow> s = a @ c # b @ c # d \<and> c \<notin> set a \<and> c \<notin> set b \<and> c \<notin> set d"
proof -
  assume three: "split_on c s = [a, b, d]"
  then have "s = a @ c # b @ c # d" using join_split_on [of c s] by simp
  moreover have "c \<notin> set p" if "p \<in> set [a, b, d]" for p using split_on_pieces [of p c s] that three by simp
  ultimately show ?thesis by simp
qed

lemma case_three_Inr:
  "(case xs of [a, b, d] \<Rightarrow> f a b d | _ \<Rightarrow> Inl e) = Inr y \<longleftrightarrow> (\<exists>a b d. xs = [a, b, d] \<and> f a b d = Inr y)"
  by (auto split: list.splits)

lemma guard_Inr: "(if P then Inl e else m) = Inr y \<longleftrightarrow> \<not> P \<and> m = Inr y"
  by simp

lemma context_verify_Inr:
  "context_verify lib s token = Inr payload \<longleftrightarrow>
     (\<exists>signature bytes. split_on CHR ''.'' token = [''agctx1'', payload, signature] \<and> payload \<noteq> [] \<and> signature \<noteq> [] \<and>
        b64_decode lib signature = Some bytes \<and> hmac_sha256 lib (sg_key s) (''agctx1.'' @ payload) = Some bytes)"
  unfolding context_verify_def case_three_Inr guard_Inr by (auto simp: result_simps split: if_splits)

lemma jwt_verify_Inr:
  "jwt_verify lib pem token = Inr bytes \<longleftrightarrow>
     (\<exists>public payload signature sbytes sig. from_pkcs1_pem lib pem = Some public \<and>
        split_on CHR ''.'' token = [jwt_header, payload, signature] \<and> payload \<noteq> [] \<and> signature \<noteq> [] \<and>
        jwt_b64_decode lib signature = Some sbytes \<and> signature_try_from lib sbytes = Some sig \<and>
        rsa_verify lib public (jwt_header @ ''.'' @ payload) sig \<and> jwt_b64_decode lib payload = Some bytes)"
  unfolding jwt_verify_def and_then_eq_Inr case_three_Inr guard_Inr by (auto simp: result_simps)

lemma header_dotless: "CHR ''.'' \<notin> set jwt_header" "CHR ''.'' \<notin> set ''agctx1''"
  by (simp_all add: jwt_header_def)

context context_codec
begin

lemma verify_iff_sign:
  "context_verify lib s token = Inr payload \<longleftrightarrow>
     sign_encoded lib s payload = Inr token \<and> payload \<noteq> [] \<and> CHR ''.'' \<notin> set payload"
proof
  assume "context_verify lib s token = Inr payload"
  then obtain signature bytes where v: "split_on CHR ''.'' token = [''agctx1'', payload, signature]" "payload \<noteq> []"
    "b64_decode lib signature = Some bytes" "hmac_sha256 lib (sg_key s) (''agctx1.'' @ payload) = Some bytes"
    by (auto simp: context_verify_Inr)
  from split_on_three [OF v(1)] show "sign_encoded lib s payload = Inr token \<and> payload \<noteq> [] \<and> CHR ''.'' \<notin> set payload"
    using v by (simp add: sign_encoded_def result_simps dec_iff)
next
  assume *: "sign_encoded lib s payload = Inr token \<and> payload \<noteq> [] \<and> CHR ''.'' \<notin> set payload"
  then obtain mac where mac: "hmac_sha256 lib (sg_key s) (''agctx1.'' @ payload) = Some mac"
    "token = ''agctx1'' @ CHR ''.'' # payload @ CHR ''.'' # b64_encode lib mac"
    by (auto simp: sign_encoded_def result_simps)
  have "split_on CHR ''.'' token = [''agctx1'', payload, b64_encode lib mac]"
    unfolding mac(2) using * header_dotless(2) by (intro split_signed) simp_all
  then show "context_verify lib s token = Inr payload"
    using mac(1) mac_nonempty [OF mac(1)] * by (auto simp: context_verify_Inr enc_Nil)
qed

lemma decode_encode:
  "context_encode lib c = Some e \<Longrightarrow> context_decode lib now e = and_then (context_validate c now) (\<lambda>_. Inr c)"
  by (auto simp: context_encode_def context_decode_def context_parses)

end

context rsa_scheme
begin

lemma verify_sign:
  assumes "public_key_pem lib key = Inr pem" "jwt_sign lib key payload = Inr token" "payload \<noteq> []"
  shows "jwt_verify lib pem token = Inr payload"
proof -
  let ?input = "jwt_header @ ''.'' @ jwt_b64_encode lib payload"
  let ?sig = "rsa_sign lib key ?input"
  have "split_on CHR ''.'' token = [jwt_header, jwt_b64_encode lib payload, jwt_b64_encode lib ?sig]"
    using split_signed [of jwt_header "jwt_b64_encode lib payload" ?sig] header_dotless(1) enc_alphabet assms(2)
    by (simp add: jwt_sign_def Let_def)
  moreover have "from_pkcs1_pem lib pem = Some (rsa_public lib key)"
    using assms(1) pem_parses by (auto simp: public_key_pem_def result_simps)
  ultimately show ?thesis
    using signature_bytes [of key ?input] signature_verifies [of key ?input] assms(3)
    by (auto simp: jwt_verify_Inr enc_Nil)
qed

lemma verify_authentic:
  assumes "jwt_verify lib pem token = Inr payload"
  shows "\<exists>public sig. from_pkcs1_pem lib pem = Some public \<and>
    token = jwt_header @ ''.'' @ jwt_b64_encode lib payload @ ''.'' @ jwt_b64_encode lib sig \<and>
    (\<exists>parsed. signature_try_from lib sig = Some parsed \<and> rsa_verify lib public (jwt_header @ ''.'' @ jwt_b64_encode lib payload) parsed)"
proof -
  obtain public encoded signature sbytes sig where v: "from_pkcs1_pem lib pem = Some public"
    "split_on CHR ''.'' token = [jwt_header, encoded, signature]" "jwt_b64_decode lib signature = Some sbytes"
    "signature_try_from lib sbytes = Some sig" "rsa_verify lib public (jwt_header @ ''.'' @ encoded) sig"
    "jwt_b64_decode lib encoded = Some payload"
    using assms by (auto simp: jwt_verify_Inr)
  then show ?thesis using split_on_three [OF v(2)] by (auto simp: dec_iff)
qed

end

lemma context_new_validate:
  "context_validate (context_new i t ttl) now = Inr () \<longleftrightarrow>
     unat t \<le> unat now + 30 \<and> unat now < unat t + unat (as_secs ttl) \<and> 0 < as_secs ttl \<and> now < - 1 \<and> t < - 1"
proof -
  have top: "unat (- 1 :: u64) = 2 ^ 64 - 1" by (simp add: unsigned_minus_1_eq_mask mask_eq_exp_minus_1)
  have lt: "unat t < 2 ^ 64" "unat now < 2 ^ 64" "unat (as_secs ttl) < 2 ^ 64"
    using unsigned_less [where 'b = 64 and 'a = nat] by auto
  have "unat (30 :: u64) = 30" by simp
  then show ?thesis
    using lt by (auto simp: context_validate_def context_new_def word_le_nat_alt word_less_nat_alt
      unat_saturating_add top min_def)
qed

context context_codec
begin

lemma verify_encoded:
  "context_encode lib c = Some payload \<Longrightarrow> sign_encoded lib s payload = Inr token \<Longrightarrow> context_verify lib s token = Inr payload"
  by (auto simp: verify_iff_sign context_encode_def enc_Nil enc_alphabet dest: context_parses)

lemma decode_alive:
  assumes "context_encode lib (context_new i t ttl) = Some encoded"
    and "unat t \<le> unat now + 30 \<and> now < - 1 \<and> t < - 1 \<and> 0 < as_secs ttl \<and> unat now < unat t + unat (as_secs ttl)"
  shows "context_decode lib now encoded = Inr (context_new i t ttl)"
  using decode_encode [OF assms(1), of now] assms(2) context_new_validate [of i t ttl now] by simp

end

section \<open>A concrete codec\<close>

text \<open>
  Hexadecimal text, a table of serialized contexts and a keyed tag satisfy the laws; they stand for the
  crates where a property is evaluated.
\<close>

definition hex_digit :: "nat \<Rightarrow> char" where
  "hex_digit n = char_of (97 + n)"

definition hex_encode :: "string \<Rightarrow> string" where
  "hex_encode s = concat (map (\<lambda>c. [hex_digit (code c div 16), hex_digit (code c mod 16)]) s)"

fun hex_decode :: "string \<Rightarrow> string option" where
  "hex_decode [] = Some []"
| "hex_decode [a] = None"
| "hex_decode (a # b # s) =
     (if 97 \<le> code a \<and> code a < 113 \<and> 97 \<le> code b \<and> code b < 113
      then map_option ((#) (char_of (16 * (code a - 97) + (code b - 97)))) (hex_decode s) else None)"

lemma code_less: "code c < 256"
  by (metis mod_less_divisor of_char_mod_256 zero_less_numeral)

lemma code_hex_digit: "n < 16 \<Longrightarrow> code (hex_digit n) = 97 + n"
  by (simp add: hex_digit_def)

lemma code_hex_digits:
  "code (hex_digit (code c div 16)) = 97 + code c div 16" "code (hex_digit (code c mod 16)) = 97 + code c mod 16"
  "code c div 16 < 16"
proof -
  have "code c < 256" by (rule code_less)
  then show "code c div 16 < 16" by linarith
  then show "code (hex_digit (code c div 16)) = 97 + code c div 16" by (rule code_hex_digit)
  show "code (hex_digit (code c mod 16)) = 97 + code c mod 16" by (rule code_hex_digit) simp
qed

lemma hex_decode_encode: "hex_decode (hex_encode s) = Some s"
proof (induction s)
  case (Cons c s)
  then show ?case using code_hex_digits [of c] by (simp add: hex_encode_def)
qed (simp add: hex_encode_def)

lemma hex_decode_canonical: "hex_decode s = Some x \<Longrightarrow> s = hex_encode x"
proof (induction s arbitrary: x rule: hex_decode.induct)
  case (3 a b s)
  then obtain y where y: "97 \<le> code a" "code a < 113" "97 \<le> code b" "code b < 113" "hex_decode s = Some y"
    "x = char_of (16 * (code a - 97) + (code b - 97)) # y" by (auto split: if_splits)
  define m n where "m = code a - 97" and "n = code b - 97"
  have mn: "m < 16" "n < 16" "code a = 97 + m" "code b = 97 + n" using y by (auto simp: m_def n_def)
  have "16 * m + n < 256" using mn by linarith
  then have "code (char_of (16 * m + n)) = 16 * m + n" by simp
  moreover have "(16 * m + n) div 16 = m" "(16 * m + n) mod 16 = n" using mn by simp_all
  moreover have "hex_digit m = a" "hex_digit n = b" unfolding hex_digit_def mn(3,4) [symmetric] by simp_all
  moreover have "x = char_of (16 * m + n) # y" using y(6) by (simp add: m_def n_def)
  moreover have "s = hex_encode y" using 3(1) y by blast
  ultimately show ?case by (simp add: hex_encode_def)
qed (auto simp: hex_encode_def)

lemma hex_alphabet: "CHR ''.'' \<notin> set (hex_encode x)"
proof
  assume "CHR ''.'' \<in> set (hex_encode x)"
  then obtain c where "CHR ''.'' = hex_digit (code c div 16) \<or> CHR ''.'' = hex_digit (code c mod 16)"
    by (auto simp: hex_encode_def)
  then have "code CHR ''.'' = 97 + code c div 16 \<or> code CHR ''.'' = 97 + code c mod 16"
    using code_hex_digits(1,2) [of c] by (elim disjE) metis+
  then show False by simp
qed

interpretation hex: base64url hex_encode hex_decode
proof
  fix s x show "hex_decode s = Some x \<longleftrightarrow> s = hex_encode x"
    using hex_decode_encode hex_decode_canonical by auto
  show "CHR ''.'' \<notin> set (hex_encode x)" by (rule hex_alphabet)
  show "hex_encode x = [] \<longleftrightarrow> x = []" by (cases x) (simp_all add: hex_encode_def)
qed

definition table_lib :: "(access_context \<times> string) list \<Rightarrow> access_lib" where
  "table_lib table = \<lparr>b64_encode = hex_encode, b64_decode = hex_decode,
     context_to_vec = (\<lambda>c. if distinct (map snd table) \<and> [] \<notin> set (map snd table) then map_of table c else None),
     context_from_slice = (\<lambda>js. map_of (map (\<lambda>(c, js). (js, c)) table) js),
     hmac_sha256 = (\<lambda>k m. Some (CHR ''m'' # k @ m))\<rparr>"

lemma table_codec: "context_codec (table_lib table)"
proof -
  have "map_of (map (\<lambda>(c, js). (js, c)) table) js = Some c" if "distinct (map snd table)" "map_of table c = Some js" for c js
  proof -
    have "(js, c) \<in> set (map (\<lambda>(c, js). (js, c)) table)" using map_of_SomeD [OF that(2)] by force
    moreover have "map fst (map (\<lambda>(c, js). (js, c)) table) = map snd table" by (induction table) auto
    ultimately show ?thesis using that(1) by (simp only: map_of_is_SomeI)
  qed
  moreover have "js \<noteq> []" if "map_of table c = Some js" "[] \<notin> set (map snd table)" for c js
    using map_of_SomeD [OF that(1)] that(2) by force
  ultimately show ?thesis
    by unfold_locales (auto simp: table_lib_def hex.dec_iff hex.enc_alphabet hex.enc_Nil split: if_splits)
qed

interpretation table: context_codec "table_lib t" for t
  by (rule table_codec)

text \<open>Keys are texts, a signature is the signed text after the key.\<close>

definition text_rsa :: "(string, string) rsa_lib" where
  "text_rsa = \<lparr>from_pkcs8_pem = Some, key_bits = (\<lambda>k. 8 * length k), key_validates = (\<lambda>k. True),
     rsa_public = (\<lambda>k. k), to_pkcs1_pem = Some, from_pkcs1_pem = Some, modulus_bytes = (\<lambda>p. p),
     exponent_bytes = (\<lambda>p. ''3''), rsa_sign = (\<lambda>k m. CHR ''s'' # k @ m), signature_try_from = Some,
     rsa_verify = (\<lambda>p m s. s = CHR ''s'' # p @ m), jwt_b64_encode = hex_encode, jwt_b64_decode = hex_decode\<rparr>"

interpretation texts: rsa_scheme text_rsa
  by unfold_locales (auto simp: text_rsa_def hex.dec_iff hex.enc_alphabet hex.enc_Nil)

section \<open>Properties\<close>

text \<open>
  A verifier of direct contexts accepts a header for a payload exactly when signing that
  payload with the same key gives that header; in particular no other prefix, field or signature is accepted.
\<close>

theorem verifier_accepts_only_signed:
  assumes "context_codec lib"
  shows "context_verify lib s token = Inr payload \<longleftrightarrow>
    sign_encoded lib s payload = Inr token \<and> payload \<noteq> [] \<and> CHR ''.'' \<notin> set payload"
  using assms by (rule context_codec.verify_iff_sign)

theorem verifier_accepts_only_signed_witness:
  "context_verify (table_lib []) \<lparr>sg_key = ''k''\<rparr> (''agctx1.abc.'' @ hex_encode ''mkagctx1.abc'') = Inr ''abc''"
  using verifier_accepts_only_signed [OF table_codec, of "[]" "\<lparr>sg_key = ''k''\<rparr>" _ "''abc''"]
  by (simp add: sign_encoded_def table_lib_def)

text \<open>
  A context issued at \<open>t\<close> with lifetime \<open>ttl\<close> and delivered through the encoding is accepted at
  time \<open>now\<close> exactly when the clock is at most 30 seconds behind \<open>t\<close> and before \<open>t + ttl\<close>; it then carries
  exactly the scope it was issued with. (The two conditions on the last second of the clock are those of
  saturating arithmetic.)
\<close>

theorem context_accepted_exactly_in_lifetime:
  assumes "context_codec lib" "context_encode lib (context_new i t ttl) = Some encoded"
  shows "context_decode lib now encoded = Inr c \<longleftrightarrow> c = context_new i t ttl \<and>
    unat t \<le> unat now + 30 \<and> unat now < unat t + unat (as_secs ttl) \<and> 0 < as_secs ttl \<and> now < - 1 \<and> t < - 1"
  using context_codec.decode_encode [OF assms] context_new_validate [of i t ttl now]
  by (auto simp: result_simps)

definition sample_input :: access_context_input where
  "sample_input = \<lparr>ci_principal_id = ''user:ann'', ci_action = ''read'', ci_resource_urn = ''urn:iam:a:b:c:d'',
     ci_allow_resource_urns = [''urn:iam:a:b:c:*''], ci_deny_resource_urns = [], ci_policy_revision = 1\<rparr>"

theorem context_accepted_exactly_in_lifetime_witness:
  "context_decode (table_lib [(context_new sample_input 100 (from_secs 60), ''json'')]) 159 (hex_encode ''json'') =
     Inr (context_new sample_input 100 (from_secs 60))"
proof -
  let ?lib = "table_lib [(context_new sample_input 100 (from_secs 60), ''json'')]"
  have "context_encode ?lib (context_new sample_input 100 (from_secs 60)) = Some (hex_encode ''json'')"
    by (simp add: context_encode_def table_lib_def)
  from context_accepted_exactly_in_lifetime [OF table_codec this] show ?thesis by simp
qed

text \<open>
  A token made by the JWT primitive verifies under the paired public key to its payload, and every
  token a verifier accepts is the fixed RS256 header, the accepted payload and a signature that verifies
  over exactly those two.
\<close>

theorem jwt_sign_verify:
  assumes "rsa_scheme lib"
  shows "(\<forall>key pem payload token. public_key_pem lib key = Inr pem \<and> jwt_sign lib key payload = Inr token \<and> payload \<noteq> [] \<longrightarrow>
      jwt_verify lib pem token = Inr payload) \<and>
    (\<forall>pem token payload. jwt_verify lib pem token = Inr payload \<longrightarrow>
      (\<exists>public sig. from_pkcs1_pem lib pem = Some public \<and>
        token = jwt_header @ ''.'' @ jwt_b64_encode lib payload @ ''.'' @ jwt_b64_encode lib sig \<and>
        (\<exists>parsed. signature_try_from lib sig = Some parsed \<and>
          rsa_verify lib public (jwt_header @ ''.'' @ jwt_b64_encode lib payload) parsed)))"
  using rsa_scheme.verify_sign [OF assms] rsa_scheme.verify_authentic [OF assms] by blast

theorem jwt_sign_verify_witness:
  "\<exists>token. jwt_sign text_rsa ''key'' ''claims'' = Inr token \<and> jwt_verify text_rsa ''key'' token = Inr ''claims''"
proof -
  obtain token where "jwt_sign text_rsa ''key'' ''claims'' = Inr token" by (simp add: jwt_sign_def Let_def)
  moreover have "public_key_pem text_rsa ''key'' = Inr ''key''" by (simp add: public_key_pem_def text_rsa_def)
  ultimately show ?thesis using jwt_sign_verify [OF texts.rsa_scheme_axioms] by blast
qed

end
