(* ===== verification/Urn.thy ===== *)
theory Urn
  imports Prelude
begin

text \<open>
  Resource URNs and URN patterns (\<open>common/src/utils/policy_urn.rs\<close>): the parser and the printer
  of exact URNs and of patterns, and the pattern matcher that every authorization decision uses.
  The main results are that parsing and printing are inverse to each other on exactly the
  well-formed values, and that the index-based matching loop decides the declarative meaning of
  a pattern.
\<close>

section \<open>Data\<close>

datatype urn_error =
    InvalidFormat
  | EmptySegment string
  | WildcardInExactUrn string
  | InvalidWildcard string
  | InvalidGlobStar

text \<open>The \<open>Display\<close> text of \<open>UrnError\<close>.\<close>

fun urn_error_to_string :: "urn_error \<Rightarrow> string" where
  "urn_error_to_string InvalidFormat =
     ''URN must use format urn:iam:<partition>:<service>:<region>:<tenant>:<resource-path>''"
| "urn_error_to_string (EmptySegment s) = ''URN segment `'' @ s @ ''` must not be empty''"
| "urn_error_to_string (WildcardInExactUrn s) =
     ''exact Resource URN must not contain wildcard `'' @ s @ ''`''"
| "urn_error_to_string (InvalidWildcard s) =
     ''wildcard `'' @ s @ ''` is not allowed in this segment''"
| "urn_error_to_string InvalidGlobStar =
     ''globstar ** is only allowed as the final resource path segment''"

record resource_urn =
  ru_partition :: string
  ru_service :: string
  ru_region :: string
  ru_tenant :: string
  ru_path :: "string list"

datatype segment_pattern = SegExact string | SegAny

datatype path_pattern = PathExact string | PathAny | GlobStar

record urn_pattern =
  up_partition :: segment_pattern
  up_service :: segment_pattern
  up_region :: segment_pattern
  up_tenant :: segment_pattern
  up_path :: "path_pattern list"

record urn_parts =
  pt_partition :: string
  pt_service :: string
  pt_region :: string
  pt_tenant :: string
  pt_path :: string

section \<open>Printing\<close>

definition path_string :: "resource_urn \<Rightarrow> string" where
  "path_string u = join ''/'' (ru_path u)"

definition urn_to_string :: "resource_urn \<Rightarrow> string" where
  "urn_to_string u =
     ''urn:iam:'' @ ru_partition u @ '':'' @ ru_service u @ '':'' @ ru_region u @ '':'' @
     ru_tenant u @ '':'' @ join ''/'' (ru_path u)"

fun segment_to_string :: "segment_pattern \<Rightarrow> string" where
  "segment_to_string (SegExact v) = v"
| "segment_to_string SegAny = ''*''"

fun path_pattern_to_string :: "path_pattern \<Rightarrow> string" where
  "path_pattern_to_string (PathExact v) = v"
| "path_pattern_to_string PathAny = ''*''"
| "path_pattern_to_string GlobStar = ''**''"

definition pattern_to_string :: "urn_pattern \<Rightarrow> string" where
  "pattern_to_string p =
     ''urn:iam:'' @ segment_to_string (up_partition p) @ '':'' @
     segment_to_string (up_service p) @ '':'' @ segment_to_string (up_region p) @ '':'' @
     segment_to_string (up_tenant p) @ '':'' @ join ''/'' (map path_pattern_to_string (up_path p))"

section \<open>Parsing\<close>

definition split_urn :: "string \<Rightarrow> (urn_error, urn_parts) result" where
  "split_urn input =
     (case splitn 7 CHR '':'' input of
        [scheme, nid, prt, service, region, tenant, path] \<Rightarrow>
          if scheme \<noteq> ''urn'' \<or> nid \<noteq> ''iam'' \<or> CHR '':'' \<in> set path then Inl InvalidFormat
          else Inr \<lparr>pt_partition = prt, pt_service = service, pt_region = region,
                    pt_tenant = tenant, pt_path = path\<rparr>
      | _ \<Rightarrow> Inl InvalidFormat)"

definition validate_exact_segment :: "string \<Rightarrow> string \<Rightarrow> (urn_error, unit) result" where
  "validate_exact_segment name input =
     (if input = [] then Inl (EmptySegment name)
      else if input = ''*'' \<or> input = ''**'' \<or> CHR ''*'' \<in> set input
        then Inl (WildcardInExactUrn input)
      else Inr ())"

definition split_urn_path :: "string \<Rightarrow> (urn_error, string list) result" where
  "split_urn_path input =
     (if input = [] then Inl (EmptySegment ''resource-path'')
      else let segments = split_on CHR ''/'' input in
        if list_ex (\<lambda>s. s = []) segments then Inl (EmptySegment ''resource-path'')
        else Inr segments)"

definition exact_path_segment :: "string \<Rightarrow> (urn_error, unit) result" where
  "exact_path_segment segment =
     (if segment = ''*'' \<or> segment = ''**'' then Inl (WildcardInExactUrn segment) else Inr ())"

definition urn_from_str :: "string \<Rightarrow> (urn_error, resource_urn) result" where
  "urn_from_str input =
     and_then (split_urn input) (\<lambda>parts.
     and_then (validate_exact_segment ''partition'' (pt_partition parts)) (\<lambda>_.
     and_then (validate_exact_segment ''service'' (pt_service parts)) (\<lambda>_.
     and_then (validate_exact_segment ''region'' (pt_region parts)) (\<lambda>_.
     and_then (validate_exact_segment ''tenant'' (pt_tenant parts)) (\<lambda>_.
     and_then (split_urn_path (pt_path parts)) (\<lambda>path.
     and_then (for_each exact_path_segment path) (\<lambda>_.
       Inr \<lparr>ru_partition = pt_partition parts, ru_service = pt_service parts,
            ru_region = pt_region parts, ru_tenant = pt_tenant parts, ru_path = path\<rparr>)))))))"

definition segment_parse :: "string \<Rightarrow> (urn_error, segment_pattern) result" where
  "segment_parse input =
     (if input = [] then Inl (EmptySegment ''segment'')
      else if input = ''*'' then Inr SegAny
      else if input = ''**'' then Inl (InvalidWildcard input)
      else if CHR ''*'' \<in> set input then Inl (InvalidWildcard input)
      else Inr (SegExact input))"

text \<open>
  The loop of \<open>parse_path_pattern\<close> over the enumerated segments; \<open>is_last\<close> stands for
  \<open>idx + 1 == segments.len()\<close>, which holds exactly for the last element of the list.
\<close>

definition parse_path_segment :: "bool \<Rightarrow> string \<Rightarrow> (urn_error, path_pattern) result" where
  "parse_path_segment is_last segment =
     (if segment = ''*'' then Inr PathAny
      else if segment = ''**'' \<and> is_last then Inr GlobStar
      else if segment = ''**'' then Inl InvalidGlobStar
      else if CHR ''*'' \<in> set segment then Inl (InvalidWildcard segment)
      else Inr (PathExact segment))"

fun parse_path_segments :: "string list \<Rightarrow> (urn_error, path_pattern list) result" where
  "parse_path_segments [] = Inr []"
| "parse_path_segments (segment # rest) =
     and_then (parse_path_segment (rest = []) segment) (\<lambda>parsed.
     and_then (parse_path_segments rest) (\<lambda>result. Inr (parsed # result)))"

definition parse_path_pattern :: "string \<Rightarrow> (urn_error, path_pattern list) result" where
  "parse_path_pattern input = and_then (split_urn_path input) parse_path_segments"

definition pattern_from_str :: "string \<Rightarrow> (urn_error, urn_pattern) result" where
  "pattern_from_str input =
     and_then (split_urn input) (\<lambda>parts.
     and_then (segment_parse (pt_partition parts)) (\<lambda>prt.
     and_then (segment_parse (pt_service parts)) (\<lambda>service.
     and_then (segment_parse (pt_region parts)) (\<lambda>region.
     and_then (segment_parse (pt_tenant parts)) (\<lambda>tenant.
     and_then (parse_path_pattern (pt_path parts)) (\<lambda>path.
       Inr \<lparr>up_partition = prt, up_service = service, up_region = region,
            up_tenant = tenant, up_path = path\<rparr>))))))"

section \<open>Matching\<close>

fun segment_matches :: "segment_pattern \<Rightarrow> string \<Rightarrow> bool" where
  "segment_matches (SegExact expected) v = (expected = v)"
| "segment_matches SegAny v = True"

text \<open>The \<open>while\<close> loop of \<open>path_matches\<close> with its two indices.\<close>

function path_matches_from :: "path_pattern list \<Rightarrow> string list \<Rightarrow> nat \<Rightarrow> nat \<Rightarrow> bool" where
  "path_matches_from pattern path pidx uidx =
     (if pidx < length pattern then
        (case pattern ! pidx of
           GlobStar \<Rightarrow> pidx + 1 = length pattern
         | PathAny \<Rightarrow>
             if uidx \<ge> length path then False
             else path_matches_from pattern path (pidx + 1) (uidx + 1)
         | PathExact expected \<Rightarrow>
             if \<not> (uidx < length path \<and> path ! uidx = expected) then False
             else path_matches_from pattern path (pidx + 1) (uidx + 1))
      else uidx = length path)"
  by pat_completeness auto
termination
  by (relation "measure (\<lambda>(pattern, path, pidx, uidx). length pattern - pidx)") auto

declare path_matches_from.simps [simp del]

definition path_matches :: "path_pattern list \<Rightarrow> string list \<Rightarrow> bool" where
  "path_matches pattern path = path_matches_from pattern path 0 0"

definition pattern_matches :: "urn_pattern \<Rightarrow> resource_urn \<Rightarrow> bool" where
  "pattern_matches p u \<longleftrightarrow>
     segment_matches (up_partition p) (ru_partition u) \<and>
     segment_matches (up_service p) (ru_service u) \<and>
     segment_matches (up_region p) (ru_region u) \<and>
     segment_matches (up_tenant p) (ru_tenant u) \<and>
     path_matches (up_path p) (ru_path u)"

definition matches_any :: "urn_pattern \<Rightarrow> resource_urn list \<Rightarrow> bool" where
  "matches_any p urns = list_ex (pattern_matches p) urns"

section \<open>Well-formed values\<close>

text \<open>
  The values the parsers accept. A path segment of an exact URN may contain a star as long as it
  is not one of the two wildcards; a pattern segment may not.
\<close>

definition wf_segment :: "string \<Rightarrow> bool" where
  "wf_segment s \<longleftrightarrow> s \<noteq> [] \<and> CHR '':'' \<notin> set s \<and> CHR ''*'' \<notin> set s"

definition wf_urn_path_segment :: "string \<Rightarrow> bool" where
  "wf_urn_path_segment s \<longleftrightarrow>
     s \<noteq> [] \<and> CHR '':'' \<notin> set s \<and> CHR ''/'' \<notin> set s \<and> s \<noteq> ''*'' \<and> s \<noteq> ''**''"

definition wf_urn :: "resource_urn \<Rightarrow> bool" where
  "wf_urn u \<longleftrightarrow>
     wf_segment (ru_partition u) \<and> wf_segment (ru_service u) \<and> wf_segment (ru_region u) \<and>
     wf_segment (ru_tenant u) \<and> ru_path u \<noteq> [] \<and> list_all wf_urn_path_segment (ru_path u)"

fun wf_segment_pattern :: "segment_pattern \<Rightarrow> bool" where
  "wf_segment_pattern (SegExact v) = wf_segment v"
| "wf_segment_pattern SegAny = True"

text \<open>Path patterns: \<open>**\<close> only at the end, no star inside a literal.\<close>

fun wf_path_patterns :: "path_pattern list \<Rightarrow> bool" where
  "wf_path_patterns [] = True"
| "wf_path_patterns (PathAny # ps) = wf_path_patterns ps"
| "wf_path_patterns (GlobStar # ps) = (ps = [])"
| "wf_path_patterns (PathExact v # ps) =
     (wf_segment v \<and> CHR ''/'' \<notin> set v \<and> wf_path_patterns ps)"

definition wf_pattern :: "urn_pattern \<Rightarrow> bool" where
  "wf_pattern p \<longleftrightarrow>
     wf_segment_pattern (up_partition p) \<and> wf_segment_pattern (up_service p) \<and>
     wf_segment_pattern (up_region p) \<and> wf_segment_pattern (up_tenant p) \<and>
     up_path p \<noteq> [] \<and> wf_path_patterns (up_path p)"

text \<open>The declarative meaning of a path pattern, by recursion on the pattern.\<close>

fun path_denotes :: "path_pattern list \<Rightarrow> string list \<Rightarrow> bool" where
  "path_denotes [] path = (path = [])"
| "path_denotes (GlobStar # ps) path = (ps = [])"
| "path_denotes (PathAny # ps) path = (case path of [] \<Rightarrow> False | _ # rest \<Rightarrow> path_denotes ps rest)"
| "path_denotes (PathExact v # ps) path =
     (case path of [] \<Rightarrow> False | s # rest \<Rightarrow> s = v \<and> path_denotes ps rest)"

section \<open>Parsing and printing are inverse\<close>

lemma split_urn_iff:
  "split_urn s = Inr parts \<longleftrightarrow>
     s = join '':'' [''urn'', ''iam'', pt_partition parts, pt_service parts, pt_region parts,
                     pt_tenant parts, pt_path parts] \<and>
     CHR '':'' \<notin> set (pt_partition parts) \<and> CHR '':'' \<notin> set (pt_service parts) \<and>
     CHR '':'' \<notin> set (pt_region parts) \<and> CHR '':'' \<notin> set (pt_tenant parts) \<and>
     CHR '':'' \<notin> set (pt_path parts)" (is "?L \<longleftrightarrow> ?R")
proof -
  let ?ps = "[''urn'', ''iam'', pt_partition parts, pt_service parts, pt_region parts,
              pt_tenant parts, pt_path parts]"
  have "?L \<longleftrightarrow> splitn 7 CHR '':'' s = ?ps \<and> CHR '':'' \<notin> set (pt_path parts)"
    by (cases parts) (auto simp: split_urn_def split: list.splits)
  also have "splitn 7 CHR '':'' s = ?ps \<longleftrightarrow>
      s = join '':'' ?ps \<and> (\<forall>p \<in> set (butlast ?ps). CHR '':'' \<notin> set p)"
    using splitn_full_iff [of 6 "CHR '':''" s ?ps] by simp
  finally show ?thesis by auto
qed

lemma split_urn_path_iff:
  "split_urn_path s = Inr segs \<longleftrightarrow>
     segs \<noteq> [] \<and> s = join ''/'' segs \<and> (\<forall>p \<in> set segs. p \<noteq> [] \<and> CHR ''/'' \<notin> set p)" (is "?L \<longleftrightarrow> ?R")
proof
  assume ?L
  then have "segs = split_on CHR ''/'' s" "\<forall>p \<in> set segs. p \<noteq> []"
    by (auto simp: split_urn_path_def Let_def list_ex_iff split: if_splits)
  then show ?R using join_split_on [of "CHR ''/''" s] split_on_pieces by fastforce
next
  assume R: ?R
  then have "split_on CHR ''/'' s = segs" by (auto intro: split_on_join)
  moreover from R have "s \<noteq> []" using set_join_pieces [of "hd segs" segs "''/''"]
    by (cases segs) auto
  ultimately show ?L using R by (auto simp: split_urn_path_def list_ex_iff)
qed

lemma validate_exact_segment_iff:
  "validate_exact_segment name s = Inr u \<longleftrightarrow> s \<noteq> [] \<and> CHR ''*'' \<notin> set s"
  by (auto simp: validate_exact_segment_def)

lemma exact_path_segment_iff: "exact_path_segment s = Inr u \<longleftrightarrow> s \<noteq> ''*'' \<and> s \<noteq> ''**''"
  by (auto simp: exact_path_segment_def)

lemma segment_parse_iff:
  "segment_parse s = Inr p \<longleftrightarrow>
     s = segment_to_string p \<and> (case p of SegExact v \<Rightarrow> v \<noteq> [] \<and> CHR ''*'' \<notin> set v | SegAny \<Rightarrow> True)"
  by (cases p) (auto simp: segment_parse_def)

lemma parse_path_segment_iff:
  "parse_path_segment is_last s = Inr p \<longleftrightarrow>
     s = path_pattern_to_string p \<and>
     (case p of PathExact v \<Rightarrow> CHR ''*'' \<notin> set v | PathAny \<Rightarrow> True | GlobStar \<Rightarrow> is_last)"
  by (cases p) (auto simp: parse_path_segment_def)

text \<open>
  The conditions of the path-pattern parser without the ones its tokeniser already guarantees.
\<close>

fun stars_ok :: "path_pattern list \<Rightarrow> bool" where
  "stars_ok [] = True"
| "stars_ok (p # ps) =
     ((case p of PathExact v \<Rightarrow> CHR ''*'' \<notin> set v | PathAny \<Rightarrow> True | GlobStar \<Rightarrow> ps = []) \<and> stars_ok ps)"

lemma parse_path_segments_iff:
  "parse_path_segments segs = Inr ps \<longleftrightarrow> segs = map path_pattern_to_string ps \<and> stars_ok ps"
proof (induction segs arbitrary: ps)
  case (Cons s segs)
  show ?case
  proof (cases ps)
    case (Cons q qs)
    have "parse_path_segments (s # segs) = Inr ps \<longleftrightarrow>
        parse_path_segment (segs = []) s = Inr q \<and> parse_path_segments segs = Inr qs"
      by (auto simp: Cons result_simps)
    then show ?thesis
      by (auto simp: Cons Cons.IH [of qs] parse_path_segment_iff split: path_pattern.splits)
  qed (auto simp: result_simps)
qed auto

lemma wf_path_patterns_alt:
  "wf_path_patterns ps \<longleftrightarrow> stars_ok ps \<and>
     (\<forall>s \<in> set (map path_pattern_to_string ps). s \<noteq> [] \<and> CHR '':'' \<notin> set s \<and> CHR ''/'' \<notin> set s)"
  by (induction ps rule: wf_path_patterns.induct) (auto simp: wf_segment_def)

lemma colon_in_join:
  "CHR '':'' \<in> set (join ''/'' ps) \<longleftrightarrow> (\<exists>s \<in> set ps. CHR '':'' \<in> set s)"
  using set_join [of "''/''" ps] set_join_pieces [of _ ps "''/''"] by auto

lemma urn_from_str_iff:
  "urn_from_str s = Inr u \<longleftrightarrow> wf_urn u \<and> s = urn_to_string u"
proof -
  define parts where "parts = \<lparr>pt_partition = ru_partition u, pt_service = ru_service u,
    pt_region = ru_region u, pt_tenant = ru_tenant u, pt_path = join ''/'' (ru_path u)\<rparr>"
  have "urn_from_str s = Inr u \<longleftrightarrow> split_urn s = Inr parts \<and>
      wf_segment_chars (ru_partition u) \<and> wf_segment_chars (ru_service u) \<and>
      wf_segment_chars (ru_region u) \<and> wf_segment_chars (ru_tenant u) \<and>
      split_urn_path (pt_path parts) = Inr (ru_path u) \<and>
      (\<forall>s \<in> set (ru_path u). s \<noteq> ''*'' \<and> s \<noteq> ''**'')"
    if "wf_segment_chars = (\<lambda>s. s \<noteq> [] \<and> CHR ''*'' \<notin> set s)" for wf_segment_chars
    by (cases u) (auto simp: that urn_from_str_def result_simps validate_exact_segment_iff
      exact_path_segment_iff parts_def split_urn_path_iff)
  from this [OF refl] show ?thesis
    by (auto simp: split_urn_iff split_urn_path_iff parts_def wf_urn_def wf_segment_def
      wf_urn_path_segment_def urn_to_string_def list_all_iff colon_in_join)
qed

lemma pattern_from_str_iff:
  "pattern_from_str s = Inr p \<longleftrightarrow> wf_pattern p \<and> s = pattern_to_string p"
proof -
  define parts where "parts = \<lparr>pt_partition = segment_to_string (up_partition p),
    pt_service = segment_to_string (up_service p), pt_region = segment_to_string (up_region p),
    pt_tenant = segment_to_string (up_tenant p),
    pt_path = join ''/'' (map path_pattern_to_string (up_path p))\<rparr>"
  have seg: "segment_parse t = Inr q \<and> CHR '':'' \<notin> set t \<longleftrightarrow> t = segment_to_string q \<and> wf_segment_pattern q"
    for t q by (cases q) (auto simp: segment_parse_iff wf_segment_def)
  have path: "parse_path_pattern t = Inr ps \<and> CHR '':'' \<notin> set t \<longleftrightarrow>
      t = join ''/'' (map path_pattern_to_string ps) \<and> ps \<noteq> [] \<and> wf_path_patterns ps" for t ps
    by (auto simp: parse_path_pattern_def result_simps split_urn_path_iff parse_path_segments_iff
      wf_path_patterns_alt colon_in_join)
  have "pattern_from_str s = Inr p \<longleftrightarrow> (\<exists>q. split_urn s = Inr q \<and>
      (segment_parse (pt_partition q) = Inr (up_partition p) \<and> CHR '':'' \<notin> set (pt_partition q)) \<and>
      (segment_parse (pt_service q) = Inr (up_service p) \<and> CHR '':'' \<notin> set (pt_service q)) \<and>
      (segment_parse (pt_region q) = Inr (up_region p) \<and> CHR '':'' \<notin> set (pt_region q)) \<and>
      (segment_parse (pt_tenant q) = Inr (up_tenant p) \<and> CHR '':'' \<notin> set (pt_tenant q)) \<and>
      (parse_path_pattern (pt_path q) = Inr (up_path p) \<and> CHR '':'' \<notin> set (pt_path q)))"
    by (cases p) (auto simp: pattern_from_str_def result_simps split_urn_iff)
  also have "\<dots> \<longleftrightarrow> split_urn s = Inr parts \<and> wf_pattern p"
    unfolding seg path by (auto simp: parts_def wf_pattern_def)
  also have "\<dots> \<longleftrightarrow> s = pattern_to_string p \<and> wf_pattern p"
    using seg [of "segment_to_string (up_partition p)" "up_partition p"]
      seg [of "segment_to_string (up_service p)" "up_service p"]
      seg [of "segment_to_string (up_region p)" "up_region p"]
      seg [of "segment_to_string (up_tenant p)" "up_tenant p"]
      path [of "pt_path parts" "up_path p"]
    by (auto simp: split_urn_iff parts_def pattern_to_string_def wf_pattern_def)
  finally show ?thesis by auto
qed

interpretation urn: codec urn_to_string urn_from_str wf_urn
  by unfold_locales (rule urn_from_str_iff)

interpretation pattern: codec pattern_to_string pattern_from_str wf_pattern
  by unfold_locales (rule pattern_from_str_iff)

section \<open>The matching loop decides the declarative meaning\<close>

lemma path_matches_from_drop:
  "uidx \<le> length path \<Longrightarrow>
   path_matches_from pattern path pidx uidx = path_denotes (drop pidx pattern) (drop uidx path)"
proof (induction pattern path pidx uidx rule: path_matches_from.induct)
  case (1 pattern path pidx uidx)
  show ?case
  proof (cases "pidx < length pattern")
    case False
    then show ?thesis using "1.prems" by (auto simp: path_matches_from.simps)
  next
    case True
    then have pat: "drop pidx pattern = pattern ! pidx # drop (Suc pidx) pattern"
      by (simp add: Cons_nth_drop_Suc)
    show ?thesis
    proof (cases "uidx < length path")
      case uidx: True
      then have "drop uidx path = path ! uidx # drop (Suc uidx) path"
        by (simp add: Cons_nth_drop_Suc)
      with pat True uidx "1.IH" show ?thesis
        by (subst path_matches_from.simps) (auto split: path_pattern.splits)
    next
      case False
      with pat True show ?thesis
        by (subst path_matches_from.simps) (auto split: path_pattern.splits)
    qed
  qed
qed

lemma path_matches_denotes: "path_matches pattern path = path_denotes pattern path"
  by (simp add: path_matches_def path_matches_from_drop)

text \<open>The literal pattern of an exact URN.\<close>

definition literal_pattern :: "resource_urn \<Rightarrow> urn_pattern" where
  "literal_pattern u = \<lparr>up_partition = SegExact (ru_partition u), up_service = SegExact (ru_service u),
     up_region = SegExact (ru_region u), up_tenant = SegExact (ru_tenant u),
     up_path = map PathExact (ru_path u)\<rparr>"

lemma path_denotes_literal: "path_denotes (map PathExact xs) ys \<longleftrightarrow> ys = xs"
  by (induction xs arbitrary: ys) (auto split: list.splits)

lemma pattern_matches_literal: "pattern_matches (literal_pattern u) v \<longleftrightarrow> v = u"
  by (cases u; cases v)
    (auto simp: pattern_matches_def literal_pattern_def path_matches_denotes path_denotes_literal)

lemma literal_pattern_to_string: "pattern_to_string (literal_pattern u) = urn_to_string u"
  by (simp add: pattern_to_string_def urn_to_string_def literal_pattern_def comp_def)

lemma wf_path_patterns_literal:
  "wf_path_patterns (map PathExact xs) \<longleftrightarrow> (\<forall>s \<in> set xs. wf_segment s \<and> CHR ''/'' \<notin> set s)"
  by (induction xs) auto

lemma wf_literal_pattern:
  "wf_urn u \<Longrightarrow> wf_pattern (literal_pattern u) \<longleftrightarrow> (\<forall>s \<in> set (ru_path u). CHR ''*'' \<notin> set s)"
  by (auto simp: wf_pattern_def wf_urn_def literal_pattern_def wf_path_patterns_literal
    list_all_iff wf_segment_def wf_urn_path_segment_def)

text \<open>A globstar pattern covers the resource itself and everything below it.\<close>

lemma path_denotes_globstar:
  "path_denotes (map PathExact xs @ [GlobStar]) ys \<longleftrightarrow> prefix xs ys"
  by (induction xs arbitrary: ys) (auto split: list.splits)

section \<open>Properties\<close>

text \<open>
  Parsing and printing exact resource URNs are inverse to each other: a string parses to
  a URN if and only if it is the printed form of that URN and the URN is well-formed, so every
  other string is rejected and no two strings denote the same resource.
\<close>

theorem urn_parse_print_inverse:
  "urn_from_str s = Inr u \<longleftrightarrow> wf_urn u \<and> s = urn_to_string u"
  by (rule urn.parse_iff)

text \<open>
  The same for URN patterns: the text form in which the decision point sends resource
  patterns to the services loses nothing.
\<close>

theorem pattern_parse_print_inverse:
  "pattern_from_str s = Inr p \<longleftrightarrow> wf_pattern p \<and> s = pattern_to_string p"
  by (rule pattern.parse_iff)

text \<open>
  Claim C32. The matching loop with its two running indices decides the declarative meaning of a
  path pattern: a literal matches the equal segment, \<open>*\<close> matches any one segment and a final
  \<open>**\<close> matches any number of remaining segments, none included.
\<close>

theorem path_matches_meaning:
  "path_matches pattern path = path_denotes pattern path"
  by (rule path_matches_denotes)

text \<open>
  The text of an exact URN without stars, read as a pattern, is accepted and matches
  that resource and no other.
\<close>

theorem exact_urn_matches_only_itself:
  assumes "urn_from_str s = Inr u" and "\<forall>seg \<in> set (ru_path u). CHR ''*'' \<notin> set seg"
  shows "\<exists>p. pattern_from_str s = Inr p \<and> (\<forall>v. pattern_matches p v \<longleftrightarrow> v = u)"
proof -
  have u: "wf_urn u" "s = pattern_to_string (literal_pattern u)"
    using assms(1) by (simp_all add: urn.parse_iff literal_pattern_to_string)
  with assms(2) have "wf_pattern (literal_pattern u)" by (simp add: wf_literal_pattern)
  then have "pattern_from_str s = Inr (literal_pattern u)" using u(2) by (simp add: pattern.parse_print)
  with pattern_matches_literal show ?thesis by blast
qed

theorem exact_urn_matches_only_itself_witness:
  "\<exists>p. pattern_from_str ''urn:iam:prod:cg:global:acme:job/1'' = Inr p \<and>
     (\<forall>v. pattern_matches p v \<longleftrightarrow> v = \<lparr>ru_partition = ''prod'', ru_service = ''cg'',
        ru_region = ''global'', ru_tenant = ''acme'', ru_path = [''job'', ''1'']\<rparr>)"
proof (rule exact_urn_matches_only_itself)
  show "urn_from_str ''urn:iam:prod:cg:global:acme:job/1'' = Inr \<lparr>ru_partition = ''prod'',
      ru_service = ''cg'', ru_region = ''global'', ru_tenant = ''acme'', ru_path = [''job'', ''1'']\<rparr>"
    by code_simp
qed simp

end
