(* ===== verification/Sql_Scope.thy ===== *)
theory Sql_Scope
  imports Urn
begin

text \<open>
  Compilation of resource scopes to SQL predicates (\<open>common/src/utils/sql.rs\<close>). A mapping says which
  columns of a table hold the segments of the resource URN of a row; the compiler turns allow and deny
  patterns into the text of a \<open>WHERE\<close> clause and its positional parameters. The lemmas give the text the
  meaning of SQL and show which rows it selects.
\<close>

section \<open>Data\<close>

text \<open>The second error carries the pattern itself; the source stores its debug text.\<close>

datatype sql_compile_error =
    InvalidPattern string
  | UnsupportedRemainderPattern "path_pattern list"

record sql_scope =
  where_clause :: string
  params :: "string list"

definition deny_all :: sql_scope where
  "deny_all = \<lparr>where_clause = ''0=1'', params = []\<rparr>"

definition allow_all :: sql_scope where
  "allow_all = \<lparr>where_clause = ''1=1'', params = []\<rparr>"

datatype segment_map = MapConst string | MapColumn string

datatype path_map = PathLiteral string | PathColumn string | RemainderColumn string

record resource_sql_mapping =
  sm_partition :: segment_map
  sm_service :: segment_map
  sm_region :: segment_map
  sm_tenant :: segment_map
  sm_path :: "path_map list"

section \<open>Compilation\<close>

text \<open>The two vectors the functions of the compiler push to: the clauses and the parameters.\<close>

type_synonym sql_acc = "string list \<times> string list"

definition push_clause :: "string \<Rightarrow> string list \<Rightarrow> sql_acc \<Rightarrow> sql_acc" where
  "push_clause clause vs acc = (fst acc @ [clause], snd acc @ vs)"

definition eq_clause :: "string \<Rightarrow> string" where
  "eq_clause column = column @ '' = ?''"

definition under_clause :: "string \<Rightarrow> string" where
  "under_clause column = ''('' @ column @ '' = ? OR '' @ column @ '' LIKE ?)''"

fun compile_segment :: "segment_map \<Rightarrow> segment_pattern \<Rightarrow> sql_acc \<Rightarrow> bool \<times> sql_acc" where
  "compile_segment m SegAny acc = (True, acc)"
| "compile_segment (MapConst expected) (SegExact v) acc = (expected = v, acc)"
| "compile_segment (MapColumn column) (SegExact v) acc = (True, push_clause (eq_clause column) [v] acc)"

definition exact_value :: "path_pattern list \<Rightarrow> path_pattern \<Rightarrow> (sql_compile_error, string) result" where
  "exact_value remaining segment =
     (case segment of PathExact v \<Rightarrow> Inr v | _ \<Rightarrow> Inl (UnsupportedRemainderPattern remaining))"

definition compile_remainder ::
  "string \<Rightarrow> path_pattern list \<Rightarrow> sql_acc \<Rightarrow> (sql_compile_error, sql_acc) result" where
  "compile_remainder column remaining acc =
     (if remaining = [] then Inr acc
      else if remaining = [GlobStar] then Inr acc
      else if PathAny \<in> set remaining then Inl (UnsupportedRemainderPattern remaining)
      else if last remaining = GlobStar then
        and_then (traverse (exact_value remaining) (butlast remaining)) (\<lambda>segments.
          let path = join ''/'' segments in
          if path \<noteq> [] then Inr (push_clause (under_clause column) [path, path @ ''/%''] acc)
          else Inr acc)
      else and_then (traverse (exact_value remaining) remaining) (\<lambda>segments.
        Inr (push_clause (eq_clause column) [join ''/'' segments] acc)))"

text \<open>\<open>slice::get\<close>.\<close>

definition get_at :: "'a list \<Rightarrow> nat \<Rightarrow> 'a option" where
  "get_at xs i = (if i < length xs then Some (xs ! i) else None)"

text \<open>The loop of \<open>compile_path\<close> over the mapping, with the index into the pattern.\<close>

fun compile_path_from ::
  "path_pattern list \<Rightarrow> path_map list \<Rightarrow> nat \<Rightarrow> sql_acc \<Rightarrow> (sql_compile_error, bool \<times> sql_acc) result" where
  "compile_path_from pattern [] pidx acc = Inr (pidx = length pattern \<or> drop pidx pattern = [GlobStar], acc)"
| "compile_path_from pattern (mapping # rest) pidx acc =
     (if get_at pattern pidx = Some GlobStar then Inr (True, acc)
      else case mapping of
        PathLiteral expected \<Rightarrow>
          (case get_at pattern pidx of
             None \<Rightarrow> Inr (False, acc)
           | Some (PathExact v) \<Rightarrow> if v = expected then compile_path_from pattern rest (pidx + 1) acc else Inr (False, acc)
           | Some PathAny \<Rightarrow> compile_path_from pattern rest (pidx + 1) acc
           | Some GlobStar \<Rightarrow> Inr (True, acc))
      | PathColumn column \<Rightarrow>
          (case get_at pattern pidx of
             None \<Rightarrow> Inr (False, acc)
           | Some (PathExact v) \<Rightarrow> compile_path_from pattern rest (pidx + 1) (push_clause (eq_clause column) [v] acc)
           | Some PathAny \<Rightarrow> compile_path_from pattern rest (pidx + 1) acc
           | Some GlobStar \<Rightarrow> Inr (True, acc))
      | RemainderColumn column \<Rightarrow>
          and_then (compile_remainder column (drop pidx pattern) acc) (\<lambda>acc'. Inr (True, acc')))"

definition compile_path ::
  "resource_sql_mapping \<Rightarrow> path_pattern list \<Rightarrow> sql_acc \<Rightarrow> (sql_compile_error, bool \<times> sql_acc) result" where
  "compile_path m pattern acc = compile_path_from pattern (sm_path m) 0 acc"

definition compile_pattern ::
  "resource_sql_mapping \<Rightarrow> urn_pattern \<Rightarrow> (sql_compile_error, sql_scope option) result" where
  "compile_pattern m p =
     (case compile_segment (sm_partition m) (up_partition p) ([], []) of
        (False, _) \<Rightarrow> Inr None
      | (True, acc) \<Rightarrow>
     (case compile_segment (sm_service m) (up_service p) acc of
        (False, _) \<Rightarrow> Inr None
      | (True, acc) \<Rightarrow>
     (case compile_segment (sm_region m) (up_region p) acc of
        (False, _) \<Rightarrow> Inr None
      | (True, acc) \<Rightarrow>
     (case compile_segment (sm_tenant m) (up_tenant p) acc of
        (False, _) \<Rightarrow> Inr None
      | (True, acc) \<Rightarrow>
          and_then (compile_path m (up_path p) acc) (\<lambda>(matched, clauses, vs).
            if \<not> matched then Inr None
            else if clauses = [] then Inr (Some allow_all)
            else Inr (Some \<lparr>where_clause = join '' AND '' clauses, params = vs\<rparr>))))))"

definition or_scopes :: "sql_scope list \<Rightarrow> sql_scope" where
  "or_scopes scopes =
     (if length scopes = 1 then scopes ! 0
      else if list_ex (\<lambda>s. where_clause s = ''1=1'') scopes then allow_all
      else \<lparr>where_clause = join '' OR '' (map (\<lambda>s. ''('' @ where_clause s @ '')'') scopes),
            params = concat (map params scopes)\<rparr>)"

fun compile_allow ::
  "resource_sql_mapping \<Rightarrow> urn_pattern list \<Rightarrow> sql_scope list \<Rightarrow> (sql_compile_error, sql_scope list) result" where
  "compile_allow m [] scopes = Inr scopes"
| "compile_allow m (p # ps) scopes =
     and_then (compile_pattern m p) (\<lambda>compiled.
       compile_allow m ps (case compiled of Some s \<Rightarrow> scopes @ [s] | None \<Rightarrow> scopes))"

fun compile_deny :: "resource_sql_mapping \<Rightarrow> urn_pattern list \<Rightarrow> sql_scope \<Rightarrow> (sql_compile_error, sql_scope) result" where
  "compile_deny m [] scope = Inr scope"
| "compile_deny m (p # ps) scope =
     and_then (compile_pattern m p) (\<lambda>compiled.
       case compiled of
         None \<Rightarrow> compile_deny m ps scope
       | Some d \<Rightarrow>
           if where_clause d = ''1=1'' then Inr deny_all
           else compile_deny m ps
             \<lparr>where_clause = ''('' @ where_clause scope @ '') AND NOT ('' @ where_clause d @ '')'',
              params = params scope @ params d\<rparr>)"

definition compile_scope ::
  "resource_sql_mapping \<Rightarrow> urn_pattern list \<Rightarrow> urn_pattern list \<Rightarrow> (sql_compile_error, sql_scope) result" where
  "compile_scope m allow deny =
     and_then (compile_allow m allow []) (\<lambda>allow_scopes.
       if allow_scopes = [] then Inr deny_all
       else compile_deny m deny (or_scopes allow_scopes))"

definition parse_patterns :: "string list \<Rightarrow> (sql_compile_error, urn_pattern list) result" where
  "parse_patterns = traverse (\<lambda>s. map_err (\<lambda>e. InvalidPattern (urn_error_to_string e)) (pattern_from_str s))"

definition compile_scope_strs ::
  "resource_sql_mapping \<Rightarrow> string list \<Rightarrow> string list \<Rightarrow> (sql_compile_error, sql_scope) result" where
  "compile_scope_strs m allow deny =
     and_then (parse_patterns allow) (\<lambda>allow_patterns.
     and_then (parse_patterns deny) (\<lambda>deny_patterns.
       compile_scope m allow_patterns deny_patterns))"

section \<open>The meaning of the predicates\<close>

text \<open>
  The predicates the compiler builds, with their parameters in place: their text, their parameters in the
  order of the question marks, and the rows they select. \<open>like\<close> is the \<open>LIKE\<close> operator of the database.
\<close>

datatype sql_pred =
    SqlTrue
  | SqlFalse
  | SqlEq string string
  | SqlUnder string string
  | SqlAnd "sql_pred list"
  | SqlOr "sql_pred list"
  | SqlExcept sql_pred sql_pred

type_synonym row = "string \<Rightarrow> string"

fun render :: "sql_pred \<Rightarrow> string" where
  "render SqlTrue = ''1=1''"
| "render SqlFalse = ''0=1''"
| "render (SqlEq column v) = eq_clause column"
| "render (SqlUnder column v) = under_clause column"
| "render (SqlAnd qs) = join '' AND '' (map render qs)"
| "render (SqlOr qs) = join '' OR '' (map (\<lambda>q. ''('' @ render q @ '')'') qs)"
| "render (SqlExcept q r) = ''('' @ render q @ '') AND NOT ('' @ render r @ '')''"

fun binds :: "sql_pred \<Rightarrow> string list" where
  "binds (SqlEq column v) = [v]"
| "binds (SqlUnder column v) = [v, v @ ''/%'']"
| "binds (SqlAnd qs) = concat (map binds qs)"
| "binds (SqlOr qs) = concat (map binds qs)"
| "binds (SqlExcept q r) = binds q @ binds r"
| "binds _ = []"

fun selects :: "(string \<Rightarrow> string \<Rightarrow> bool) \<Rightarrow> sql_pred \<Rightarrow> row \<Rightarrow> bool" where
  "selects like SqlTrue row = True"
| "selects like SqlFalse row = False"
| "selects like (SqlEq column v) row = (row column = v)"
| "selects like (SqlUnder column v) row = (row column = v \<or> like (v @ ''/%'') (row column))"
| "selects like (SqlAnd qs) row = list_all (\<lambda>q. selects like q row) qs"
| "selects like (SqlOr qs) row = list_ex (\<lambda>q. selects like q row) qs"
| "selects like (SqlExcept q r) row = (selects like q row \<and> \<not> selects like r row)"

text \<open>
  The \<open>LIKE\<close> operators of the engines: \<open>%\<close> stands for any text and \<open>_\<close> for one character (a byte and its UTF-8
  continuation bytes). SQLite compares ASCII letters without their case and has no escape character unless the
  statement names one; PostgreSQL compares exactly, and the backslash makes the next character literal.
\<close>

function like_with :: "(char \<Rightarrow> char) \<Rightarrow> bool \<Rightarrow> string \<Rightarrow> string \<Rightarrow> bool" where
  "like_with f escape [] s = (s = [])"
| "like_with f escape (p # ps) s =
     (if p = CHR ''%'' then like_with f escape ps s \<or> (case s of [] \<Rightarrow> False | _ # t \<Rightarrow> like_with f escape (p # ps) t)
      else if p = CHR ''_'' then (case s of [] \<Rightarrow> False | _ # t \<Rightarrow> like_with f escape ps (dropWhile is_continuation t))
      else if escape \<and> p = CHR 0x5C then
        (case ps of [] \<Rightarrow> False
         | q # qs \<Rightarrow> (case s of [] \<Rightarrow> False | c # t \<Rightarrow> f q = f c \<and> like_with f escape qs t))
      else (case s of [] \<Rightarrow> False | c # t \<Rightarrow> f p = f c \<and> like_with f escape ps t))"
  by pat_completeness auto
termination
  by (relation "measure (\<lambda>(f, escape, p, s). length p + length s)") (auto simp: less_Suc_eq_le intro: le_SucI length_dropWhile_le)

declare like_with.simps [simp del]

definition sqlite_like :: "string \<Rightarrow> string \<Rightarrow> bool" where
  "sqlite_like = like_with to_ascii_lower False"

definition postgres_like :: "string \<Rightarrow> string \<Rightarrow> bool" where
  "postgres_like = like_with (\<lambda>c. c) True"

text \<open>The resource of a row.\<close>

fun segment_value :: "segment_map \<Rightarrow> row \<Rightarrow> string" where
  "segment_value (MapConst v) row = v"
| "segment_value (MapColumn column) row = row column"

fun path_values :: "path_map \<Rightarrow> row \<Rightarrow> string list" where
  "path_values (PathLiteral v) row = [v]"
| "path_values (PathColumn column) row = [row column]"
| "path_values (RemainderColumn column) row = split_on CHR ''/'' (row column)"

definition row_urn :: "resource_sql_mapping \<Rightarrow> row \<Rightarrow> resource_urn" where
  "row_urn m row = \<lparr>ru_partition = segment_value (sm_partition m) row, ru_service = segment_value (sm_service m) row,
     ru_region = segment_value (sm_region m) row, ru_tenant = segment_value (sm_tenant m) row,
     ru_path = concat (map (\<lambda>x. path_values x row) (sm_path m))\<rparr>"

text \<open>
  The patterns that the compiler represents exactly: where the mapping ends in a remainder column, the
  pattern reaches into the remainder, and a prefix it compares by \<open>LIKE\<close> has only characters that the operator
  takes literally (\<open>plain\<close>).
\<close>

fun like_safe :: "(char \<Rightarrow> bool) \<Rightarrow> path_pattern \<Rightarrow> bool" where
  "like_safe plain (PathExact v) = list_all plain v"
| "like_safe plain _ = True"

fun pushes_down :: "(char \<Rightarrow> bool) \<Rightarrow> path_map list \<Rightarrow> path_pattern list \<Rightarrow> bool" where
  "pushes_down plain [] ps = True"
| "pushes_down plain (RemainderColumn column # rest) ps =
     (rest = [] \<and> ps \<noteq> [] \<and> (last ps = GlobStar \<longrightarrow> list_all (like_safe plain) ps))"
| "pushes_down plain (x # rest) [] = True"
| "pushes_down plain (x # rest) (GlobStar # ps) = True"
| "pushes_down plain (x # rest) (p # ps) = pushes_down plain rest ps"

subsection \<open>What an engine promises\<close>

text \<open>
  An operator that compares a prefix exactly: \<open>v/%\<close> matches what begins with \<open>v/\<close>, for every prefix of \<open>plain\<close> characters.
  Where an engine does so only for values of \<open>stored\<close> characters (SQLite, whose operator cannot tell the cases apart),
  the compiled clauses are exact on the rows that hold such values.
\<close>

locale prefix_like =
  fixes like :: "string \<Rightarrow> string \<Rightarrow> bool" and plain :: "char \<Rightarrow> bool"
  assumes plain_slash: "plain CHR ''/''"
    and like_prefix: "list_all plain v \<Longrightarrow> like (v @ ''/%'') s \<longleftrightarrow> (\<exists>t. s = v @ CHR ''/'' # t)"

locale stored_like =
  fixes like :: "string \<Rightarrow> string \<Rightarrow> bool" and plain :: "char \<Rightarrow> bool" and stored :: "char \<Rightarrow> bool"
  assumes slash_plain: "plain CHR ''/''"
    and like_stored: "list_all plain v \<Longrightarrow> list_all stored s \<Longrightarrow> like (v @ ''/%'') s \<longleftrightarrow> (\<exists>t. s = v @ CHR ''/'' # t)"

definition under_text :: "string \<Rightarrow> string \<Rightarrow> bool" where
  "under_text p s \<longleftrightarrow> (\<exists>v t. p = v @ ''/%'' \<and> s = v @ CHR ''/'' # t)"

sublocale stored_like \<subseteq> exact: prefix_like "\<lambda>p s. if list_all stored s then like p s else under_text p s" plain
  by unfold_locales (auto simp: slash_plain like_stored under_text_def)

definition stored_row :: "(char \<Rightarrow> bool) \<Rightarrow> row \<Rightarrow> bool" where
  "stored_row stored row \<longleftrightarrow> (\<forall>column. list_all stored (row column))"

section \<open>Lemmas\<close>

subsection \<open>Text of the predicates\<close>

text \<open>An accumulator holds the text and the parameters of a list of predicates.\<close>

definition acc_of :: "sql_pred list \<Rightarrow> sql_acc" where
  "acc_of qs = (map render qs, concat (map binds qs))"

definition scope_of :: "sql_pred \<Rightarrow> sql_scope" where
  "scope_of q = \<lparr>where_clause = render q, params = binds q\<rparr>"

fun atomic :: "sql_pred \<Rightarrow> bool" where
  "atomic (SqlEq column v) = True"
| "atomic (SqlUnder column v) = True"
| "atomic _ = False"

fun conjunctive :: "sql_pred \<Rightarrow> bool" where
  "conjunctive SqlTrue = True"
| "conjunctive (SqlAnd qs) = (qs \<noteq> [] \<and> list_all atomic qs)"
| "conjunctive _ = False"

lemma push_clause_acc [simp]:
  "push_clause (eq_clause column) [v] (acc_of qs) = acc_of (qs @ [SqlEq column v])"
  "push_clause (under_clause column) [v, v @ ''/%''] (acc_of qs) = acc_of (qs @ [SqlUnder column v])"
  by (simp_all add: push_clause_def acc_of_def)

lemma acc_of_Nil: "acc_of [] = ([], [])"
  by (simp add: acc_of_def)

lemma scope_of_simps [simp]:
  "where_clause (scope_of q) = render q" "params (scope_of q) = binds q"
  "deny_all = scope_of SqlFalse" "allow_all = scope_of SqlTrue"
  by (simp_all add: scope_of_def deny_all_def allow_all_def)

lemma last_join: "ps \<noteq> [] \<Longrightarrow> last ps \<noteq> [] \<Longrightarrow> last (join sep ps) = last (last ps)"
proof (induction ps)
  case (Cons p ps)
  show ?case
  proof (cases "ps = []")
    case False
    then have "join sep ps \<noteq> []"
      using set_join_pieces [of "last ps" ps sep] Cons.prems by (metis last_ConsR last_in_set set_empty subset_empty)
    then show ?thesis using Cons False by (simp add: join_Cons)
  qed (use Cons in simp)
qed simp

lemma render_atomic_last: "atomic q \<Longrightarrow> render q \<noteq> [] \<and> last (render q) \<noteq> CHR ''1''"
  by (cases q) (simp_all add: eq_clause_def under_clause_def)

lemma render_conjunctive_true: "conjunctive q \<Longrightarrow> render q = ''1=1'' \<longleftrightarrow> q = SqlTrue"
proof (cases q)
  case (SqlAnd qs)
  assume "conjunctive q"
  then have "qs \<noteq> []" "atomic (last qs)" using SqlAnd by (auto simp: list_all_iff)
  then have "last (render q) \<noteq> CHR ''1''"
    using SqlAnd last_join [of "map render qs" "'' AND ''"] render_atomic_last [of "last qs"] by (simp add: last_map)
  then show ?thesis using SqlAnd by auto
qed simp_all

subsection \<open>Segments and remainders\<close>

lemma compile_segment_cases:
  assumes "compile_segment m p (acc_of qs) = (b, acc)"
  obtains (no) "\<not> b" "\<And>row. \<not> segment_matches p (segment_value m row)"
  | (yes) rs where "b" "acc = acc_of (qs @ rs)" "list_all atomic rs"
      "\<And>row. list_all (\<lambda>q. selects like q row) rs \<longleftrightarrow> segment_matches p (segment_value m row)"
proof (cases p)
  case SegAny
  show thesis by (rule yes [of "[]"]) (use assms SegAny in simp_all)
next
  case (SegExact v)
  show thesis
  proof (cases m)
    case (MapConst w)
    show thesis
    proof (cases b)
      case True
      show thesis by (rule yes [of "[]"]) (use assms SegExact MapConst True in auto)
    qed (rule no, use assms SegExact MapConst in auto)
  next
    case (MapColumn column)
    show thesis by (rule yes [of "[SqlEq column v]"]) (use assms SegExact MapColumn in auto)
  qed
qed

lemma exact_value_traverse: "traverse (exact_value r) ps = Inr vs \<Longrightarrow> ps = map PathExact vs"
proof (induction ps arbitrary: vs)
  case (Cons p ps)
  then show ?case by (cases p) (auto simp: exact_value_def result_simps)
qed simp

lemma path_denotes_under: "path_denotes (map PathExact vs @ [GlobStar]) path \<longleftrightarrow> take (length vs) path = vs"
  by (induction vs arbitrary: path) (auto split: list.splits)

lemma join_append: "vs \<noteq> [] \<Longrightarrow> ws \<noteq> [] \<Longrightarrow> join sep (vs @ ws) = join sep vs @ sep @ join sep ws"
proof (induction vs)
  case (Cons v vs)
  then show ?case by (cases "vs = []") (simp_all add: join_Cons)
qed simp

lemma split_on_under:
  assumes "vs \<noteq> []" "\<forall>v \<in> set vs. CHR ''/'' \<notin> set v"
  shows "(s = join ''/'' vs \<or> (\<exists>t. s = join ''/'' vs @ CHR ''/'' # t)) \<longleftrightarrow> take (length vs) (split_on CHR ''/'' s) = vs"
proof
  assume "s = join ''/'' vs \<or> (\<exists>t. s = join ''/'' vs @ CHR ''/'' # t)"
  then consider "s = join ''/'' vs" | t where "s = join ''/'' (vs @ split_on CHR ''/'' t)"
    using join_split_on [of "CHR ''/''"] join_append [OF assms(1) split_on_not_Nil, of "''/''"] by auto
  then show "take (length vs) (split_on CHR ''/'' s) = vs"
  proof cases
    case 1
    then show ?thesis using split_on_join [of vs "CHR ''/''"] assms by simp
  next
    case (2 t)
    have "split_on CHR ''/'' s = vs @ split_on CHR ''/'' t"
      unfolding 2 using assms split_on_pieces by (intro split_on_join) auto
    then show ?thesis by simp
  qed
next
  let ?ps = "split_on CHR ''/'' s"
  assume "take (length vs) ?ps = vs"
  then obtain ws where ws: "?ps = vs @ ws" by (metis append_take_drop_id)
  have "s = join ''/'' ?ps" using join_split_on [of "CHR ''/''" s] by simp
  then show "s = join ''/'' vs \<or> (\<exists>t. s = join ''/'' vs @ CHR ''/'' # t)"
    unfolding ws using join_append [OF assms(1), of ws "''/''"] by (cases "ws = []") auto
qed

lemma join_not_Nil: "v \<in> set vs \<Longrightarrow> v \<noteq> [] \<Longrightarrow> join sep vs \<noteq> []"
  using set_join_pieces [of v vs sep] by auto

lemma wf_exact: "wf_path_patterns (map PathExact vs @ ps) \<Longrightarrow> v \<in> set vs \<Longrightarrow> v \<noteq> [] \<and> CHR ''/'' \<notin> set v"
  by (induction vs) (auto simp: wf_segment_def)

lemma join_plain: "P CHR ''/'' \<Longrightarrow> (\<And>v. v \<in> set vs \<Longrightarrow> list_all P v) \<Longrightarrow> list_all P (join ''/'' vs)"
  using set_join [of "''/''" vs] by (auto simp: list_all_iff)

context prefix_like
begin

lemma compile_remainder_meaning:
  assumes "wf_path_patterns ps" "ps \<noteq> []" "last ps = GlobStar \<longrightarrow> list_all (like_safe plain) ps"
    and "compile_remainder column ps (acc_of qs) = Inr acc"
  obtains rs where "acc = acc_of (qs @ rs)" "list_all atomic rs"
    "\<And>row. list_all (\<lambda>q. selects like q row) rs \<longleftrightarrow> path_denotes ps (split_on CHR ''/'' (row column))"
proof (cases "ps = [GlobStar]")
  case True
  show thesis by (rule that [of "[]"]) (use assms True in \<open>simp_all add: compile_remainder_def\<close>)
next
  case False
  have any: "PathAny \<notin> set ps" using assms(2,4) False by (auto simp: compile_remainder_def)
  show thesis
  proof (cases "last ps = GlobStar")
    case True
    obtain vs where vs: "traverse (exact_value ps) (butlast ps) = Inr vs"
      "(if join ''/'' vs \<noteq> [] then Inr (push_clause (under_clause column) [join ''/'' vs, join ''/'' vs @ ''/%''] (acc_of qs))
        else Inr (acc_of qs)) = (Inr acc :: (sql_compile_error, sql_acc) result)"
      using assms(4) unfolding compile_remainder_def if_not_P [OF assms(2)] if_not_P [OF False] if_not_P [OF any] if_P [OF True]
        and_then_eq_Inr Let_def by blast
    have ps: "ps = map PathExact vs @ [GlobStar]"
      using exact_value_traverse [OF vs(1)] append_butlast_last_id [OF assms(2)] True by metis
    then have ne: "vs \<noteq> []" using False by auto
    have pieces: "v \<noteq> [] \<and> CHR ''/'' \<notin> set v" if "v \<in> set vs" for v
      using wf_exact assms(1) that unfolding ps by blast
    have safe: "list_all plain (join ''/'' vs)"
      using assms(3) True plain_slash unfolding ps by (intro join_plain) (auto simp: list_all_iff)
    have "join ''/'' vs \<noteq> []" using join_not_Nil [of "hd vs" vs] pieces [of "hd vs"] ne by simp
    then have "acc = acc_of (qs @ [SqlUnder column (join ''/'' vs)])" using vs(2) by simp
    moreover have "selects like (SqlUnder column (join ''/'' vs)) row \<longleftrightarrow> path_denotes ps (split_on CHR ''/'' (row column))" for row
    proof -
      have "like (join ''/'' vs @ ''/%'') (row column) \<longleftrightarrow> (\<exists>t. row column = join ''/'' vs @ CHR ''/'' # t)"
        using safe by (rule like_prefix)
      then show ?thesis unfolding ps path_denotes_under selects.simps
        using split_on_under [OF ne, of "row column"] pieces by blast
    qed
    ultimately show thesis by (intro that [of "[SqlUnder column (join ''/'' vs)]"]) simp_all
  next
    case noglob: False
    obtain vs where vs: "traverse (exact_value ps) ps = Inr vs" "acc = push_clause (eq_clause column) [join ''/'' vs] (acc_of qs)"
      using assms(2,4) False noglob by (auto simp: compile_remainder_def result_simps split: if_splits)
    have ps: "ps = map PathExact vs" using exact_value_traverse [OF vs(1)] .
    have "v \<noteq> [] \<and> CHR ''/'' \<notin> set v" if "v \<in> set vs" for v
      using wf_exact [of vs "[]"] assms(1) that unfolding ps by simp
    then have "row column = join ''/'' vs \<longleftrightarrow> split_on CHR ''/'' (row column) = vs" for row :: row
      using split_on_join [of vs "CHR ''/''"] join_split_on [of "CHR ''/''" "row column"] assms(2) unfolding ps by auto
    then show thesis using vs(2) by (intro that [of "[SqlEq column (join ''/'' vs)]"]) (simp_all add: ps path_denotes_literal)
  qed
qed

end

subsection \<open>Patterns\<close>

lemma get_at_drop: "get_at xs i = (case drop i xs of [] \<Rightarrow> None | x # _ \<Rightarrow> Some x)"
proof (cases "i < length xs")
  case True
  then show ?thesis by (simp add: get_at_def Cons_nth_drop_Suc [symmetric])
qed (simp add: get_at_def)

lemma drop_Cons_Suc: "drop i xs = x # rest \<Longrightarrow> drop (i + 1) xs = rest"
  by (metis Suc_eq_plus1 drop_Suc list.sel(3) tl_drop)

definition row_path :: "path_map list \<Rightarrow> row \<Rightarrow> string list" where
  "row_path maps row = concat (map (\<lambda>x. path_values x row) maps)"

lemma row_path_simps [simp]:
  "row_path [] row = []" "row_path (x # maps) row = path_values x row @ row_path maps row"
  by (simp_all add: row_path_def)

text \<open>What a run of the loop leaves: the clauses it added, or the proof that no row matches.\<close>

definition compiles :: "(string \<Rightarrow> string \<Rightarrow> bool) \<Rightarrow> sql_pred list \<Rightarrow> bool \<times> sql_acc \<Rightarrow> (row \<Rightarrow> bool) \<Rightarrow> bool" where
  "compiles like qs out matches \<longleftrightarrow>
     (if fst out then \<exists>rs. snd out = acc_of (qs @ rs) \<and> list_all atomic rs \<and>
        (\<forall>row. list_all (\<lambda>q. selects like q row) rs \<longleftrightarrow> matches row)
      else \<forall>row. \<not> matches row)"

lemma compiles_done: "(\<And>row. matches row) \<Longrightarrow> compiles like qs (True, acc_of qs) matches"
  by (auto simp: compiles_def intro: exI [of _ "[]"])

lemma compiles_never: "(\<And>row. \<not> matches row) \<Longrightarrow> compiles like qs (False, acc) matches"
  by (simp add: compiles_def)

lemma compiles_push:
  "compiles like (qs @ [q]) out matches \<Longrightarrow> atomic q \<Longrightarrow> compiles like qs out (\<lambda>row. selects like q row \<and> matches row)"
  unfolding compiles_def
  by (cases "fst out") (auto intro: exI [of _ "q # rs" for rs])

context prefix_like
begin

lemma compile_path_from_meaning:
  assumes "compile_path_from pattern maps pidx (acc_of qs) = Inr out"
    and "wf_path_patterns (drop pidx pattern)" "pidx \<le> length pattern" "pushes_down plain maps (drop pidx pattern)"
  shows "compiles like qs out (\<lambda>row. path_denotes (drop pidx pattern) (row_path maps row))"
  using assms
proof (induction maps arbitrary: pidx qs)
  case Nil
  then have out: "out = (drop pidx pattern = [] \<or> drop pidx pattern = [GlobStar], acc_of qs)" by auto
  show ?case
  proof (cases "drop pidx pattern = [] \<or> drop pidx pattern = [GlobStar]")
    case True
    then show ?thesis unfolding out by (auto intro: compiles_done)
  next
    case False
    then have "\<not> path_denotes (drop pidx pattern) []"
      using Nil.prems(2) by (cases "drop pidx pattern"; cases "hd (drop pidx pattern)") auto
    then show ?thesis unfolding out using False by (auto intro: compiles_never)
  qed
next
  case (Cons x maps)
  show ?case
  proof (cases "drop pidx pattern")
    case Nil
    then have get: "get_at pattern pidx = None" by (simp add: get_at_drop)
    show ?thesis
    proof (cases x)
      case (RemainderColumn column)
      then show ?thesis using Cons.prems(4) Nil by simp
    qed (use Cons.prems(1) get Nil in \<open>auto intro: compiles_never\<close>)
  next
    case (Cons p ps)
    note drop = this
    then have get: "get_at pattern pidx = Some p" by (simp add: get_at_drop)
    have rest: "drop (pidx + 1) pattern = ps" using drop by (rule drop_Cons_Suc)
    have le: "pidx + 1 \<le> length pattern" using drop by (metis Suc_eq_plus1 Suc_leI drop_eq_Nil list.distinct(1) not_le)
    have wf': "p \<noteq> GlobStar \<Longrightarrow> wf_path_patterns ps" using Cons.prems(2) drop by (cases p) simp_all
    show ?thesis
    proof (cases x)
      case (RemainderColumn column)
      then have push: "maps = []" "last (p # ps) = GlobStar \<longrightarrow> list_all (like_safe plain) (p # ps)"
        using Cons.prems(4) drop by simp_all
      show ?thesis
      proof (cases "p = GlobStar")
        case True
        then have "ps = []" using Cons.prems(2) drop by simp
        then show ?thesis using Cons.prems(1) get True drop by (auto intro: compiles_done)
      next
        case False
        then obtain acc where acc: "compile_remainder column (p # ps) (acc_of qs) = Inr acc" "out = (True, acc)"
          using Cons.prems(1) get RemainderColumn drop by (auto simp: result_simps)
        obtain rs where "acc = acc_of (qs @ rs)" "list_all atomic rs"
          "\<And>row. list_all (\<lambda>q. selects like q row) rs \<longleftrightarrow> path_denotes (p # ps) (split_on CHR ''/'' (row column))"
          using compile_remainder_meaning [OF _ _ push(2) acc(1)] Cons.prems(2) drop by (metis list.distinct(1))
        then show ?thesis unfolding acc(2) drop RemainderColumn push(1) by (auto simp: compiles_def)
      qed
    next
      case (PathLiteral v)
      show ?thesis
      proof (cases p)
        case GlobStar
        then show ?thesis using Cons.prems(1,2) get drop by (auto intro: compiles_done)
      next
        case PathAny
        then have "compiles like qs out (\<lambda>row. path_denotes ps (row_path maps row))"
          using Cons.IH [of "pidx + 1" qs] Cons.prems(1,4) get PathLiteral wf' le drop unfolding rest by simp
        then show ?thesis unfolding drop PathAny PathLiteral by simp
      next
        case (PathExact w)
        show ?thesis
        proof (cases "w = v")
          case True
          then have "compiles like qs out (\<lambda>row. path_denotes ps (row_path maps row))"
            using Cons.IH [of "pidx + 1" qs] Cons.prems(1,4) get PathExact PathLiteral wf' le drop unfolding rest by simp
          then show ?thesis unfolding drop PathExact PathLiteral True by simp
        next
          case False
          then show ?thesis using Cons.prems(1) get PathExact PathLiteral drop by (auto intro: compiles_never)
        qed
      qed
    next
      case (PathColumn column)
      show ?thesis
      proof (cases p)
        case GlobStar
        then show ?thesis using Cons.prems(1,2) get drop by (auto intro: compiles_done)
      next
        case PathAny
        then have "compiles like qs out (\<lambda>row. path_denotes ps (row_path maps row))"
          using Cons.IH [of "pidx + 1" qs] Cons.prems(1,4) get PathColumn wf' le drop unfolding rest by simp
        then show ?thesis unfolding drop PathAny PathColumn by simp
      next
        case (PathExact w)
        then have "compiles like (qs @ [SqlEq column w]) out (\<lambda>row. path_denotes ps (row_path maps row))"
          using Cons.IH [of "pidx + 1" "qs @ [SqlEq column w]"] Cons.prems(1,4) get PathColumn wf' le drop unfolding rest by simp
        from compiles_push [OF this] show ?thesis unfolding drop PathExact PathColumn by simp
      qed
    qed
  qed
qed

end

lemma compile_segment_compiles:
  "compile_segment m p (acc_of qs) = out \<Longrightarrow> compiles like qs out (\<lambda>row. segment_matches p (segment_value m row))"
  by (rule compile_segment_cases [of m p qs "fst out" "snd out", where like = like]) (auto simp: compiles_def)

lemma compiles_TrueE:
  assumes "compiles like qs (True, acc) matches"
  obtains rs where "acc = acc_of (qs @ rs)"
    "\<And>out more. compiles like (qs @ rs) out more \<Longrightarrow> compiles like qs out (\<lambda>row. matches row \<and> more row)"
proof -
  obtain rs where rs: "acc = acc_of (qs @ rs)" "list_all atomic rs"
    "\<And>row. list_all (\<lambda>q. selects like q row) rs \<longleftrightarrow> matches row"
    using assms by (auto simp: compiles_def)
  have "compiles like qs out (\<lambda>row. matches row \<and> more row)" if c: "compiles like (qs @ rs) out more" for out more
  proof (cases "fst out")
    case True
    then obtain rs' where "snd out = acc_of (qs @ rs @ rs')" "list_all atomic rs'"
      "\<And>row. list_all (\<lambda>q. selects like q row) rs' \<longleftrightarrow> more row"
      using c by (auto simp: compiles_def)
    then show ?thesis using True rs by (auto simp: compiles_def intro!: exI [of _ "rs @ rs'"])
  qed (use c in \<open>simp add: compiles_def\<close>)
  with rs(1) show thesis by (rule that)
qed

text \<open>One segment of \<open>compile_pattern\<close>: no row matches, or the rest runs on with more clauses.\<close>

lemma segment_step:
  assumes "(case compile_segment m p (acc_of qs) of (False, _) \<Rightarrow> Inr None | (True, acc) \<Rightarrow> k acc) = Inr out"
  obtains (no) "out = None" "\<And>row. \<not> segment_matches p (segment_value m row)"
  | (yes) rs where "k (acc_of (qs @ rs)) = Inr out"
      "\<And>out more. compiles like (qs @ rs) out more \<Longrightarrow> compiles like qs out (\<lambda>row. segment_matches p (segment_value m row) \<and> more row)"
proof -
  obtain b acc where run: "compile_segment m p (acc_of qs) = (b, acc)" by (rule prod.exhaust)
  from compile_segment_compiles [OF this] have c: "compiles like qs (b, acc) (\<lambda>row. segment_matches p (segment_value m row))" .
  show thesis
  proof (cases b)
    case True
    with c have "compiles like qs (True, acc) (\<lambda>row. segment_matches p (segment_value m row))" by simp
    then obtain rs where rs: "acc = acc_of (qs @ rs)"
      "\<And>out more. compiles like (qs @ rs) out more \<Longrightarrow> compiles like qs out (\<lambda>row. segment_matches p (segment_value m row) \<and> more row)"
      by (rule compiles_TrueE) blast
    then show thesis using assms run True by (intro yes) auto
  next
    case False
    then show thesis using assms run c by (intro no) (auto simp: compiles_def)
  qed
qed

context prefix_like
begin

lemma compile_pattern_meaning:
  assumes "compile_pattern m p = Inr out" "wf_pattern p" "pushes_down plain (sm_path m) (up_path p)"
  shows "case out of None \<Rightarrow> (\<forall>row. \<not> pattern_matches p (row_urn m row))
    | Some s \<Rightarrow> (\<exists>q. s = scope_of q \<and> conjunctive q \<and> (\<forall>row. selects like q row \<longleftrightarrow> pattern_matches p (row_urn m row)))"
proof -
  let ?seg = "\<lambda>f g row. segment_matches (g p) (segment_value (f m) row)"
  let ?path = "\<lambda>row. path_denotes (up_path p) (row_path (sm_path m) row)"
  have urn: "pattern_matches p (row_urn m row) \<longleftrightarrow> ?seg sm_partition up_partition row \<and> ?seg sm_service up_service row \<and>
      ?seg sm_region up_region row \<and> ?seg sm_tenant up_tenant row \<and> ?path row" for row
    by (simp add: pattern_matches_def row_urn_def row_path_def path_matches_denotes)
  have wf': "wf_path_patterns (drop 0 (up_path p))" "pushes_down plain (sm_path m) (drop 0 (up_path p))"
    using assms(2,3) by (simp_all add: wf_pattern_def)
  have none: ?thesis if "out = None" "\<And>row. \<not> pattern_matches p (row_urn m row)" using that by simp
  from assms(1) [unfolded compile_pattern_def acc_of_Nil [symmetric]] show ?thesis
  proof (cases rule: segment_step [where like = like])
    case no then show ?thesis using none urn by blast
  next
    case s1: (yes rs1)
    from s1(1) show ?thesis
    proof (cases rule: segment_step [where like = like])
      case no then show ?thesis using none urn by blast
    next
      case s2: (yes rs2)
      from s2(1) show ?thesis
      proof (cases rule: segment_step [where like = like])
        case no then show ?thesis using none urn by blast
      next
        case s3: (yes rs3)
        from s3(1) show ?thesis
        proof (cases rule: segment_step [where like = like])
          case no then show ?thesis using none urn by blast
        next
          case s4: (yes rs4)
          then obtain b clauses vs where run: "compile_path_from (up_path p) (sm_path m) 0 (acc_of (((([] @ rs1) @ rs2) @ rs3) @ rs4)) = Inr (b, clauses, vs)"
            "out = (if \<not> b then None else if clauses = [] then Some allow_all
               else Some \<lparr>where_clause = join '' AND '' clauses, params = vs\<rparr>)"
            by (auto simp: result_simps compile_path_def split: if_splits)
          from compile_path_from_meaning [OF run(1) wf'(1) _ wf'(2)]
          have "compiles like [] (b, clauses, vs) (\<lambda>row. ?seg sm_partition up_partition row \<and> ?seg sm_service up_service row \<and>
              ?seg sm_region up_region row \<and> ?seg sm_tenant up_tenant row \<and> ?path row)"
            by (intro s1(2) s2(2) s3(2) s4(2)) simp
          then have c: "compiles like [] (b, clauses, vs) (\<lambda>row. pattern_matches p (row_urn m row))" unfolding urn .
          show ?thesis
          proof (cases b)
            case True
            then obtain rs where rs: "(clauses, vs) = acc_of rs" "list_all atomic rs"
              "\<And>row. list_all (\<lambda>q. selects like q row) rs \<longleftrightarrow> pattern_matches p (row_urn m row)"
              using c by (auto simp: compiles_def)
            let ?q = "if rs = [] then SqlTrue else SqlAnd rs"
            have "out = Some (scope_of ?q)" using run(2) True rs(1) by (auto simp: acc_of_def scope_of_def allow_all_def)
            moreover have "selects like ?q row \<longleftrightarrow> pattern_matches p (row_urn m row)" for row
              using rs(3) [of row] by (cases "rs = []") auto
            moreover have "conjunctive ?q" using rs(2) by simp
            ultimately show ?thesis by (simp only: option.case) blast
          qed (use run(2) c in \<open>simp add: compiles_def\<close>)
        qed
      qed
    qed
  qed
qed

end

subsection \<open>Scopes\<close>

definition represents :: "(string \<Rightarrow> string \<Rightarrow> bool) \<Rightarrow> sql_scope \<Rightarrow> (row \<Rightarrow> bool) \<Rightarrow> bool" where
  "represents like s chosen \<longleftrightarrow> (\<exists>q. s = scope_of q \<and> (\<forall>row. selects like q row \<longleftrightarrow> chosen row))"

lemma or_scopes_represents:
  assumes "qs \<noteq> []" "list_all conjunctive qs"
  shows "represents like (or_scopes (map scope_of qs)) (\<lambda>row. \<exists>q \<in> set qs. selects like q row)"
proof (cases "length qs = 1")
  case True
  then obtain q where "qs = [q]" by (metis One_nat_def length_0_conv length_Suc_conv)
  then show ?thesis by (auto simp: or_scopes_def represents_def)
next
  case False
  show ?thesis
  proof (cases "SqlTrue \<in> set qs")
    case True
    then have "or_scopes (map scope_of qs) = scope_of SqlTrue"
      using False by (auto simp: or_scopes_def list_ex_iff)
    moreover have "\<exists>q \<in> set qs. selects like q row" for row using True by (rule bexI [rotated]) simp
    ultimately show ?thesis by (auto simp: represents_def intro: exI [of _ SqlTrue])
  next
    case no: False
    have "\<not> list_ex (\<lambda>s. where_clause s = ''1=1'') (map scope_of qs)"
      using assms(2) no render_conjunctive_true by (auto simp: list_ex_iff list_all_iff)
    then have "or_scopes (map scope_of qs) = scope_of (SqlOr qs)"
      using False by (simp add: or_scopes_def scope_of_def comp_def)
    then show ?thesis unfolding represents_def by (intro exI [of _ "SqlOr qs"]) (simp add: list_ex_iff)
  qed
qed

context prefix_like
begin

lemma compile_allow_meaning:
  assumes "compile_allow m ps (map scope_of qs) = Inr scopes" "list_all conjunctive qs"
    and "\<forall>p \<in> set ps. wf_pattern p \<and> pushes_down plain (sm_path m) (up_path p)"
  shows "\<exists>rs. scopes = map scope_of rs \<and> list_all conjunctive rs \<and>
    (\<forall>row. (\<exists>q \<in> set rs. selects like q row) \<longleftrightarrow>
      (\<exists>q \<in> set qs. selects like q row) \<or> (\<exists>p \<in> set ps. pattern_matches p (row_urn m row)))"
  using assms
proof (induction ps arbitrary: qs)
  case (Cons p ps)
  then obtain out where out: "compile_pattern m p = Inr out"
    "compile_allow m ps (case out of Some s \<Rightarrow> map scope_of qs @ [s] | None \<Rightarrow> map scope_of qs) = Inr scopes"
    by (auto simp: result_simps)
  have meaning: "case out of None \<Rightarrow> (\<forall>row. \<not> pattern_matches p (row_urn m row))
    | Some s \<Rightarrow> (\<exists>q. s = scope_of q \<and> conjunctive q \<and> (\<forall>row. selects like q row \<longleftrightarrow> pattern_matches p (row_urn m row)))"
    using compile_pattern_meaning [OF out(1)] Cons.prems(3) by simp
  show ?case
  proof (cases out)
    case None
    then show ?thesis using Cons.IH [of qs] Cons.prems(2,3) out(2) meaning by simp
  next
    case (Some s)
    then obtain q where q: "s = scope_of q" "conjunctive q" "\<And>row. selects like q row \<longleftrightarrow> pattern_matches p (row_urn m row)"
      using meaning by auto
    then have "compile_allow m ps (map scope_of (qs @ [q])) = Inr scopes" using out(2) Some by simp
    from Cons.IH [OF this] Cons.prems(2,3) q(2)
    obtain rs where rs: "scopes = map scope_of rs" "list_all conjunctive rs"
      "\<And>row. (\<exists>q \<in> set rs. selects like q row) \<longleftrightarrow>
        (\<exists>r \<in> set (qs @ [q]). selects like r row) \<or> (\<exists>p \<in> set ps. pattern_matches p (row_urn m row))" by auto
    have "(\<exists>r \<in> set (qs @ [q]). selects like r row) \<longleftrightarrow>
        (\<exists>r \<in> set qs. selects like r row) \<or> pattern_matches p (row_urn m row)" for row using q(3) by auto
    then show ?thesis using rs by (intro exI [of _ rs]) auto
  qed
qed auto

lemma compile_deny_meaning:
  assumes "compile_deny m ps s = Inr out" "represents like s chosen"
    and "\<forall>p \<in> set ps. wf_pattern p \<and> pushes_down plain (sm_path m) (up_path p)"
  shows "represents like out (\<lambda>row. chosen row \<and> \<not> (\<exists>p \<in> set ps. pattern_matches p (row_urn m row)))"
  using assms
proof (induction ps arbitrary: s chosen)
  case (Cons p ps)
  then obtain compiled where c: "compile_pattern m p = Inr compiled"
    "(case compiled of None \<Rightarrow> compile_deny m ps s
      | Some d \<Rightarrow> if where_clause d = ''1=1'' then Inr deny_all
          else compile_deny m ps \<lparr>where_clause = ''('' @ where_clause s @ '') AND NOT ('' @ where_clause d @ '')'',
              params = params s @ params d\<rparr>) = Inr out"
    by (auto simp: result_simps)
  have meaning: "case compiled of None \<Rightarrow> (\<forall>row. \<not> pattern_matches p (row_urn m row))
    | Some d \<Rightarrow> (\<exists>q. d = scope_of q \<and> conjunctive q \<and> (\<forall>row. selects like q row \<longleftrightarrow> pattern_matches p (row_urn m row)))"
    using compile_pattern_meaning [OF c(1)] Cons.prems(3) by simp
  show ?case
  proof (cases compiled)
    case None
    then show ?thesis using Cons.IH [of s chosen] Cons.prems(2,3) c(2) meaning by simp
  next
    case (Some d)
    then obtain q where q: "d = scope_of q" "conjunctive q" "\<And>row. selects like q row \<longleftrightarrow> pattern_matches p (row_urn m row)"
      using meaning by auto
    show ?thesis
    proof (cases "q = SqlTrue")
      case True
      then have "pattern_matches p (row_urn m row)" for row using q(3) [of row] by simp
      moreover have "out = scope_of SqlFalse" using c(2) Some q(1) True by simp
      ultimately show ?thesis by (auto simp: represents_def intro: exI [of _ SqlFalse])
    next
      case False
      obtain r where r: "s = scope_of r" "\<And>row. selects like r row \<longleftrightarrow> chosen row"
        using Cons.prems(2) by (auto simp: represents_def)
      let ?e = "SqlExcept r q"
      have "compile_deny m ps (scope_of ?e) = Inr out"
        using c(2) Some q(1,2) False r(1) by (simp add: render_conjunctive_true scope_of_def)
      moreover have "represents like (scope_of ?e) (\<lambda>row. chosen row \<and> \<not> pattern_matches p (row_urn m row))"
        using r(2) q(3) by (auto simp: represents_def intro!: exI [of _ ?e])
      ultimately have "represents like out (\<lambda>row. (chosen row \<and> \<not> pattern_matches p (row_urn m row)) \<and>
          \<not> (\<exists>p \<in> set ps. pattern_matches p (row_urn m row)))"
        using Cons.prems(3) by (intro Cons.IH) simp_all
      then show ?thesis by (simp add: conj_assoc)
    qed
  qed
qed simp

lemma compile_scope_meaning:
  assumes "compile_scope m allow deny = Inr s"
    and "\<forall>p \<in> set (allow @ deny). wf_pattern p \<and> pushes_down plain (sm_path m) (up_path p)"
  shows "represents like s (\<lambda>row. (\<exists>p \<in> set allow. pattern_matches p (row_urn m row)) \<and> \<not> (\<exists>p \<in> set deny. pattern_matches p (row_urn m row)))"
proof -
  obtain scopes where scopes: "compile_allow m allow (map scope_of []) = Inr scopes"
    "(if scopes = [] then Inr deny_all else compile_deny m deny (or_scopes scopes)) = Inr s"
    using assms(1) by (auto simp: compile_scope_def result_simps)
  from compile_allow_meaning [OF scopes(1)] assms(2)
  obtain rs where rs: "scopes = map scope_of rs" "list_all conjunctive rs"
    "\<And>row. (\<exists>q \<in> set rs. selects like q row) \<longleftrightarrow> (\<exists>p \<in> set allow. pattern_matches p (row_urn m row))" by auto
  show ?thesis
  proof (cases "rs = []")
    case True
    then have "s = scope_of SqlFalse" using scopes(2) rs(1) by simp
    moreover have "\<not> (\<exists>p \<in> set allow. pattern_matches p (row_urn m row))" for row using rs(3) [of row] True by simp
    ultimately show ?thesis by (auto simp: represents_def intro: exI [of _ SqlFalse])
  next
    case False
    then have "compile_deny m deny (or_scopes (map scope_of rs)) = Inr s" using scopes(2) rs(1) by simp
    from compile_deny_meaning [OF this or_scopes_represents [OF False rs(2)]] assms(2) show ?thesis
      unfolding rs(3) by simp
  qed
qed

end

lemma parse_patterns_Inr:
  "parse_patterns ss = Inr ps \<longleftrightarrow> list_all2 (\<lambda>s p. pattern_from_str s = Inr p) ss ps"
  by (induction ss arbitrary: ps) (auto simp: parse_patterns_def result_simps list_all2_Cons1)

lemma list_all2_ex:
  assumes "list_all2 (\<lambda>s p. f s = Inr p) ss ps"
  shows "(\<exists>p \<in> set ps. P p) \<longleftrightarrow> (\<exists>s \<in> set ss. \<exists>p. f s = Inr p \<and> P p)"
  using assms by (induction rule: list_all2_induct) auto

lemma list_all2_all:
  assumes "list_all2 (\<lambda>s p. f s = Inr p) ss ps"
  shows "(\<forall>p \<in> set ps. P p) \<longleftrightarrow> (\<forall>s \<in> set ss. \<forall>p. f s = Inr p \<longrightarrow> P p)"
  using assms by (induction rule: list_all2_induct) auto

context prefix_like
begin

lemma compile_scope_strs_meaning:
  assumes "compile_scope_strs m allow deny = Inr s"
    and "\<And>t p. t \<in> set (allow @ deny) \<Longrightarrow> pattern_from_str t = Inr p \<Longrightarrow> pushes_down plain (sm_path m) (up_path p)"
  shows "represents like s (\<lambda>row. (\<exists>t \<in> set allow. \<exists>p. pattern_from_str t = Inr p \<and> pattern_matches p (row_urn m row)) \<and>
    \<not> (\<exists>t \<in> set deny. \<exists>p. pattern_from_str t = Inr p \<and> pattern_matches p (row_urn m row)))"
proof -
  obtain as ds where ps: "list_all2 (\<lambda>s p. pattern_from_str s = Inr p) allow as" "list_all2 (\<lambda>s p. pattern_from_str s = Inr p) deny ds"
    "compile_scope m as ds = Inr s"
    using assms(1) by (auto simp: compile_scope_strs_def result_simps parse_patterns_Inr)
  have "\<forall>p \<in> set (as @ ds). wf_pattern p \<and> pushes_down plain (sm_path m) (up_path p)"
    using list_all2_all [OF list_all2_appendI [OF ps(1,2)], of "\<lambda>p. wf_pattern p \<and> pushes_down plain (sm_path m) (up_path p)"]
      assms(2) pattern_from_str_iff by blast
  from compile_scope_meaning [OF ps(3) this] show ?thesis
    unfolding list_all2_ex [OF ps(1)] list_all2_ex [OF ps(2)] .
qed

end

subsection \<open>Rows of stored values\<close>

text \<open>A clause reads a row only through \<open>LIKE\<close> on its values.\<close>

lemma selects_cong:
  assumes "\<And>column v. like v (row column) = like' v (row column)"
  shows "selects like q row = selects like' q row"
  using assms by (induction q) (auto simp: list_all_iff list_ex_iff)

context stored_like
begin

lemma stored_scope_meaning:
  assumes "compile_scope_strs m allow deny = Inr s"
    and "\<And>t p. t \<in> set (allow @ deny) \<Longrightarrow> pattern_from_str t = Inr p \<Longrightarrow> pushes_down plain (sm_path m) (up_path p)"
  shows "\<exists>q. where_clause s = render q \<and> params s = binds q \<and>
    (\<forall>row. stored_row stored row \<longrightarrow> (selects like q row \<longleftrightarrow>
      (\<exists>t \<in> set allow. \<exists>p. pattern_from_str t = Inr p \<and> pattern_matches p (row_urn m row)) \<and>
      \<not> (\<exists>t \<in> set deny. \<exists>p. pattern_from_str t = Inr p \<and> pattern_matches p (row_urn m row))))"
proof -
  let ?like = "\<lambda>p s. if list_all stored s then like p s else under_text p s"
  have scope: "represents ?like s (\<lambda>row. (\<exists>t \<in> set allow. \<exists>p. pattern_from_str t = Inr p \<and> pattern_matches p (row_urn m row)) \<and>
      \<not> (\<exists>t \<in> set deny. \<exists>p. pattern_from_str t = Inr p \<and> pattern_matches p (row_urn m row)))"
    using assms by (rule exact.compile_scope_strs_meaning)
  obtain q where q: "s = scope_of q" "\<And>row. selects ?like q row \<longleftrightarrow>
      (\<exists>t \<in> set allow. \<exists>p. pattern_from_str t = Inr p \<and> pattern_matches p (row_urn m row)) \<and>
      \<not> (\<exists>t \<in> set deny. \<exists>p. pattern_from_str t = Inr p \<and> pattern_matches p (row_urn m row))"
    using scope unfolding represents_def by blast
  have "selects like q row = selects ?like q row" if "stored_row stored row" for row
    using that by (intro selects_cong) (simp add: stored_row_def)
  then show ?thesis using q by (intro exI [of _ q]) simp
qed

end

subsection \<open>The engines\<close>

text \<open>A prefix without special characters matches what begins with it up to the comparison of characters.\<close>

lemma like_with_slash: "like_with f escape ''/%'' s \<longleftrightarrow> (\<exists>c t. s = c # t \<and> f c = f CHR ''/'')"
proof -
  have any: "like_with f escape ''%'' s" for s by (induction s) (simp_all add: like_with.simps)
  show ?thesis by (cases s) (auto simp: like_with.simps(2) [of f escape "CHR ''/''"] any)
qed

lemma like_with_prefix:
  assumes "list_all (\<lambda>c. c \<noteq> CHR ''%'' \<and> c \<noteq> CHR ''_'' \<and> \<not> (escape \<and> c = CHR 0x5C)) v"
  shows "like_with f escape (v @ ''/%'') s \<longleftrightarrow> (\<exists>u c t. s = u @ c # t \<and> map f u = map f v \<and> f c = f CHR ''/'')"
  using assms
proof (induction v arbitrary: s)
  case Nil
  then show ?case by (simp add: like_with_slash)
next
  case (Cons x v)
  show ?case
  proof (cases s)
    case (Cons y t)
    have "like_with f escape ((x # v) @ ''/%'') s \<longleftrightarrow> f x = f y \<and> like_with f escape (v @ ''/%'') t"
      using Cons.prems by (auto simp: Cons like_with.simps(2) [of f escape x])
    also have "\<dots> \<longleftrightarrow> (\<exists>u c t'. s = u @ c # t' \<and> map f u = map f (x # v) \<and> f c = f CHR ''/'')"
    proof
      assume "f x = f y \<and> like_with f escape (v @ ''/%'') t"
      then obtain u c t' where "t = u @ c # t'" "map f u = map f v" "f c = f CHR ''/''" "f x = f y"
        using Cons.IH [of t] Cons.prems by auto
      then show "\<exists>u c t'. s = u @ c # t' \<and> map f u = map f (x # v) \<and> f c = f CHR ''/''"
        by (intro exI [of _ "y # u"] exI [of _ c] exI [of _ t']) (simp add: Cons)
    next
      assume "\<exists>u c t'. s = u @ c # t' \<and> map f u = map f (x # v) \<and> f c = f CHR ''/''"
      then obtain u c t' where "s = u @ c # t'" "map f u = map f (x # v)" "f c = f CHR ''/''" by blast
      then show "f x = f y \<and> like_with f escape (v @ ''/%'') t"
        using Cons.IH [of t] Cons.prems by (cases u) (auto simp: Cons)
    qed
    finally show ?thesis .
  qed (use Cons.prems in \<open>auto simp: like_with.simps(2) [of f escape x]\<close>)
qed

lemma to_ascii_lower_slash: "to_ascii_lower CHR ''/'' = CHR ''/''"
  by (simp add: to_ascii_lower_def)

lemma lower_slash: "to_ascii_lower c = to_ascii_lower CHR ''/'' \<longleftrightarrow> c = CHR ''/''"
proof -
  have "to_ascii_lower c \<noteq> CHR ''/''" if "65 \<le> code c" "code c \<le> 90"
  proof
    assume "to_ascii_lower c = CHR ''/''"
    then have "code (to_ascii_lower c) = code CHR ''/''" by simp
    then show False using that by (simp add: to_ascii_lower_def)
  qed
  then show ?thesis by (auto simp: to_ascii_lower_def)
qed

definition postgres_plain :: "char \<Rightarrow> bool" where
  "postgres_plain c \<longleftrightarrow> c \<notin> {CHR ''%'', CHR ''_'', CHR 0x5C}"

definition sqlite_plain :: "char \<Rightarrow> bool" where
  "sqlite_plain c \<longleftrightarrow> c \<notin> {CHR ''%'', CHR ''_''} \<and> to_ascii_lower c = c"

definition sqlite_stored :: "char \<Rightarrow> bool" where
  "sqlite_stored c \<longleftrightarrow> to_ascii_lower c = c"

interpretation postgres: stored_like postgres_like postgres_plain "\<lambda>_. True"
proof unfold_locales
  fix v s assume "list_all postgres_plain v"
  then have "list_all (\<lambda>c. c \<noteq> CHR ''%'' \<and> c \<noteq> CHR ''_'' \<and> \<not> (True \<and> c = CHR 0x5C)) v"
    by (auto simp: list_all_iff postgres_plain_def)
  from like_with_prefix [OF this] show "postgres_like (v @ ''/%'') s \<longleftrightarrow> (\<exists>t. s = v @ CHR ''/'' # t)"
    by (auto simp: postgres_like_def)
qed (simp add: postgres_plain_def)

interpretation sqlite: stored_like sqlite_like sqlite_plain sqlite_stored
proof unfold_locales
  fix v s assume v: "list_all sqlite_plain v" and s: "list_all sqlite_stored s"
  have plain: "list_all (\<lambda>c. c \<noteq> CHR ''%'' \<and> c \<noteq> CHR ''_'' \<and> \<not> (False \<and> c = CHR 0x5C)) v"
    using v by (auto simp: list_all_iff sqlite_plain_def)
  have same: "map to_ascii_lower u = u" if "set u \<subseteq> set s" for u
    using that s by (intro map_idI) (auto simp: list_all_iff sqlite_stored_def)
  have "map to_ascii_lower v = v" using v by (intro map_idI) (auto simp: list_all_iff sqlite_plain_def)
  then show "sqlite_like (v @ ''/%'') s \<longleftrightarrow> (\<exists>t. s = v @ CHR ''/'' # t)"
    unfolding sqlite_like_def like_with_prefix [OF plain] lower_slash using same by (metis Un_upper1 set_append)
qed (simp add: sqlite_plain_def to_ascii_lower_def)

section \<open>Properties\<close>

text \<open>
  Claim C25. Where every pattern pushes down, the \<open>WHERE\<close> clause compiled from the texts of a scope selects, among the rows
  whose values the \<open>LIKE\<close> operator of the engine compares exactly, those whose resource is matched by an allow pattern
  and by no deny pattern: its text is that of a predicate with this meaning, and its parameters are the values of that predicate in
  the order of the question marks. A pattern pushes down if, where the mapping ends in a remainder column, it reaches into it and has only
  characters in a prefix that the operator takes literally. PostgreSQL compares all values exactly, SQLite those without upper-case letters.
\<close>

theorem sql_scope_selects_exactly:
  assumes "stored_like like plain stored" "compile_scope_strs m allow deny = Inr s"
    and "\<And>t p. t \<in> set (allow @ deny) \<Longrightarrow> pattern_from_str t = Inr p \<Longrightarrow> pushes_down plain (sm_path m) (up_path p)"
  shows "\<exists>q. where_clause s = render q \<and> params s = binds q \<and>
    (\<forall>row. stored_row stored row \<longrightarrow> (selects like q row \<longleftrightarrow>
      (\<exists>t \<in> set allow. \<exists>p. pattern_from_str t = Inr p \<and> pattern_matches p (row_urn m row)) \<and>
      \<not> (\<exists>t \<in> set deny. \<exists>p. pattern_from_str t = Inr p \<and> pattern_matches p (row_urn m row))))"
  using assms by (rule stored_like.stored_scope_meaning)

definition object_mapping :: resource_sql_mapping where
  "object_mapping = \<lparr>sm_partition = MapConst ''prod'', sm_service = MapConst ''object-store'', sm_region = MapColumn ''region'',
     sm_tenant = MapColumn ''account_id'',
     sm_path = [PathLiteral ''bucket'', PathColumn ''bucket'', PathLiteral ''object'', RemainderColumn ''object_key'']\<rparr>"

definition object_allow :: "string list" where
  "object_allow = [''urn:iam:prod:object-store:us:acme:bucket/b/object/2026/**'']"

definition object_deny :: "string list" where
  "object_deny = [''urn:iam:prod:object-store:us:acme:bucket/b/object/2026/secret'']"

definition object_scope :: sql_scope where
  "object_scope = \<lparr>where_clause = ''(region = ? AND account_id = ? AND bucket = ? AND (object_key = ? OR object_key LIKE ?)) AND NOT (region = ? AND account_id = ? AND bucket = ? AND object_key = ?)'',
     params = [''us'', ''acme'', ''b'', ''2026'', ''2026/%'', ''us'', ''acme'', ''b'', ''2026/secret'']\<rparr>"

lemma object_compiled: "compile_scope_strs object_mapping object_allow object_deny = Inr object_scope"
  by code_simp

theorem sql_scope_selects_exactly_witness:
  "\<exists>q. where_clause object_scope = render q \<and> params object_scope = binds q \<and>
     (\<forall>row. stored_row sqlite_stored row \<longrightarrow> (selects sqlite_like q row \<longleftrightarrow>
       (\<exists>t \<in> set object_allow. \<exists>p. pattern_from_str t = Inr p \<and> pattern_matches p (row_urn object_mapping row)) \<and>
       \<not> (\<exists>t \<in> set object_deny. \<exists>p. pattern_from_str t = Inr p \<and> pattern_matches p (row_urn object_mapping row))))"
proof -
  have "list_all (\<lambda>t. case pattern_from_str t of Inl _ \<Rightarrow> True | Inr p \<Rightarrow> pushes_down sqlite_plain (sm_path object_mapping) (up_path p))
      (object_allow @ object_deny)" by code_simp
  then have "pushes_down sqlite_plain (sm_path object_mapping) (up_path p)"
    if "t \<in> set (object_allow @ object_deny)" "pattern_from_str t = Inr p" for t p
    using that unfolding list_all_iff by (metis sum.case(2))
  with sqlite.stored_like_axioms object_compiled show ?thesis by (rule sql_scope_selects_exactly)
qed

text \<open>
  Claim C40. An allow pattern that ends where the remainder column begins is compiled to no condition on that
  column: it matches the resource of no row, and the compiled clause selects every row.
\<close>

theorem short_pattern_selects_every_row:
  assumes "m = \<lparr>sm_partition = MapConst a, sm_service = MapConst b, sm_region = MapConst c, sm_tenant = MapConst d,
      sm_path = [PathLiteral v, RemainderColumn column]\<rparr>"
    and "p = \<lparr>up_partition = SegExact a, up_service = SegExact b, up_region = SegExact c, up_tenant = SegExact d, up_path = [PathExact v]\<rparr>"
  shows "compile_scope m [p] [] = Inr allow_all \<and> (\<forall>row. \<not> pattern_matches p (row_urn m row))"
  unfolding assms
  by (simp add: compile_scope_def compile_pattern_def compile_path_def compile_remainder_def get_at_def or_scopes_def
    pattern_matches_def row_urn_def path_matches_denotes del: scope_of_simps)

theorem short_pattern_selects_every_row_witness:
  "\<exists>m p. compile_scope m [p] [] = Inr allow_all \<and> \<not> pattern_matches p (row_urn m (\<lambda>column. ''private/key''))"
  using short_pattern_selects_every_row [OF refl refl, of "''prod''" "''store''" "''us''" "''acme''" "''object''" "''object_key''"] by blast

text \<open>
  Claim C29. On SQLite an allow pattern for a subtree is compiled to a clause that also selects the rows of every other
  subtree whose name differs in the case of ASCII letters only, although the pattern matches none of them.
\<close>

theorem sqlite_scope_ignores_case:
  assumes "m = \<lparr>sm_partition = MapConst a, sm_service = MapConst b, sm_region = MapConst c, sm_tenant = MapConst d,
      sm_path = [PathLiteral v, RemainderColumn column]\<rparr>"
    and "p = \<lparr>up_partition = SegExact a, up_service = SegExact b, up_region = SegExact c, up_tenant = SegExact d,
      up_path = [PathExact v, PathExact w, GlobStar]\<rparr>"
    and "w \<noteq> []" "set w \<inter> {CHR ''%'', CHR ''_'', CHR ''/''} = {}"
    and "row column = u @ ''/'' @ t" "to_ascii_lowercase u = to_ascii_lowercase w" "u \<noteq> w"
  shows "\<exists>s q. compile_scope m [p] [] = Inr s \<and> where_clause s = render q \<and> params s = binds q \<and>
    selects sqlite_like q row \<and> \<not> pattern_matches p (row_urn m row)"
proof -
  let ?q = "SqlAnd [SqlUnder column w]"
  have compiled: "compile_scope m [p] [] = Inr (scope_of ?q)"
    using assms(3) unfolding assms(1,2)
    by (simp add: compile_scope_def compile_pattern_def compile_path_def compile_remainder_def get_at_def or_scopes_def
      exact_value_def push_clause_def scope_of_def)
  have "list_all (\<lambda>c. c \<noteq> CHR ''%'' \<and> c \<noteq> CHR ''_'' \<and> \<not> (False \<and> c = CHR 0x5C)) w" using assms(4) by (auto simp: list_all_iff)
  from like_with_prefix [OF this, of to_ascii_lower "row column"]
  have selected: "selects sqlite_like ?q row"
    using assms(5,6) unfolding sqlite_like_def by (auto simp: to_ascii_lowercase_def)
  have lower: "CHR ''/'' \<in> set (to_ascii_lowercase x) \<longleftrightarrow> CHR ''/'' \<in> set x" for x
    using lower_slash [unfolded to_ascii_lower_slash] by (auto simp: to_ascii_lowercase_def image_iff eq_commute [of "CHR ''/''"])
  have "CHR ''/'' \<notin> set w" using assms(4) by auto
  then have "CHR ''/'' \<notin> set u" using lower [of u] lower [of w] assms(6) by simp
  then have "take 1 (split_on CHR ''/'' (row column)) = [u]"
    using split_on_under [of "[u]" "row column"] assms(5) by auto
  then have "\<not> pattern_matches p (row_urn m row)"
    using assms(7) unfolding assms(1,2)
    by (cases "split_on CHR ''/'' (row column)") (auto simp: pattern_matches_def row_urn_def path_matches_denotes)
  then show ?thesis using compiled selected by (intro exI [of _ "scope_of ?q"] exI [of _ ?q]) simp
qed

theorem sqlite_scope_ignores_case_witness:
  "\<exists>m p s q. compile_scope m [p] [] = Inr s \<and> where_clause s = render q \<and> selects sqlite_like q (\<lambda>column. ''Reports/2026'') \<and>
     \<not> pattern_matches p (row_urn m (\<lambda>column. ''Reports/2026''))"
proof -
  let ?row = "\<lambda>column. ''Reports/2026''"
  have "''reports'' \<noteq> []" "set ''reports'' \<inter> {CHR ''%'', CHR ''_'', CHR ''/''} = {}" "''Reports/2026'' = ''Reports'' @ ''/'' @ ''2026''"
    "to_ascii_lowercase ''Reports'' = to_ascii_lowercase ''reports''" "''Reports'' \<noteq> ''reports''" by code_simp+
  from sqlite_scope_ignores_case [OF refl refl this(1,2), of ?row "''object_key''", OF this(3-5), of "''prod''" "''store''" "''us''" "''acme''" "''object''"] show ?thesis by blast
qed

end
