(* ===== verification/Adapter.thy ===== *)
theory Adapter
  imports Identity Access_Context Sql_Scope
begin

text \<open>
  The adapter library of the services (\<open>adapters/rust/src\<close>): resolution of the trusted context of a
  request by a chain of resolvers, the grants bound to the current thread, and the SQL scope of the current
  request. A resolver and the client of the scope service are functions of one request; the text of the
  errors of the codec is a parameter, since it contains the texts of third-party errors.
\<close>

section \<open>Grants\<close>

record access_grant_set =
  gs_allow_resource_urns :: "string list"
  gs_deny_resource_urns :: "string list"

record request_access =
  ra_principal_id :: string
  ra_action :: string
  ra_resource_urn :: string
  ra_grants :: access_grant_set

definition grants_new :: "string list \<Rightarrow> string list \<Rightarrow> access_grant_set" where
  "grants_new allow deny = \<lparr>gs_allow_resource_urns = allow, gs_deny_resource_urns = deny\<rparr>"

definition grants_empty :: access_grant_set where
  "grants_empty = \<lparr>gs_allow_resource_urns = [], gs_deny_resource_urns = []\<rparr>"

definition grants_from_context :: "access_context \<Rightarrow> access_grant_set" where
  "grants_from_context c = grants_new (ac_allow_resource_urns c) (ac_deny_resource_urns c)"

definition access_from_context :: "access_context \<Rightarrow> request_access" where
  "access_from_context c = \<lparr>ra_principal_id = ac_principal_id c, ra_action = ac_action c,
     ra_resource_urn = ac_resource_urn c, ra_grants = grants_from_context c\<rparr>"

definition access_from_grants :: "access_grant_set \<Rightarrow> request_access" where
  "access_from_grants grants = \<lparr>ra_principal_id = [], ra_action = [], ra_resource_urn = [], ra_grants = grants\<rparr>"

section \<open>Resolvers\<close>

datatype access_error =
    ContextUnavailable
  | ActionMismatch string string
  | InvalidContext string
  | ResolverError string

text \<open>The trait \<open>AccessRequest\<close>: the header of a name, if it is present and readable.\<close>

type_synonym access_request = "string \<Rightarrow> string option"

text \<open>The trait \<open>IAccessContextResolver\<close>.\<close>

record access_context_resolver =
  rv_mode :: string
  rv_resolve :: "access_request \<Rightarrow> (access_error, request_access option) result"

definition nonempty_header :: "access_request \<Rightarrow> string \<Rightarrow> string option" where
  "nonempty_header request name = Option.bind (request name) (\<lambda>v. if v = [] then None else Some v)"

definition header_resolver_new ::
  "(access_context_error \<Rightarrow> string) \<Rightarrow> string \<Rightarrow> (access_error, access_context_signer) result" where
  "header_resolver_new err key = map_err (\<lambda>e. ResolverError (err e)) (signer_new key)"

definition header_resolver_from_env ::
  "(access_context_error \<Rightarrow> string) \<Rightarrow> string option \<Rightarrow> (access_error, access_context_signer) result" where
  "header_resolver_from_env err secret = map_err (\<lambda>e. ResolverError (err e)) (signer_from_env secret)"

definition resolve_header ::
  "access_lib \<Rightarrow> (access_context_error \<Rightarrow> string) \<Rightarrow> access_context_signer \<Rightarrow> u64 \<Rightarrow> access_request \<Rightarrow>
   (access_error, request_access option) result" where
  "resolve_header lib err signer now request =
     (case nonempty_header request access_context_header of
        None \<Rightarrow> Inr None
      | Some encoded \<Rightarrow>
          and_then (map_err (\<lambda>e. InvalidContext (err e)) (context_verify lib signer encoded)) (\<lambda>payload.
          and_then (map_err (\<lambda>e. InvalidContext (err e)) (context_decode lib now payload)) (\<lambda>c.
            Inr (Some (access_from_context c)))))"

definition header_access_context_resolver ::
  "access_lib \<Rightarrow> (access_context_error \<Rightarrow> string) \<Rightarrow> access_context_signer \<Rightarrow> u64 \<Rightarrow> access_context_resolver" where
  "header_access_context_resolver lib err signer now =
     \<lparr>rv_mode = ''header'', rv_resolve = resolve_header lib err signer now\<rparr>"

text \<open>The trait \<open>ScopeTokenClient\<close> is a function of the token.\<close>

definition resolve_grpc ::
  "access_lib \<Rightarrow> (access_context_error \<Rightarrow> string) \<Rightarrow> (string \<Rightarrow> (access_error, string) result) \<Rightarrow> u64 \<Rightarrow> access_request \<Rightarrow>
   (access_error, request_access option) result" where
  "resolve_grpc lib err client now request =
     (case nonempty_header request scope_token_header of
        None \<Rightarrow> Inr None
      | Some token \<Rightarrow>
          and_then (client token) (\<lambda>encoded.
          and_then (map_err (\<lambda>e. InvalidContext (err e)) (context_decode lib now encoded)) (\<lambda>c.
            Inr (Some (access_from_context c)))))"

definition grpc_access_context_resolver ::
  "access_lib \<Rightarrow> (access_context_error \<Rightarrow> string) \<Rightarrow> (string \<Rightarrow> (access_error, string) result) \<Rightarrow> u64 \<Rightarrow> access_context_resolver" where
  "grpc_access_context_resolver lib err client now =
     \<lparr>rv_mode = ''grpc'', rv_resolve = resolve_grpc lib err client now\<rparr>"

definition normalize_target :: "string \<Rightarrow> bool \<Rightarrow> string" where
  "normalize_target target tls =
     (let trimmed = trim target;
          stripped = (if take 7 trimmed = ''dns:///'' then drop 7 trimmed else trimmed)
      in if take 7 stripped = ''http://'' \<or> take 8 stripped = ''https://'' then stripped
         else if tls then ''https://'' @ stripped
         else ''http://'' @ stripped)"

text \<open>\<open>parse_bool_env\<close>, with the value of the variable, if it is set.\<close>

definition parse_bool_env :: "string \<Rightarrow> string option \<Rightarrow> bool \<Rightarrow> (access_error, bool) result" where
  "parse_bool_env name raw absent =
     (case raw of
        None \<Rightarrow> Inr absent
      | Some v \<Rightarrow>
          let w = to_ascii_lowercase (trim v) in
          if w \<in> {''1'', ''true'', ''yes'', ''on''} then Inr True
          else if w \<in> {''0'', ''false'', ''no'', ''off'', []} then Inr False
          else Inl (ResolverError (name @ '' must be a boolean'')))"

section \<open>Filter\<close>

text \<open>
  \<open>AccessFilter\<close> is the list of its resolvers, and an \<open>AccessScope\<close> the access it carries, if any.
\<close>

fun try_resolvers ::
  "access_context_resolver list \<Rightarrow> access_request \<Rightarrow> (access_error, request_access option) result" where
  "try_resolvers [] request =
     (if nonempty_header request scope_token_header \<noteq> None
      then Inl (ResolverError ''no resolver is configured for the Authguard scope token'')
      else Inr None)"
| "try_resolvers (resolver # rest) request =
     (case rv_resolve resolver request of
        Inr (Some access) \<Rightarrow> Inr (Some access)
      | Inr None \<Rightarrow> try_resolvers rest request
      | Inl e \<Rightarrow> Inl e)"

definition enter ::
  "access_context_resolver list \<Rightarrow> access_request \<Rightarrow> (access_error, request_access option) result" where
  "enter resolvers request =
     (if nonempty_header request access_context_header \<noteq> None \<and> nonempty_header request scope_token_header \<noteq> None
      then Inl (InvalidContext ''both Authguard context and scope token headers are present'')
      else try_resolvers resolvers request)"

definition trusted_context_only ::
  "access_lib \<Rightarrow> (access_context_error \<Rightarrow> string) \<Rightarrow> string option \<Rightarrow> u64 \<Rightarrow> (access_error, access_context_resolver list) result" where
  "trusted_context_only lib err secret now =
     and_then (header_resolver_from_env err secret) (\<lambda>signer.
       Inr [header_access_context_resolver lib err signer now])"

text \<open>\<open>HttpHeaderAccessFilter\<close>, which reads the headers of an HTTP request.\<close>

definition http_header_access_request :: "headers \<Rightarrow> access_request" where
  "http_header_access_request hs name = header_get hs name"

definition enter_headers ::
  "access_context_resolver list \<Rightarrow> headers \<Rightarrow> (access_error, request_access option) result" where
  "enter_headers resolvers hs = enter resolvers (http_header_access_request hs)"

section \<open>The current access of a thread\<close>

text \<open>The thread-local \<open>CURRENT_ACCESS\<close> is the state.\<close>

type_synonym current_access = "request_access option"

definition set_current_access :: "request_access \<Rightarrow> current_access \<Rightarrow> current_access" where
  "set_current_access access current = Some access"

definition set_current :: "access_grant_set \<Rightarrow> current_access \<Rightarrow> current_access" where
  "set_current grants = set_current_access (access_from_grants grants)"

definition get_current_access :: "current_access \<Rightarrow> request_access option" where
  "get_current_access current = current"

definition get_current :: "current_access \<Rightarrow> access_grant_set option" where
  "get_current current = map_option ra_grants (get_current_access current)"

definition require_current :: "current_access \<Rightarrow> (access_error, access_grant_set) result" where
  "require_current current = ok_or ContextUnavailable (get_current current)"

definition require_current_access :: "current_access \<Rightarrow> (access_error, request_access) result" where
  "require_current_access current = ok_or ContextUnavailable (get_current_access current)"

definition clear_current :: "current_access \<Rightarrow> current_access" where
  "clear_current current = None"

section \<open>Scopes of a request\<close>

datatype current_scope_error = AccessFailure access_error | CompileFailure sql_compile_error

definition sign_access_context ::
  "access_lib \<Rightarrow> access_context \<Rightarrow> string \<Rightarrow> (access_context_error, string) result" where
  "sign_access_context lib c key =
     and_then (ok_or ContextJson (context_encode lib c)) (\<lambda>encoded.
     and_then (signer_new key) (\<lambda>signer. sign_encoded lib signer encoded))"

definition parse_scope_patterns :: "string list \<Rightarrow> (sql_compile_error, urn_pattern list) result" where
  "parse_scope_patterns = traverse (\<lambda>raw. map_err (\<lambda>e. InvalidPattern raw) (pattern_from_str raw))"

definition adapter_compile_scope ::
  "resource_sql_mapping \<Rightarrow> string list \<Rightarrow> string list \<Rightarrow> (sql_compile_error, sql_scope) result" where
  "adapter_compile_scope m allow deny =
     and_then (parse_scope_patterns allow) (\<lambda>allow_patterns.
     and_then (parse_scope_patterns deny) (\<lambda>deny_patterns.
       compile_scope m allow_patterns deny_patterns))"

definition current_scope ::
  "resource_sql_mapping \<Rightarrow> current_access \<Rightarrow> (current_scope_error, sql_scope) result" where
  "current_scope m current =
     and_then (map_err AccessFailure (require_current current)) (\<lambda>grants.
       map_err CompileFailure (adapter_compile_scope m (gs_allow_resource_urns grants) (gs_deny_resource_urns grants)))"

definition scope_for_action ::
  "request_access \<Rightarrow> string \<Rightarrow> resource_sql_mapping \<Rightarrow> (current_scope_error, sql_scope) result" where
  "scope_for_action access expected_action m =
     (if ra_action access \<noteq> expected_action then Inl (AccessFailure (ActionMismatch expected_action (ra_action access)))
      else map_err CompileFailure (adapter_compile_scope m (gs_allow_resource_urns (ra_grants access))
        (gs_deny_resource_urns (ra_grants access))))"

definition current_scope_for_action ::
  "string \<Rightarrow> resource_sql_mapping \<Rightarrow> current_access \<Rightarrow> (current_scope_error, sql_scope) result" where
  "current_scope_for_action expected_action m current =
     and_then (map_err AccessFailure (require_current_access current)) (\<lambda>access.
       scope_for_action access expected_action m)"

definition scope_kind :: "sql_scope \<Rightarrow> string" where
  "scope_kind s = (if where_clause s = ''0=1'' then ''deny_all'' else if where_clause s = ''1=1'' then ''allow_all'' else ''filtered'')"

section \<open>Lemmas\<close>

lemma nonempty_header_Some: "nonempty_header request name = Some v \<longleftrightarrow> request name = Some v \<and> v \<noteq> []"
  by (auto simp: nonempty_header_def bind_eq_Some_conv)

lemma resolve_header_Inr:
  "resolve_header lib err signer now request = Inr a \<longleftrightarrow>
     (case nonempty_header request access_context_header of
        None \<Rightarrow> a = None
      | Some v \<Rightarrow> \<exists>payload c. context_verify lib signer v = Inr payload \<and> context_decode lib now payload = Inr c \<and>
          a = Some (access_from_context c))"
  by (auto simp: resolve_header_def result_simps split: option.splits)

lemma resolve_grpc_Inr:
  "resolve_grpc lib err client now request = Inr a \<longleftrightarrow>
     (case nonempty_header request scope_token_header of
        None \<Rightarrow> a = None
      | Some token \<Rightarrow> \<exists>encoded c. client token = Inr encoded \<and> context_decode lib now encoded = Inr c \<and>
          a = Some (access_from_context c))"
  by (auto simp: resolve_grpc_def result_simps split: option.splits)

lemma try_resolvers_cases:
  "try_resolvers resolvers request = Inr (Some access) \<Longrightarrow> \<exists>r \<in> set resolvers. rv_resolve r request = Inr (Some access)"
  "try_resolvers resolvers request = Inr None \<Longrightarrow> nonempty_header request scope_token_header = None \<and>
     (\<forall>r \<in> set resolvers. rv_resolve r request = Inr None)"
  by (induction resolvers) (auto split: sum.splits option.splits if_splits)

lemma adapter_compile_scope_strs:
  "adapter_compile_scope m allow deny = Inr s \<longleftrightarrow> compile_scope_strs m allow deny = Inr s"
proof -
  have "parse_scope_patterns ss = Inr ps \<longleftrightarrow> parse_patterns ss = Inr ps" for ss ps
    by (induction ss arbitrary: ps) (auto simp: parse_scope_patterns_def parse_patterns_def result_simps)
  then show ?thesis by (simp add: adapter_compile_scope_def compile_scope_strs_def and_then_eq_Inr)
qed

lemma enter_access_cases:
  assumes "set resolvers \<subseteq> {header_access_context_resolver lib err signer now, grpc_access_context_resolver lib err client now}"
    and "enter resolvers request = Inr (Some access)"
  obtains (direct) v payload c where "request access_context_header = Some v" "nonempty_header request scope_token_header = None"
      "context_verify lib signer v = Inr payload" "context_decode lib now payload = Inr c" "access = access_from_context c"
    | (token) token encoded c where "request scope_token_header = Some token" "nonempty_header request access_context_header = None"
      "client token = Inr encoded" "context_decode lib now encoded = Inr c" "access = access_from_context c"
proof -
  have one: "nonempty_header request access_context_header = None \<or> nonempty_header request scope_token_header = None"
    and run: "try_resolvers resolvers request = Inr (Some access)"
    using assms(2) by (auto simp: enter_def split: if_splits)
  from try_resolvers_cases(1) [OF run] obtain r where r: "r \<in> set resolvers" "rv_resolve r request = Inr (Some access)" by blast
  with assms(1) consider "resolve_header lib err signer now request = Inr (Some access)"
    | "resolve_grpc lib err client now request = Inr (Some access)"
    by (auto simp: header_access_context_resolver_def grpc_access_context_resolver_def)
  then show thesis
  proof cases
    case 1
    then obtain v payload c where "nonempty_header request access_context_header = Some v" "context_verify lib signer v = Inr payload"
      "context_decode lib now payload = Inr c" "access = access_from_context c"
      by (auto simp: resolve_header_Inr split: option.splits)
    moreover from this(1) have "nonempty_header request scope_token_header = None" using one by simp
    ultimately show thesis using direct by (auto simp: nonempty_header_Some)
  next
    case 2
    then obtain token encoded c where "nonempty_header request scope_token_header = Some token" "client token = Inr encoded"
      "context_decode lib now encoded = Inr c" "access = access_from_context c"
      by (auto simp: resolve_grpc_Inr split: option.splits)
    moreover from this(1) have "nonempty_header request access_context_header = None" using one by simp
    ultimately show thesis using token by (auto simp: nonempty_header_Some)
  qed
qed

section \<open>Properties\<close>

text \<open>
  Claim C26. The filter of a service trusts only what AuthGuard signed or returned: a request is given access
  only by a context header whose signature verifies or by a scope token the scope service knows, never by
  both, and only while the context lives; the access is exactly the content of that context. A request passes
  without access only if it carries no scope token and, where the filter has the resolver of the context header, no context
  either; an empty header counts as none.
\<close>

theorem access_filter_fails_closed:
  assumes "set resolvers \<subseteq> {header_access_context_resolver lib err signer now, grpc_access_context_resolver lib err client now}"
  shows "(\<forall>access. enter resolvers request = Inr (Some access) \<longrightarrow>
      (\<exists>encoded c. context_decode lib now encoded = Inr c \<and> access = access_from_context c \<and>
        ((\<exists>v. request access_context_header = Some v \<and> context_verify lib signer v = Inr encoded \<and>
            nonempty_header request scope_token_header = None) \<or>
         (\<exists>token. request scope_token_header = Some token \<and> client token = Inr encoded \<and>
            nonempty_header request access_context_header = None)))) \<and>
    (enter resolvers request = Inr None \<longrightarrow> nonempty_header request scope_token_header = None \<and>
      (header_access_context_resolver lib err signer now \<in> set resolvers \<longrightarrow> nonempty_header request access_context_header = None))"
proof (intro conjI allI impI)
  fix access assume "enter resolvers request = Inr (Some access)"
  from enter_access_cases [OF assms this] show "\<exists>encoded c. context_decode lib now encoded = Inr c \<and> access = access_from_context c \<and>
        ((\<exists>v. request access_context_header = Some v \<and> context_verify lib signer v = Inr encoded \<and>
            nonempty_header request scope_token_header = None) \<or>
         (\<exists>token. request scope_token_header = Some token \<and> client token = Inr encoded \<and>
            nonempty_header request access_context_header = None))"
    by cases blast+
next
  assume none: "enter resolvers request = Inr None"
  then show "nonempty_header request scope_token_header = None"
    using try_resolvers_cases(2) [of resolvers request] by (auto simp: enter_def split: if_splits)
  assume "header_access_context_resolver lib err signer now \<in> set resolvers"
  then have "resolve_header lib err signer now request = Inr None"
    using none try_resolvers_cases(2) [of resolvers request]
    by (auto simp: enter_def header_access_context_resolver_def split: if_splits)
  then show "nonempty_header request access_context_header = None" by (auto simp: resolve_header_Inr split: option.splits)
qed

definition sample_codec :: access_lib where
  "sample_codec = table_lib [(context_new sample_input 100 (from_secs 60), ''json'')]"

definition sample_header :: string where
  "sample_header = ''agctx1.'' @ hex_encode ''json'' @ ''.'' @ hex_encode (''mkagctx1.'' @ hex_encode ''json'')"

lemma sample_enter:
  "enter [header_access_context_resolver sample_codec (\<lambda>e. []) \<lparr>sg_key = ''k''\<rparr> 120] [access_context_header \<mapsto> sample_header] =
     Inr (Some (access_from_context (context_new sample_input 100 (from_secs 60))))"
proof -
  let ?c = "context_new sample_input 100 (from_secs 60)"
  have enc: "context_encode sample_codec ?c = Some (hex_encode ''json'')"
    by (simp add: context_encode_def sample_codec_def table_lib_def)
  have sign: "sign_encoded sample_codec \<lparr>sg_key = ''k''\<rparr> (hex_encode ''json'') = Inr sample_header"
    by (simp add: sign_encoded_def sample_codec_def table_lib_def sample_header_def)
  have "context_verify sample_codec \<lparr>sg_key = ''k''\<rparr> sample_header = Inr (hex_encode ''json'')"
    using table.verify_encoded enc sign unfolding sample_codec_def by blast
  moreover have "context_decode sample_codec 120 (hex_encode ''json'') = Inr ?c"
    using enc unfolding sample_codec_def by (rule table.decode_alive) simp
  moreover have "sample_header \<noteq> []" by (simp add: sample_header_def)
  ultimately show ?thesis
    by (simp add: enter_def header_access_context_resolver_def resolve_header_def nonempty_header_def)
qed

theorem access_filter_fails_closed_witness:
  "\<exists>encoded. context_verify sample_codec \<lparr>sg_key = ''k''\<rparr> sample_header = Inr encoded"
  using access_filter_fails_closed [of "[header_access_context_resolver sample_codec (\<lambda>e. []) \<lparr>sg_key = ''k''\<rparr> 120]"
      sample_codec "\<lambda>e. []" "\<lparr>sg_key = ''k''\<rparr>" 120 "\<lambda>t. Inl ContextUnavailable" "[access_context_header \<mapsto> sample_header]"]
    sample_enter by (auto split: if_splits)

end
