(* ===== verification/Http_Matcher.thy ===== *)
theory Http_Matcher
  imports Urn
begin

text \<open>
  HTTP request to resource mapping (\<open>common/src/utils/http_matcher.rs\<close>, with the data type
  \<open>HttpRouteMatcher\<close> of \<open>common/src/model/role.rs\<close>). A matcher is compiled into a list of path
  segment matchers; resolving a request selects the single matching route and expands its URN
  templates. Shown here: resolution succeeds exactly when one route matches, independently of the
  order of the routes; a resolved resource is a well-formed exact URN; and no value taken from
  the request or the token can move text from one URN segment into another.
\<close>

section \<open>Data\<close>

datatype http_mapping_error =
    PathMustStartWithSlash string
  | InvalidVariable string string
  | RouteInvalidGlobStar string
  | Ambiguous
  | NotMapped
  | MissingTemplateValue string
  | InvalidResourceUrn string

record http_route_matcher =
  rm_id :: string
  rm_methods :: "string list"
  rm_hosts :: "string list"
  rm_path :: string
  rm_resource_urn :: string
  rm_parent_urns :: "string list"

record resolved_http_route =
  rr_route_id :: string
  rr_action :: string
  rr_resource_urn :: resource_urn
  rr_parent_urns :: "resource_urn list"

datatype path_matcher = Literal string | Variable string | AnySegment | Remainder

record compiled_http_route =
  cr_action :: string
  cr_rule :: http_route_matcher
  cr_path :: "path_matcher list"

type_synonym value_map = "string \<rightharpoonup> string"

section \<open>Compilation\<close>

definition trim_matches :: "char \<Rightarrow> string \<Rightarrow> string" where
  "trim_matches c s = rev (dropWhile ((=) c) (rev (dropWhile ((=) c) s)))"

definition split_path :: "string \<Rightarrow> string list" where
  "split_path path = filter (\<lambda>segment. segment \<noteq> []) (split_on CHR ''/'' (trim_matches CHR ''/'' path))"

definition valid_variable :: "string \<Rightarrow> bool" where
  "valid_variable v \<longleftrightarrow> v \<noteq> [] \<and> list_all (\<lambda>b. is_ascii_alphanumeric b \<or> b = CHR ''_'') v"

definition compile_segment_matcher ::
  "string \<Rightarrow> bool \<Rightarrow> string \<Rightarrow> (http_mapping_error, path_matcher) result" where
  "compile_segment_matcher route_id is_last segment =
     (if segment = ''*'' then Inr AnySegment
      else if segment = ''**'' \<and> is_last then Inr Remainder
      else if segment = ''**'' then Inl (RouteInvalidGlobStar route_id)
      else if prefix ''{'' segment \<and> suffix ''}'' segment then
        (let variable = take (length segment - 2) (drop 1 segment) in
           if \<not> valid_variable variable then Inl (InvalidVariable route_id variable)
           else Inr (Variable variable))
      else Inr (Literal segment))"

fun compile_segments ::
  "string \<Rightarrow> string list \<Rightarrow> (http_mapping_error, path_matcher list) result" where
  "compile_segments route_id [] = Inr []"
| "compile_segments route_id (segment # rest) =
     and_then (compile_segment_matcher route_id (rest = []) segment) (\<lambda>m.
     and_then (compile_segments route_id rest) (\<lambda>ms. Inr (m # ms)))"

definition route_compile ::
  "string \<Rightarrow> http_route_matcher \<Rightarrow> (http_mapping_error, compiled_http_route) result" where
  "route_compile action rule =
     (if \<not> prefix ''/'' (rm_path rule) then Inl (PathMustStartWithSlash (rm_id rule))
      else and_then (compile_segments (rm_id rule) (split_path (rm_path rule))) (\<lambda>path.
        Inr \<lparr>cr_action = action, cr_rule = rule, cr_path = path\<rparr>))"

section \<open>Matching and template expansion\<close>

text \<open>
  The loop of \<open>match_path\<close> over the matchers with its \<open>request_index\<close>. \<open>None\<close> is the result
  \<open>false\<close>; \<open>Some\<close> carries the value table as the loop has left it.
\<close>

fun match_segments :: "path_matcher list \<Rightarrow> string list \<Rightarrow> nat \<Rightarrow> value_map \<Rightarrow> value_map option" where
  "match_segments [] request i vals = (if i = length request then Some vals else None)"
| "match_segments (m # ms) request i vals =
     (case m of
        Remainder \<Rightarrow> Some vals
      | Literal expected \<Rightarrow>
          if i < length request \<and> request ! i = expected
          then match_segments ms request (i + 1) vals else None
      | Variable name \<Rightarrow>
          if i < length request
          then match_segments ms request (i + 1) (vals(name \<mapsto> request ! i)) else None
      | AnySegment \<Rightarrow>
          if i < length request then match_segments ms request (i + 1) vals else None)"

definition match_path :: "path_matcher list \<Rightarrow> string \<Rightarrow> value_map \<Rightarrow> value_map option" where
  "match_path pattern request_path vals = match_segments pattern (split_path request_path) 0 vals"

text \<open>The \<open>while let\<close> loop of \<open>expand_template\<close>, with its output buffer.\<close>

function expand_from :: "string \<Rightarrow> string \<Rightarrow> value_map \<Rightarrow> (http_mapping_error, string) result" where
  "expand_from out remaining vals =
     (case split_once CHR ''{'' remaining of
        None \<Rightarrow> Inr (out @ remaining)
      | Some (before, after_start) \<Rightarrow>
          (case split_once CHR ''}'' after_start of
             None \<Rightarrow> Inl (MissingTemplateValue after_start)
           | Some (variable, rest) \<Rightarrow>
               (case vals variable of
                  None \<Rightarrow> Inl (MissingTemplateValue variable)
                | Some v \<Rightarrow> expand_from (out @ before @ v) rest vals)))"
  by pat_completeness auto
termination
  by (relation "measure (\<lambda>(out, remaining, vals). length remaining)") (auto simp: split_once_Some)

declare expand_from.simps [simp del]

definition expand_template :: "string \<Rightarrow> value_map \<Rightarrow> (http_mapping_error, string) result" where
  "expand_template template vals = expand_from [] template vals"

definition host_matches :: "string \<Rightarrow> string \<Rightarrow> bool" where
  "host_matches pattern host =
     (let host = (case split_on CHR '':'' host of [] \<Rightarrow> host | h # _ \<Rightarrow> h) in
      if prefix ''*.'' pattern then
        (let sfx = drop 2 pattern in host \<noteq> sfx \<and> suffix (''.'' @ sfx) host)
      else eq_ignore_ascii_case pattern host)"

section \<open>Resolution\<close>

definition expand_urn :: "value_map \<Rightarrow> string \<Rightarrow> (http_mapping_error, resource_urn) result" where
  "expand_urn vals template =
     and_then (expand_template template vals) (\<lambda>raw.
       map_err (\<lambda>err. InvalidResourceUrn (urn_error_to_string err)) (urn_from_str raw))"

definition request_values :: "string \<Rightarrow> string \<Rightarrow> value_map \<Rightarrow> value_map" where
  "request_values method host claims =
     claims(''method'' \<mapsto> to_ascii_lowercase method, ''host'' \<mapsto> host)"

definition route_resolve ::
  "compiled_http_route \<Rightarrow> string \<Rightarrow> string \<Rightarrow> string \<Rightarrow> value_map \<Rightarrow>
   (http_mapping_error, resolved_http_route option) result" where
  "route_resolve route method host request_path claims =
     (let rule = cr_rule route in
      if rm_methods rule \<noteq> [] \<and>
         \<not> list_ex (\<lambda>candidate. eq_ignore_ascii_case candidate method) (rm_methods rule)
      then Inr None
      else if rm_hosts rule \<noteq> [] \<and>
         \<not> list_ex (\<lambda>candidate. host_matches candidate host) (rm_hosts rule)
      then Inr None
      else case match_path (cr_path route) request_path (request_values method host claims) of
        None \<Rightarrow> Inr None
      | Some vals \<Rightarrow>
          and_then (expand_urn vals (rm_resource_urn rule)) (\<lambda>urn.
          and_then (traverse (expand_urn vals) (rm_parent_urns rule)) (\<lambda>parents.
            Inr (Some \<lparr>rr_route_id = rm_id rule, rr_action = cr_action route,
                       rr_resource_urn = urn, rr_parent_urns = parents\<rparr>))))"

text \<open>The loop of \<open>resolve_route\<close> with the accumulator \<open>resolved\<close>.\<close>

fun resolve_from ::
  "resolved_http_route option \<Rightarrow> compiled_http_route list \<Rightarrow> string \<Rightarrow> string \<Rightarrow> string \<Rightarrow> value_map \<Rightarrow>
   (http_mapping_error, resolved_http_route) result" where
  "resolve_from resolved [] method host path claims = ok_or NotMapped resolved"
| "resolve_from resolved (route # routes) method host path claims =
     and_then (route_resolve route method host path claims) (\<lambda>found.
       case found of
         None \<Rightarrow> resolve_from resolved routes method host path claims
       | Some candidate \<Rightarrow>
           if resolved \<noteq> None then Inl Ambiguous
           else resolve_from (Some candidate) routes method host path claims)"

definition resolve_route ::
  "compiled_http_route list \<Rightarrow> string \<Rightarrow> string \<Rightarrow> string \<Rightarrow> value_map \<Rightarrow>
   (http_mapping_error, resolved_http_route) result" where
  "resolve_route routes method host path claims = resolve_from None routes method host path claims"

section \<open>Path matching\<close>

text \<open>The meaning of a compiled path, by recursion on the pattern and the request segments.\<close>

fun bind_path :: "path_matcher list \<Rightarrow> string list \<Rightarrow> value_map \<Rightarrow> value_map option" where
  "bind_path [] ss vals = (if ss = [] then Some vals else None)"
| "bind_path (Remainder # ms) ss vals = Some vals"
| "bind_path (Literal e # ms) ss vals =
     (case ss of [] \<Rightarrow> None | s # rest \<Rightarrow> if s = e then bind_path ms rest vals else None)"
| "bind_path (Variable x # ms) ss vals =
     (case ss of [] \<Rightarrow> None | s # rest \<Rightarrow> bind_path ms rest (vals(x \<mapsto> s)))"
| "bind_path (AnySegment # ms) ss vals =
     (case ss of [] \<Rightarrow> None | s # rest \<Rightarrow> bind_path ms rest vals)"

lemma match_segments_bind_path:
  "i \<le> length request \<Longrightarrow> match_segments ms request i vals = bind_path ms (drop i request) vals"
proof (induction ms arbitrary: i vals)
  case (Cons m ms)
  show ?case
  proof (cases "i < length request")
    case True
    then have "drop i request = request ! i # drop (Suc i) request"
      by (simp add: Cons_nth_drop_Suc)
    with True Cons.IH show ?thesis by (cases m) (auto simp: fun_upd_def)
  next
    case False
    with Cons.prems show ?thesis by (cases m) auto
  qed
qed auto

lemma match_path_bind_path: "match_path ms path vals = bind_path ms (split_path path) vals"
  by (simp add: match_path_def match_segments_bind_path)

fun path_variables :: "path_matcher list \<Rightarrow> string set" where
  "path_variables [] = {}"
| "path_variables (Variable x # ms) = insert x (path_variables ms)"
| "path_variables (_ # ms) = path_variables ms"

lemma bind_path_other:
  "bind_path ms ss vals = Some vals' \<Longrightarrow> x \<notin> path_variables ms \<Longrightarrow> vals' x = vals x"
  by (induction ms ss vals rule: bind_path.induct) (auto split: list.splits if_splits)

lemma bind_path_value:
  "bind_path ms ss vals = Some vals' \<Longrightarrow> vals' x = vals x \<or> (\<exists>s \<in> set ss. vals' x = Some s)"
  by (induction ms ss vals rule: bind_path.induct) (fastforce split: list.splits if_splits)+

lemma dropWhile_eq_split:
  "filter (\<lambda>s. s \<noteq> []) (split_on c (dropWhile ((=) c) s)) = filter (\<lambda>s. s \<noteq> []) (split_on c s)"
  by (induction s) auto

lemma split_on_snoc: "split_on c (s @ [c]) = split_on c s @ [[]]"
  by (induction s) (auto split: list.splits)

lemma dropWhile_rev_split:
  "filter (\<lambda>s. s \<noteq> []) (split_on c (rev (dropWhile ((=) c) s))) =
   filter (\<lambda>s. s \<noteq> []) (split_on c (rev s))"
  by (induction s) (auto simp: split_on_snoc)

lemma split_path_eq: "split_path p = filter (\<lambda>s. s \<noteq> []) (split_on CHR ''/'' p)"
  using dropWhile_rev_split [of "CHR ''/''" "rev (dropWhile ((=) CHR ''/'') p)"]
  by (simp add: split_path_def trim_matches_def dropWhile_eq_split)

lemma split_path_segments: "s \<in> set (split_path p) \<Longrightarrow> s \<noteq> [] \<and> CHR ''/'' \<notin> set s"
  by (auto simp: split_path_eq dest: split_on_pieces)

section \<open>Template expansion\<close>

text \<open>One step of the loop, as an inversion rule: literal text, then a bound variable.\<close>

lemma expand_from_out:
  "expand_from out t vals = and_then (expand_from [] t vals) (\<lambda>s. Inr (out @ s))"
proof (induction t arbitrary: out rule: length_induct)
  case (1 t)
  show ?case
  proof (cases "\<exists>b v r w. split_once CHR ''{'' t = Some (b, v @ CHR ''}'' # r) \<and>
      CHR ''}'' \<notin> set v \<and> vals v = Some w")
    case True
    then obtain b v r w where t: "split_once CHR ''{'' t = Some (b, v @ CHR ''}'' # r)"
      "CHR ''}'' \<notin> set v" "vals v = Some w" by blast
    then have "length r < length t" by (auto simp: split_once_Some)
    with "1" have IH: "expand_from o' r vals = and_then (expand_from [] r vals) (\<lambda>s. Inr (o' @ s))" for o'
      by blast
    have step: "expand_from o' t vals = expand_from (o' @ b @ w) r vals" for o'
      using t by (simp add: expand_from.simps [of _ t])
    show ?thesis
      by (cases "expand_from [] r vals") (simp_all add: step IH [of "out @ b @ w"] IH [of "b @ w"])
  next
    case False
    then show ?thesis
      by (auto simp: expand_from.simps [of _ t] split_once_Some split: option.split)
        (metis option.distinct(1))
  qed
qed

lemma expand_template_plain: "CHR ''{'' \<notin> set t \<Longrightarrow> expand_template t vals = Inr t"
  by (simp add: expand_template_def expand_from.simps [of _ t] split_once_None [THEN iffD2])

lemma expand_template_step:
  assumes "CHR ''{'' \<notin> set b" "CHR ''}'' \<notin> set v"
  shows "expand_template (b @ CHR ''{'' # v @ CHR ''}'' # r) vals =
    (case vals v of None \<Rightarrow> Inl (MissingTemplateValue v)
     | Some w \<Rightarrow> and_then (expand_template r vals) (\<lambda>s. Inr (b @ w @ s)))"
  using assms expand_from_out [of "b @ _" r vals]
  by (auto simp: expand_template_def expand_from.simps [of "[]"] split: option.split)

lemma expand_template_cases:
  assumes "expand_template t vals = Inr x"
  obtains (plain) "CHR ''{'' \<notin> set t" "x = t"
  | (var) b v r w s where "t = b @ CHR ''{'' # v @ CHR ''}'' # r" "CHR ''{'' \<notin> set b"
      "CHR ''}'' \<notin> set v" "vals v = Some w" "expand_template r vals = Inr s" "x = b @ w @ s"
proof (cases "CHR ''{'' \<in> set t")
  case False
  with assms show ?thesis by (intro plain) (auto simp: expand_template_plain)
next
  case True
  then obtain b a where ba: "t = b @ CHR ''{'' # a" "CHR ''{'' \<notin> set b"
    by (meson split_list_first)
  then have "CHR ''}'' \<in> set a"
    using assms
    by (auto simp: expand_template_def expand_from.simps [of "[]" "b @ CHR ''{'' # a"]
      split_once_Some split: option.splits)
  then obtain v r where vr: "a = v @ CHR ''}'' # r" "CHR ''}'' \<notin> set v"
    by (meson split_list_first)
  show ?thesis
    using assms ba vr by (auto simp: expand_template_step result_simps split: option.splits intro: var)
qed

text \<open>Expansion distributes over concatenation as soon as the left part has balanced braces.\<close>

lemma expand_template_append:
  "expand_template a vals = Inr x \<Longrightarrow>
   expand_template (a @ b) vals = and_then (expand_template b vals) (\<lambda>y. Inr (x @ y))"
proof (induction a arbitrary: x rule: length_induct)
  case (1 a)
  from "1.prems" show ?case
  proof (cases rule: expand_template_cases)
    case plain
    then have "expand_from [] (a @ b) vals = expand_from a b vals"
      by (simp add: expand_from.simps [of "[]" "a @ b"] expand_from.simps [of a b]
        split_once_append_left split: option.split)
    with plain show ?thesis by (simp add: expand_template_def expand_from_out [of a b])
  next
    case (var b' v r w s)
    have "expand_template (r @ b) vals = and_then (expand_template b vals) (\<lambda>y. Inr (s @ y))"
      using "1.IH" var by auto
    with var show ?thesis
      by (cases "expand_template b vals") (simp_all add: expand_template_step)
  qed
qed

lemma expand_template_join:
  "list_all2 (\<lambda>t x. expand_template t vals = Inr x) ts xs \<Longrightarrow> CHR ''{'' \<notin> set sep \<Longrightarrow>
   expand_template (join sep ts) vals = Inr (join sep xs)"
proof (induction ts arbitrary: xs rule: induct_list012)
  case (3 t t' ts)
  then obtain x y ys where xs: "xs = x # y # ys" "expand_template t vals = Inr x"
    "list_all2 (\<lambda>t x. expand_template t vals = Inr x) (t' # ts) (y # ys)"
    by (auto simp: list_all2_Cons1)
  with "3" have "expand_template (join sep (t' # ts)) vals = Inr (join sep (y # ys))" by blast
  moreover from "3.prems" have "expand_template sep vals = Inr sep" by (simp add: expand_template_plain)
  ultimately show ?case using xs by (simp add: expand_template_append)
qed (auto simp: list_all2_Cons1 expand_template_plain)

section \<open>Resolution\<close>

lemma expand_urn_wf: "expand_urn vals t = Inr u \<Longrightarrow> wf_urn u"
  by (auto simp: expand_urn_def result_simps urn_from_str_iff)

lemma route_resolve_Some:
  "route_resolve route method host path claims = Inr (Some r) \<longleftrightarrow>
     (rm_methods (cr_rule route) = [] \<or>
       (\<exists>m \<in> set (rm_methods (cr_rule route)). eq_ignore_ascii_case m method)) \<and>
     (rm_hosts (cr_rule route) = [] \<or> (\<exists>h \<in> set (rm_hosts (cr_rule route)). host_matches h host)) \<and>
     (\<exists>vals. bind_path (cr_path route) (split_path path) (request_values method host claims) = Some vals \<and>
       expand_urn vals (rm_resource_urn (cr_rule route)) = Inr (rr_resource_urn r) \<and>
       traverse (expand_urn vals) (rm_parent_urns (cr_rule route)) = Inr (rr_parent_urns r)) \<and>
     rr_route_id r = rm_id (cr_rule route) \<and> rr_action r = cr_action route"
  by (cases r) (auto simp: route_resolve_def Let_def list_ex_iff match_path_bind_path result_simps
    split: option.splits if_splits)

lemma resolve_from_iff:
  "resolve_from acc routes m h p c = Inr r \<longleftrightarrow>
     (\<exists>fs. traverse (\<lambda>route. route_resolve route m h p c) routes = Inr fs \<and>
           (case acc of None \<Rightarrow> [] | Some a \<Rightarrow> [a]) @ List.map_filter id fs = [r])"
proof (induction routes arbitrary: acc)
  case Nil
  show ?case by (auto simp: result_simps map_filter_simps split: option.split)
next
  case (Cons route routes)
  show ?case
  proof (cases "route_resolve route m h p c")
    case (Inl e)
    then show ?thesis by simp
  next
    case (Inr found)
    then show ?thesis
      by (cases acc; cases found) (auto simp: Cons.IH result_simps map_filter_simps)
  qed
qed

lemma resolve_route_iff:
  "resolve_route routes m h p c = Inr r \<longleftrightarrow>
     (\<exists>fs. traverse (\<lambda>route. route_resolve route m h p c) routes = Inr fs \<and>
           List.map_filter id fs = [r])"
  by (simp add: resolve_route_def resolve_from_iff)

text \<open>The unique matching route of a successful resolution.\<close>

lemma resolve_route_unique:
  assumes "resolve_route routes m h p c = Inr r"
  obtains pre route post where "routes = pre @ route # post"
    "route_resolve route m h p c = Inr (Some r)"
    "\<forall>x \<in> set pre \<union> set post. route_resolve x m h p c = Inr None"
proof -
  from assms obtain fs where fs: "traverse (\<lambda>route. route_resolve route m h p c) routes = Inr fs"
    "List.map_filter id fs = [r]" by (auto simp: resolve_route_iff)
  from fs(2) obtain us vs where us: "fs = us @ Some r # vs" "\<forall>x \<in> set us \<union> set vs. x = None"
    by (induction fs) (fastforce simp: map_filter_simps Cons_eq_append_conv map_filter_def filter_empty_conv split: if_splits)+
  from fs(1) us(1) obtain pre route post where "routes = pre @ route # post"
    "list_all2 (\<lambda>x y. route_resolve x m h p c = Inr y) pre us"
    "route_resolve route m h p c = Inr (Some r)"
    "list_all2 (\<lambda>x y. route_resolve x m h p c = Inr y) post vs"
    by (auto simp: traverse_eq_Inr list_all2_append2 list_all2_Cons2)
  with us(2) show ?thesis
    by (intro that [of pre route post]) (auto simp: list_all2_conv_all_nth in_set_conv_nth Ball_def)
qed

lemma resolve_route_decomp:
  "resolve_route routes m h p c = Inr r \<longleftrightarrow>
     (\<exists>pre route post. routes = pre @ route # post \<and>
        route_resolve route m h p c = Inr (Some r) \<and>
        (\<forall>x \<in> set pre \<union> set post. route_resolve x m h p c = Inr None))" (is "?L \<longleftrightarrow> ?R")
proof
  assume ?L
  then show ?R by (elim resolve_route_unique) blast
next
  assume ?R
  then obtain pre route post where rt: "routes = pre @ route # post"
    "route_resolve route m h p c = Inr (Some r)"
    "\<forall>x \<in> set pre \<union> set post. route_resolve x m h p c = Inr None" by blast
  let ?fs = "map (\<lambda>_. None) pre @ Some r # map (\<lambda>_. None) post"
  have "traverse (\<lambda>route. route_resolve route m h p c) routes = Inr ?fs"
    using rt by (auto simp: traverse_eq_Inr list_all2_append list_all2_map2 intro!: list_all2_appendI list.rel_refl_strong)
  moreover have "List.map_filter id ?fs = [r]"
    by (simp add: map_filter_def)
  ultimately show ?L by (auto simp: resolve_route_iff)
qed

lemma resolve_route_perm:
  assumes "mset routes = mset routes'"
  shows "resolve_route routes method host path claims = Inr r \<longleftrightarrow>
         resolve_route routes' method host path claims = Inr r"
proof -
  have "resolve_route ys method host path claims = Inr r"
    if perm: "mset xs = mset ys" and xs: "resolve_route xs method host path claims = Inr r" for xs ys
  proof -
    from xs obtain pre route post where rt: "xs = pre @ route # post"
      "route_resolve route method host path claims = Inr (Some r)"
      "\<forall>x \<in> set pre \<union> set post. route_resolve x method host path claims = Inr None"
      by (rule resolve_route_unique)
    from perm rt(1) have "route \<in> set ys" by (metis in_set_conv_decomp mset_eq_setD)
    then obtain pre' post' where ys: "ys = pre' @ route # post'" by (meson split_list)
    with perm rt(1) have "mset (pre' @ post') = mset (pre @ post)" by simp
    then have "set pre' \<union> set post' = set pre \<union> set post" by (metis mset_eq_setD set_append)
    with rt ys show ?thesis unfolding resolve_route_decomp by metis
  qed
  with assms show ?thesis by metis
qed

section \<open>Example routes\<close>

definition job_route :: compiled_http_route where
  "job_route = \<lparr>cr_action = ''job.read'',
     cr_rule = \<lparr>rm_id = ''r1'', rm_methods = [''GET''], rm_hosts = [''*.acme.io''], rm_path = ''/jobs/{job}'',
       rm_resource_urn = ''urn:iam:prod:cg:global:{tenant}:job/{job}'', rm_parent_urns = []\<rparr>,
     cr_path = [Literal ''jobs'', Variable ''job'']\<rparr>"

definition list_route :: compiled_http_route where
  "list_route = \<lparr>cr_action = ''job.list'',
     cr_rule = \<lparr>rm_id = ''r2'', rm_methods = [''GET''], rm_hosts = [], rm_path = ''/jobs'',
       rm_resource_urn = ''urn:iam:prod:cg:global:{tenant}:job'', rm_parent_urns = []\<rparr>,
     cr_path = [Literal ''jobs'']\<rparr>"

definition job_urn :: resource_urn where
  "job_urn = \<lparr>ru_partition = ''prod'', ru_service = ''cg'', ru_region = ''global'', ru_tenant = ''acme'',
     ru_path = [''job'', ''7'']\<rparr>"

section \<open>Properties\<close>

text \<open>
  Claim C31. A request resolves to a route exactly when one of the configured routes matches it
  and every other route definitely does not match: no request is ever mapped by choosing among
  several candidates.
\<close>

theorem resolve_route_exactly_one:
  "resolve_route routes method host path claims = Inr r \<longleftrightarrow>
     (\<exists>pre route post. routes = pre @ route # post \<and>
        route_resolve route method host path claims = Inr (Some r) \<and>
        (\<forall>x. x \<in> set pre \<union> set post \<longrightarrow> route_resolve x method host path claims = Inr None))"
  unfolding resolve_route_decomp by blast

theorem resolve_route_exactly_one_witness:
  "\<exists>r. resolve_route [job_route, list_route] ''get'' ''api.acme.io'' ''/jobs/7'' [''tenant'' \<mapsto> ''acme''] = Inr r \<and>
     rr_resource_urn r = job_urn"
proof -
  have a: "route_resolve job_route ''get'' ''api.acme.io'' ''/jobs/7'' [''tenant'' \<mapsto> ''acme''] =
      Inr (Some \<lparr>rr_route_id = ''r1'', rr_action = ''job.read'', rr_resource_urn = job_urn, rr_parent_urns = []\<rparr>)"
    by code_simp
  have "route_resolve list_route ''get'' ''api.acme.io'' ''/jobs/7'' [''tenant'' \<mapsto> ''acme''] = Inr None"
    by code_simp
  with a have "resolve_route [job_route, list_route] ''get'' ''api.acme.io'' ''/jobs/7'' [''tenant'' \<mapsto> ''acme''] =
      Inr \<lparr>rr_route_id = ''r1'', rr_action = ''job.read'', rr_resource_urn = job_urn, rr_parent_urns = []\<rparr>"
    unfolding resolve_route_exactly_one by (intro exI [of _ "[]"] exI [of _ job_route] exI [of _ "[list_route]"]) auto
  then show ?thesis by auto
qed

text \<open>
  The resolution of a request does not depend on the order in which the routes are
  configured.
\<close>

theorem resolve_route_order_independent:
  assumes "mset routes = mset routes'"
  shows "resolve_route routes method host path claims = Inr r \<longleftrightarrow>
         resolve_route routes' method host path claims = Inr r"
  by (rule resolve_route_perm [OF assms])

theorem resolve_route_order_independent_witness:
  "\<exists>r. resolve_route [list_route, job_route] ''get'' ''api.acme.io'' ''/jobs/7'' [''tenant'' \<mapsto> ''acme''] = Inr r"
proof -
  have "resolve_route [job_route, list_route] ''get'' ''api.acme.io'' ''/jobs/7'' [''tenant'' \<mapsto> ''acme''] =
      Inr \<lparr>rr_route_id = ''r1'', rr_action = ''job.read'', rr_resource_urn = job_urn, rr_parent_urns = []\<rparr>"
    by code_simp
  moreover have "mset [job_route, list_route] = mset [list_route, job_route]" by simp
  note resolve_route_order_independent [OF this, THEN iffD1]
  ultimately show ?thesis by blast
qed

text \<open>
  Template values cannot escape their URN segment: when the colon-separated pieces of a
  resource template are expanded and the result parses as a URN, every field of the URN is the
  expansion of its own piece. A path variable or claim that contains a colon makes the
  resolution fail instead of shifting the tenant or the service.
\<close>

theorem template_segments_isolated:
  assumes pieces: "list_all2 (\<lambda>t x. expand_template t vals = Inr x)
      [t1, t2, t3, t4, t5, t6, t7] [x1, x2, x3, x4, x5, x6, x7]"
    and urn: "expand_urn vals (join '':'' [t1, t2, t3, t4, t5, t6, t7]) = Inr u"
  shows "x1 = ''urn'' \<and> x2 = ''iam'' \<and> ru_partition u = x3 \<and> ru_service u = x4 \<and>
    ru_region u = x5 \<and> ru_tenant u = x6 \<and> join ''/'' (ru_path u) = x7"
proof -
  let ?xs = "[x1, x2, x3, x4, x5, x6, x7]"
  let ?us = "[''urn'', ''iam'', ru_partition u, ru_service u, ru_region u, ru_tenant u,
    join ''/'' (ru_path u)]"
  have "expand_template (join '':'' [t1, t2, t3, t4, t5, t6, t7]) vals = Inr (join '':'' ?xs)"
    using expand_template_join [OF pieces, of "'':''"] by simp
  with urn have u: "wf_urn u" "join '':'' ?xs = urn_to_string u"
    by (auto simp: expand_urn_def result_simps urn_from_str_iff)
  from u(1) have free: "\<forall>y \<in> set ?us. CHR '':'' \<notin> set y"
    by (auto simp: wf_urn_def wf_segment_def colon_in_join list_all_iff wf_urn_path_segment_def)
  have "join '':'' ?xs = join '':'' ?us" using u(2) by (simp add: urn_to_string_def)
  then have "?xs = ?us" using free by (intro join_eq_pieces [of _ _ "CHR '':''"]) auto
  then show ?thesis by simp
qed

theorem template_segments_isolated_witness:
  "\<exists>u. expand_urn [''tenant'' \<mapsto> ''acme'', ''job'' \<mapsto> ''7'']
      (join '':'' [''urn'', ''iam'', ''prod'', ''cg'', ''global'', ''{tenant}'', ''job/{job}'']) = Inr u \<and>
    ru_tenant u = ''acme''"
proof -
  let ?v = "[''tenant'' \<mapsto> ''acme'', ''job'' \<mapsto> ''7''] :: value_map"
  have u: "expand_urn ?v (join '':'' [''urn'', ''iam'', ''prod'', ''cg'', ''global'', ''{tenant}'', ''job/{job}'']) =
      Inr job_urn" by code_simp
  have "list_all2 (\<lambda>t x. expand_template t ?v = Inr x)
      [''urn'', ''iam'', ''prod'', ''cg'', ''global'', ''{tenant}'', ''job/{job}'']
      [''urn'', ''iam'', ''prod'', ''cg'', ''global'', ''acme'', ''job/7'']" by code_simp
  from template_segments_isolated [OF this u] u show ?thesis by auto
qed

end
