(* ===== verification/Conditions.thy ===== *)
theory Conditions
  imports Prelude
begin

text \<open>
  Request, subject and network conditions of role bindings (\<open>common/src/utils/context.rs\<close>, module
  \<open>condition\<close>). CIDR parsing and containment belong to the crate \<open>ipnet\<close>, which is not part of
  the repository: they are the parameter \<open>ipnet_lib\<close> of the definitions, and no law about them is
  needed. Shown here: a binding with any condition at all never matches a request that carries no
  attributes, and the exclusion list of a network condition wins over its inclusion list.
\<close>

section \<open>Data\<close>

datatype ip_addr = IpV4 "32 word" | IpV6 "128 word"

text \<open>The two operations of \<open>ipnet::IpNet\<close> that the code uses, over the type \<open>'n\<close> of networks.\<close>

record 'n ipnet_lib =
  ipnet_parse :: "string \<Rightarrow> (string, 'n) result"
  ipnet_contains :: "'n \<Rightarrow> ip_addr \<Rightarrow> bool"

record source_ip_condition_spec =
  sp_in_cidr :: "string list"
  sp_not_in_cidr :: "string list"

record request_condition_spec =
  rc_methods :: "string list"
  rc_secure_transport :: "bool option"

text \<open>The claims of a specification are a \<open>BTreeMap\<close> that is only iterated: the list of its entries.\<close>

record subject_condition_spec =
  sc_mfa :: "bool option"
  sc_claims :: "(string \<times> string) list"

record authorization_condition_spec =
  cs_source_ip :: "source_ip_condition_spec option"
  cs_request :: request_condition_spec
  cs_subject :: subject_condition_spec

record evaluation_context =
  ec_source_ip :: "ip_addr option"
  ec_request_method :: "string option"
  ec_secure_transport :: "bool option"
  ec_claims :: "string \<rightharpoonup> string"

record 'n source_ip_conditions =
  si_in_cidr :: "'n list"
  si_not_in_cidr :: "'n list"

record 'n authorization_conditions =
  ac_source_ip :: "'n source_ip_conditions option"
  ac_request :: request_condition_spec
  ac_subject :: subject_condition_spec

section \<open>Compilation\<close>

definition parse_cidrs ::
  "'n ipnet_lib \<Rightarrow> string list \<Rightarrow> string \<Rightarrow> (string, 'n list) result" where
  "parse_cidrs net vals field =
     traverse (\<lambda>v. map_err (\<lambda>error. field @ '' contains invalid CIDR `'' @ v @ ''`: '' @ error)
       (ipnet_parse net v)) vals"

definition source_ip_compile ::
  "'n ipnet_lib \<Rightarrow> source_ip_condition_spec \<Rightarrow> (string, 'n source_ip_conditions) result" where
  "source_ip_compile net spec =
     and_then (parse_cidrs net (sp_in_cidr spec) ''sourceIp.inCidr'') (\<lambda>in_cidr.
     and_then (parse_cidrs net (sp_not_in_cidr spec) ''sourceIp.notInCidr'') (\<lambda>not_in_cidr.
       Inr \<lparr>si_in_cidr = in_cidr, si_not_in_cidr = not_in_cidr\<rparr>))"

definition conditions_compile ::
  "'n ipnet_lib \<Rightarrow> authorization_condition_spec \<Rightarrow> (string, 'n authorization_conditions) result" where
  "conditions_compile net spec =
     and_then (case cs_source_ip spec of
         None \<Rightarrow> Inr None
       | Some s \<Rightarrow> and_then (source_ip_compile net s) (\<lambda>c. Inr (Some c))) (\<lambda>source_ip.
       Inr \<lparr>ac_source_ip = source_ip, ac_request = cs_request spec, ac_subject = cs_subject spec\<rparr>)"

section \<open>Evaluation\<close>

definition source_ip_matches ::
  "'n ipnet_lib \<Rightarrow> 'n source_ip_conditions \<Rightarrow> ip_addr option \<Rightarrow> bool" where
  "source_ip_matches net c source_ip =
     (case source_ip of
        None \<Rightarrow> False
      | Some ip \<Rightarrow>
          (si_in_cidr c = [] \<or> list_ex (\<lambda>cidr. ipnet_contains net cidr ip) (si_in_cidr c)) \<and>
          \<not> list_ex (\<lambda>cidr. ipnet_contains net cidr ip) (si_not_in_cidr c))"

definition request_matches :: "request_condition_spec \<Rightarrow> evaluation_context \<Rightarrow> bool" where
  "request_matches c ctx =
     (let method_matches = rc_methods c = [] \<or>
            (case ec_request_method ctx of
               None \<Rightarrow> False
             | Some method \<Rightarrow> list_ex (\<lambda>allowed. eq_ignore_ascii_case allowed method) (rc_methods c));
          transport_matches =
            (case rc_secure_transport c of
               None \<Rightarrow> True
             | Some expected \<Rightarrow> ec_secure_transport ctx = Some expected)
      in method_matches \<and> transport_matches)"

text \<open>\<open>str::parse::<bool>()\<close>.\<close>

definition parse_bool :: "string \<Rightarrow> bool option" where
  "parse_bool s = (if s = ''true'' then Some True else if s = ''false'' then Some False else None)"

definition subject_matches :: "subject_condition_spec \<Rightarrow> evaluation_context \<Rightarrow> bool" where
  "subject_matches c ctx =
     (let mfa_matches =
            (case sc_mfa c of
               None \<Rightarrow> True
             | Some expected \<Rightarrow> Option.bind (ec_claims ctx ''mfa'') parse_bool = Some expected)
      in mfa_matches \<and> list_all (\<lambda>(key, v). ec_claims ctx key = Some v) (sc_claims c))"

definition conditions_matches ::
  "'n ipnet_lib \<Rightarrow> 'n authorization_conditions \<Rightarrow> evaluation_context \<Rightarrow> bool" where
  "conditions_matches net c ctx \<longleftrightarrow>
     (case ac_source_ip c of None \<Rightarrow> True | Some cond \<Rightarrow> source_ip_matches net cond (ec_source_ip ctx)) \<and>
     request_matches (ac_request c) ctx \<and> subject_matches (ac_subject c) ctx"

text \<open>\<open>EvaluationContext::default()\<close>.\<close>

definition default_context :: evaluation_context where
  "default_context = \<lparr>ec_source_ip = None, ec_request_method = None, ec_secure_transport = None,
     ec_claims = Map.empty\<rparr>"

text \<open>\<open>AuthorizationConditionSpec::default()\<close>: the specification that requires nothing.\<close>

definition default_conditions :: authorization_condition_spec where
  "default_conditions = \<lparr>cs_source_ip = None,
     cs_request = \<lparr>rc_methods = [], rc_secure_transport = None\<rparr>,
     cs_subject = \<lparr>sc_mfa = None, sc_claims = []\<rparr>\<rparr>"

section \<open>Lemmas\<close>

lemma conditions_compile_Inr:
  "conditions_compile net spec = Inr c \<Longrightarrow>
     ac_request c = cs_request spec \<and> ac_subject c = cs_subject spec \<and>
     (ac_source_ip c = None \<longleftrightarrow> cs_source_ip spec = None)"
  by (auto simp: conditions_compile_def result_simps split: option.splits)

lemma request_matches_default:
  "request_matches c default_context \<longleftrightarrow> c = \<lparr>rc_methods = [], rc_secure_transport = None\<rparr>"
  by (cases c) (auto simp: request_matches_def default_context_def split: option.splits)

lemma subject_matches_default:
  "subject_matches c default_context \<longleftrightarrow> c = \<lparr>sc_mfa = None, sc_claims = []\<rparr>"
proof -
  have "list_all (\<lambda>(key, v). False) xs \<longleftrightarrow> xs = []" for xs :: "(string \<times> string) list"
    by (cases xs) auto
  then show ?thesis
    by (cases c) (auto simp: subject_matches_def default_context_def split: option.splits)
qed

lemma source_ip_matches_excluded:
  "n \<in> set (si_not_in_cidr c) \<Longrightarrow> ipnet_contains net n ip \<Longrightarrow> \<not> source_ip_matches net c (Some ip)"
  by (auto simp: source_ip_matches_def list_ex_iff)

section \<open>Properties\<close>

text \<open>
  Conditions fail closed: a compiled specification matches a request that carries no
  attribute only if it is the specification that requires nothing.
\<close>

theorem conditions_fail_closed:
  assumes "conditions_compile net spec = Inr c"
  shows "conditions_matches net c default_context \<longleftrightarrow> spec = default_conditions"
proof -
  have "source_ip_matches net d (ec_source_ip default_context) = False" for d
    by (simp add: source_ip_matches_def default_context_def)
  with conditions_compile_Inr [OF assms] show ?thesis
    by (cases spec) (auto simp: conditions_matches_def request_matches_default
      subject_matches_default default_conditions_def split: option.splits)
qed

definition office_net :: "nat ipnet_lib" where
  "office_net = \<lparr>ipnet_parse = (\<lambda>s. if s = ''10.0.0.0/8'' then Inr 10 else Inl ''bad''),
     ipnet_contains = (\<lambda>n ip. case ip of IpV4 w \<Rightarrow> unat (drop_bit 24 w) = n | IpV6 _ \<Rightarrow> False)\<rparr>"

theorem conditions_fail_closed_witness:
  "\<not> conditions_matches office_net
     \<lparr>ac_source_ip = Some \<lparr>si_in_cidr = [10], si_not_in_cidr = []\<rparr>,
      ac_request = \<lparr>rc_methods = [], rc_secure_transport = None\<rparr>,
      ac_subject = \<lparr>sc_mfa = None, sc_claims = []\<rparr>\<rparr> default_context"
proof -
  let ?spec = "\<lparr>cs_source_ip = Some \<lparr>sp_in_cidr = [''10.0.0.0/8''], sp_not_in_cidr = []\<rparr>,
      cs_request = \<lparr>rc_methods = [], rc_secure_transport = None\<rparr>,
      cs_subject = \<lparr>sc_mfa = None, sc_claims = []\<rparr>\<rparr>"
  have "conditions_compile office_net ?spec =
     Inr \<lparr>ac_source_ip = Some \<lparr>si_in_cidr = [10], si_not_in_cidr = []\<rparr>,
      ac_request = \<lparr>rc_methods = [], rc_secure_transport = None\<rparr>,
      ac_subject = \<lparr>sc_mfa = None, sc_claims = []\<rparr>\<rparr>"
    by (simp add: conditions_compile_def source_ip_compile_def parse_cidrs_def office_net_def)
  from conditions_fail_closed [OF this] show ?thesis by (simp add: default_conditions_def)
qed

end
