(* ===== verification/Policy.thy ===== *)
theory Policy
  imports Http_Matcher Conditions
begin

text \<open>
  Compilation and evaluation of the authorization policy (\<open>authz/src/handler/policy/mod.rs\<close>, with
  the data types of \<open>common/src/model/role.rs\<close> and \<open>common/src/model/policy.rs\<close>).
\<close>

section \<open>Data\<close>

datatype effect = Allow | Deny

fun effect_as_str :: "effect \<Rightarrow> string" where
  "effect_as_str Allow = ''ALLOW''"
| "effect_as_str Deny = ''DENY''"

record iam_action_info =
  act_identifier :: string
  act_description :: string
  act_route_matchers :: "http_route_matcher list"

record iam_role_info =
  role_id :: string
  role_name :: string
  role_description :: string
  role_action_ids :: "string list"

record iam_role_binding_info =
  rb_id :: string
  rb_principal_id :: string
  rb_role_id :: string
  rb_effect :: effect
  rb_resource_urn :: string
  rb_conditions :: authorization_condition_spec

record iam_policy_info =
  pol_revision :: u64
  pol_actions :: "iam_action_info list"
  pol_roles :: "iam_role_info list"
  pol_role_bindings :: "iam_role_binding_info list"

record authorization_request =
  ar_principal_id :: string
  ar_group_principal_ids :: "string list"
  ar_action :: string
  ar_resource_urn :: resource_urn
  ar_parent_urns :: "resource_urn list"
  ar_context :: evaluation_context

record authorization_decision =
  ad_allowed :: bool
  ad_reason :: string
  ad_role_binding_id :: "string option"

record authorization_scope =
  as_allow_resource_urns :: "string list"
  as_deny_resource_urns :: "string list"

datatype policy_error =
    DuplicateAction string
  | DuplicateRole string
  | DuplicateRoleBinding string
  | DuplicateRouteMatcher string
  | UnknownAction string string
  | UnknownRole string string
  | InvalidPrincipal string
  | InvalidBindingUrn string string
  | InvalidBindingCondition string string
  | InvalidHttpRoute http_mapping_error

record 'n compiled_role_binding =
  cb_id :: string
  cb_principal_id :: string
  cb_action_ids :: "string set"
  cb_effect :: effect
  cb_resource_urn :: urn_pattern
  cb_conditions :: "'n authorization_conditions"

type_synonym 'n authorization_evaluator = "'n compiled_role_binding list"

record 'n compiled_policy =
  cp_policy :: iam_policy_info
  cp_evaluator :: "'n authorization_evaluator"
  cp_routes :: "compiled_http_route list"

section \<open>Evaluation\<close>

definition principal_matches :: "'n compiled_role_binding \<Rightarrow> string \<Rightarrow> string set \<Rightarrow> bool" where
  "principal_matches binding principal_id groups \<longleftrightarrow>
     cb_principal_id binding = principal_id \<or> cb_principal_id binding \<in> groups"

text \<open>The loop of \<open>AuthorizationEvaluator::authorize\<close>, with its accumulator \<open>allow\<close>.\<close>

fun authorize_from ::
  "'n ipnet_lib \<Rightarrow> authorization_request \<Rightarrow> string set \<Rightarrow> resource_urn list \<Rightarrow> string option \<Rightarrow>
   'n compiled_role_binding list \<Rightarrow> authorization_decision" where
  "authorize_from net request groups urns allow [] =
     (case allow of
        None \<Rightarrow> \<lparr>ad_allowed = False, ad_reason = ''default deny'', ad_role_binding_id = None\<rparr>
      | Some rid \<Rightarrow> \<lparr>ad_allowed = True, ad_reason = ''matched role binding'', ad_role_binding_id = Some rid\<rparr>)"
| "authorize_from net request groups urns allow (binding # rest) =
     (if \<not> principal_matches binding (ar_principal_id request) groups \<or>
         \<not> matches_any (cb_resource_urn binding) urns \<or>
         \<not> ar_action request \<in> cb_action_ids binding \<or>
         \<not> conditions_matches net (cb_conditions binding) (ar_context request)
      then authorize_from net request groups urns allow rest
      else if cb_effect binding = Deny then
        \<lparr>ad_allowed = False, ad_reason = ''explicit deny'', ad_role_binding_id = Some (cb_id binding)\<rparr>
      else authorize_from net request groups urns (Some (cb_id binding)) rest)"

definition evaluator_authorize ::
  "'n ipnet_lib \<Rightarrow> 'n authorization_evaluator \<Rightarrow> authorization_request \<Rightarrow> authorization_decision" where
  "evaluator_authorize net evaluator request =
     authorize_from net request (set (ar_group_principal_ids request))
       (ar_resource_urn request # ar_parent_urns request) None evaluator"

definition scope_applies ::
  "'n ipnet_lib \<Rightarrow> string \<Rightarrow> string set \<Rightarrow> string \<Rightarrow> evaluation_context \<Rightarrow> 'n compiled_role_binding \<Rightarrow> bool" where
  "scope_applies net principal_id groups action ctx binding \<longleftrightarrow>
     principal_matches binding principal_id groups \<and> action \<in> cb_action_ids binding \<and>
     conditions_matches net (cb_conditions binding) ctx"

definition evaluator_scope ::
  "'n ipnet_lib \<Rightarrow> 'n authorization_evaluator \<Rightarrow> string \<Rightarrow> string list \<Rightarrow> string \<Rightarrow> evaluation_context \<Rightarrow>
   authorization_scope" where
  "evaluator_scope net evaluator principal_id group_principal_ids action ctx =
     (let applicable = filter (scope_applies net principal_id (set group_principal_ids) action ctx) evaluator;
          target = (\<lambda>binding. pattern_to_string (cb_resource_urn binding))
      in \<lparr>as_allow_resource_urns =
             sort_dedup (map target (filter (\<lambda>b. cb_effect b = Allow) applicable)),
          as_deny_resource_urns =
             sort_dedup (map target (filter (\<lambda>b. cb_effect b = Deny) applicable))\<rparr>)"

section \<open>Compilation\<close>

fun validate_unique_from ::
  "string set \<Rightarrow> (string \<Rightarrow> policy_error) \<Rightarrow> string list \<Rightarrow> (policy_error, unit) result" where
  "validate_unique_from seen error [] = Inr ()"
| "validate_unique_from seen error (v # vs) =
     (if trim v = [] \<or> v \<in> seen then Inl (error v)
      else validate_unique_from (insert v seen) error vs)"

definition validate_unique ::
  "string list \<Rightarrow> (string \<Rightarrow> policy_error) \<Rightarrow> (policy_error, unit) result" where
  "validate_unique vs error = validate_unique_from {} error vs"

definition compile_role_binding ::
  "'n ipnet_lib \<Rightarrow> iam_role_binding_info \<Rightarrow> (string \<rightharpoonup> iam_role_info) \<Rightarrow>
   (policy_error, 'n compiled_role_binding) result" where
  "compile_role_binding net binding roles =
     (if trim (rb_principal_id binding) = [] then Inl (InvalidPrincipal (rb_id binding))
      else
        and_then (ok_or (UnknownRole (rb_id binding) (rb_role_id binding)) (roles (rb_role_id binding))) (\<lambda>role.
        and_then (map_err (\<lambda>e. InvalidBindingUrn (rb_id binding) (urn_error_to_string e))
            (pattern_from_str (rb_resource_urn binding))) (\<lambda>urn.
        and_then (map_err (\<lambda>message. InvalidBindingCondition (rb_id binding) message)
            (conditions_compile net (rb_conditions binding))) (\<lambda>conditions.
          Inr \<lparr>cb_id = rb_id binding, cb_principal_id = rb_principal_id binding,
               cb_action_ids = set (role_action_ids role), cb_effect = rb_effect binding,
               cb_resource_urn = urn, cb_conditions = conditions\<rparr>))))"

definition check_role_actions :: "string set \<Rightarrow> iam_role_info \<Rightarrow> (policy_error, unit) result" where
  "check_role_actions action_ids role =
     for_each (\<lambda>action_id. if action_id \<notin> action_ids then Inl (UnknownAction (role_id role) action_id)
       else Inr ()) (role_action_ids role)"

definition roles_by_id :: "iam_role_info list \<Rightarrow> (string \<rightharpoonup> iam_role_info)" where
  "roles_by_id roles = map_of (rev (map (\<lambda>role. (role_id role, role)) roles))"

definition policy_compile ::
  "'n ipnet_lib \<Rightarrow> iam_policy_info \<Rightarrow> u64 \<Rightarrow> (policy_error, 'n compiled_policy) result" where
  "policy_compile net policy0 revision =
     (let policy = policy0\<lparr>pol_revision := revision\<rparr>;
          action_ids = set (map act_identifier (pol_actions policy));
          roles = roles_by_id (pol_roles policy)
      in
      and_then (validate_unique (map act_identifier (pol_actions policy)) DuplicateAction) (\<lambda>_.
      and_then (validate_unique (map role_id (pol_roles policy)) DuplicateRole) (\<lambda>_.
      and_then (validate_unique (map rb_id (pol_role_bindings policy)) DuplicateRoleBinding) (\<lambda>_.
      and_then (validate_unique (map rm_id (concat (map act_route_matchers (pol_actions policy))))
          DuplicateRouteMatcher) (\<lambda>_.
      and_then (for_each (check_role_actions action_ids) (pol_roles policy)) (\<lambda>_.
      and_then (traverse (\<lambda>binding. compile_role_binding net binding roles) (pol_role_bindings policy)) (\<lambda>bindings.
      and_then (traverse (\<lambda>(action, matcher). map_err InvalidHttpRoute (route_compile action matcher))
          (concat (map (\<lambda>action. map (Pair (act_identifier action)) (act_route_matchers action))
            (pol_actions policy)))) (\<lambda>routes.
        Inr \<lparr>cp_policy = policy, cp_evaluator = bindings, cp_routes = routes\<rparr>))))))))"

definition resolve_http_route ::
  "'n compiled_policy \<Rightarrow> string \<Rightarrow> string \<Rightarrow> string \<Rightarrow> value_map \<Rightarrow>
   (http_mapping_error, resolved_http_route) result" where
  "resolve_http_route cp method host path claims = resolve_route (cp_routes cp) method host path claims"

definition policy_authorize ::
  "'n ipnet_lib \<Rightarrow> 'n compiled_policy \<Rightarrow> authorization_request \<Rightarrow> authorization_decision" where
  "policy_authorize net cp request = evaluator_authorize net (cp_evaluator cp) request"

definition policy_scope ::
  "'n ipnet_lib \<Rightarrow> 'n compiled_policy \<Rightarrow> string \<Rightarrow> string list \<Rightarrow> string \<Rightarrow> evaluation_context \<Rightarrow>
   authorization_scope" where
  "policy_scope net cp principal_id group_principal_ids action ctx =
     evaluator_scope net (cp_evaluator cp) principal_id group_principal_ids action ctx"

text \<open>\<open>PolicyRuntime::new\<close> and \<open>PolicyRuntime::prepare_replacement\<close>.\<close>

definition runtime_new :: "'n ipnet_lib \<Rightarrow> iam_policy_info \<Rightarrow> (policy_error, 'n compiled_policy) result" where
  "runtime_new net policy = policy_compile net policy (max (pol_revision policy) 1)"

definition prepare_replacement ::
  "'n ipnet_lib \<Rightarrow> iam_policy_info \<Rightarrow> u64 \<Rightarrow> (policy_error, 'n compiled_policy) result" where
  "prepare_replacement net policy revision = policy_compile net policy revision"

section \<open>Specification\<close>

text \<open>The binding concerns this request: its principal, one of its resources, its action and its context.\<close>

definition binding_applies ::
  "'n ipnet_lib \<Rightarrow> authorization_request \<Rightarrow> 'n compiled_role_binding \<Rightarrow> bool" where
  "binding_applies net request binding \<longleftrightarrow>
     principal_matches binding (ar_principal_id request) (set (ar_group_principal_ids request)) \<and>
     matches_any (cb_resource_urn binding) (ar_resource_urn request # ar_parent_urns request) \<and>
     ar_action request \<in> cb_action_ids binding \<and>
     conditions_matches net (cb_conditions binding) (ar_context request)"

text \<open>A policy document that the compiler has to accept.\<close>

definition unique_ids :: "string list \<Rightarrow> bool" where
  "unique_ids ids \<longleftrightarrow> distinct ids \<and> list_all (\<lambda>i. trim i \<noteq> []) ids"

definition valid_binding :: "'n ipnet_lib \<Rightarrow> iam_role_info list \<Rightarrow> iam_role_binding_info \<Rightarrow> bool" where
  "valid_binding net roles b \<longleftrightarrow>
     trim (rb_principal_id b) \<noteq> [] \<and> rb_role_id b \<in> set (map role_id roles) \<and>
     \<not> isl (pattern_from_str (rb_resource_urn b)) \<and> \<not> isl (conditions_compile net (rb_conditions b))"

definition valid_action :: "iam_action_info \<Rightarrow> bool" where
  "valid_action a \<longleftrightarrow> list_all (\<lambda>m. \<not> isl (route_compile (act_identifier a) m)) (act_route_matchers a)"

definition valid_policy :: "'n ipnet_lib \<Rightarrow> iam_policy_info \<Rightarrow> bool" where
  "valid_policy net p \<longleftrightarrow>
     unique_ids (map act_identifier (pol_actions p)) \<and> unique_ids (map role_id (pol_roles p)) \<and>
     unique_ids (map rb_id (pol_role_bindings p)) \<and>
     unique_ids (map rm_id (concat (map act_route_matchers (pol_actions p)))) \<and>
     list_all (\<lambda>r. set (role_action_ids r) \<subseteq> set (map act_identifier (pol_actions p))) (pol_roles p) \<and>
     list_all (valid_binding net (pol_roles p)) (pol_role_bindings p) \<and>
     list_all valid_action (pol_actions p)"

text \<open>A resource pattern delivered as text covers a request.\<close>

definition urn_covers :: "string \<Rightarrow> resource_urn list \<Rightarrow> bool" where
  "urn_covers text urns =
     (case pattern_from_str text of Inl _ \<Rightarrow> False | Inr p \<Rightarrow> matches_any p urns)"

text \<open>
  The meaning of a policy document, without compilation: some role binding of the given effect
  names the principal or one of its groups, its role exists and contains the action, its pattern
  covers the resource or one of its parents, and its conditions hold.
\<close>

definition conditions_hold :: "'n ipnet_lib \<Rightarrow> authorization_condition_spec \<Rightarrow> evaluation_context \<Rightarrow> bool" where
  "conditions_hold net spec ctx =
     (case conditions_compile net spec of Inl _ \<Rightarrow> False | Inr c \<Rightarrow> conditions_matches net c ctx)"

definition document_binds ::
  "'n ipnet_lib \<Rightarrow> iam_policy_info \<Rightarrow> effect \<Rightarrow> authorization_request \<Rightarrow> bool" where
  "document_binds net p eff request \<longleftrightarrow>
     (\<exists>b \<in> set (pol_role_bindings p). \<exists>r \<in> set (pol_roles p).
        role_id r = rb_role_id b \<and> rb_effect b = eff \<and>
        rb_principal_id b \<in> insert (ar_principal_id request) (set (ar_group_principal_ids request)) \<and>
        ar_action request \<in> set (role_action_ids r) \<and>
        urn_covers (rb_resource_urn b) (ar_resource_urn request # ar_parent_urns request) \<and>
        conditions_hold net (rb_conditions b) (ar_context request))"

section \<open>Lemmas\<close>

subsection \<open>Evaluation\<close>

definition explicit_deny :: "'n compiled_role_binding \<Rightarrow> authorization_decision" where
  "explicit_deny b = \<lparr>ad_allowed = False, ad_reason = ''explicit deny'', ad_role_binding_id = Some (cb_id b)\<rparr>"

definition matched_allow :: "string option \<Rightarrow> authorization_decision" where
  "matched_allow allow =
     (case allow of
        None \<Rightarrow> \<lparr>ad_allowed = False, ad_reason = ''default deny'', ad_role_binding_id = None\<rparr>
      | Some rid \<Rightarrow> \<lparr>ad_allowed = True, ad_reason = ''matched role binding'', ad_role_binding_id = Some rid\<rparr>)"

lemma authorize_from_step:
  "authorize_from net request (set (ar_group_principal_ids request))
     (ar_resource_urn request # ar_parent_urns request) allow (binding # rest) =
   (if \<not> binding_applies net request binding
    then authorize_from net request (set (ar_group_principal_ids request))
      (ar_resource_urn request # ar_parent_urns request) allow rest
    else if cb_effect binding = Deny then explicit_deny binding
    else authorize_from net request (set (ar_group_principal_ids request))
      (ar_resource_urn request # ar_parent_urns request) (Some (cb_id binding)) rest)"
  by (simp add: binding_applies_def explicit_deny_def)

lemma authorize_from_closed:
  "authorize_from net request (set (ar_group_principal_ids request))
     (ar_resource_urn request # ar_parent_urns request) allow bindings =
   (let applicable = filter (binding_applies net request) bindings in
    case filter (\<lambda>b. cb_effect b = Deny) applicable of
      b # _ \<Rightarrow> explicit_deny b
    | [] \<Rightarrow> matched_allow (if applicable = [] then allow else Some (cb_id (last applicable))))"
proof (induction bindings arbitrary: allow)
  case Nil
  show ?case by (simp add: matched_allow_def split: option.split)
next
  case (Cons b bindings)
  show ?case
    by (cases "binding_applies net request b"; cases "cb_effect b")
      (simp_all add: authorize_from_step Cons.IH Let_def filter_empty_conv del: authorize_from.simps split: list.split)
qed

lemmas evaluator_authorize_closed = authorize_from_closed [where allow = None, folded evaluator_authorize_def]

lemma evaluator_authorize_cases:
  obtains (deny) b where "b \<in> set ev" "binding_applies net request b" "cb_effect b = Deny"
      "evaluator_authorize net ev request = explicit_deny b"
  | (allow) b where "b \<in> set ev" "binding_applies net request b" "cb_effect b = Allow"
      "\<forall>d \<in> set ev. binding_applies net request d \<longrightarrow> cb_effect d = Allow"
      "evaluator_authorize net ev request = matched_allow (Some (cb_id b))"
  | (none) "\<forall>d \<in> set ev. \<not> binding_applies net request d"
      "evaluator_authorize net ev request = matched_allow None"
proof -
  let ?ap = "filter (binding_applies net request) ev"
  show thesis
  proof (cases "filter (\<lambda>b. cb_effect b = Deny) ?ap")
    case (Cons b bs)
    then have "b \<in> set (filter (\<lambda>b. cb_effect b = Deny) ?ap)" by (metis list.set_intros(1))
    then have "b \<in> set ev \<and> binding_applies net request b \<and> cb_effect b = Deny" by simp
    with Cons show ?thesis by (intro deny [of b]) (simp_all add: evaluator_authorize_closed)
  next
    case Nil
    then have "\<forall>d \<in> set ?ap. cb_effect d \<noteq> Deny" unfolding filter_empty_conv .
    then have al: "\<forall>d \<in> set ?ap. cb_effect d = Allow" using effect.exhaust by blast
    show ?thesis
    proof (cases "?ap = []")
      case True
      with Nil show ?thesis by (intro none) (auto simp: evaluator_authorize_closed filter_empty_conv)
    next
      case False
      then have "last ?ap \<in> set ?ap" by (rule last_in_set)
      with False Nil al show ?thesis
        by (intro allow [of "last ?ap"]) (auto simp: evaluator_authorize_closed)
    qed
  qed
qed

lemma evaluator_authorize_allowed:
  "ad_allowed (evaluator_authorize net ev request) \<longleftrightarrow>
     (\<exists>b \<in> set ev. binding_applies net request b \<and> cb_effect b = Allow) \<and>
     \<not> (\<exists>b \<in> set ev. binding_applies net request b \<and> cb_effect b = Deny)"
  by (cases rule: evaluator_authorize_cases [of ev net request])
    (auto simp: explicit_deny_def matched_allow_def)

subsection \<open>Compilation\<close>

lemma validate_unique_from_iff:
  "validate_unique_from seen error vs = Inr u \<longleftrightarrow> unique_ids vs \<and> set vs \<inter> seen = {}"
  by (induction vs arbitrary: seen) (auto simp: unique_ids_def)

lemma validate_unique_iff [result_simps]: "validate_unique vs error = Inr u \<longleftrightarrow> unique_ids vs"
  by (simp add: validate_unique_def validate_unique_from_iff)

lemma check_role_actions_iff [result_simps]:
  "check_role_actions ids role = Inr u \<longleftrightarrow> set (role_action_ids role) \<subseteq> ids"
  by (auto simp: check_role_actions_def result_simps)

lemma roles_by_id_dom: "dom (roles_by_id roles) = role_id ` set roles"
  by (force simp: roles_by_id_def dom_map_of_conv_image_fst)

lemma roles_by_id_Some: "roles_by_id roles i = Some r \<Longrightarrow> r \<in> set roles \<and> role_id r = i"
  by (auto simp: roles_by_id_def dest!: map_of_SomeD)

lemma roles_by_id_unique:
  "distinct (map role_id roles) \<Longrightarrow> roles_by_id roles i = Some r \<longleftrightarrow> r \<in> set roles \<and> role_id r = i"
  using map_of_eq_Some_iff [of "rev (map (\<lambda>role. (role_id role, role)) roles)" i r]
  by (fastforce simp: roles_by_id_def rev_map [symmetric] comp_def)

lemma not_isl_iff: "\<not> isl r \<longleftrightarrow> (\<exists>x. r = Inr x)"
  by (cases r) auto

lemma compile_role_binding_Inr:
  "compile_role_binding net b roles = Inr c \<longleftrightarrow>
     trim (rb_principal_id b) \<noteq> [] \<and>
     (\<exists>role. roles (rb_role_id b) = Some role \<and> cb_action_ids c = set (role_action_ids role)) \<and>
     pattern_from_str (rb_resource_urn b) = Inr (cb_resource_urn c) \<and>
     conditions_compile net (rb_conditions b) = Inr (cb_conditions c) \<and>
     cb_id c = rb_id b \<and> cb_principal_id c = rb_principal_id b \<and> cb_effect c = rb_effect b"
  by (cases c) (auto simp: compile_role_binding_def result_simps)

lemma compile_role_binding_ok:
  "(\<exists>c. compile_role_binding net b (roles_by_id roles) = Inr c) \<longleftrightarrow> valid_binding net roles b"
proof -
  have "(\<exists>r. roles_by_id roles i = Some r) \<longleftrightarrow> i \<in> role_id ` set roles" for i
    using roles_by_id_dom [of roles] by auto
  then show ?thesis
    by (auto simp: compile_role_binding_def result_simps valid_binding_def not_isl_iff)
qed

lemma traverse_ok: "(\<exists>ys. traverse f xs = Inr ys) \<longleftrightarrow> (\<forall>x \<in> set xs. \<exists>y. f x = Inr y)"
  using traverse_Inl_iff [of f xs] by (metis Inl_Inr_False sum.exhaust)

lemma policy_compile_Inr:
  "policy_compile net p n = Inr cp \<longleftrightarrow>
     unique_ids (map act_identifier (pol_actions p)) \<and> unique_ids (map role_id (pol_roles p)) \<and>
     unique_ids (map rb_id (pol_role_bindings p)) \<and>
     unique_ids (map rm_id (concat (map act_route_matchers (pol_actions p)))) \<and>
     (\<forall>r \<in> set (pol_roles p). set (role_action_ids r) \<subseteq> set (map act_identifier (pol_actions p))) \<and>
     cp_policy cp = p\<lparr>pol_revision := n\<rparr> \<and>
     traverse (\<lambda>b. compile_role_binding net b (roles_by_id (pol_roles p))) (pol_role_bindings p) =
       Inr (cp_evaluator cp) \<and>
     traverse (\<lambda>(action, matcher). map_err InvalidHttpRoute (route_compile action matcher))
       (concat (map (\<lambda>action. map (Pair (act_identifier action)) (act_route_matchers action))
         (pol_actions p))) = Inr (cp_routes cp)"
  by (cases cp) (auto simp: policy_compile_def Let_def result_simps)

lemma routes_ok:
  "(\<exists>rs. traverse (\<lambda>(action, matcher). map_err InvalidHttpRoute (route_compile action matcher))
      (concat (map (\<lambda>action. map (Pair (act_identifier action)) (act_route_matchers action)) acts)) = Inr rs)
   \<longleftrightarrow> list_all valid_action acts"
  by (simp add: traverse_ok valid_action_def list_all_iff not_isl_iff result_simps)

lemma policy_compile_ok: "(\<exists>cp. policy_compile net p n = Inr cp) \<longleftrightarrow> valid_policy net p" (is "?L = ?R")
proof
  assume ?L
  then obtain cp where cp: "policy_compile net p n = Inr cp" ..
  then have "list_all valid_action (pol_actions p)"
    unfolding routes_ok [symmetric] by (auto simp: policy_compile_Inr)
  moreover from cp have "\<exists>bs. traverse (\<lambda>b. compile_role_binding net b (roles_by_id (pol_roles p)))
      (pol_role_bindings p) = Inr bs" by (auto simp: policy_compile_Inr)
  then have "list_all (valid_binding net (pol_roles p)) (pol_role_bindings p)"
    by (simp add: traverse_ok compile_role_binding_ok list_all_iff)
  ultimately show ?R using cp by (auto simp: policy_compile_Inr valid_policy_def list_all_iff)
next
  assume R: ?R
  then obtain rs where rs: "traverse (\<lambda>(action, matcher). map_err InvalidHttpRoute (route_compile action matcher))
      (concat (map (\<lambda>action. map (Pair (act_identifier action)) (act_route_matchers action)) (pol_actions p))) = Inr rs"
    unfolding valid_policy_def routes_ok [symmetric] by blast
  from R have "\<exists>bs. traverse (\<lambda>b. compile_role_binding net b (roles_by_id (pol_roles p)))
      (pol_role_bindings p) = Inr bs"
    by (simp add: traverse_ok compile_role_binding_ok valid_policy_def list_all_iff)
  then obtain bs where bs: "traverse (\<lambda>b. compile_role_binding net b (roles_by_id (pol_roles p)))
      (pol_role_bindings p) = Inr bs" ..
  have "policy_compile net p n = Inr \<lparr>cp_policy = p\<lparr>pol_revision := n\<rparr>, cp_evaluator = bs, cp_routes = rs\<rparr>"
    using R bs rs unfolding policy_compile_Inr by (auto simp: valid_policy_def list_all_iff)
  then show ?L by blast
qed

subsection \<open>The compiled policy implements the document\<close>

lemma policy_compile_evaluator:
  "policy_compile net p n = Inr cp \<Longrightarrow>
   list_all2 (\<lambda>b c. compile_role_binding net b (roles_by_id (pol_roles p)) = Inr c)
     (pol_role_bindings p) (cp_evaluator cp)"
  by (simp add: policy_compile_Inr traverse_eq_Inr)

lemma list_all2_bex:
  assumes "list_all2 R xs ys" "\<And>x y. x \<in> set xs \<Longrightarrow> R x y \<Longrightarrow> P x \<longleftrightarrow> Q y"
  shows "(\<exists>x \<in> set xs. P x) \<longleftrightarrow> (\<exists>y \<in> set ys. Q y)"
  using assms by (induction rule: list_all2_induct) auto

lemma compiled_binding_applies:
  assumes "compile_role_binding net b (roles_by_id roles) = Inr c" "distinct (map role_id roles)"
  shows "binding_applies net request c \<and> cb_effect c = eff \<longleftrightarrow>
    (\<exists>r \<in> set roles. role_id r = rb_role_id b \<and> rb_effect b = eff \<and>
        rb_principal_id b \<in> insert (ar_principal_id request) (set (ar_group_principal_ids request)) \<and>
        ar_action request \<in> set (role_action_ids r) \<and>
        urn_covers (rb_resource_urn b) (ar_resource_urn request # ar_parent_urns request) \<and>
        conditions_hold net (rb_conditions b) (ar_context request))"
proof -
  from assms(1) obtain role where role: "roles_by_id roles (rb_role_id b) = Some role"
    "cb_action_ids c = set (role_action_ids role)" by (auto simp: compile_role_binding_Inr)
  with assms(2) have "role \<in> set roles \<and> role_id role = rb_role_id b"
    "\<forall>r \<in> set roles. role_id r = rb_role_id b \<longrightarrow> r = role"
    by (auto simp: roles_by_id_unique distinct_map inj_on_def)
  with assms(1) role(2) show ?thesis
    by (auto simp: compile_role_binding_Inr binding_applies_def principal_matches_def urn_covers_def
      conditions_hold_def)
qed

lemma policy_compile_binds:
  assumes "policy_compile net p n = Inr cp"
  shows "(\<exists>c \<in> set (cp_evaluator cp). binding_applies net request c \<and> cb_effect c = eff) \<longleftrightarrow>
    document_binds net p eff request"
  unfolding document_binds_def
proof (rule sym, rule list_all2_bex [OF policy_compile_evaluator [OF assms]])
  fix b c assume "compile_role_binding net b (roles_by_id (pol_roles p)) = Inr c"
  moreover from assms have "distinct (map role_id (pol_roles p))"
    by (simp add: policy_compile_Inr unique_ids_def)
  ultimately show "(\<exists>r \<in> set (pol_roles p). role_id r = rb_role_id b \<and> rb_effect b = eff \<and>
        rb_principal_id b \<in> insert (ar_principal_id request) (set (ar_group_principal_ids request)) \<and>
        ar_action request \<in> set (role_action_ids r) \<and>
        urn_covers (rb_resource_urn b) (ar_resource_urn request # ar_parent_urns request) \<and>
        conditions_hold net (rb_conditions b) (ar_context request)) \<longleftrightarrow>
      binding_applies net request c \<and> cb_effect c = eff"
    by (rule compiled_binding_applies [symmetric])
qed

lemma policy_compile_wf:
  "policy_compile net p n = Inr cp \<Longrightarrow> c \<in> set (cp_evaluator cp) \<Longrightarrow> wf_pattern (cb_resource_urn c)"
  by (auto simp: policy_compile_Inr compile_role_binding_Inr pattern_from_str_iff dest: traverse_set_rev)

subsection \<open>The delivered scope\<close>

lemma set_evaluator_scope:
  "set (as_allow_resource_urns (evaluator_scope net ev p gs a ctx)) =
     {pattern_to_string (cb_resource_urn b) | b. b \<in> set ev \<and> cb_effect b = Allow \<and>
        scope_applies net p (set gs) a ctx b}"
  "set (as_deny_resource_urns (evaluator_scope net ev p gs a ctx)) =
     {pattern_to_string (cb_resource_urn b) | b. b \<in> set ev \<and> cb_effect b = Deny \<and>
        scope_applies net p (set gs) a ctx b}"
  by (auto simp: evaluator_scope_def Let_def)

lemma urn_covers_print: "wf_pattern p \<Longrightarrow> urn_covers (pattern_to_string p) urns \<longleftrightarrow> matches_any p urns"
  by (simp add: urn_covers_def pattern.parse_print)

lemma binding_applies_scope:
  "binding_applies net request b \<longleftrightarrow>
     scope_applies net (ar_principal_id request) (set (ar_group_principal_ids request))
       (ar_action request) (ar_context request) b \<and>
     matches_any (cb_resource_urn b) (ar_resource_urn request # ar_parent_urns request)"
  by (auto simp: binding_applies_def scope_applies_def)

lemma scope_agrees:
  assumes "\<And>b. b \<in> set ev \<Longrightarrow> wf_pattern (cb_resource_urn b)"
    and scope: "scope = evaluator_scope net ev (ar_principal_id request) (ar_group_principal_ids request)
      (ar_action request) (ar_context request)"
  shows "ad_allowed (evaluator_authorize net ev request) \<longleftrightarrow>
    (\<exists>s \<in> set (as_allow_resource_urns scope). urn_covers s (ar_resource_urn request # ar_parent_urns request)) \<and>
    \<not> (\<exists>s \<in> set (as_deny_resource_urns scope). urn_covers s (ar_resource_urn request # ar_parent_urns request))"
proof -
  have "(\<exists>s \<in> {pattern_to_string (cb_resource_urn b) | b. b \<in> set ev \<and> cb_effect b = eff \<and>
        scope_applies net (ar_principal_id request) (set (ar_group_principal_ids request))
          (ar_action request) (ar_context request) b}.
        urn_covers s (ar_resource_urn request # ar_parent_urns request)) \<longleftrightarrow>
      (\<exists>b \<in> set ev. binding_applies net request b \<and> cb_effect b = eff)" for eff
    using assms(1) by (fastforce simp: binding_applies_scope urn_covers_print)
  then show ?thesis by (simp add: evaluator_authorize_allowed scope set_evaluator_scope)
qed

section \<open>An example policy\<close>

definition sample_policy :: iam_policy_info where
  "sample_policy = \<lparr>pol_revision = 1,
     pol_actions = [\<lparr>act_identifier = ''job.read'', act_description = [],
       act_route_matchers = [\<lparr>rm_id = ''r1'', rm_methods = [''GET''], rm_hosts = [],
         rm_path = ''/jobs/{job}'', rm_resource_urn = ''urn:iam:prod:cg:global:{tenant}:job/{job}'',
         rm_parent_urns = []\<rparr>]\<rparr>],
     pol_roles = [\<lparr>role_id = ''reader'', role_name = ''Reader'', role_description = [],
       role_action_ids = [''job.read'']\<rparr>],
     pol_role_bindings =
       [\<lparr>rb_id = ''b1'', rb_principal_id = ''group:dev'', rb_role_id = ''reader'', rb_effect = Allow,
         rb_resource_urn = ''urn:iam:prod:cg:global:acme:job/**'', rb_conditions = default_conditions\<rparr>,
        \<lparr>rb_id = ''b2'', rb_principal_id = ''user:eve'', rb_role_id = ''reader'', rb_effect = Deny,
         rb_resource_urn = ''urn:iam:prod:cg:global:acme:job/2'', rb_conditions = default_conditions\<rparr>]\<rparr>"

definition sample_request :: authorization_request where
  "sample_request = \<lparr>ar_principal_id = ''user:eve'', ar_group_principal_ids = [''group:dev''],
     ar_action = ''job.read'',
     ar_resource_urn = \<lparr>ru_partition = ''prod'', ru_service = ''cg'', ru_region = ''global'',
       ru_tenant = ''acme'', ru_path = [''job'', ''1'']\<rparr>,
     ar_parent_urns = [], ar_context = default_context\<rparr>"

lemma sample_policy_valid: "valid_policy office_net sample_policy"
  by code_simp

section \<open>Properties\<close>

text \<open>
  Deny overrides: a request is allowed if and only if some applicable role binding allows
  it and no applicable role binding denies it, wherever the bindings stand in the list.
\<close>

theorem authorize_deny_overrides:
  "ad_allowed (evaluator_authorize net evaluator request) \<longleftrightarrow>
     (\<exists>b \<in> set evaluator. binding_applies net request b \<and> cb_effect b = Allow) \<and>
     \<not> (\<exists>b \<in> set evaluator. binding_applies net request b \<and> cb_effect b = Deny)"
  by (rule evaluator_authorize_allowed)

text \<open>
  The decision names its cause: an explicit deny or an allow carries the identifier of an
  applicable binding of that effect, and a decision without a binding is the default deny, taken
  exactly when no binding applies.
\<close>

theorem decision_names_its_cause:
  "case ad_role_binding_id (evaluator_authorize net evaluator request) of
     None \<Rightarrow> \<not> (\<exists>b \<in> set evaluator. binding_applies net request b) \<and>
             ad_reason (evaluator_authorize net evaluator request) = ''default deny'' \<and>
             \<not> ad_allowed (evaluator_authorize net evaluator request)
   | Some i \<Rightarrow> (\<exists>b \<in> set evaluator. cb_id b = i \<and> binding_applies net request b \<and>
             (if ad_allowed (evaluator_authorize net evaluator request)
              then cb_effect b = Allow \<and> ad_reason (evaluator_authorize net evaluator request) = ''matched role binding''
              else cb_effect b = Deny \<and> ad_reason (evaluator_authorize net evaluator request) = ''explicit deny''))"
  by (cases rule: evaluator_authorize_cases [of evaluator net request])
    (auto simp: explicit_deny_def matched_allow_def)

text \<open>
  Compilation accepts exactly the valid policy documents: identifiers are unique and not
  blank, every role refers to declared actions and every binding to a declared role, and every
  resource pattern, condition and route matcher parses.
\<close>

theorem policy_compile_accepts_valid:
  "(\<exists>cp. policy_compile net p n = Inr cp) \<longleftrightarrow> valid_policy net p"
  by (rule policy_compile_ok)

text \<open>
  Claim C6. The compiled policy implements the document: its decision is the one read off the
  document itself, an allow binding for the request and no deny binding.
\<close>

theorem compiled_decision_refines_document:
  assumes "policy_compile net p n = Inr cp"
  shows "ad_allowed (policy_authorize net cp request) \<longleftrightarrow>
    document_binds net p Allow request \<and> \<not> document_binds net p Deny request"
  by (simp add: policy_authorize_def evaluator_authorize_allowed policy_compile_binds [OF assms])

theorem compiled_decision_refines_document_witness:
  "\<exists>cp. policy_compile office_net sample_policy 1 = Inr cp \<and>
     ad_allowed (policy_authorize office_net cp sample_request)"
proof -
  from sample_policy_valid obtain cp where cp: "policy_compile office_net sample_policy 1 = Inr cp"
    unfolding policy_compile_ok [symmetric, where n = 1] by blast
  have "document_binds office_net sample_policy Allow sample_request \<and>
      \<not> document_binds office_net sample_policy Deny sample_request" by code_simp
  with compiled_decision_refines_document [OF cp] cp show ?thesis by blast
qed

text \<open>
  The resource scope that is delivered to the services agrees with the decision: a
  request is allowed if and only if one of the delivered allow patterns, read back from its text,
  covers the resource or a parent and none of the delivered deny patterns does.
\<close>

theorem delivered_scope_agrees_with_decision:
  assumes "policy_compile net p n = Inr cp"
    and "scope = policy_scope net cp (ar_principal_id request) (ar_group_principal_ids request)
      (ar_action request) (ar_context request)"
  shows "ad_allowed (policy_authorize net cp request) \<longleftrightarrow>
    (\<exists>s \<in> set (as_allow_resource_urns scope). urn_covers s (ar_resource_urn request # ar_parent_urns request)) \<and>
    \<not> (\<exists>s \<in> set (as_deny_resource_urns scope). urn_covers s (ar_resource_urn request # ar_parent_urns request))"
  using scope_agrees [of "cp_evaluator cp" scope net request] policy_compile_wf [OF assms(1)] assms(2)
  by (simp add: policy_authorize_def policy_scope_def)

theorem delivered_scope_agrees_with_decision_witness:
  "\<exists>cp scope. policy_compile office_net sample_policy 1 = Inr cp \<and>
     scope = policy_scope office_net cp ''user:eve'' [''group:dev''] ''job.read'' default_context \<and>
     (ad_allowed (policy_authorize office_net cp sample_request) \<longleftrightarrow>
       (\<exists>s \<in> set (as_allow_resource_urns scope). urn_covers s [ar_resource_urn sample_request]) \<and>
       \<not> (\<exists>s \<in> set (as_deny_resource_urns scope). urn_covers s [ar_resource_urn sample_request]))"
proof -
  from sample_policy_valid obtain cp where cp: "policy_compile office_net sample_policy 1 = Inr cp"
    unfolding policy_compile_ok [symmetric, where n = 1] by blast
  from delivered_scope_agrees_with_decision [OF cp refl, of sample_request] cp show ?thesis
    by (simp add: sample_request_def)
qed

end
