(* ===== verification/Storage.thy ===== *)
theory Storage
  imports Policy Identity
begin

text \<open>
  The IAM tables (\<open>migrations/001_init.ddl.sql\<close>) as the repositories of \<open>common/src/storage/\<close> see
  them: the rows of each table and, for each statement the repositories execute, the constraints
  that SQLite checks and the rows that result. Primary keys, unique keys, \<open>CHECK\<close> clauses and
  foreign keys with their \<open>ON DELETE\<close> actions are part of the statements. JSON columns hold JSON
  documents; their encoding is done by the crate \<open>serde_json\<close>, which is a parameter. The time
  stamp columns are written but never read by the modelled code and are left out.
\<close>

section \<open>Data\<close>

datatype sql_error = UniqueViolation | CheckViolation | ForeignKeyViolation

text \<open>
  \<open>anyhow::Error\<close> as the storage layer builds it: a database error, a column that does not decode,
  an error of the layer itself.
\<close>

datatype storage_error =
    Database sql_error
  | Decode string
  | Failure string
  | PrincipalIdentityConflict
  | PrincipalReferenced string

record action_row =
  ta_identifier :: string
  ta_description :: string
  ta_route_matchers :: json

record role_row =
  tr_id :: string
  tr_name :: string
  tr_description :: string

record role_binding_row =
  tb_id :: string
  tb_principal_id :: string
  tb_role_id :: string
  tb_effect :: string
  tb_resource_urn :: string
  tb_conditions :: json

record principal_row =
  tp_id :: string
  tp_kind :: string
  tp_display_name :: string
  tp_status :: string
  tp_authorization_state :: json

record identity_row =
  ti_principal_id :: string
  ti_provider :: string
  ti_issuer :: string
  ti_subject :: string
  ti_claims :: json

record database =
  db_principals :: "principal_row list"
  db_identities :: "identity_row list"
  db_actions :: "action_row list"
  db_roles :: "role_row list"
  db_role_actions :: "(string \<times> string) list"
  db_role_bindings :: "role_binding_row list"

text \<open>
  The conversions of \<open>serde_json\<close> between the model types and JSON, generated by
  \<open>derive(Serialize, Deserialize)\<close>.
\<close>

record serde_lib =
  matchers_to_value :: "http_route_matcher list \<Rightarrow> json"
  matchers_from_value :: "json \<Rightarrow> http_route_matcher list option"
  conditions_to_value :: "authorization_condition_spec \<Rightarrow> json"
  conditions_from_value :: "json \<Rightarrow> authorization_condition_spec option"

text \<open>What the storage layer relies on: a value that was written is read back.\<close>

definition serde_roundtrip :: "serde_lib \<Rightarrow> bool" where
  "serde_roundtrip sd \<longleftrightarrow>
     (\<forall>ms. matchers_from_value sd (matchers_to_value sd ms) = Some ms) \<and>
     (\<forall>c. conditions_from_value sd (conditions_to_value sd c) = Some c)"

section \<open>Statements\<close>

definition sql_insert_action :: "action_row \<Rightarrow> database \<Rightarrow> (sql_error, database) result" where
  "sql_insert_action row db =
     (if sql_trim (ta_identifier row) = [] then Inl CheckViolation
      else if ta_identifier row \<in> set (map ta_identifier (db_actions db)) then Inl UniqueViolation
      else Inr (db\<lparr>db_actions := db_actions db @ [row]\<rparr>))"

definition sql_insert_role :: "role_row \<Rightarrow> database \<Rightarrow> (sql_error, database) result" where
  "sql_insert_role row db =
     (if sql_trim (tr_id row) = [] \<or> sql_trim (tr_name row) = [] then Inl CheckViolation
      else if tr_id row \<in> set (map tr_id (db_roles db)) \<or> tr_name row \<in> set (map tr_name (db_roles db))
        then Inl UniqueViolation
      else Inr (db\<lparr>db_roles := db_roles db @ [row]\<rparr>))"

definition sql_insert_role_action :: "string \<Rightarrow> string \<Rightarrow> database \<Rightarrow> (sql_error, database) result" where
  "sql_insert_role_action rid action db =
     (if (rid, action) \<in> set (db_role_actions db) then Inl UniqueViolation
      else if rid \<notin> set (map tr_id (db_roles db)) \<or> action \<notin> set (map ta_identifier (db_actions db))
        then Inl ForeignKeyViolation
      else Inr (db\<lparr>db_role_actions := db_role_actions db @ [(rid, action)]\<rparr>))"

text \<open>\<open>LIKE 'urn:iam:%'\<close>, which in SQLite ignores ASCII case.\<close>

definition like_urn :: "string \<Rightarrow> bool" where
  "like_urn s \<longleftrightarrow> eq_ignore_ascii_case (take 8 s) ''urn:iam:''"

definition sql_insert_role_binding :: "role_binding_row \<Rightarrow> database \<Rightarrow> (sql_error, database) result" where
  "sql_insert_role_binding row db =
     (if sql_trim (tb_id row) = [] \<or> tb_effect row \<notin> {''ALLOW'', ''DENY''} \<or>
         \<not> like_urn (sql_trim (tb_resource_urn row)) then Inl CheckViolation
      else if tb_id row \<in> set (map tb_id (db_role_bindings db)) then Inl UniqueViolation
      else if tb_principal_id row \<notin> set (map tp_id (db_principals db)) \<or>
         tb_role_id row \<notin> set (map tr_id (db_roles db)) then Inl ForeignKeyViolation
      else Inr (db\<lparr>db_role_bindings := db_role_bindings db @ [row]\<rparr>))"

text \<open>
  The unconditional deletions. Deleting the roles removes their action rows (\<open>CASCADE\<close>) and fails
  while a binding refers to one (\<open>RESTRICT\<close>); deleting the actions fails while a role has one.
\<close>

definition sql_delete_role_bindings :: "database \<Rightarrow> (sql_error, database) result" where
  "sql_delete_role_bindings db = Inr (db\<lparr>db_role_bindings := []\<rparr>)"

definition sql_delete_role_actions :: "database \<Rightarrow> (sql_error, database) result" where
  "sql_delete_role_actions db = Inr (db\<lparr>db_role_actions := []\<rparr>)"

definition sql_delete_roles :: "database \<Rightarrow> (sql_error, database) result" where
  "sql_delete_roles db =
     (if list_ex (\<lambda>b. tb_role_id b \<in> set (map tr_id (db_roles db))) (db_role_bindings db)
      then Inl ForeignKeyViolation
      else Inr (db\<lparr>db_roles := [], db_role_actions :=
        filter (\<lambda>(r, a). r \<notin> set (map tr_id (db_roles db))) (db_role_actions db)\<rparr>))"

definition sql_delete_actions :: "database \<Rightarrow> (sql_error, database) result" where
  "sql_delete_actions db =
     (if list_ex (\<lambda>(r, a). a \<in> set (map ta_identifier (db_actions db))) (db_role_actions db)
      then Inl ForeignKeyViolation
      else Inr (db\<lparr>db_actions := []\<rparr>))"

text \<open>A transaction: an error rolls every statement back.\<close>

definition in_transaction ::
  "database \<Rightarrow> (storage_error, 'a \<times> database) result \<Rightarrow> (storage_error, 'a) result \<times> database" where
  "in_transaction db outcome =
     (case outcome of Inl e \<Rightarrow> (Inl e, db) | Inr (x, db') \<Rightarrow> (Inr x, db'))"

section \<open>Schema invariant\<close>

definition identity_key_of_row :: "identity_row \<Rightarrow> string \<times> string \<times> string" where
  "identity_key_of_row r = (ti_provider r, ti_issuer r, ti_subject r)"

text \<open>What the constraints of the schema guarantee of the tables.\<close>

definition valid_db :: "database \<Rightarrow> bool" where
  "valid_db db \<longleftrightarrow>
     distinct (map tp_id (db_principals db)) \<and>
     distinct (map identity_key_of_row (db_identities db)) \<and>
     distinct (map ta_identifier (db_actions db)) \<and>
     distinct (map tr_id (db_roles db)) \<and> distinct (map tr_name (db_roles db)) \<and>
     distinct (db_role_actions db) \<and> distinct (map tb_id (db_role_bindings db)) \<and>
     fst ` set (db_role_actions db) \<subseteq> tr_id ` set (db_roles db) \<and>
     snd ` set (db_role_actions db) \<subseteq> ta_identifier ` set (db_actions db) \<and>
     tb_role_id ` set (db_role_bindings db) \<subseteq> tr_id ` set (db_roles db) \<and>
     tb_principal_id ` set (db_role_bindings db) \<subseteq> tp_id ` set (db_principals db) \<and>
     ti_principal_id ` set (db_identities db) \<subseteq> tp_id ` set (db_principals db)"

definition empty_db :: database where
  "empty_db = \<lparr>db_principals = [], db_identities = [], db_actions = [], db_roles = [],
     db_role_actions = [], db_role_bindings = []\<rparr>"

lemma valid_empty_db: "valid_db empty_db"
  by (simp add: valid_db_def empty_db_def)

section \<open>Lemmas\<close>

lemma sql_insert_action_Inr [result_simps]:
  "sql_insert_action row db = Inr db' \<longleftrightarrow>
     sql_trim (ta_identifier row) \<noteq> [] \<and> ta_identifier row \<notin> set (map ta_identifier (db_actions db)) \<and>
     db' = db\<lparr>db_actions := db_actions db @ [row]\<rparr>"
  by (auto simp: sql_insert_action_def)

lemma sql_insert_role_Inr [result_simps]:
  "sql_insert_role row db = Inr db' \<longleftrightarrow>
     sql_trim (tr_id row) \<noteq> [] \<and> sql_trim (tr_name row) \<noteq> [] \<and>
     tr_id row \<notin> set (map tr_id (db_roles db)) \<and> tr_name row \<notin> set (map tr_name (db_roles db)) \<and>
     db' = db\<lparr>db_roles := db_roles db @ [row]\<rparr>"
  by (auto simp: sql_insert_role_def)

lemma sql_insert_role_action_Inr [result_simps]:
  "sql_insert_role_action r a db = Inr db' \<longleftrightarrow>
     (r, a) \<notin> set (db_role_actions db) \<and> r \<in> set (map tr_id (db_roles db)) \<and>
     a \<in> set (map ta_identifier (db_actions db)) \<and>
     db' = db\<lparr>db_role_actions := db_role_actions db @ [(r, a)]\<rparr>"
  by (auto simp: sql_insert_role_action_def)

lemma sql_insert_role_binding_Inr [result_simps]:
  "sql_insert_role_binding row db = Inr db' \<longleftrightarrow>
     sql_trim (tb_id row) \<noteq> [] \<and> tb_effect row \<in> {''ALLOW'', ''DENY''} \<and>
     like_urn (sql_trim (tb_resource_urn row)) \<and>
     tb_id row \<notin> set (map tb_id (db_role_bindings db)) \<and>
     tb_principal_id row \<in> set (map tp_id (db_principals db)) \<and>
     tb_role_id row \<in> set (map tr_id (db_roles db)) \<and>
     db' = db\<lparr>db_role_bindings := db_role_bindings db @ [row]\<rparr>"
  by (auto simp: sql_insert_role_binding_def)

lemma sql_insert_action_valid: "sql_insert_action row db = Inr db' \<Longrightarrow> valid_db db \<Longrightarrow> valid_db db'"
  by (auto simp: result_simps valid_db_def)

lemma sql_insert_role_valid: "sql_insert_role row db = Inr db' \<Longrightarrow> valid_db db \<Longrightarrow> valid_db db'"
  by (auto simp: result_simps valid_db_def)

lemma sql_insert_role_action_valid: "sql_insert_role_action r a db = Inr db' \<Longrightarrow> valid_db db \<Longrightarrow> valid_db db'"
  by (auto simp: result_simps valid_db_def)

lemma sql_insert_role_binding_valid: "sql_insert_role_binding row db = Inr db' \<Longrightarrow> valid_db db \<Longrightarrow> valid_db db'"
  by (auto simp: result_simps valid_db_def)

lemma in_transaction_Inl: "in_transaction db outcome = (Inl e, db') \<longleftrightarrow> outcome = Inl e \<and> db' = db"
  by (auto simp: in_transaction_def split: sum.splits)

lemma in_transaction_Inr: "in_transaction db outcome = (Inr x, db') \<longleftrightarrow> outcome = Inr (x, db')"
  by (auto simp: in_transaction_def split: sum.splits)

section \<open>The repository interfaces\<close>

text \<open>
  \<open>dyn PolicyRepository\<close> and \<open>dyn PrincipalRepository\<close>: the tables of operations that the handlers
  call, over the type \<open>'d\<close> of storage states.
\<close>

record 'd policy_repository =
  repo_load :: "'d \<Rightarrow> (storage_error, iam_policy_info) result"
  repo_replace :: "'d \<Rightarrow> iam_policy_info \<Rightarrow> (storage_error, unit) result \<times> 'd"

record 'd principal_repository =
  pr_get :: "'d \<Rightarrow> string \<Rightarrow> (storage_error, iam_principal_info option) result"
  pr_find_by_ids :: "'d \<Rightarrow> string list \<Rightarrow> (storage_error, iam_principal_info list) result"
  pr_list :: "'d \<Rightarrow> string \<Rightarrow> string option \<Rightarrow> u32 \<Rightarrow> (storage_error, iam_principal_info list) result"
  pr_update_status :: "'d \<Rightarrow> string \<Rightarrow> principal_status \<Rightarrow> (storage_error, iam_principal_info option) result \<times> 'd"
  pr_delete :: "'d \<Rightarrow> string \<Rightarrow> (storage_error, bool) result \<times> 'd"
  pr_upsert_with_identity :: "'d \<Rightarrow> iam_principal_info \<Rightarrow> iam_principal_identity_info \<Rightarrow>
    (storage_error, iam_principal_info) result \<times> 'd"

text \<open>The order in which a repository returns a document.\<close>

definition canonical_role :: "iam_role_info \<Rightarrow> iam_role_info" where
  "canonical_role r = r\<lparr>role_action_ids := sort (role_action_ids r)\<rparr>"

definition canonical :: "iam_policy_info \<Rightarrow> iam_policy_info" where
  "canonical p = \<lparr>pol_revision = 1, pol_actions = sort_key act_identifier (pol_actions p),
     pol_roles = map canonical_role (sort_key role_id (pol_roles p)),
     pol_role_bindings = sort_key rb_id (pol_role_bindings p)\<rparr>"

text \<open>
  What the policy handler relies on: a failed replacement changes nothing, a successful one is what
  the next load returns, and what a load returns is in canonical order.
\<close>

locale policy_storage =
  fixes repo :: "'d policy_repository" and wf :: "'d \<Rightarrow> bool"
  assumes replace_failed: "repo_replace repo d p = (Inl e, d') \<Longrightarrow> d' = d"
    and replace_wf: "wf d \<Longrightarrow> repo_replace repo d p = (Inr u, d') \<Longrightarrow> wf d'"
    and replace_load: "wf d \<Longrightarrow> repo_replace repo d p = (Inr u, d') \<Longrightarrow> repo_load repo d' = Inr (canonical p)"
    and load_canonical: "wf d \<Longrightarrow> repo_load repo d = Inr p \<Longrightarrow> canonical p = p"
begin

lemma replace_wf_any: "wf d \<Longrightarrow> wf (snd (repo_replace repo d p))"
  by (cases "repo_replace repo d p"; cases "fst (repo_replace repo d p)")
    (auto dest: replace_failed replace_wf)

lemma replace_twice_load:
  "wf d \<Longrightarrow> repo_replace repo d p = (Inr u, d') \<Longrightarrow> repo_replace repo d' q = (Inr v, d'') \<Longrightarrow>
   repo_load repo d'' = Inr (canonical q)"
  using replace_wf replace_load by blast

end

text \<open>
  What the principal handler relies on, in terms of the principal that a storage state holds under an
  identifier (\<open>at\<close>) and of the principals that a search text selects, in identifier order
  (\<open>selected\<close>): reads agree with \<open>at\<close>, a failed write changes nothing, and a successful one changes
  the entry of one principal.
\<close>

locale principal_directory =
  fixes repo :: "'d principal_repository" and ok :: "'d \<Rightarrow> bool"
    and at :: "'d \<Rightarrow> string \<Rightarrow> iam_principal_info option"
    and selected :: "'d \<Rightarrow> string \<Rightarrow> iam_principal_info list"
  assumes at_id: "ok d \<Longrightarrow> at d i = Some p \<Longrightarrow> pi_id p = i"
    and get: "ok d \<Longrightarrow> pr_get repo d i = Inr (at d i)"
    and find_by_ids: "ok d \<Longrightarrow> \<exists>ps. pr_find_by_ids repo d ids = Inr ps \<and> distinct (map pi_id ps) \<and>
      set ps = {p. \<exists>i \<in> set ids. at d i = Some p}"
    and list: "ok d \<Longrightarrow> pr_list repo d query after n =
      Inr (take (unat (max 1 (min n 100))) (filter (\<lambda>p. pi_id p > (case after of None \<Rightarrow> [] | Some a \<Rightarrow> a)) (selected d query)))"
    and selected_order: "ok d \<Longrightarrow> sorted (map pi_id (selected d query)) \<and> distinct (map pi_id (selected d query))"
    and selected_ids: "ok d \<Longrightarrow> p \<in> set (selected d query) \<Longrightarrow> pi_id p \<noteq> []"
    and status: "ok d \<Longrightarrow> pr_update_status repo d i st = (r, d') \<Longrightarrow> ok d' \<and> r = Inr (at d' i) \<and>
      at d' = (at d)(i := map_option (\<lambda>p. p\<lparr>pi_status := st\<rparr>) (at d i))"
    and delete: "ok d \<Longrightarrow> pr_delete repo d i = (removed, d') \<Longrightarrow> ok d' \<and>
      (case removed of Inl e \<Rightarrow> d' = d | Inr b \<Rightarrow> at d' = (at d)(i := None) \<and> b = (at d i \<noteq> None))"
    and upsert: "ok d \<Longrightarrow> pr_upsert_with_identity repo d p ident = (written, d') \<Longrightarrow> ok d' \<and>
      (case written of Inl e \<Rightarrow> d' = d | Inr q \<Rightarrow> q = p \<and> at d' = (at d)(pi_id p \<mapsto> p))"
begin

text \<open>The writes keep the storage readable, whatever they return.\<close>

lemma writes_ok:
  "ok d \<Longrightarrow> ok (snd (pr_update_status repo d i st))" "ok d \<Longrightarrow> ok (snd (pr_delete repo d i))"
  "ok d \<Longrightarrow> ok (snd (pr_upsert_with_identity repo d p ident))"
  by (metis prod.collapse status, metis prod.collapse delete, metis prod.collapse upsert)

end

end
