(* ===== verification/Principal_Store.thy ===== *)
theory Principal_Store
  imports Storage
begin

text \<open>
  The SQLite repositories of principals and of their external identities
  (\<open>common/src/storage/principal_sqlite.rs\<close>): the interface that the authorization service uses
  (\<open>PrincipalRepository\<close>) and the one that the authentication service uses
  (\<open>IdentityBindingRepository\<close>). Shown here: every operation keeps the schema invariant, an external
  identity that is bound to a principal is never bound to another one, a rolled back account
  creation leaves no trace, and the search operation returns the rows with the given prefix.
\<close>

section \<open>Rows\<close>

definition principal_to_row :: "iam_principal_info \<Rightarrow> principal_row" where
  "principal_to_row p = \<lparr>tp_id = pi_id p, tp_kind = kind_as_str (pi_kind p),
     tp_display_name = pi_display_name p, tp_status = status_as_str (pi_status p),
     tp_authorization_state = JObject (pi_authorization_state p)\<rparr>"

definition principal_from_row :: "principal_row \<Rightarrow> (storage_error, iam_principal_info) result" where
  "principal_from_row row =
     and_then (map_err (\<lambda>e. Decode (pe_value e)) (kind_try_from (tp_kind row))) (\<lambda>kind.
     and_then (map_err (\<lambda>e. Decode (pe_value e)) (status_try_from (tp_status row))) (\<lambda>status.
     and_then (ok_or (Decode ''authorization_state'') (json_as_object (tp_authorization_state row))) (\<lambda>state.
       Inr \<lparr>pi_id = tp_id row, pi_kind = kind, pi_display_name = tp_display_name row,
            pi_status = status, pi_authorization_state = state\<rparr>)))"

definition identity_to_row :: "iam_principal_identity_info \<Rightarrow> identity_row" where
  "identity_to_row i = \<lparr>ti_principal_id = ii_principal_id i, ti_provider = ii_provider i,
     ti_issuer = ii_issuer i, ti_subject = ii_subject i, ti_claims = ii_claims i\<rparr>"

definition identity_from_row :: "identity_row \<Rightarrow> iam_principal_identity_info" where
  "identity_from_row r = \<lparr>ii_principal_id = ti_principal_id r, ii_provider = ti_provider r,
     ii_issuer = ti_issuer r, ii_subject = ti_subject r, ii_claims = ti_claims r\<rparr>"

definition row_has_key :: "external_identity_key \<Rightarrow> identity_row \<Rightarrow> bool" where
  "row_has_key k r \<longleftrightarrow> ti_provider r = ek_provider k \<and> ti_issuer r = ek_issuer k \<and> ti_subject r = ek_subject k"

section \<open>Statements\<close>

definition principal_checks :: "principal_row \<Rightarrow> bool" where
  "principal_checks row \<longleftrightarrow> sql_trim (tp_id row) \<noteq> [] \<and> sql_trim (tp_display_name row) \<noteq> [] \<and>
     tp_kind row \<in> {''USER'', ''WORKLOAD'', ''GROUP''} \<and> tp_status row \<in> {''ACTIVE'', ''DISABLED''}"

definition identity_checks :: "identity_row \<Rightarrow> bool" where
  "identity_checks row \<longleftrightarrow>
     sql_trim (ti_provider row) \<noteq> [] \<and> sql_trim (ti_issuer row) \<noteq> [] \<and> sql_trim (ti_subject row) \<noteq> []"

definition sql_insert_principal :: "principal_row \<Rightarrow> database \<Rightarrow> (sql_error, database) result" where
  "sql_insert_principal row db =
     (if \<not> principal_checks row then Inl CheckViolation
      else if tp_id row \<in> set (map tp_id (db_principals db)) then Inl UniqueViolation
      else Inr (db\<lparr>db_principals := db_principals db @ [row]\<rparr>))"

definition sql_upsert_principal :: "principal_row \<Rightarrow> database \<Rightarrow> (sql_error, database) result" where
  "sql_upsert_principal row db =
     (if \<not> principal_checks row then Inl CheckViolation
      else if tp_id row \<in> set (map tp_id (db_principals db))
        then Inr (db\<lparr>db_principals := map (\<lambda>r. if tp_id r = tp_id row then row else r) (db_principals db)\<rparr>)
      else Inr (db\<lparr>db_principals := db_principals db @ [row]\<rparr>))"

definition same_key :: "identity_row \<Rightarrow> identity_row \<Rightarrow> bool" where
  "same_key r s \<longleftrightarrow> ti_provider r = ti_provider s \<and> ti_issuer r = ti_issuer s \<and> ti_subject r = ti_subject s"

definition sql_insert_identity :: "identity_row \<Rightarrow> database \<Rightarrow> (sql_error, database) result" where
  "sql_insert_identity row db =
     (if \<not> identity_checks row then Inl CheckViolation
      else if list_ex (same_key row) (db_identities db) then Inl UniqueViolation
      else if ti_principal_id row \<notin> set (map tp_id (db_principals db)) then Inl ForeignKeyViolation
      else Inr (db\<lparr>db_identities := db_identities db @ [row]\<rparr>))"

text \<open>
  \<open>INSERT .. ON CONFLICT(provider, issuer, subject) DO UPDATE SET claims .. WHERE principal_id
  = excluded.principal_id\<close>, with the number of affected rows.
\<close>

definition sql_upsert_identity :: "identity_row \<Rightarrow> database \<Rightarrow> (sql_error, nat \<times> database) result" where
  "sql_upsert_identity row db =
     (if \<not> identity_checks row then Inl CheckViolation
      else if list_ex (same_key row) (db_identities db) then
        (if list_ex (\<lambda>r. same_key row r \<and> ti_principal_id r = ti_principal_id row) (db_identities db)
         then Inr (1, db\<lparr>db_identities := map (\<lambda>r. if same_key row r then r\<lparr>ti_claims := ti_claims row\<rparr> else r) (db_identities db)\<rparr>)
         else Inr (0, db))
      else if ti_principal_id row \<notin> set (map tp_id (db_principals db)) then Inl ForeignKeyViolation
      else Inr (1, db\<lparr>db_identities := db_identities db @ [row]\<rparr>))"

text \<open>Deleting a principal removes its identities and is refused while a binding names it.\<close>

definition sql_delete_principal :: "string \<Rightarrow> database \<Rightarrow> (sql_error, nat \<times> database) result" where
  "sql_delete_principal i db =
     (if i \<notin> set (map tp_id (db_principals db)) then Inr (0, db)
      else if i \<in> set (map tb_principal_id (db_role_bindings db)) then Inl ForeignKeyViolation
      else Inr (1, db\<lparr>db_principals := filter (\<lambda>r. tp_id r \<noteq> i) (db_principals db),
                       db_identities := filter (\<lambda>r. ti_principal_id r \<noteq> i) (db_identities db)\<rparr>))"

definition sql_find_principal :: "string \<Rightarrow> database \<Rightarrow> principal_row option" where
  "sql_find_principal i db = find (\<lambda>r. tp_id r = i) (db_principals db)"

text \<open>\<open>iam_principal p JOIN iam_principal_identity i ON i.principal_id = p.id WHERE .. key ..\<close>.\<close>

definition sql_find_by_identity :: "external_identity_key \<Rightarrow> database \<Rightarrow> principal_row option" where
  "sql_find_by_identity k db =
     Option.bind (find (row_has_key k) (db_identities db)) (\<lambda>i. sql_find_principal (ti_principal_id i) db)"

subsection \<open>LIKE\<close>

text \<open>
  The operator \<open>LIKE .. ESCAPE '\'\<close>: \<open>%\<close> matches any text, \<open>_\<close> one character (one byte and its
  UTF-8 continuation bytes), the escape character makes the next one literal, and letters are
  compared without ASCII case.
\<close>

function sql_like :: "string \<Rightarrow> string \<Rightarrow> bool" where
  "sql_like [] s = (s = [])"
| "sql_like (c # p) s =
     (if c = CHR ''%'' then sql_like p s \<or> (case s of [] \<Rightarrow> False | _ # t \<Rightarrow> sql_like (c # p) t)
      else if c = CHR ''_'' then (case s of [] \<Rightarrow> False | _ # t \<Rightarrow> sql_like p (dropWhile is_continuation t))
      else if c = CHR 0x5C then
        (case p of [] \<Rightarrow> False
         | d # q \<Rightarrow> (case s of [] \<Rightarrow> False | x # t \<Rightarrow> to_ascii_lower d = to_ascii_lower x \<and> sql_like q t))
      else (case s of [] \<Rightarrow> False | x # t \<Rightarrow> to_ascii_lower c = to_ascii_lower x \<and> sql_like p t))"
  by pat_completeness auto
termination
  by (relation "measure (\<lambda>(p, s). length p + length s)") (auto simp: less_Suc_eq_le intro: le_SucI length_dropWhile_le)

declare sql_like.simps [simp del]

definition replace_char :: "char \<Rightarrow> string \<Rightarrow> string \<Rightarrow> string" where
  "replace_char c r s = concat (map (\<lambda>x. if x = c then r else [x]) s)"

definition principal_prefix_pattern :: "string \<Rightarrow> string" where
  "principal_prefix_pattern input =
     (if input = [] then ''%''
      else replace_char CHR ''_'' [CHR 0x5C, CHR ''_'']
            (replace_char CHR ''%'' [CHR 0x5C, CHR ''%'']
              (replace_char CHR 0x5C [CHR 0x5C, CHR 0x5C] input)) @ ''%'')"

section \<open>Principal repository\<close>

definition validate_principal :: "iam_principal_info \<Rightarrow> (storage_error, unit) result" where
  "validate_principal p =
     (if trim (pi_id p) = [] \<or> trim (pi_display_name p) = []
      then Inl (Failure ''IAM principal ID and display name must not be empty'') else Inr ())"

definition principal_get :: "database \<Rightarrow> string \<Rightarrow> (storage_error, iam_principal_info option) result" where
  "principal_get db i =
     (case sql_find_principal i db of
        None \<Rightarrow> Inr None
      | Some row \<Rightarrow> and_then (principal_from_row row) (\<lambda>p. Inr (Some p)))"

definition get_required :: "database \<Rightarrow> string \<Rightarrow> (storage_error, iam_principal_info) result" where
  "get_required db i =
     and_then (principal_get db i) (\<lambda>found. ok_or (Failure ''upserted IAM principal is missing'') found)"

definition principal_upsert ::
  "database \<Rightarrow> iam_principal_info \<Rightarrow> (storage_error, iam_principal_info) result \<times> database" where
  "principal_upsert db p =
     (case and_then (validate_principal p) (\<lambda>_. map_err Database (sql_upsert_principal (principal_to_row p) db)) of
        Inl e \<Rightarrow> (Inl e, db)
      | Inr db' \<Rightarrow> (get_required db' (pi_id p), db'))"

definition principal_upsert_with_identity ::
  "database \<Rightarrow> iam_principal_info \<Rightarrow> iam_principal_identity_info \<Rightarrow>
   (storage_error, iam_principal_info) result \<times> database" where
  "principal_upsert_with_identity db p i =
     (case in_transaction db
         (and_then (validate_principal p) (\<lambda>_.
          and_then (map_err Database (sql_upsert_principal (principal_to_row p) db)) (\<lambda>db.
          and_then (map_err Database (sql_upsert_identity (identity_to_row i) db)) (\<lambda>(affected, db).
            if affected \<noteq> 1 then Inl PrincipalIdentityConflict else Inr ((), db))))) of
        (Inl e, db') \<Rightarrow> (Inl e, db')
      | (Inr _, db') \<Rightarrow> (get_required db' (pi_id p), db'))"

definition principal_find_by_identity ::
  "database \<Rightarrow> external_identity_key \<Rightarrow> (storage_error, iam_principal_info option) result" where
  "principal_find_by_identity db k =
     (case sql_find_by_identity k db of
        None \<Rightarrow> Inr None
      | Some row \<Rightarrow> and_then (principal_from_row row) (\<lambda>p. Inr (Some p)))"

text \<open>
  The statement names no order: where a principal has several identities of one provider, the engine chooses which row
  it returns. The choice is an argument, an index into the rows that satisfy the condition.
\<close>

definition provider_rows :: "database \<Rightarrow> string \<Rightarrow> string \<Rightarrow> identity_row list" where
  "provider_rows db i provider = filter (\<lambda>r. ti_principal_id r = i \<and> ti_provider r = provider) (db_identities db)"

definition principal_get_identity ::
  "(identity_row list \<Rightarrow> nat) \<Rightarrow> database \<Rightarrow> string \<Rightarrow> string \<Rightarrow> iam_principal_identity_info option" where
  "principal_get_identity choice db i provider =
     (let rows = provider_rows db i provider
      in if rows = [] then None else Some (identity_from_row (rows ! (choice rows mod length rows))))"

definition principal_find_by_ids :: "database \<Rightarrow> string list \<Rightarrow> (storage_error, iam_principal_info list) result" where
  "principal_find_by_ids db ids =
     (if ids = [] then Inr []
      else traverse principal_from_row (sort_key tp_id (filter (\<lambda>r. tp_id r \<in> set ids) (db_principals db))))"

definition principal_list ::
  "database \<Rightarrow> string \<Rightarrow> string option \<Rightarrow> u32 \<Rightarrow> (storage_error, iam_principal_info list) result" where
  "principal_list db query after_id limit =
     (let pattern = principal_prefix_pattern query;
          after = (case after_id of None \<Rightarrow> [] | Some a \<Rightarrow> a);
          found = filter (\<lambda>r. tp_id r > after \<and>
            (pattern = ''%'' \<or> sql_like (to_ascii_lowercase pattern) (to_ascii_lowercase (tp_display_name r)) \<or>
             sql_like (to_ascii_lowercase pattern) (to_ascii_lowercase (tp_id r)))) (db_principals db)
      in traverse principal_from_row (take (unat (max 1 (min limit 100))) (sort_key tp_id found)))"

definition principal_update_status ::
  "database \<Rightarrow> string \<Rightarrow> principal_status \<Rightarrow> (storage_error, iam_principal_info option) result \<times> database" where
  "principal_update_status db i status =
     (let db' = db\<lparr>db_principals := map (\<lambda>r. if tp_id r = i then r\<lparr>tp_status := status_as_str status\<rparr> else r) (db_principals db)\<rparr>
      in (principal_get db' i, db'))"

definition principal_delete :: "database \<Rightarrow> string \<Rightarrow> (storage_error, bool) result \<times> database" where
  "principal_delete db i =
     (case sql_delete_principal i db of
        Inl ForeignKeyViolation \<Rightarrow> (Inl (PrincipalReferenced i), db)
      | Inl e \<Rightarrow> (Inl (Database e), db)
      | Inr (affected, db') \<Rightarrow> (Inr (affected = 1), db'))"

section \<open>Identity binding repository\<close>

datatype identity_repository_error = IdentityAlreadyBound | Backend storage_error

definition map_identity_error :: "sql_error \<Rightarrow> identity_repository_error" where
  "map_identity_error e = (if e = UniqueViolation then IdentityAlreadyBound else Backend (Database e))"

definition identity_row_of :: "string \<Rightarrow> external_identity \<Rightarrow> identity_row" where
  "identity_row_of principal_id i = \<lparr>ti_principal_id = principal_id, ti_provider = ei_provider i,
     ti_issuer = ei_issuer i, ti_subject = ei_subject i, ti_claims = JObject (ei_claims i)\<rparr>"

definition identity_transaction ::
  "database \<Rightarrow> (identity_repository_error, 'a \<times> database) result \<Rightarrow> (identity_repository_error, 'a) result \<times> database" where
  "identity_transaction db outcome =
     (case outcome of Inl e \<Rightarrow> (Inl e, db) | Inr (x, db') \<Rightarrow> (Inr x, db'))"

definition find_principal_by_identity ::
  "database \<Rightarrow> external_identity_key \<Rightarrow> (identity_repository_error, iam_principal_info option) result" where
  "find_principal_by_identity db k = map_err Backend (principal_find_by_identity db k)"

definition create_principal_and_bind ::
  "database \<Rightarrow> iam_principal_info \<Rightarrow> external_identity \<Rightarrow>
   (identity_repository_error, iam_principal_info) result \<times> database" where
  "create_principal_and_bind db p i =
     identity_transaction db
       (and_then (map_err map_identity_error (sql_insert_principal (principal_to_row p) db)) (\<lambda>db.
        and_then (map_err map_identity_error (sql_insert_identity (identity_row_of (pi_id p) i) db)) (\<lambda>db.
          Inr (p, db))))"

definition bind_identity ::
  "database \<Rightarrow> string \<Rightarrow> external_identity \<Rightarrow> (identity_repository_error, iam_principal_info) result \<times> database" where
  "bind_identity db principal_id i =
     identity_transaction db
       (and_then (map_err Backend (principal_get db principal_id)) (\<lambda>found.
        and_then (ok_or (Backend (Failure ''missing principal'')) found) (\<lambda>principal.
        and_then (map_err map_identity_error (sql_insert_identity (identity_row_of principal_id i) db)) (\<lambda>db.
          Inr (principal, db)))))"

definition principal_has_provider :: "database \<Rightarrow> string \<Rightarrow> string \<Rightarrow> bool" where
  "principal_has_provider db principal_id provider =
     list_ex (\<lambda>r. ti_principal_id r = principal_id \<and> ti_provider r = provider) (db_identities db)"

definition rollback_identity_binding ::
  "database \<Rightarrow> string \<Rightarrow> external_identity_key \<Rightarrow> (identity_repository_error, unit) result \<times> database" where
  "rollback_identity_binding db principal_id k =
     identity_transaction db
       (let db' = db\<lparr>db_identities := filter (\<lambda>r. \<not> (ti_principal_id r = principal_id \<and> row_has_key k r)) (db_identities db)\<rparr>
        in if principal_id \<in> set (map ti_principal_id (db_identities db')) then Inr ((), db')
           else and_then (map_err map_identity_error (sql_delete_principal principal_id db')) (\<lambda>(_, db). Inr ((), db)))"

section \<open>Lemmas\<close>

lemma principal_row_roundtrip: "principal_from_row (principal_to_row p) = Inr p"
  by (simp add: principal_from_row_def principal_to_row_def kind_try_from_Inr [THEN iffD2] status_try_from_Inr [THEN iffD2])

lemma tp_id_principal_to_row [simp]: "tp_id (principal_to_row p) = pi_id p"
  by (simp add: principal_to_row_def)

lemma principal_checks_to_row:
  "principal_checks (principal_to_row p) \<longleftrightarrow> sql_trim (pi_id p) \<noteq> [] \<and> sql_trim (pi_display_name p) \<noteq> []"
  by (cases "pi_kind p"; cases "pi_status p") (auto simp: principal_checks_def principal_to_row_def)

lemma validate_principal_Inr [result_simps]:
  "validate_principal p = Inr u \<longleftrightarrow> trim (pi_id p) \<noteq> [] \<and> trim (pi_display_name p) \<noteq> []"
  by (simp add: validate_principal_def)

lemma validate_principal_checks: "validate_principal p = Inr u \<Longrightarrow> principal_checks (principal_to_row p)"
  by (auto simp: result_simps principal_checks_to_row dest: trim_nonblank_sql_trim)

lemma sql_insert_principal_Inr [result_simps]:
  "sql_insert_principal row db = Inr db' \<longleftrightarrow> principal_checks row \<and>
     tp_id row \<notin> set (map tp_id (db_principals db)) \<and> db' = db\<lparr>db_principals := db_principals db @ [row]\<rparr>"
  by (auto simp: sql_insert_principal_def)

lemma sql_insert_identity_Inr [result_simps]:
  "sql_insert_identity row db = Inr db' \<longleftrightarrow> identity_checks row \<and>
     (\<forall>r \<in> set (db_identities db). \<not> same_key row r) \<and> ti_principal_id row \<in> set (map tp_id (db_principals db)) \<and>
     db' = db\<lparr>db_identities := db_identities db @ [row]\<rparr>"
  by (auto simp: sql_insert_identity_def list_ex_iff)

lemma identity_transaction_cases:
  "identity_transaction db outcome = (r, db') \<longleftrightarrow>
     (\<exists>e. outcome = Inl e \<and> r = Inl e \<and> db' = db) \<or> (\<exists>x. outcome = Inr (x, db') \<and> r = Inr x)"
  by (auto simp: identity_transaction_def split: sum.splits)

subsection \<open>The schema invariant\<close>

lemma same_key_iff: "same_key r s \<longleftrightarrow> identity_key_of_row r = identity_key_of_row s"
  by (auto simp: same_key_def identity_key_of_row_def)

lemma distinct_identities: "valid_db db \<Longrightarrow> distinct (map identity_key_of_row (db_identities db))"
  by (simp add: valid_db_def)

lemma valid_db_identities:
  "valid_db (db\<lparr>db_identities := rows\<rparr>) \<longleftrightarrow>
     valid_db (db\<lparr>db_identities := []\<rparr>) \<and> distinct (map identity_key_of_row rows) \<and>
     ti_principal_id ` set rows \<subseteq> tp_id ` set (db_principals db)"
  by (auto simp: valid_db_def)

lemma valid_db_no_identities: "valid_db db \<Longrightarrow> valid_db (db\<lparr>db_identities := []\<rparr>)"
  by (simp add: valid_db_def)

lemma sql_upsert_principal_ids:
  assumes "sql_upsert_principal row db = Inr db'"
  shows "tp_id ` set (db_principals db') = insert (tp_id row) (tp_id ` set (db_principals db))"
    and "distinct (map tp_id (db_principals db)) \<Longrightarrow> distinct (map tp_id (db_principals db'))"
    and "db_identities db' = db_identities db" "db_actions db' = db_actions db" "db_roles db' = db_roles db"
    "db_role_actions db' = db_role_actions db" "db_role_bindings db' = db_role_bindings db"
proof -
  have "map tp_id (map (\<lambda>r. if tp_id r = tp_id row then row else r) rs) = map tp_id rs" for rs by auto
  then have "tp_id ` (\<lambda>r. if tp_id r = tp_id row then row else r) ` set rs = tp_id ` set rs" for rs
    by (metis list.set_map)
  then show "tp_id ` set (db_principals db') = insert (tp_id row) (tp_id ` set (db_principals db))"
    using assms by (auto simp: sql_upsert_principal_def split: if_splits)
  show "distinct (map tp_id (db_principals db)) \<Longrightarrow> distinct (map tp_id (db_principals db'))"
    using assms \<open>\<And>rs. map tp_id (map (\<lambda>r. if tp_id r = tp_id row then row else r) rs) = map tp_id rs\<close>
    by (auto simp: sql_upsert_principal_def split: if_splits simp del: map_map)
qed (use assms in \<open>auto simp: sql_upsert_principal_def split: if_splits\<close>)

lemma sql_upsert_principal_valid:
  assumes "sql_upsert_principal row db = Inr db'" "valid_db db"
  shows "valid_db db'"
  using assms(2) unfolding valid_db_def sql_upsert_principal_ids [OF assms(1)]
  by (auto intro: sql_upsert_principal_ids(2) [OF assms(1)])

lemma sql_find_principal_upsert:
  "sql_upsert_principal row db = Inr db' \<Longrightarrow> sql_find_principal (tp_id row) db' = Some row"
proof -
  have "find (\<lambda>r. tp_id r = tp_id row) (map (\<lambda>r. if tp_id r = tp_id row then row else r) rs) = Some row"
    if "tp_id row \<in> tp_id ` set rs" for rs using that by (induction rs) auto
  moreover have "find (\<lambda>r. tp_id r = tp_id row) (rs @ [row]) = Some row"
    if "tp_id row \<notin> tp_id ` set rs" for rs using that by (induction rs) auto
  moreover assume "sql_upsert_principal row db = Inr db'"
  ultimately show ?thesis by (auto simp: sql_upsert_principal_def sql_find_principal_def split: if_splits)
qed

lemma sql_upsert_identity_keys:
  assumes "sql_upsert_identity row db = Inr (n, db')"
  shows "db_principals db' = db_principals db" "db_role_bindings db' = db_role_bindings db"
    and "map (\<lambda>r. (identity_key_of_row r, ti_principal_id r)) (db_identities db') =
      map (\<lambda>r. (identity_key_of_row r, ti_principal_id r)) (db_identities db) @
        (if list_ex (same_key row) (db_identities db) then [] else [(identity_key_of_row row, ti_principal_id row)])"
  using assms by (auto simp: sql_upsert_identity_def identity_key_of_row_def split: if_splits)

lemma sql_upsert_identity_valid:
  assumes "sql_upsert_identity row db = Inr (n, db')" "valid_db db"
  shows "valid_db db'"
proof -
  note keys = sql_upsert_identity_keys(3) [OF assms(1)]
  have "map identity_key_of_row (db_identities db') = map identity_key_of_row (db_identities db) @
      (if list_ex (same_key row) (db_identities db) then [] else [identity_key_of_row row])"
    using arg_cong [OF keys, of "map fst"] by (auto simp: comp_def)
  then have "distinct (map identity_key_of_row (db_identities db'))"
    using distinct_identities [OF assms(2)] by (auto simp: list_ex_iff same_key_iff)
  moreover have "ti_principal_id ` set (db_identities db') \<subseteq> tp_id ` set (db_principals db)"
  proof -
    have "map ti_principal_id (db_identities db') = map ti_principal_id (db_identities db) @
      (if list_ex (same_key row) (db_identities db) then [] else [ti_principal_id row])"
      using arg_cong [OF keys, of "map snd"] by (auto simp: comp_def)
    from arg_cong [OF this, of set] show ?thesis
      using assms by (auto simp: valid_db_def sql_upsert_identity_def split: if_splits)
  qed
  moreover have "db' = db\<lparr>db_identities := db_identities db'\<rparr>"
    using assms(1) by (auto simp: sql_upsert_identity_def split: if_splits)
  ultimately show ?thesis using valid_db_identities [where db = db and rows = "db_identities db'"] valid_db_no_identities [OF assms(2)] by simp
qed

lemma sql_insert_identity_valid:
  assumes "sql_insert_identity row db = Inr db'" "valid_db db"
  shows "valid_db db'"
  using assms valid_db_no_identities [OF assms(2)] distinct_identities [OF assms(2)]
    valid_db_identities [where db = db and rows = "db_identities db @ [row]"]
  by (auto simp: result_simps same_key_iff valid_db_def)

lemma sql_insert_principal_valid: "sql_insert_principal row db = Inr db' \<Longrightarrow> valid_db db \<Longrightarrow> valid_db db'"
  by (auto simp: result_simps valid_db_def)

lemma image_subset_filter:
  "i \<notin> f ` A \<Longrightarrow> f ` A \<subseteq> g ` set ys \<Longrightarrow> f ` A \<subseteq> g ` set (filter (\<lambda>r. g r \<noteq> i) ys)"
  by force

lemma sql_delete_principal_valid:
  assumes "sql_delete_principal i db = Inr (n, db')" "valid_db db"
  shows "valid_db db'"
proof (cases "i \<in> set (map tp_id (db_principals db))")
  case True
  with assms(1) have db': "db' = db\<lparr>db_principals := filter (\<lambda>r. tp_id r \<noteq> i) (db_principals db),
      db_identities := filter (\<lambda>r. ti_principal_id r \<noteq> i) (db_identities db)\<rparr>"
    "i \<notin> tb_principal_id ` set (db_role_bindings db)"
    by (auto simp: sql_delete_principal_def split: if_splits)
  have "tb_principal_id ` set (db_role_bindings db) \<subseteq> tp_id ` set (filter (\<lambda>r. tp_id r \<noteq> i) (db_principals db))"
    using assms(2) db'(2) by (intro image_subset_filter) (auto simp: valid_db_def)
  moreover have "ti_principal_id ` set (filter (\<lambda>r. ti_principal_id r \<noteq> i) (db_identities db)) \<subseteq>
      tp_id ` set (filter (\<lambda>r. tp_id r \<noteq> i) (db_principals db))"
    using assms(2) by (intro image_subset_filter) (auto simp: valid_db_def)
  ultimately show ?thesis using assms(2) by (simp add: db'(1) valid_db_def distinct_map_filter)
qed (use assms in \<open>auto simp: sql_delete_principal_def\<close>)

subsection \<open>Prefix search\<close>

definition escape_char :: "char \<Rightarrow> string" where
  "escape_char c = (if c \<in> {CHR 0x5C, CHR ''%'', CHR ''_''} then [CHR 0x5C, c] else [c])"

lemma replace_char_append: "replace_char c r (s @ t) = replace_char c r s @ replace_char c r t"
  by (simp add: replace_char_def)

lemma replace_chars_escape:
  "replace_char CHR ''_'' [CHR 0x5C, CHR ''_''] (replace_char CHR ''%'' [CHR 0x5C, CHR ''%'']
     (replace_char CHR 0x5C [CHR 0x5C, CHR 0x5C] s)) = concat (map escape_char s)"
proof (induction s)
  case (Cons c s)
  have one: "replace_char CHR ''_'' [CHR 0x5C, CHR ''_''] (replace_char CHR ''%'' [CHR 0x5C, CHR ''%'']
      (replace_char CHR 0x5C [CHR 0x5C, CHR 0x5C] [c])) = escape_char c"
    by (simp add: replace_char_def escape_char_def)
  have split: "c # s = [c] @ s" by simp
  show ?case unfolding split replace_char_append one Cons.IH by simp
qed (simp add: replace_char_def)

lemma sql_like_any: "sql_like ''%'' s"
  by (induction s) (simp_all add: sql_like.simps)

lemma sql_like_escape:
  "sql_like (escape_char c @ p) [] = False"
  "sql_like (escape_char c @ p) (x # t) \<longleftrightarrow> to_ascii_lower c = to_ascii_lower x \<and> sql_like p t"
  by (simp_all add: escape_char_def sql_like.simps)

lemma sql_like_prefix:
  "sql_like (concat (map escape_char q) @ ''%'') s \<longleftrightarrow> prefix (to_ascii_lowercase q) (to_ascii_lowercase s)"
proof (induction q arbitrary: s)
  case Nil
  then show ?case by (simp add: sql_like_any to_ascii_lowercase_def)
next
  case (Cons c q)
  then show ?case by (cases s) (simp_all add: sql_like_escape to_ascii_lowercase_def)
qed

lemma to_ascii_lowercase_Nil: "to_ascii_lowercase [] = []"
  by (simp add: to_ascii_lowercase_def)

lemma to_ascii_lower_idem [simp]: "to_ascii_lower (to_ascii_lower c) = to_ascii_lower c"
  by (auto simp: to_ascii_lower_def)

lemma to_ascii_lower_special:
  "to_ascii_lower c = d \<longleftrightarrow> c = d" if "d \<in> {CHR 0x5C, CHR ''%'', CHR ''_''}"
proof -
  have "code d \<in> {92, 37, 95}" using that by auto
  then show ?thesis by (auto simp: to_ascii_lower_def of_char_eq_iff [symmetric] split: if_splits)
qed

lemma escape_char_lower: "map to_ascii_lower (escape_char c) = escape_char (to_ascii_lower c)"
proof -
  have "to_ascii_lower c \<in> {CHR 0x5C, CHR ''%'', CHR ''_''} \<longleftrightarrow> c \<in> {CHR 0x5C, CHR ''%'', CHR ''_''}"
    using to_ascii_lower_special by auto
  moreover have "to_ascii_lower CHR 0x5C = CHR 0x5C" using to_ascii_lower_special by auto
  ultimately show ?thesis by (auto simp: escape_char_def)
qed

lemma principal_prefix_pattern_like:
  assumes "q \<noteq> []"
  shows "sql_like (to_ascii_lowercase (principal_prefix_pattern q)) (to_ascii_lowercase s) \<longleftrightarrow>
    prefix (to_ascii_lowercase q) (to_ascii_lowercase s)"
proof -
  have "map to_ascii_lower (concat (map escape_char q)) = concat (map escape_char (map to_ascii_lower q))"
    by (simp add: map_concat comp_def escape_char_lower)
  moreover have "to_ascii_lower CHR ''%'' = CHR ''%''" using to_ascii_lower_special by auto
  ultimately have "to_ascii_lowercase (principal_prefix_pattern q) = concat (map escape_char (to_ascii_lowercase q)) @ ''%''"
    using assms by (simp add: principal_prefix_pattern_def replace_chars_escape to_ascii_lowercase_def)
  then show ?thesis by (simp add: sql_like_prefix) (simp add: to_ascii_lowercase_def comp_def)
qed

lemma principal_prefix_pattern_any: "principal_prefix_pattern q = ''%'' \<longleftrightarrow> q = []"
  by (cases q) (auto simp: principal_prefix_pattern_def replace_chars_escape escape_char_def)

definition principal_matches_query :: "string \<Rightarrow> principal_row \<Rightarrow> bool" where
  "principal_matches_query query r \<longleftrightarrow>
     prefix (to_ascii_lowercase query) (to_ascii_lowercase (tp_display_name r)) \<or>
     prefix (to_ascii_lowercase query) (to_ascii_lowercase (tp_id r))"

lemma principal_list_eq:
  "principal_list db query after_id limit =
     traverse principal_from_row (take (unat (max 1 (min limit 100)))
       (sort_key tp_id (filter (\<lambda>r. tp_id r > (case after_id of None \<Rightarrow> [] | Some a \<Rightarrow> a) \<and> principal_matches_query query r)
         (db_principals db))))"
proof -
  have "(principal_prefix_pattern query = ''%'' \<or>
      sql_like (to_ascii_lowercase (principal_prefix_pattern query)) (to_ascii_lowercase (tp_display_name r)) \<or>
      sql_like (to_ascii_lowercase (principal_prefix_pattern query)) (to_ascii_lowercase (tp_id r))) =
    principal_matches_query query r" for r
    by (cases "query = []") (simp_all add: principal_prefix_pattern_any principal_prefix_pattern_like
      principal_matches_query_def to_ascii_lowercase_Nil)
  then show ?thesis by (simp add: principal_list_def Let_def)
qed

subsection \<open>Owners of external identities\<close>

definition identity_owner :: "database \<Rightarrow> external_identity_key \<Rightarrow> string option" where
  "identity_owner db k = map_option ti_principal_id (find (row_has_key k) (db_identities db))"

definition key_tuple :: "external_identity_key \<Rightarrow> string \<times> string \<times> string" where
  "key_tuple k = (ek_provider k, ek_issuer k, ek_subject k)"

lemma row_has_key_iff: "row_has_key k r \<longleftrightarrow> identity_key_of_row r = key_tuple k"
  by (auto simp: row_has_key_def identity_key_of_row_def key_tuple_def)

lemma identity_owner_map_of:
  "identity_owner db k = map_of (map (\<lambda>r. (identity_key_of_row r, ti_principal_id r)) (db_identities db)) (key_tuple k)"
proof -
  have "map_option ti_principal_id (find (row_has_key k) rs) =
      map_of (map (\<lambda>r. (identity_key_of_row r, ti_principal_id r)) rs) (key_tuple k)" for rs
    by (induction rs) (auto simp: row_has_key_iff)
  then show ?thesis by (simp add: identity_owner_def)
qed

text \<open>All principals that a row of the table binds an identity to.\<close>

definition identity_owners :: "database \<Rightarrow> external_identity_key \<Rightarrow> string set" where
  "identity_owners db k = ti_principal_id ` {r \<in> set (db_identities db). row_has_key k r}"

lemma same_key_iff_key: "row_has_key k r \<Longrightarrow> same_key row r \<longleftrightarrow> row_has_key k row"
  by (auto simp: same_key_def row_has_key_def)

lemma identity_owners_pairs:
  "identity_owners db k = snd ` {e \<in> set (map (\<lambda>r. (identity_key_of_row r, ti_principal_id r)) (db_identities db)). fst e = key_tuple k}"
  unfolding identity_owners_def by (force simp: row_has_key_iff image_iff)

lemma identity_owners_extend:
  assumes "map (\<lambda>r. (identity_key_of_row r, ti_principal_id r)) (db_identities db') =
      map (\<lambda>r. (identity_key_of_row r, ti_principal_id r)) (db_identities db) @
        (if list_ex (same_key row) (db_identities db) then [] else [(identity_key_of_row row, ti_principal_id row)])"
    and "identity_owners db k = {owner}"
  shows "identity_owners db' k = {owner}"
proof -
  obtain r where r: "r \<in> set (db_identities db)" "row_has_key k r" using assms(2) by (auto simp: identity_owners_def)
  have "list_ex (same_key row) (db_identities db) \<or> identity_key_of_row row \<noteq> key_tuple k"
    using r same_key_iff_key [OF r(2), of row] by (auto simp: list_ex_iff row_has_key_iff)
  then have "identity_owners db' k = identity_owners db k" unfolding identity_owners_pairs assms(1) by auto
  then show ?thesis using assms(2) by simp
qed

lemma identity_owners_insert:
  assumes "sql_insert_identity row db = Inr db'" "identity_owners db k = {owner}"
  shows "identity_owners db' k = {owner}" "\<not> row_has_key k row"
proof -
  have new: "\<not> list_ex (same_key row) (db_identities db)" "db_identities db' = db_identities db @ [row]"
    using assms(1) by (auto simp: sql_insert_identity_def split: if_splits)
  then show "identity_owners db' k = {owner}" using assms(2) by (intro identity_owners_extend [of db' db row]) auto
  obtain r where "r \<in> set (db_identities db)" "row_has_key k r" using assms(2) by (auto simp: identity_owners_def)
  then show "\<not> row_has_key k row" using new(1) same_key_iff_key by (auto simp: list_ex_iff)
qed

lemma identity_owners_same: "db_identities db' = db_identities db \<Longrightarrow> identity_owners db' k = identity_owners db k"
  by (simp add: identity_owners_def)

lemma identity_owners_subset:
  "set (db_identities db') \<subseteq> set (db_identities db) \<Longrightarrow> identity_owners db' k \<subseteq> identity_owners db k"
  by (auto simp: identity_owners_def)

lemma create_principal_and_bind_Inr:
  "create_principal_and_bind db p i = (Inr q, db') \<longleftrightarrow>
     principal_checks (principal_to_row p) \<and> pi_id p \<notin> set (map tp_id (db_principals db)) \<and>
     identity_checks (identity_row_of (pi_id p) i) \<and>
     (\<forall>r \<in> set (db_identities db). \<not> same_key (identity_row_of (pi_id p) i) r) \<and> q = p \<and>
     db' = db\<lparr>db_principals := db_principals db @ [principal_to_row p],
       db_identities := db_identities db @ [identity_row_of (pi_id p) i]\<rparr>"
proof -
  have "ti_principal_id (identity_row_of (pi_id p) i) = pi_id p" by (simp add: identity_row_of_def)
  then show ?thesis
    by (auto simp: create_principal_and_bind_def identity_transaction_cases result_simps)
qed

lemma create_principal_and_bind_Inl: "create_principal_and_bind db p i = (Inl e, db') \<Longrightarrow> db' = db"
  by (auto simp: create_principal_and_bind_def identity_transaction_cases)

lemma create_principal_and_bind_cases:
  obtains (err) e where "create_principal_and_bind db p i = (Inl e, db)"
  | (ok) db1 db2 where "create_principal_and_bind db p i = (Inr p, db2)"
      "sql_insert_principal (principal_to_row p) db = Inr db1"
      "sql_insert_identity (identity_row_of (pi_id p) i) db1 = Inr db2"
proof (cases "create_principal_and_bind db p i")
  case (Pair r db')
  show ?thesis
  proof (cases r)
    case (Inl e)
    with Pair create_principal_and_bind_Inl show ?thesis by (metis err)
  next
    case (Inr q)
    with Pair have eq: "create_principal_and_bind db p i = (Inr q, db')" by simp
    then obtain db1 where "sql_insert_principal (principal_to_row p) db = Inr db1"
      "sql_insert_identity (identity_row_of (pi_id p) i) db1 = Inr db'" "q = p"
      unfolding create_principal_and_bind_def identity_transaction_cases
      by (auto simp: and_then_eq_Inr map_err_eq_Inr)
    with eq show ?thesis by (intro ok) auto
  qed
qed

lemma bind_identity_Inr:
  "bind_identity db pid i = (Inr q, db') \<longleftrightarrow>
     principal_get db pid = Inr (Some q) \<and> sql_insert_identity (identity_row_of pid i) db = Inr db'"
  by (auto simp: bind_identity_def identity_transaction_cases result_simps)

lemma bind_identity_Inl: "bind_identity db pid i = (Inl e, db') \<Longrightarrow> db' = db"
  by (auto simp: bind_identity_def identity_transaction_cases)

lemma bind_identity_cases:
  obtains (err) e where "bind_identity db n i = (Inl e, db)"
  | (ok) q db' where "bind_identity db n i = (Inr q, db')" "sql_insert_identity (identity_row_of n i) db = Inr db'"
proof (cases "bind_identity db n i")
  case (Pair r db')
  then show ?thesis
    by (cases r) (auto simp: bind_identity_Inr dest: bind_identity_Inl intro: err ok)
qed

lemma principal_upsert_with_identity_cases:
  obtains (err) e where "principal_upsert_with_identity db p i = (Inl e, db)"
  | (ok) db1 db2 where "validate_principal p = Inr ()" "sql_upsert_principal (principal_to_row p) db = Inr db1"
      "sql_upsert_identity (identity_to_row i) db1 = Inr (1, db2)"
      "principal_upsert_with_identity db p i = (get_required db2 (pi_id p), db2)"
proof (cases "and_then (validate_principal p) (\<lambda>_.
          and_then (map_err Database (sql_upsert_principal (principal_to_row p) db)) (\<lambda>db.
          and_then (map_err Database (sql_upsert_identity (identity_to_row i) db)) (\<lambda>(affected, db).
            if affected \<noteq> 1 then Inl PrincipalIdentityConflict else Inr ((), db))))")
  case (Inl e)
  then show ?thesis by (intro err) (simp add: principal_upsert_with_identity_def in_transaction_def)
next
  case (Inr x)
  then obtain db1 n db2 where *: "validate_principal p = Inr ()" "sql_upsert_principal (principal_to_row p) db = Inr db1"
    "sql_upsert_identity (identity_to_row i) db1 = Inr (n, db2)" "n = 1" "x = ((), db2)"
    by (auto simp: result_simps split: if_splits prod.splits)
  from Inr *(5) have "principal_upsert_with_identity db p i = (get_required db2 (pi_id p), db2)"
    unfolding principal_upsert_with_identity_def in_transaction_def by simp
  with * ok show ?thesis by blast
qed

lemma update_status_ids:
  "map tp_id (map (\<lambda>r. if tp_id r = i then r\<lparr>tp_status := st\<rparr> else r) rs) = map tp_id rs"
  by auto

lemma valid_db_principals_cong:
  assumes "map tp_id ps = map tp_id (db_principals db)"
  shows "valid_db (db\<lparr>db_principals := ps\<rparr>) = valid_db db"
proof -
  from arg_cong [OF assms, of set] have "tp_id ` set ps = tp_id ` set (db_principals db)" by (simp only: set_map)
  with assms show ?thesis by (simp add: valid_db_def)
qed

lemma principal_update_status_valid:
  "valid_db db \<Longrightarrow> valid_db (snd (principal_update_status db i st))"
  unfolding principal_update_status_def Let_def snd_conv
  by (subst valid_db_principals_cong) (auto simp: update_status_ids simp del: map_map)

lemma principal_upsert_cases:
  obtains (err) e where "principal_upsert db p = (Inl e, db)"
  | (ok) db' where "validate_principal p = Inr ()" "sql_upsert_principal (principal_to_row p) db = Inr db'"
      "principal_upsert db p = (get_required db' (pi_id p), db')"
proof (cases "and_then (validate_principal p) (\<lambda>_. map_err Database (sql_upsert_principal (principal_to_row p) db))")
  case (Inl e)
  then show ?thesis by (intro err) (simp add: principal_upsert_def)
next
  case (Inr db')
  moreover from this have "validate_principal p = Inr ()" "sql_upsert_principal (principal_to_row p) db = Inr db'"
    by (auto simp: result_simps)
  ultimately show ?thesis by (intro ok [of db']) (simp_all add: principal_upsert_def)
qed

lemma get_required_upsert:
  "sql_upsert_principal (principal_to_row p) db = Inr db' \<Longrightarrow> get_required db' (pi_id p) = Inr p"
  using sql_find_principal_upsert [of "principal_to_row p" db db']
  by (simp add: get_required_def principal_get_def principal_row_roundtrip)

lemma get_required_cong: "db_principals db' = db_principals db \<Longrightarrow> get_required db' i = get_required db i"
  by (simp add: get_required_def principal_get_def sql_find_principal_def)

lemma rollback_valid: "valid_db db \<Longrightarrow> valid_db (snd (rollback_identity_binding db i k))"
proof -
  assume valid: "valid_db db"
  let ?db = "db\<lparr>db_identities := filter (\<lambda>r. \<not> (ti_principal_id r = i \<and> row_has_key k r)) (db_identities db)\<rparr>"
  have "valid_db ?db" using valid by (auto simp: valid_db_def distinct_map_filter)
  then show ?thesis
    using valid sql_delete_principal_valid [of i ?db]
    by (auto simp: rollback_identity_binding_def identity_transaction_def Let_def result_simps split: sum.splits if_splits)
qed

subsection \<open>The repository interface and its steps\<close>

definition sqlite_principal_repository :: "database principal_repository" where
  "sqlite_principal_repository = \<lparr>pr_get = principal_get, pr_find_by_ids = principal_find_by_ids,
     pr_list = principal_list, pr_update_status = principal_update_status, pr_delete = principal_delete,
     pr_upsert_with_identity = principal_upsert_with_identity\<rparr>"

text \<open>One write of a principal repository, of the authorization or the authentication service.\<close>

inductive principal_step :: "database \<Rightarrow> database \<Rightarrow> bool" where
  "principal_step db (snd (principal_upsert db p))"
| "principal_step db (snd (principal_upsert_with_identity db p i))"
| "principal_step db (snd (principal_update_status db n st))"
| "principal_step db (snd (principal_delete db n))"
| "principal_step db (snd (create_principal_and_bind db p e))"
| "principal_step db (snd (bind_identity db n e))"
| "principal_step db (snd (rollback_identity_binding db n k))"

definition same_catalog :: "database \<Rightarrow> database \<Rightarrow> bool" where
  "same_catalog db db' \<longleftrightarrow> db_actions db' = db_actions db \<and> db_roles db' = db_roles db \<and>
     db_role_actions db' = db_role_actions db \<and> db_role_bindings db' = db_role_bindings db"

lemma same_catalog_trans: "same_catalog a b \<Longrightarrow> same_catalog b c \<Longrightarrow> same_catalog a c"
  by (simp add: same_catalog_def)

lemma same_catalog_refl [simp]: "same_catalog db db"
  by (simp add: same_catalog_def)

lemma statements_same_catalog:
  "sql_upsert_principal row db = Inr db' \<Longrightarrow> same_catalog db db'"
  "sql_insert_principal row db = Inr db' \<Longrightarrow> same_catalog db db'"
  "sql_insert_identity irow db = Inr db' \<Longrightarrow> same_catalog db db'"
  "sql_upsert_identity irow db = Inr (n, db') \<Longrightarrow> same_catalog db db'"
  "sql_delete_principal i db = Inr (n, db') \<Longrightarrow> same_catalog db db'"
  by (auto simp: same_catalog_def sql_upsert_principal_def sql_insert_principal_def sql_insert_identity_def
    sql_upsert_identity_def sql_delete_principal_def split: if_splits)

lemma rollback_same_catalog: "same_catalog db (snd (rollback_identity_binding db n k))"
proof -
  let ?db = "db\<lparr>db_identities := filter (\<lambda>r. \<not> (ti_principal_id r = n \<and> row_has_key k r)) (db_identities db)\<rparr>"
  have "same_catalog db ?db" by (simp add: same_catalog_def)
  with statements_same_catalog(5) [of n ?db] show ?thesis
    by (auto simp: rollback_identity_binding_def identity_transaction_def Let_def result_simps split: sum.splits if_splits
      intro: same_catalog_trans)
qed

lemma principal_operations_valid:
  assumes "valid_db db"
  shows "valid_db (snd (principal_upsert db p)) \<and> valid_db (snd (principal_upsert_with_identity db p i)) \<and>
    valid_db (snd (principal_update_status db n st)) \<and> valid_db (snd (principal_delete db n)) \<and>
    valid_db (snd (create_principal_and_bind db p e)) \<and> valid_db (snd (bind_identity db n e)) \<and>
    valid_db (snd (rollback_identity_binding db n k))"
proof (intro conjI)
  show "valid_db (snd (principal_upsert db p))"
    using assms by (cases rule: principal_upsert_cases [of db p]) (auto intro: sql_upsert_principal_valid)
  show "valid_db (snd (principal_upsert_with_identity db p i))"
    using assms by (cases rule: principal_upsert_with_identity_cases [of db p i])
      (auto intro: sql_upsert_principal_valid sql_upsert_identity_valid)
  show "valid_db (snd (principal_update_status db n st))"
    using assms by (rule principal_update_status_valid)
  show "valid_db (snd (principal_delete db n))"
    using assms by (auto simp: principal_delete_def intro: sql_delete_principal_valid split: sum.splits sql_error.splits)
  show "valid_db (snd (create_principal_and_bind db p e))"
    using assms by (cases rule: create_principal_and_bind_cases [of db p e])
      (auto intro: sql_insert_principal_valid sql_insert_identity_valid)
  show "valid_db (snd (bind_identity db n e))"
    using assms by (cases rule: bind_identity_cases [of db n e]) (auto intro: sql_insert_identity_valid)
  show "valid_db (snd (rollback_identity_binding db n k))"
    using assms by (rule rollback_valid)
qed

lemma principal_step_valid: "principal_step db db' \<Longrightarrow> valid_db db \<Longrightarrow> valid_db db'"
  by (cases rule: principal_step.cases) (auto simp: principal_operations_valid)

lemma principal_step_same_catalog:
  assumes "principal_step db db'"
  shows "same_catalog db db'"
  using assms
proof cases
  case (1 p)
  then show ?thesis by (cases rule: principal_upsert_cases [of db p]) (auto intro: statements_same_catalog)
next
  case (2 p i)
  then show ?thesis
    by (cases rule: principal_upsert_with_identity_cases [of db p i])
      (auto intro: statements_same_catalog same_catalog_trans)
next
  case (4 n)
  then show ?thesis
    by (auto simp: principal_delete_def intro: statements_same_catalog split: sum.splits sql_error.splits)
next
  case (5 p e)
  then show ?thesis
    by (cases rule: create_principal_and_bind_cases [of db p e]) (auto intro: statements_same_catalog same_catalog_trans)
next
  case (6 n e)
  then show ?thesis
    by (cases rule: bind_identity_cases [of db n e]) (auto intro: statements_same_catalog)
qed (auto simp: principal_update_status_def same_catalog_def Let_def rollback_same_catalog [unfolded same_catalog_def])

section \<open>An example account\<close>

definition sample_principal :: iam_principal_info where
  "sample_principal = \<lparr>pi_id = ''user:ann'', pi_kind = User, pi_display_name = ''Ann'', pi_status = Active,
     pi_authorization_state = []\<rparr>"

definition sample_external :: external_identity where
  "sample_external = \<lparr>ei_provider = ''github'', ei_issuer = ''gh'', ei_subject = ''42'', ei_claims = []\<rparr>"

lemma sample_create:
  "fst (create_principal_and_bind empty_db sample_principal sample_external) = Inr sample_principal"
  by code_simp

section \<open>SQLite as a principal directory\<close>

text \<open>
  Every row satisfies the checks of its table and holds a JSON object as its state, so that reading
  it never fails.
\<close>

definition readable_db :: "database \<Rightarrow> bool" where
  "readable_db db \<longleftrightarrow> valid_db db \<and>
     (\<forall>r \<in> set (db_principals db). principal_checks r \<and> json_as_object (tp_authorization_state r) \<noteq> None)"

definition row_info :: "principal_row \<Rightarrow> iam_principal_info" where
  "row_info r = projr (principal_from_row r)"

definition sqlite_at :: "database \<Rightarrow> string \<Rightarrow> iam_principal_info option" where
  "sqlite_at db i = map_option row_info (sql_find_principal i db)"

definition sqlite_selected :: "database \<Rightarrow> string \<Rightarrow> iam_principal_info list" where
  "sqlite_selected db query =
     map row_info (sort_key tp_id (filter (principal_matches_query query) (db_principals db)))"

lemma kind_status_total:
  "k \<in> {''USER'', ''WORKLOAD'', ''GROUP''} \<Longrightarrow> \<exists>x. kind_try_from k = Inr x"
  "st \<in> {''ACTIVE'', ''DISABLED''} \<Longrightarrow> \<exists>x. status_try_from st = Inr x"
  by (auto simp: kind_try_from_def status_try_from_def)

lemma row_columns:
  assumes "principal_checks r" "json_as_object (tp_authorization_state r) \<noteq> None"
  obtains k st js where "kind_try_from (tp_kind r) = Inr k" "status_try_from (tp_status r) = Inr st"
    "json_as_object (tp_authorization_state r) = Some js"
proof -
  have "tp_kind r \<in> {''USER'', ''WORKLOAD'', ''GROUP''}" "tp_status r \<in> {''ACTIVE'', ''DISABLED''}"
    using assms(1) by (simp_all only: principal_checks_def)
  then show ?thesis using kind_status_total assms(2) that by (metis not_None_eq)
qed

lemma readable_row:
  assumes "principal_checks r" "json_as_object (tp_authorization_state r) \<noteq> None"
  shows "principal_from_row r = Inr (row_info r)" "pi_id (row_info r) = tp_id r"
proof -
  obtain k st js where "kind_try_from (tp_kind r) = Inr k" "status_try_from (tp_status r) = Inr st"
    "json_as_object (tp_authorization_state r) = Some js"
    using row_columns [OF assms] by metis
  then show "principal_from_row r = Inr (row_info r)" "pi_id (row_info r) = tp_id r"
    by (simp_all add: row_info_def principal_from_row_def)
qed

lemma readable_rows:
  "readable_db db \<Longrightarrow> r \<in> set (db_principals db) \<Longrightarrow> principal_from_row r = Inr (row_info r)"
  "readable_db db \<Longrightarrow> r \<in> set (db_principals db) \<Longrightarrow> pi_id (row_info r) = tp_id r"
  using readable_row unfolding readable_db_def by blast+

lemma row_info_to_row [simp]: "row_info (principal_to_row p) = p"
  by (simp add: row_info_def principal_row_roundtrip)

lemma row_info_status:
  assumes "principal_checks r" "json_as_object (tp_authorization_state r) \<noteq> None"
  shows "row_info (r\<lparr>tp_status := status_as_str st\<rparr>) = (row_info r)\<lparr>pi_status := st\<rparr>"
proof -
  obtain k st' js where "kind_try_from (tp_kind r) = Inr k" "status_try_from (tp_status r) = Inr st'"
    "json_as_object (tp_authorization_state r) = Some js"
    using row_columns [OF assms] by metis
  then show ?thesis
    by (simp add: row_info_def principal_from_row_def status_try_from_Inr [THEN iffD2])
qed

lemma sql_find_principal_iff:
  "distinct (map tp_id (db_principals db)) \<Longrightarrow>
   sql_find_principal i db = Some r \<longleftrightarrow> r \<in> set (db_principals db) \<and> tp_id r = i"
proof -
  have "find (\<lambda>r. tp_id r = i) rs = Some r \<longleftrightarrow> r \<in> set rs \<and> tp_id r = i" if "distinct (map tp_id rs)" for rs
    using that by (induction rs) auto
  then show "distinct (map tp_id (db_principals db)) \<Longrightarrow> ?thesis" by (simp add: sql_find_principal_def)
qed

lemma readable_distinct: "readable_db db \<Longrightarrow> distinct (map tp_id (db_principals db))"
  by (simp add: readable_db_def valid_db_def)

lemma sqlite_at_Some:
  assumes "readable_db db"
  shows "sqlite_at db i = Some p \<longleftrightarrow> (\<exists>r \<in> set (db_principals db). tp_id r = i \<and> p = row_info r)"
proof -
  have "sqlite_at db i = Some p \<longleftrightarrow> (\<exists>r. sql_find_principal i db = Some r \<and> p = row_info r)"
    by (auto simp: sqlite_at_def)
  then show ?thesis unfolding sql_find_principal_iff [OF readable_distinct [OF assms]] by blast
qed

lemma principal_get_readable:
  assumes "readable_db db"
  shows "principal_get db i = Inr (sqlite_at db i)"
proof (cases "sql_find_principal i db")
  case (Some r)
  then have "r \<in> set (db_principals db)" by (simp add: sql_find_principal_iff [OF readable_distinct [OF assms]])
  then show ?thesis using Some readable_rows(1) [OF assms] by (simp add: principal_get_def sqlite_at_def)
qed (simp add: principal_get_def sqlite_at_def)

lemma readable_traverse:
  "readable_db db \<Longrightarrow> set rs \<subseteq> set (db_principals db) \<Longrightarrow> traverse principal_from_row rs = Inr (map row_info rs)"
  by (rule traverse_map_Inr) (use readable_rows(1) in blast)

lemma readable_map_id:
  "readable_db db \<Longrightarrow> set rs \<subseteq> set (db_principals db) \<Longrightarrow> map pi_id (map row_info rs) = map tp_id rs"
  using readable_rows(2) by (simp add: subset_iff)

lemma distinct_map_sort_filter: "distinct (map f xs) \<Longrightarrow> distinct (map f (sort_key f (filter P xs)))"
  by (auto simp: distinct_map intro: inj_on_subset)

lemma sqlite_find_by_ids:
  assumes "readable_db db"
  shows "\<exists>ps. principal_find_by_ids db ids = Inr ps \<and> distinct (map pi_id ps) \<and>
    set ps = {p. \<exists>i \<in> set ids. sqlite_at db i = Some p}"
proof (cases "ids = []")
  case False
  let ?rs = "sort_key tp_id (filter (\<lambda>r. tp_id r \<in> set ids) (db_principals db))"
  have sub: "set ?rs \<subseteq> set (db_principals db)" by auto
  have "principal_find_by_ids db ids = Inr (map row_info ?rs)"
    using False readable_traverse [OF assms sub] by (simp add: principal_find_by_ids_def)
  moreover have "distinct (map pi_id (map row_info ?rs))"
    unfolding readable_map_id [OF assms sub] by (rule distinct_map_sort_filter [OF readable_distinct [OF assms]])
  moreover have "set (map row_info ?rs) = {p. \<exists>i \<in> set ids. sqlite_at db i = Some p}"
    using sqlite_at_Some [OF assms] by auto
  ultimately show ?thesis by blast
qed (simp add: principal_find_by_ids_def)

lemma sqlite_list:
  assumes "readable_db db"
  shows "principal_list db query after n = Inr (take (unat (max 1 (min n 100)))
    (filter (\<lambda>p. pi_id p > (case after of None \<Rightarrow> [] | Some a \<Rightarrow> a)) (sqlite_selected db query)))"
proof -
  let ?after = "case after of None \<Rightarrow> [] | Some a \<Rightarrow> a"
  let ?rs = "sort_key tp_id (filter (principal_matches_query query) (db_principals db))"
  let ?k = "unat (max 1 (min n 100))"
  have "principal_list db query after n = traverse principal_from_row (take ?k (filter (\<lambda>r. tp_id r > ?after) ?rs))"
    by (simp add: principal_list_eq filter_sort conj_commute)
  also have "\<dots> = Inr (map row_info (take ?k (filter (\<lambda>r. tp_id r > ?after) ?rs)))"
    by (rule readable_traverse [OF assms]) (auto dest: in_set_takeD)
  also have "map row_info (take ?k (filter (\<lambda>r. tp_id r > ?after) ?rs)) =
      take ?k (filter (\<lambda>p. pi_id p > ?after) (map row_info ?rs))"
  proof -
    have "filter (\<lambda>r. tp_id r > ?after) ?rs = filter (\<lambda>r. pi_id (row_info r) > ?after) ?rs"
      by (rule filter_cong) (auto simp: readable_rows(2) [OF assms])
    then show ?thesis by (simp add: take_map filter_map comp_def)
  qed
  finally show ?thesis by (simp add: sqlite_selected_def)
qed

lemma sqlite_selected_order:
  assumes "readable_db db"
  shows "sorted (map pi_id (sqlite_selected db query)) \<and> distinct (map pi_id (sqlite_selected db query))"
proof -
  let ?rs = "sort_key tp_id (filter (principal_matches_query query) (db_principals db))"
  have "map pi_id (sqlite_selected db query) = map tp_id ?rs"
    unfolding sqlite_selected_def by (rule readable_map_id [OF assms]) auto
  then show ?thesis using distinct_map_sort_filter [OF readable_distinct [OF assms]] by simp
qed

lemma sqlite_selected_ids:
  assumes "readable_db db" "p \<in> set (sqlite_selected db query)"
  shows "pi_id p \<noteq> []"
proof -
  obtain r where "r \<in> set (db_principals db)" "p = row_info r" using assms(2) by (auto simp: sqlite_selected_def)
  moreover from this have "sql_trim (tp_id r) \<noteq> []" using assms(1) by (simp add: readable_db_def principal_checks_def)
  ultimately show ?thesis using readable_rows(2) [OF assms(1)] by (auto simp: sql_trim_eq_Nil)
qed

lemma sqlite_status:
  assumes "readable_db db" "principal_update_status db i st = (r, db')"
  shows "readable_db db' \<and> r = Inr (sqlite_at db' i) \<and>
    sqlite_at db' = (sqlite_at db)(i := map_option (\<lambda>p. p\<lparr>pi_status := st\<rparr>) (sqlite_at db i))"
proof -
  let ?f = "\<lambda>r. if tp_id r = i then r\<lparr>tp_status := status_as_str st\<rparr> else r"
  have db': "db' = db\<lparr>db_principals := map ?f (db_principals db)\<rparr>" and r: "r = principal_get db' i"
    using assms(2) by (auto simp: principal_update_status_def Let_def)
  have st: "status_as_str st \<in> {''ACTIVE'', ''DISABLED''}" by (cases st) auto
  have "valid_db db'"
    using principal_update_status_valid [of db i st] assms by (simp add: readable_db_def)
  then have ok: "readable_db db'" using assms(1) st by (auto simp: readable_db_def db' principal_checks_def)
  have "find (\<lambda>r. tp_id r = j) (map ?f rs) = map_option ?f (find (\<lambda>r. tp_id r = j) rs)" for j rs
    by (induction rs) auto
  then have found: "sql_find_principal j db' = map_option ?f (sql_find_principal j db)" for j
    by (simp add: sql_find_principal_def db')
  have "sqlite_at db' j = ((sqlite_at db)(i := map_option (\<lambda>p. p\<lparr>pi_status := st\<rparr>) (sqlite_at db i))) j" for j
  proof (cases "sql_find_principal j db")
    case (Some x)
    then have "x \<in> set (db_principals db)" "tp_id x = j"
      using sql_find_principal_iff [OF readable_distinct [OF assms(1)]] by auto
    moreover from this have "row_info (x\<lparr>tp_status := status_as_str st\<rparr>) = (row_info x)\<lparr>pi_status := st\<rparr>"
      using assms(1) by (intro row_info_status) (auto simp: readable_db_def)
    ultimately show ?thesis using Some found [of j] by (auto simp: sqlite_at_def)
  qed (use found [of j] in \<open>auto simp: sqlite_at_def\<close>)
  then show ?thesis using ok r principal_get_readable [OF ok] by auto
qed

lemma sqlite_delete:
  assumes "readable_db db" "principal_delete db i = (r, db')"
  shows "readable_db db' \<and> (case r of Inl e \<Rightarrow> db' = db
    | Inr b \<Rightarrow> sqlite_at db' = (sqlite_at db)(i := None) \<and> b = (sqlite_at db i \<noteq> None))"
proof (cases "i \<in> set (map tp_id (db_principals db))")
  case False
  then have "r = Inr False" "db' = db" using assms(2) by (auto simp: principal_delete_def sql_delete_principal_def)
  moreover have "sqlite_at db i = None" using False by (auto simp: sqlite_at_def sql_find_principal_def find_None_iff)
  ultimately show ?thesis using assms(1) by (auto simp: fun_upd_idem)
next
  case True
  have "valid_db db'" using principal_operations_valid [of db] assms by (metis readable_db_def snd_conv)
  then have ok: "readable_db db'" using assms True
    by (auto simp: readable_db_def principal_delete_def sql_delete_principal_def split: if_splits)
  have "find (\<lambda>r. tp_id r = j) (filter (\<lambda>r. tp_id r \<noteq> i) rs) = (if j = i then None else find (\<lambda>r. tp_id r = j) rs)"
    for j and rs :: "principal_row list"
    by (induction rs) auto
  then have "sqlite_at (db\<lparr>db_principals := filter (\<lambda>r. tp_id r \<noteq> i) (db_principals db), db_identities := x\<rparr>) =
      (sqlite_at db)(i := None)" for x
    by (simp add: fun_eq_iff sqlite_at_def sql_find_principal_def)
  moreover have "sqlite_at db i \<noteq> None" using True by (auto simp: sqlite_at_def sql_find_principal_def find_None_iff)
  ultimately show ?thesis using ok assms(2) True
    by (auto simp: principal_delete_def sql_delete_principal_def split: if_splits)
qed

lemma sqlite_at_upsert:
  assumes "sql_upsert_principal (principal_to_row p) db = Inr db'"
  shows "sqlite_at db' = (sqlite_at db)(pi_id p \<mapsto> p)"
proof -
  have upd: "find (\<lambda>r. tp_id r = j) (map (\<lambda>r. if tp_id r = k then row else r) rs) = find (\<lambda>r. tp_id r = j) rs"
    if "tp_id row = k" "j \<noteq> k" for j k rs and row :: principal_row using that by (induction rs) auto
  have app: "find (\<lambda>r. tp_id r = j) (rs @ [row]) = find (\<lambda>r. tp_id r = j) rs" if "tp_id row \<noteq> j"
    for j rs and row :: principal_row using that by (induction rs) auto
  have "sql_find_principal j db' = sql_find_principal j db" if "j \<noteq> pi_id p" for j
    using assms that upd [of "principal_to_row p" "pi_id p" j] app [of "principal_to_row p" j]
    by (auto simp: sql_upsert_principal_def sql_find_principal_def split: if_splits)
  moreover have "sql_find_principal (pi_id p) db' = Some (principal_to_row p)"
    using sql_find_principal_upsert [OF assms] by simp
  ultimately show ?thesis by (auto simp: fun_eq_iff sqlite_at_def)
qed

lemma sqlite_upsert_readable:
  assumes "readable_db db" "validate_principal p = Inr u" "sql_upsert_principal (principal_to_row p) db = Inr db1"
    and "db_principals db' = db_principals db1" "valid_db db'"
  shows "readable_db db'"
  using assms validate_principal_checks [OF assms(2)]
  by (auto simp: readable_db_def sql_upsert_principal_def principal_to_row_def split: if_splits)

lemma sqlite_upsert:
  assumes "readable_db db" "principal_upsert_with_identity db p ident = (r, db')"
  shows "readable_db db' \<and> (case r of Inl e \<Rightarrow> db' = db | Inr q \<Rightarrow> q = p \<and> sqlite_at db' = (sqlite_at db)(pi_id p \<mapsto> p))"
proof (cases rule: principal_upsert_with_identity_cases [of db p ident])
  case (err e)
  then show ?thesis using assms by auto
next
  case (ok db1 db2)
  note same = sql_upsert_identity_keys(1) [OF ok(3)]
  have r: "db' = db2" "r = Inr p"
    using ok(4) assms(2) get_required_upsert [OF ok(2)] get_required_cong [OF same] by auto
  have "valid_db db'" using principal_operations_valid [of db] assms by (metis readable_db_def snd_conv)
  then have "readable_db db'" using sqlite_upsert_readable [OF assms(1) ok(1,2)] same r(1) by blast
  moreover have "sqlite_at db' = sqlite_at db1" using same r(1) by (simp add: fun_eq_iff sqlite_at_def sql_find_principal_def)
  ultimately show ?thesis using sqlite_at_upsert [OF ok(2)] r by simp
qed

lemma sqlite_upsert_principal:
  assumes "readable_db db" "principal_upsert db p = (r, db')"
  shows "readable_db db' \<and> (case r of Inl e \<Rightarrow> db' = db | Inr q \<Rightarrow> q = p \<and> sqlite_at db' = (sqlite_at db)(pi_id p \<mapsto> p))"
proof (cases rule: principal_upsert_cases [of db p])
  case (err e)
  then show ?thesis using assms by auto
next
  case (ok db1)
  have r: "db' = db1" "r = Inr p" using ok(3) assms(2) get_required_upsert [OF ok(2)] by auto
  have "valid_db db'" using principal_operations_valid [of db] assms by (metis readable_db_def snd_conv)
  then show ?thesis using sqlite_upsert_readable [OF assms(1) ok(1,2)] sqlite_at_upsert [OF ok(2)] r by simp
qed

text \<open>
  The identities of a principal at a provider: what is read is one of them, and an upsert leaves exactly the one it writes, when those the
  principal had before have the same key.
\<close>

definition sqlite_bindings :: "database \<Rightarrow> string \<Rightarrow> string \<Rightarrow> iam_principal_identity_info set" where
  "sqlite_bindings db i provider = identity_from_row ` set (provider_rows db i provider)"

lemma principal_get_identity_binding:
  "case principal_get_identity choice db i provider of None \<Rightarrow> sqlite_bindings db i provider = {} | Some b \<Rightarrow> b \<in> sqlite_bindings db i provider"
  by (auto simp: principal_get_identity_def sqlite_bindings_def Let_def)

lemma sqlite_identity:
  assumes "principal_upsert_with_identity db p ident = (Inr q, db')" "ii_principal_id ident = pi_id p"
    and "\<And>b. b \<in> sqlite_bindings db (pi_id p) (ii_provider ident) \<Longrightarrow>
      ii_issuer b = ii_issuer ident \<and> ii_subject b = ii_subject ident"
  shows "sqlite_bindings db' (pi_id p) (ii_provider ident) = {ident}"
proof (cases rule: principal_upsert_with_identity_cases [of db p ident])
  case (err e)
  then show ?thesis using assms by auto
next
  case (ok db1 db2)
  let ?row = "identity_to_row ident"
  let ?bound = "\<lambda>r. ti_principal_id r = pi_id p \<and> ti_provider r = ii_provider ident"
  have key: "ti_provider ?row = ii_provider ident" "ti_issuer ?row = ii_issuer ident" "ti_subject ?row = ii_subject ident"
    "ti_principal_id ?row = pi_id p" "identity_from_row ?row = ident"
    using assms(2) by (simp_all add: identity_to_row_def identity_from_row_def)
  have db1: "db_identities db1 = db_identities db" using ok(2) by (auto simp: sql_upsert_principal_def split: if_splits)
  have same: "same_key ?row r" if "r \<in> set (db_identities db)" "?bound r" for r
    using assms(3) [of "identity_from_row r"] that
    by (auto simp: sqlite_bindings_def provider_rows_def identity_from_row_def same_key_def key)
  have "{r \<in> set (db_identities db2). ?bound r} = {?row}"
  proof (cases "list_ex (same_key ?row) (db_identities db)")
    case True
    then have own: "list_ex (\<lambda>r. same_key ?row r \<and> ti_principal_id r = ti_principal_id ?row) (db_identities db)"
      and db2: "db_identities db2 = map (\<lambda>r. if same_key ?row r then r\<lparr>ti_claims := ti_claims ?row\<rparr> else r) (db_identities db)"
      using ok(3) by (auto simp: sql_upsert_identity_def db1 split: if_splits)
    have row: "r\<lparr>ti_claims := ti_claims ?row\<rparr> = ?row" if "same_key ?row r" "ti_principal_id r = pi_id p" for r
      using that by (simp add: same_key_def key)
    obtain r where r: "r \<in> set (db_identities db)" "same_key ?row r" "ti_principal_id r = pi_id p"
      using own by (auto simp: list_ex_iff key)
    then have "?row \<in> set (db_identities db2)" unfolding db2 using row [OF r(2,3)] by (auto simp: image_iff intro!: bexI [of _ r])
    moreover have "x = ?row" if x: "x \<in> set (db_identities db2)" "?bound x" for x
    proof -
      obtain y where y: "y \<in> set (db_identities db)" "x = (if same_key ?row y then y\<lparr>ti_claims := ti_claims ?row\<rparr> else y)"
        using x(1) unfolding db2 by auto
      then have "?bound y" using x(2) by (cases "same_key ?row y") simp_all
      then show ?thesis using y same [OF y(1)] row [of y] by simp
    qed
    ultimately show ?thesis using key(1,4) by blast
  next
    case False
    then have db2: "db_identities db2 = db_identities db @ [?row]"
      using ok(3) by (auto simp: sql_upsert_identity_def db1 split: if_splits)
    then show ?thesis using same False key by (auto simp: list_ex_iff)
  qed
  moreover have "db' = db2" using ok(4) assms(1) by simp
  ultimately show ?thesis by (simp add: sqlite_bindings_def provider_rows_def key)
qed

interpretation sqlite_dir: principal_directory sqlite_principal_repository readable_db sqlite_at sqlite_selected
proof unfold_locales
  fix d i p assume "readable_db d" "sqlite_at d i = Some p"
  then show "pi_id p = i" using readable_rows(2) by (auto simp: sqlite_at_Some)
qed (auto simp: sqlite_principal_repository_def principal_get_readable sqlite_find_by_ids sqlite_list
  sqlite_selected_order sqlite_selected_ids dest: sqlite_status sqlite_delete sqlite_upsert)

section \<open>Properties\<close>

text \<open>
  Every operation of the two principal repositories keeps the schema invariant: unique
  identifiers and identity keys, and no dangling reference from an identity or a role binding.
\<close>

theorem principal_operations_keep_schema:
  assumes "valid_db db"
  shows "valid_db (snd (principal_upsert db p)) \<and> valid_db (snd (principal_upsert_with_identity db p i)) \<and>
    valid_db (snd (principal_update_status db n st)) \<and> valid_db (snd (principal_delete db n)) \<and>
    valid_db (snd (create_principal_and_bind db p e)) \<and> valid_db (snd (bind_identity db n e)) \<and>
    valid_db (snd (rollback_identity_binding db n k))"
  using principal_operations_valid [OF assms] by blast

theorem principal_operations_keep_schema_witness:
  "valid_db (snd (create_principal_and_bind empty_db sample_principal sample_external))"
  using principal_operations_keep_schema [OF valid_empty_db] by blast

text \<open>
  Claim C23. An external identity that is bound to a principal is never bound to another one. Creating, binding, upserting or
  changing principals keeps it bound to its one owner, deleting and rolling back at most unbind it; and an attempt to bind it to another
  principal, or to bind it again, is refused and changes nothing.
\<close>

theorem identity_never_rebound:
  assumes "identity_owners db k = {owner}"
  shows "identity_owners (snd (principal_upsert_with_identity db p i)) k = {owner} \<and>
    identity_owners (snd (create_principal_and_bind db p e)) k = {owner} \<and>
    identity_owners (snd (bind_identity db n e)) k = {owner} \<and>
    identity_owners (snd (principal_upsert db p)) k = {owner} \<and>
    identity_owners (snd (principal_update_status db n st)) k = {owner} \<and>
    identity_owners (snd (principal_delete db n)) k \<subseteq> {owner} \<and>
    identity_owners (snd (rollback_identity_binding db n j)) k \<subseteq> {owner} \<and>
    (row_has_key k (identity_to_row i) \<and> ii_principal_id i \<noteq> owner \<longrightarrow> (\<exists>x. principal_upsert_with_identity db p i = (Inl x, db))) \<and>
    (row_has_key k (identity_row_of n e) \<longrightarrow> (\<exists>x. bind_identity db n e = (Inl x, db)) \<and> (\<exists>x. create_principal_and_bind db p e = (Inl x, db)))"
proof (intro conjI impI)
  show "identity_owners (snd (principal_upsert_with_identity db p i)) k = {owner}"
  proof (cases rule: principal_upsert_with_identity_cases [of db p i])
    case (ok db1 db2)
    with assms have "identity_owners db1 k = {owner}" by (simp add: identity_owners_same [OF sql_upsert_principal_ids(3)])
    from identity_owners_extend [OF sql_upsert_identity_keys(3) [OF ok(3)] this] ok(4) show ?thesis by simp
  qed (use assms in simp)
  show "identity_owners (snd (create_principal_and_bind db p e)) k = {owner}"
  proof (cases rule: create_principal_and_bind_cases [of db p e])
    case (ok db1 db2)
    then have "identity_owners db1 k = {owner}" using assms by (auto simp: result_simps identity_owners_def)
    from identity_owners_insert(1) [OF ok(3) this] ok(1) show ?thesis by simp
  qed (use assms in simp)
  show "identity_owners (snd (bind_identity db n e)) k = {owner}"
    by (cases rule: bind_identity_cases [of db n e]) (use assms identity_owners_insert(1) in simp_all)
  show "identity_owners (snd (principal_upsert db p)) k = {owner}"
    using assms by (cases rule: principal_upsert_cases [of db p])
      (auto simp: identity_owners_same [OF sql_upsert_principal_ids(3)])
  show "identity_owners (snd (principal_update_status db n st)) k = {owner}"
    using assms by (simp add: principal_update_status_def Let_def identity_owners_def)
  have "set (db_identities (snd (principal_delete db n))) \<subseteq> set (db_identities db)"
    by (auto simp: principal_delete_def sql_delete_principal_def split: sum.splits sql_error.splits if_splits)
  from identity_owners_subset [OF this] show "identity_owners (snd (principal_delete db n)) k \<subseteq> {owner}" using assms by blast
  have "set (db_identities (snd (rollback_identity_binding db n j))) \<subseteq> set (db_identities db)"
    by (auto simp: rollback_identity_binding_def sql_delete_principal_def identity_transaction_def Let_def split: if_splits)
  from identity_owners_subset [OF this] show "identity_owners (snd (rollback_identity_binding db n j)) k \<subseteq> {owner}" using assms by blast
next
  assume other: "row_has_key k (identity_to_row i) \<and> ii_principal_id i \<noteq> owner"
  show "\<exists>x. principal_upsert_with_identity db p i = (Inl x, db)"
  proof (cases rule: principal_upsert_with_identity_cases [of db p i])
    case (ok db1 db2)
    have owners: "identity_owners db1 k = {owner}" using assms ok(2) by (simp add: identity_owners_same [OF sql_upsert_principal_ids(3)])
    then obtain r where r: "r \<in> set (db_identities db1)" "row_has_key k r" by (auto simp: identity_owners_def)
    then have "list_ex (same_key (identity_to_row i)) (db_identities db1)"
      using other same_key_iff_key by (auto simp: list_ex_iff)
    moreover have "\<not> list_ex (\<lambda>r. same_key (identity_to_row i) r \<and> ti_principal_id r = ti_principal_id (identity_to_row i)) (db_identities db1)"
    proof
      assume "list_ex (\<lambda>r. same_key (identity_to_row i) r \<and> ti_principal_id r = ti_principal_id (identity_to_row i)) (db_identities db1)"
      then obtain r' where "r' \<in> set (db_identities db1)" "same_key (identity_to_row i) r'" "ti_principal_id r' = ii_principal_id i"
        by (auto simp: list_ex_iff identity_to_row_def)
      then have "ii_principal_id i \<in> identity_owners db1 k" using other by (force simp: identity_owners_def same_key_def row_has_key_def)
      then show False using owners other by simp
    qed
    ultimately show ?thesis using ok(3) by (simp add: sql_upsert_identity_def split: if_splits)
  qed blast
next
  assume again: "row_has_key k (identity_row_of n e)"
  then have key: "row_has_key k (identity_row_of m e)" for m by (simp add: row_has_key_def identity_row_of_def)
  show "\<exists>x. bind_identity db n e = (Inl x, db)"
    by (cases rule: bind_identity_cases [of db n e]) (use identity_owners_insert(2) [OF _ assms] key in blast)+
  show "\<exists>x. create_principal_and_bind db p e = (Inl x, db)"
  proof (cases rule: create_principal_and_bind_cases [of db p e])
    case (ok db1 db2)
    then have "identity_owners db1 k = {owner}" using assms by (auto simp: result_simps identity_owners_def)
    from identity_owners_insert(2) [OF ok(3) this] key show ?thesis by blast
  qed blast
qed

theorem identity_never_rebound_witness:
  "\<exists>db k x. identity_owners db k = {''user:ann''} \<and> sql_find_principal ''user:bob'' db \<noteq> None \<and> bind_identity db ''user:bob'' sample_external = (Inl x, db)"
proof -
  let ?bob = "sample_principal\<lparr>pi_id := ''user:bob''\<rparr>"
  let ?db = "snd (principal_upsert (snd (create_principal_and_bind empty_db sample_principal sample_external)) ?bob)"
  let ?k = "\<lparr>ek_provider = ''github'', ek_issuer = ''gh'', ek_subject = ''42''\<rparr>"
  have "map ti_principal_id (filter (row_has_key ?k) (db_identities ?db)) = [''user:ann'']" "sql_find_principal ''user:bob'' ?db \<noteq> None"
    "row_has_key ?k (identity_row_of ''user:bob'' sample_external)" by code_simp+
  note sample = this
  have "identity_owners ?db ?k = set (map ti_principal_id (filter (row_has_key ?k) (db_identities ?db)))"
    unfolding identity_owners_def set_map set_filter ..
  then have owner: "identity_owners ?db ?k = {''user:ann''}" unfolding sample(1) list.set .
  have "\<exists>x. bind_identity ?db ''user:bob'' sample_external = (Inl x, ?db)"
    using identity_never_rebound [OF owner, where e = sample_external and n = "''user:bob''"] sample(3) by blast
  with owner sample(2) show ?thesis by blast
qed

text \<open>
  What is upserted is read back: a successful upsert, with or without an external
  identity, returns the given principal, and reading it afterwards gives the same.
\<close>

theorem principal_upsert_get:
  assumes "principal_upsert_with_identity db p i = (Inr q, db') \<or> principal_upsert db p = (Inr q, db')"
  shows "q = p \<and> principal_get db' (pi_id p) = Inr (Some p)"
proof -
  have "get_required db' (pi_id p) = Inr p \<and> q = p"
    using assms
  proof
    assume "principal_upsert_with_identity db p i = (Inr q, db')"
    then show ?thesis
    proof (cases rule: principal_upsert_with_identity_cases [of db p i])
      case (ok db1 db2)
      have "get_required db2 (pi_id p) = Inr p"
        using get_required_upsert [OF ok(2)] get_required_cong [OF sql_upsert_identity_keys(1) [OF ok(3)]] by simp
      with ok(4) \<open>principal_upsert_with_identity db p i = (Inr q, db')\<close> show ?thesis by simp
    qed simp
  next
    assume "principal_upsert db p = (Inr q, db')"
    then show ?thesis
      by (cases rule: principal_upsert_cases [of db p]) (auto simp: get_required_upsert)
  qed
  then show ?thesis by (simp add: get_required_def result_simps)
qed

theorem principal_upsert_get_witness:
  "\<exists>db'. principal_upsert empty_db sample_principal = (Inr sample_principal, db') \<and>
     principal_get db' ''user:ann'' = Inr (Some sample_principal)"
proof -
  have "fst (principal_upsert empty_db sample_principal) = Inr sample_principal" by code_simp
  then obtain db' where u: "principal_upsert empty_db sample_principal = (Inr sample_principal, db')"
    by (metis prod.collapse)
  from principal_upsert_get [OF disjI2 [OF u]] u show ?thesis by (auto simp: sample_principal_def)
qed

text \<open>
  Rolling back an account creation leaves no trace: after a successful creation of a
  principal with its first identity, the rollback succeeds and the database is exactly what it
  was before.
\<close>

theorem rollback_undoes_creation:
  assumes "valid_db db" and "create_principal_and_bind db p e = (Inr q, db')"
    and "external_identity_key_of e = Inr k"
  shows "rollback_identity_binding db' (pi_id p) k = (Inr (), db)"
proof -
  have db': "db' = db\<lparr>db_principals := db_principals db @ [principal_to_row p],
      db_identities := db_identities db @ [identity_row_of (pi_id p) e]\<rparr>"
    and fresh: "pi_id p \<notin> tp_id ` set (db_principals db)"
    using assms(2) by (auto simp: create_principal_and_bind_Inr)
  have key: "row_has_key k (identity_row_of (pi_id p) e)" "ti_principal_id (identity_row_of (pi_id p) e) = pi_id p"
    using assms(3) by (auto simp: external_identity_key_of_def external_identity_key_new_Inr row_has_key_def identity_row_of_def)
  have none: "pi_id p \<notin> ti_principal_id ` set (db_identities db)" "pi_id p \<notin> tb_principal_id ` set (db_role_bindings db)"
    using assms(1) fresh by (auto simp: valid_db_def)
  then have ids: "filter (\<lambda>r. ti_principal_id r = pi_id p \<longrightarrow> \<not> row_has_key k r) (db_identities db) = db_identities db"
    "filter (\<lambda>r. ti_principal_id r \<noteq> pi_id p) (db_identities db) = db_identities db"
    by (auto simp: filter_id_conv image_iff)
  have ps: "filter (\<lambda>r. tp_id r \<noteq> pi_id p) (db_principals db) = db_principals db"
    using fresh by (auto simp: filter_id_conv image_iff)
  show ?thesis
    using none by (simp add: db' rollback_identity_binding_def Let_def key ids ps sql_delete_principal_def identity_transaction_def)
qed

theorem rollback_undoes_creation_witness:
  "rollback_identity_binding (snd (create_principal_and_bind empty_db sample_principal sample_external)) ''user:ann''
     \<lparr>ek_provider = ''github'', ek_issuer = ''gh'', ek_subject = ''42''\<rparr> = (Inr (), empty_db)"
proof -
  have "create_principal_and_bind empty_db sample_principal sample_external =
      (Inr sample_principal, snd (create_principal_and_bind empty_db sample_principal sample_external))"
    using sample_create by (metis prod.collapse)
  moreover have "external_identity_key_of sample_external = Inr \<lparr>ek_provider = ''github'', ek_issuer = ''gh'', ek_subject = ''42''\<rparr>"
    by code_simp
  ultimately have "rollback_identity_binding (snd (create_principal_and_bind empty_db sample_principal sample_external))
      (pi_id sample_principal) \<lparr>ek_provider = ''github'', ek_issuer = ''gh'', ek_subject = ''42''\<rparr> = (Inr (), empty_db)"
    using rollback_undoes_creation [OF valid_empty_db] by blast
  then show ?thesis by (simp add: sample_principal_def)
qed

end
