(* ===== verification/Account_Linking.thy ===== *)
theory Account_Linking
  imports Principal_Store
begin

text \<open>
  Account linking (\<open>authn/src/principal/jit.rs\<close>): a verified external identity becomes one canonical
  principal. \<open>resolve_login\<close> finds the principal an identity is bound to or creates one under the
  linking policy, \<open>link_identity\<close> binds a further identity to an authenticated principal. The
  repository is an interface (\<open>dyn IdentityBindingRepository\<close>); the locale \<open>identity_bindings\<close> holds
  what linking relies on, in terms of the principal that each identity resolves to, and is
  interpreted on the SQLite repository.
\<close>

section \<open>Data\<close>

datatype linking_strategy = Explicit | FirstLogin

text \<open>\<open>allow_link\<close> is a \<open>BTreeMap\<close>: its entries in key order.\<close>

record account_linking_properties =
  al_strategy :: linking_strategy
  al_authoritative_providers :: "string list"
  al_allow_link :: "(string \<times> string list) list"

datatype account_linking_error =
    InvalidIdentity identity_model_error
  | AuthoritativeLoginRequired string
  | LinkNotAllowed string
  | PrincipalDisabled string
  | LinkedToAnother
  | Repository storage_error

record 'd identity_binding_repository =
  ib_find_principal_by_identity :: "'d \<Rightarrow> external_identity_key \<Rightarrow>
    (identity_repository_error, iam_principal_info option) result"
  ib_create_principal_and_bind :: "'d \<Rightarrow> iam_principal_info \<Rightarrow> external_identity \<Rightarrow>
    (identity_repository_error, iam_principal_info) result \<times> 'd"
  ib_bind_identity :: "'d \<Rightarrow> string \<Rightarrow> external_identity \<Rightarrow>
    (identity_repository_error, iam_principal_info) result \<times> 'd"
  ib_principal_has_provider :: "'d \<Rightarrow> string \<Rightarrow> string \<Rightarrow> (identity_repository_error, bool) result"
  ib_rollback_identity_binding :: "'d \<Rightarrow> string \<Rightarrow> external_identity_key \<Rightarrow>
    (identity_repository_error, unit) result \<times> 'd"

text \<open>The service with its repository, and the encoder of the random part of an identifier.\<close>

record 'd account_linking_service =
  als_policy :: account_linking_properties
  als_repository :: "'d identity_binding_repository"
  als_b64_encode :: "string \<Rightarrow> string"

section \<open>Operations\<close>

fun linking_error_from :: "identity_repository_error \<Rightarrow> account_linking_error" where
  "linking_error_from IdentityAlreadyBound = LinkedToAnother"
| "linking_error_from (Backend message) = Repository message"

text \<open>\<open>find_map\<close> over the candidate claims: the first that is a text.\<close>

fun first_text_claim :: "(string \<times> json) list \<Rightarrow> string list \<Rightarrow> string option" where
  "first_text_claim claims [] = None"
| "first_text_claim claims (name # names) =
     (case Option.bind (map_of claims name) json_as_str of
        Some v \<Rightarrow> Some v
      | None \<Rightarrow> first_text_claim claims names)"

definition new_principal ::
  "(string \<Rightarrow> string) \<Rightarrow> string \<Rightarrow> external_identity \<Rightarrow> principal_kind \<Rightarrow> iam_principal_info" where
  "new_principal b64 random identity kind =
     \<lparr>pi_id = ''P_'' @ b64 random, pi_kind = kind,
      pi_display_name =
        (case first_text_claim (ei_claims identity) [''display_name'', ''username'', ''email''] of
           None \<Rightarrow> ei_subject identity
         | Some v \<Rightarrow> if trim v = [] then ei_subject identity else v),
      pi_status = Active, pi_authorization_state = []\<rparr>"

definition linking_context ::
  "iam_principal_info \<Rightarrow> authentication_result \<Rightarrow> (account_linking_error, authenticated_principal_context) result" where
  "linking_context p authentication =
     (if pi_status p \<noteq> Active then Inl (PrincipalDisabled (pi_id p))
      else Inr \<lparr>ap_principal_id = pi_id p, ap_kind = pi_kind p, ap_stable_group_ids = [],
                ap_trusted_claims = Map.empty, ap_acr = res_acr authentication, ap_amr = res_amr authentication\<rparr>)"

definition may_create :: "account_linking_properties \<Rightarrow> string \<Rightarrow> bool" where
  "may_create policy provider \<longleftrightarrow>
     al_strategy policy = FirstLogin \<or> provider \<in> set (al_authoritative_providers policy)"

text \<open>The 18 random bytes of a new identifier are an argument.\<close>

definition resolve_login ::
  "'d account_linking_service \<Rightarrow> 'd \<Rightarrow> authentication_result \<Rightarrow> principal_kind \<Rightarrow> string \<Rightarrow>
   (account_linking_error, authenticated_principal_context) result \<times> 'd" where
  "resolve_login s d authentication kind random =
     (let identity = res_external_identity authentication in
      case external_identity_key_of identity of
        Inl e \<Rightarrow> (Inl (InvalidIdentity e), d)
      | Inr key \<Rightarrow>
          (case ib_find_principal_by_identity (als_repository s) d key of
             Inl e \<Rightarrow> (Inl (linking_error_from e), d)
           | Inr (Some p) \<Rightarrow> (linking_context p authentication, d)
           | Inr None \<Rightarrow>
               if may_create (als_policy s) (ei_provider identity) then
                 (case ib_create_principal_and_bind (als_repository s) d
                     (new_principal (als_b64_encode s) random identity kind) identity of
                    (Inl e, d') \<Rightarrow> (Inl (linking_error_from e), d')
                  | (Inr p, d') \<Rightarrow> (linking_context p authentication, d'))
               else (Inl (AuthoritativeLoginRequired (ei_provider identity)), d)))"

text \<open>The loop over the allowed pairs, with its early exit.\<close>

fun link_permitted ::
  "'d identity_binding_repository \<Rightarrow> 'd \<Rightarrow> string \<Rightarrow> string \<Rightarrow> (string \<times> string list) list \<Rightarrow>
   (account_linking_error, bool) result" where
  "link_permitted repo d principal_id provider [] = Inr False"
| "link_permitted repo d principal_id provider ((authoritative, secondary) # rest) =
     (if provider \<in> set secondary
      then (case ib_principal_has_provider repo d principal_id authoritative of
              Inl e \<Rightarrow> Inl (linking_error_from e)
            | Inr b \<Rightarrow> if b then Inr True else link_permitted repo d principal_id provider rest)
      else link_permitted repo d principal_id provider rest)"

definition link_identity ::
  "'d account_linking_service \<Rightarrow> 'd \<Rightarrow> string \<Rightarrow> authentication_result \<Rightarrow>
   (account_linking_error, authenticated_principal_context) result \<times> 'd" where
  "link_identity s d principal_id authentication =
     (let identity = res_external_identity authentication in
      case external_identity_key_of identity of
        Inl e \<Rightarrow> (Inl (InvalidIdentity e), d)
      | Inr _ \<Rightarrow>
          (case link_permitted (als_repository s) d principal_id (ei_provider identity) (al_allow_link (als_policy s)) of
             Inl e \<Rightarrow> (Inl e, d)
           | Inr permitted \<Rightarrow>
               if \<not> permitted then (Inl (LinkNotAllowed (ei_provider identity)), d)
               else (case ib_bind_identity (als_repository s) d principal_id identity of
                       (Inl e, d') \<Rightarrow> (Inl (linking_error_from e), d')
                     | (Inr p, d') \<Rightarrow> (linking_context p authentication, d'))))"

definition linking_rollback ::
  "'d account_linking_service \<Rightarrow> 'd \<Rightarrow> string \<Rightarrow> external_identity_key \<Rightarrow>
   (account_linking_error, unit) result \<times> 'd" where
  "linking_rollback s d principal_id key =
     (case ib_rollback_identity_binding (als_repository s) d principal_id key of
        (Inl e, d') \<Rightarrow> (Inl (linking_error_from e), d')
      | (Inr _, d') \<Rightarrow> (Inr (), d'))"

text \<open>\<open>JitPrincipalDiscovery::discover\<close> delegates to its linking service.\<close>

definition jit_discover ::
  "'d account_linking_service \<Rightarrow> 'd \<Rightarrow> authentication_result \<Rightarrow> principal_kind \<Rightarrow> string \<Rightarrow>
   (account_linking_error, authenticated_principal_context) result \<times> 'd" where
  "jit_discover s d authentication kind random = resolve_login s d authentication kind random"

text \<open>The states that logins and links of one service lead to, whatever they return.\<close>

inductive linking_steps :: "'d account_linking_service \<Rightarrow> 'd \<Rightarrow> 'd \<Rightarrow> bool" for s where
  linking_refl: "linking_steps s d d"
| linking_login: "linking_steps s d d1 \<Longrightarrow> linking_steps s d (snd (resolve_login s d1 a kind random))"
| linking_link: "linking_steps s d d1 \<Longrightarrow> linking_steps s d (snd (link_identity s d1 n a))"

section \<open>The binding interface\<close>

text \<open>
  \<open>bound d k\<close> is the principal that identity \<open>k\<close> resolves to. A lookup returns it, a write that fails
  changes nothing, a creation binds an unbound identity to a principal no identity had, a binding
  binds an unbound identity to the named principal, and a rollback releases one identity.
\<close>

locale identity_bindings =
  fixes repo :: "'d identity_binding_repository" and ok :: "'d \<Rightarrow> bool"
    and bound :: "'d \<Rightarrow> external_identity_key \<Rightarrow> iam_principal_info option"
  assumes find_bound: "ok d \<Longrightarrow> ib_find_principal_by_identity repo d k = Inr (bound d k)"
    and create_bound: "ok d \<Longrightarrow> external_identity_key_of i = Inr k \<Longrightarrow>
      ib_create_principal_and_bind repo d p i = (r, d') \<Longrightarrow> ok d' \<and>
      (case r of Inl e \<Rightarrow> d' = d
       | Inr q \<Rightarrow> q = p \<and> bound d k = None \<and> bound d' = (bound d)(k \<mapsto> p) \<and>
           (\<forall>k' q'. bound d k' = Some q' \<longrightarrow> pi_id q' \<noteq> pi_id p))"
    and bind_bound: "ok d \<Longrightarrow> external_identity_key_of i = Inr k \<Longrightarrow>
      ib_bind_identity repo d n i = (r, d') \<Longrightarrow> ok d' \<and>
      (case r of Inl e \<Rightarrow> d' = d
       | Inr q \<Rightarrow> pi_id q = n \<and> bound d k = None \<and> bound d' = (bound d)(k \<mapsto> q))"
    and has_provider: "ok d \<Longrightarrow> ib_principal_has_provider repo d n provider =
      Inr (\<exists>k q. ek_provider k = provider \<and> bound d k = Some q \<and> pi_id q = n)"
    and rollback_bound: "ok d \<Longrightarrow> ib_rollback_identity_binding repo d n k = (released, d') \<Longrightarrow> ok d' \<and>
      (case released of Inl e \<Rightarrow> d' = d
       | Inr _ \<Rightarrow> bound d' = (bound d)(k := (case bound d k of Some q \<Rightarrow> if pi_id q = n then None else Some q | None \<Rightarrow> None)))"
begin

lemma resolve_login_Inr:
  assumes "ok d" "als_repository s = repo" "resolve_login s d a kind random = (Inr ctx, d')"
  obtains (existing) k p where "external_identity_key_of (res_external_identity a) = Inr k" "d' = d"
      "bound d k = Some p" "linking_context p a = Inr ctx"
  | (created) k p where "external_identity_key_of (res_external_identity a) = Inr k" "ok d'"
      "p = new_principal (als_b64_encode s) random (res_external_identity a) kind"
      "may_create (als_policy s) (ei_provider (res_external_identity a))"
      "bound d k = None" "bound d' = (bound d)(k \<mapsto> p)" "linking_context p a = Inr ctx"
      "\<forall>k' q. bound d k' = Some q \<longrightarrow> pi_id q \<noteq> pi_id p"
proof -
  obtain k where k: "external_identity_key_of (res_external_identity a) = Inr k"
    using assms(3) by (auto simp: resolve_login_def Let_def split: sum.splits)
  show ?thesis
  proof (cases "bound d k")
    case (Some p)
    then have "linking_context p a = Inr ctx" "d' = d"
      using assms k find_bound [OF assms(1), of k] by (auto simp: resolve_login_def)
    then show ?thesis using existing k Some by blast
  next
    case None
    let ?p = "new_principal (als_b64_encode s) random (res_external_identity a) kind"
    obtain r d'' where c: "ib_create_principal_and_bind repo d ?p (res_external_identity a) = (r, d'')" by fastforce
    have may: "may_create (als_policy s) (ei_provider (res_external_identity a))"
      and r: "(case r of Inl e \<Rightarrow> (Inl (linking_error_from e), d'') | Inr p \<Rightarrow> (linking_context p a, d'')) = (Inr ctx, d')"
      using assms(2,3) k None c find_bound [OF assms(1), of k]
      by (auto simp: resolve_login_def Let_def split: if_splits)
    then obtain q where "r = Inr q" "linking_context q a = Inr ctx" "d'' = d'" by (auto split: sum.splits)
    with create_bound [OF assms(1) k c] may show ?thesis using created [OF k] None by auto
  qed
qed

lemma resolve_login_Inl:
  assumes "ok d" "als_repository s = repo" "resolve_login s d a kind random = (Inl e, d')"
  shows "d' = d"
proof -
  have active: "linking_context (new_principal b random i kind) a \<noteq> Inl e" for b i
    by (simp add: linking_context_def new_principal_def)
  show ?thesis
  proof (cases "external_identity_key_of (res_external_identity a)")
    case (Inr k)
    obtain r d'' where c: "ib_create_principal_and_bind repo d
        (new_principal (als_b64_encode s) random (res_external_identity a) kind) (res_external_identity a) = (r, d'')"
      by fastforce
    show ?thesis
      using create_bound [OF assms(1) Inr c] assms(2,3) Inr c active find_bound [OF assms(1), of k]
      by (auto simp: resolve_login_def Let_def split: option.splits if_splits sum.splits)
  qed (use assms(3) in \<open>simp add: resolve_login_def\<close>)
qed

text \<open>A login resolves to an active principal that the identity is bound to afterwards.\<close>

lemma login_binds:
  assumes "ok d" "als_repository s = repo" "resolve_login s d a kind random = (Inr ctx, d')"
  shows "ok d' \<and> (\<exists>k p. external_identity_key_of (res_external_identity a) = Inr k \<and> bound d' k = Some p \<and>
    linking_context p a = Inr ctx)"
  using resolve_login_Inr [OF assms] assms(1) by (metis fun_upd_same)

lemma login_again:
  assumes "ok d" "als_repository s = repo" "bound d k = Some p"
    and "external_identity_key_of (res_external_identity a) = Inr k"
  shows "resolve_login s d a kind random = (linking_context p a, d)"
  using assms find_bound [of d k] by (simp add: resolve_login_def)

lemma link_permitted_iff:
  assumes "ok d"
  shows "link_permitted repo d n provider pairs =
    Inr (\<exists>(authoritative, secondary) \<in> set pairs. provider \<in> set secondary \<and>
      (\<exists>k q. ek_provider k = authoritative \<and> bound d k = Some q \<and> pi_id q = n))"
proof -
  define h where "h authoritative \<longleftrightarrow> (\<exists>k q. ek_provider k = authoritative \<and> bound d k = Some q \<and> pi_id q = n)"
    for authoritative
  have "ib_principal_has_provider repo d n authoritative = Inr (h authoritative)" for authoritative
    by (simp add: has_provider [OF assms] h_def)
  then have "link_permitted repo d n provider pairs =
      Inr (\<exists>(authoritative, secondary) \<in> set pairs. provider \<in> set secondary \<and> h authoritative)"
    by (induction pairs) auto
  then show ?thesis unfolding h_def .
qed

lemma link_identity_bind:
  assumes "ok d" "als_repository s = repo" "link_identity s d n a = (r, d')" "d' \<noteq> d \<or> (\<exists>ctx. r = Inr ctx)"
  obtains k p authoritative secondary k' q where "external_identity_key_of (res_external_identity a) = Inr k"
    "ok d'" "bound d k = None" "bound d' = (bound d)(k \<mapsto> p)" "pi_id p = n" "r = linking_context p a"
    "(authoritative, secondary) \<in> set (al_allow_link (als_policy s))"
    "ei_provider (res_external_identity a) \<in> set secondary"
    "ek_provider k' = authoritative" "bound d k' = Some q" "pi_id q = n"
proof -
  let ?i = "res_external_identity a"
  obtain k where k: "external_identity_key_of ?i = Inr k"
    using assms(3,4) by (auto simp: link_identity_def Let_def split: sum.splits)
  obtain r0 d0 where b: "ib_bind_identity repo d n ?i = (r0, d0)" by fastforce
  note bind = bind_bound [OF assms(1) k b]
  obtain permitted where lp: "link_permitted repo d n (ei_provider ?i) (al_allow_link (als_policy s)) = Inr permitted"
    using link_permitted_iff [OF assms(1)] by blast
  from assms(2-4) k b bind lp obtain p where *: "link_permitted repo d n (ei_provider ?i) (al_allow_link (als_policy s)) = Inr True"
    "r0 = Inr p" "r = linking_context p a" "d' = d0"
    by (auto simp: link_identity_def Let_def split: sum.splits if_splits)
  then show ?thesis using that k bind unfolding link_permitted_iff [OF assms(1)] by fastforce
qed

text \<open>Only a bound identity meets the check of the status.\<close>

lemma link_rejected_disabled:
  assumes "ok d" "als_repository s = repo" "link_identity s d n a = (Inl (PrincipalDisabled m), d')"
  shows "m = n \<and> (\<exists>k p. external_identity_key_of (res_external_identity a) = Inr k \<and>
    bound d k = None \<and> bound d' k = Some p \<and> pi_id p = n \<and> pi_status p = Disabled)"
proof -
  let ?i = "res_external_identity a"
  have repository: "linking_error_from x \<noteq> PrincipalDisabled m" for x by (cases x) simp_all
  obtain permitted where lp: "link_permitted repo d n (ei_provider ?i) (al_allow_link (als_policy s)) = Inr permitted"
    using link_permitted_iff [OF assms(1)] by blast
  obtain k where k: "external_identity_key_of ?i = Inr k"
    using assms(3) by (auto simp: link_identity_def Let_def split: sum.splits)
  obtain r0 d0 where b: "ib_bind_identity repo d n ?i = (r0, d0)" by fastforce
  obtain p where p: "r0 = Inr p" "linking_context p a = Inl (PrincipalDisabled m)" "d' = d0"
    using assms(2,3) k lp b repository by (auto simp: link_identity_def Let_def split: sum.splits if_splits)
  then have status: "pi_status p = Disabled" "m = pi_id p" by (cases "pi_status p"; simp add: linking_context_def)+
  have "bound d k = None" "bound d' = (bound d)(k \<mapsto> p)" "pi_id p = n" using bind_bound [OF assms(1) k b] p(1,3) by auto
  then show ?thesis using status k by auto
qed

text \<open>No sequence of logins and links takes an identity away from its principal.\<close>

lemma login_grows:
  assumes "ok d" "als_repository s = repo"
  shows "ok (snd (resolve_login s d a kind random)) \<and> bound d \<subseteq>\<^sub>m bound (snd (resolve_login s d a kind random))"
proof (cases "resolve_login s d a kind random")
  case (Pair r d')
  show ?thesis
  proof (cases r)
    case (Inl e)
    with Pair resolve_login_Inl [OF assms, of a kind random e d'] assms(1) show ?thesis by simp
  next
    case (Inr ctx)
    with Pair have "resolve_login s d a kind random = (Inr ctx, d')" by simp
    then show ?thesis
      by (cases rule: resolve_login_Inr [OF assms]) (use assms(1) Pair in \<open>auto simp: map_le_def\<close>)
  qed
qed

lemma link_grows:
  assumes "ok d" "als_repository s = repo"
  shows "ok (snd (link_identity s d n a)) \<and> bound d \<subseteq>\<^sub>m bound (snd (link_identity s d n a))"
proof (cases "link_identity s d n a")
  case (Pair r d')
  show ?thesis
  proof (cases "d' = d")
    case False
    then show ?thesis
      by (cases rule: link_identity_bind [OF assms Pair, case_names bind]) (use Pair in \<open>auto simp: map_le_def\<close>)
  qed (use assms Pair in simp)
qed

lemma linking_grows:
  assumes "linking_steps s d d'" "ok d" "als_repository s = repo"
  shows "ok d' \<and> bound d \<subseteq>\<^sub>m bound d'"
  using assms
proof (induction rule: linking_steps.induct)
  case (linking_login d d1 a kind random)
  then show ?case using login_grows [of d1 s a kind random] by (auto intro: map_le_trans)
next
  case (linking_link d d1 n a)
  then show ?case using link_grows [of d1 s n a] by (auto intro: map_le_trans)
qed simp

lemma login_stable:
  assumes "ok d" "als_repository s = repo" "resolve_login s d a kind random = (Inr ctx, d')"
    and "linking_steps s d' d''"
    and same: "external_identity_key_of (res_external_identity b) = external_identity_key_of (res_external_identity a)"
  shows "\<exists>ctx'. resolve_login s d'' b kind' random' = (Inr ctx', d'') \<and>
    ap_principal_id ctx' = ap_principal_id ctx \<and> ap_kind ctx' = ap_kind ctx \<and>
    ap_amr ctx' = res_amr b \<and> ap_acr ctx' = res_acr b"
proof -
  obtain k p where k: "ok d'" "external_identity_key_of (res_external_identity a) = Inr k" "bound d' k = Some p"
    "linking_context p a = Inr ctx"
    using login_binds [OF assms(1-3)] by blast
  from linking_grows [OF assms(4) k(1) assms(2)] k(3) have "ok d''" "bound d'' k = Some p"
    by (auto simp: map_le_def) (metis domI)
  from login_again [OF this(1) assms(2) this(2)] same k(2) have "resolve_login s d'' b kind' random' = (linking_context p b, d'')"
    by simp
  then show ?thesis using k(4) by (auto simp: linking_context_def split: if_splits)
qed

end

section \<open>SQLite as a binding repository\<close>

definition sqlite_identity_repository :: "database identity_binding_repository" where
  "sqlite_identity_repository = \<lparr>ib_find_principal_by_identity = find_principal_by_identity,
     ib_create_principal_and_bind = create_principal_and_bind, ib_bind_identity = bind_identity,
     ib_principal_has_provider = (\<lambda>db i provider. Inr (principal_has_provider db i provider)),
     ib_rollback_identity_binding = rollback_identity_binding\<rparr>"

definition sqlite_bound :: "database \<Rightarrow> external_identity_key \<Rightarrow> iam_principal_info option" where
  "sqlite_bound db k = Option.bind (identity_owner db k) (sqlite_at db)"

lemma linking_context_Inr: "linking_context p a = Inr who \<Longrightarrow> pi_status p = Active \<and> ap_principal_id who = pi_id p"
  by (auto simp: linking_context_def split: if_splits)

lemma option_eqI_Some: "(\<And>s. x = Some s \<longleftrightarrow> y = Some s) \<Longrightarrow> x = y"
  by (cases x; cases y) auto

lemma key_tuple_inject: "key_tuple k = key_tuple k' \<longleftrightarrow> k = k'"
  by (cases k; cases k') (simp add: key_tuple_def)

lemma identity_owner_Some:
  assumes "valid_db db"
  shows "identity_owner db k = Some n \<longleftrightarrow>
    (\<exists>r \<in> set (db_identities db). row_has_key k r \<and> ti_principal_id r = n)"
proof -
  have "distinct (map fst (map (\<lambda>r. (identity_key_of_row r, ti_principal_id r)) (db_identities db)))"
    using distinct_identities [OF assms] by (simp add: comp_def)
  then show ?thesis
    unfolding identity_owner_map_of by (auto simp: map_of_eq_Some_iff comp_def row_has_key_iff image_iff eq_commute [of "key_tuple k"])
qed

lemma owner_exists:
  assumes "readable_db db" "identity_owner db k = Some n"
  shows "\<exists>q. sqlite_at db n = Some q \<and> pi_id q = n"
proof -
  have "n \<in> tp_id ` set (db_principals db)"
    using assms by (auto simp: readable_db_def valid_db_def identity_owner_Some)
  then show ?thesis using readable_rows(2) [OF assms(1)] by (fastforce simp: sqlite_at_Some [OF assms(1)])
qed

lemma sqlite_bound_Some:
  assumes "readable_db db"
  shows "sqlite_bound db k = Some q \<longleftrightarrow> identity_owner db k = Some (pi_id q) \<and> sqlite_at db (pi_id q) = Some q"
  using owner_exists [OF assms, of k] sqlite_dir.at_id [OF assms]
  by (auto simp: sqlite_bound_def split: Option.bind_splits)

lemma sqlite_bound_None:
  assumes "readable_db db"
  shows "sqlite_bound db k = None \<longleftrightarrow> identity_owner db k = None"
  using owner_exists [OF assms, of k] by (auto simp: sqlite_bound_def split: Option.bind_splits)

lemma sqlite_find_bound:
  assumes "readable_db db"
  shows "find_principal_by_identity db k = Inr (sqlite_bound db k)"
proof -
  have "sql_find_by_identity k db = Option.bind (identity_owner db k) (\<lambda>i. sql_find_principal i db)"
    by (cases "find (row_has_key k) (db_identities db)") (simp_all add: sql_find_by_identity_def identity_owner_def)
  then show ?thesis
    using principal_get_readable [OF assms]
    by (auto simp: find_principal_by_identity_def principal_find_by_identity_def principal_get_def sqlite_bound_def
      split: Option.bind_splits option.splits)
qed

lemma key_of_row:
  "external_identity_key_of i = Inr k \<Longrightarrow> row_has_key k (identity_row_of n i) \<and> ti_principal_id (identity_row_of n i) = n"
  by (auto simp: external_identity_key_of_def external_identity_key_new_Inr row_has_key_def identity_row_of_def)

lemma owner_after_insert:
  assumes "external_identity_key_of i = Inr k" "db_identities db' = db_identities db @ [identity_row_of n i]"
    and "\<forall>r \<in> set (db_identities db). \<not> same_key (identity_row_of n i) r"
  shows "identity_owner db k = None" "identity_owner db' = (identity_owner db)(k \<mapsto> n)"
proof -
  have key: "key_tuple k = identity_key_of_row (identity_row_of n i)" "ti_principal_id (identity_row_of n i) = n"
    using key_of_row [OF assms(1)] by (auto simp: row_has_key_iff)
  show none: "identity_owner db k = None"
    using assms(3) by (force simp: identity_owner_map_of key same_key_iff map_of_eq_None_iff)
  have "identity_owner db' k' = ((identity_owner db)(k \<mapsto> n)) k'" for k'
  proof (cases "k' = k")
    case False
    then have "key_tuple k' \<noteq> identity_key_of_row (identity_row_of n i)" using key_tuple_inject key(1) by metis
    with False show ?thesis using assms(2) by (simp add: identity_owner_map_of map_add_def split: option.splits)
  qed (use none key in \<open>simp add: identity_owner_map_of assms(2) map_add_def split: option.splits\<close>)
  then show "identity_owner db' = (identity_owner db)(k \<mapsto> n)" by blast
qed

lemma sqlite_create_bound:
  assumes "readable_db db" "external_identity_key_of i = Inr k" "create_principal_and_bind db p i = (r, db')"
  shows "readable_db db' \<and> (case r of Inl e \<Rightarrow> db' = db
    | Inr q \<Rightarrow> q = p \<and> sqlite_bound db k = None \<and> sqlite_bound db' = (sqlite_bound db)(k \<mapsto> p) \<and>
        (\<forall>k' q'. sqlite_bound db k' = Some q' \<longrightarrow> pi_id q' \<noteq> pi_id p))"
proof (cases r)
  case (Inl e)
  with assms create_principal_and_bind_Inl [of db p i e db'] show ?thesis by simp
next
  case (Inr q)
  have c: "principal_checks (principal_to_row p)" "pi_id p \<notin> tp_id ` set (db_principals db)"
    "\<forall>r \<in> set (db_identities db). \<not> same_key (identity_row_of (pi_id p) i) r" "q = p"
    "db' = db\<lparr>db_principals := db_principals db @ [principal_to_row p],
       db_identities := db_identities db @ [identity_row_of (pi_id p) i]\<rparr>"
    using assms(3) Inr by (auto simp: create_principal_and_bind_Inr)
  have "valid_db db'" using principal_operations_valid [of db] assms by (metis readable_db_def snd_conv)
  then have ok: "readable_db db'" using assms(1) c(1) by (auto simp: readable_db_def c(5) principal_to_row_def)
  have "find f (rs @ [x]) = (case find f rs of None \<Rightarrow> if f x then Some x else None | Some y \<Rightarrow> Some y)"
    for f rs and x :: principal_row by (induction rs) auto
  moreover have "sqlite_at db (pi_id p) = None"
    using c(2) by (auto simp: sqlite_at_def sql_find_principal_def find_None_iff image_iff)
  ultimately have at: "sqlite_at db' = (sqlite_at db)(pi_id p \<mapsto> p)"
    by (auto simp: fun_eq_iff sqlite_at_def sql_find_principal_def c(5) split: option.splits)
  have "db_identities db' = db_identities db @ [identity_row_of (pi_id p) i]" by (simp add: c(5))
  note owner = owner_after_insert [OF assms(2) this c(3)]
  have fresh: "identity_owner db k' \<noteq> Some (pi_id p)" for k'
    using owner_exists [OF assms(1), of k' "pi_id p"] \<open>sqlite_at db (pi_id p) = None\<close> by auto
  have "sqlite_bound db' k' = ((sqlite_bound db)(k \<mapsto> p)) k'" for k'
    using fresh [of k'] by (auto simp: sqlite_bound_def owner at split: Option.bind_splits)
  moreover have "pi_id q' \<noteq> pi_id p" if "sqlite_bound db k' = Some q'" for k' q'
    using that fresh by (auto simp: sqlite_bound_Some [OF assms(1)])
  ultimately show ?thesis using ok Inr c(4) owner(1) by (auto simp: sqlite_bound_None [OF assms(1)])
qed

lemma sqlite_bind_bound:
  assumes "readable_db db" "external_identity_key_of i = Inr k" "bind_identity db n i = (r, db')"
  shows "readable_db db' \<and> (case r of Inl e \<Rightarrow> db' = db
    | Inr q \<Rightarrow> pi_id q = n \<and> sqlite_bound db k = None \<and> sqlite_bound db' = (sqlite_bound db)(k \<mapsto> q))"
proof (cases r)
  case (Inl e)
  with assms bind_identity_Inl [of db n i e db'] show ?thesis by simp
next
  case (Inr q)
  have q: "sqlite_at db n = Some q" and ins: "\<forall>r \<in> set (db_identities db). \<not> same_key (identity_row_of n i) r"
    "db' = db\<lparr>db_identities := db_identities db @ [identity_row_of n i]\<rparr>"
    using assms Inr by (auto simp: bind_identity_Inr principal_get_readable result_simps)
  have "valid_db db'" using principal_operations_valid [of db] assms by (metis readable_db_def snd_conv)
  then have ok: "readable_db db'" using assms(1) by (auto simp: readable_db_def ins(2))
  have "db_identities db' = db_identities db @ [identity_row_of n i]" by (simp add: ins(2))
  note owner = owner_after_insert [OF assms(2) this ins(1)]
  have at: "sqlite_at db' = sqlite_at db" by (simp add: fun_eq_iff sqlite_at_def sql_find_principal_def ins(2))
  have "sqlite_bound db' = (sqlite_bound db)(k \<mapsto> q)"
    using q by (simp add: fun_eq_iff sqlite_bound_def owner at)
  then show ?thesis
    using ok Inr q sqlite_dir.at_id [OF assms(1)] owner(1) by (auto simp: sqlite_bound_None [OF assms(1)])
qed

lemma sqlite_has_provider:
  assumes "readable_db db"
  shows "principal_has_provider db n provider \<longleftrightarrow>
    (\<exists>k q. ek_provider k = provider \<and> sqlite_bound db k = Some q \<and> pi_id q = n)"
proof
  assume "principal_has_provider db n provider"
  then obtain r where r: "r \<in> set (db_identities db)" "ti_principal_id r = n" "ti_provider r = provider"
    by (auto simp: principal_has_provider_def list_ex_iff)
  let ?k = "\<lparr>ek_provider = ti_provider r, ek_issuer = ti_issuer r, ek_subject = ti_subject r\<rparr>"
  have "row_has_key ?k r" by (simp add: row_has_key_def)
  then have "identity_owner db ?k = Some n" using assms r by (auto simp: readable_db_def identity_owner_Some)
  from this owner_exists [OF assms this] r(3)
  show "\<exists>k q. ek_provider k = provider \<and> sqlite_bound db k = Some q \<and> pi_id q = n"
    by (intro exI [of _ ?k]) (auto simp: sqlite_bound_Some [OF assms])
next
  assume "\<exists>k q. ek_provider k = provider \<and> sqlite_bound db k = Some q \<and> pi_id q = n"
  then show "principal_has_provider db n provider"
    using assms by (auto simp: sqlite_bound_Some principal_has_provider_def list_ex_iff readable_db_def
      identity_owner_Some row_has_key_def)
qed

lemma sqlite_rollback_bound:
  assumes "readable_db db" "rollback_identity_binding db n k = (r, db')"
  shows "readable_db db' \<and> (case r of Inl e \<Rightarrow> db' = db
    | Inr _ \<Rightarrow> sqlite_bound db' = (sqlite_bound db)(k :=
        (case sqlite_bound db k of Some q \<Rightarrow> if pi_id q = n then None else Some q | None \<Rightarrow> None)))"
proof (cases r)
  case (Inl e)
  with assms show ?thesis by (auto simp: rollback_identity_binding_def identity_transaction_cases)
next
  case (Inr u)
  have valid: "valid_db db'" using rollback_valid [of db n k] assms by (simp add: readable_db_def)
  let ?keep = "\<lambda>r. \<not> (ti_principal_id r = n \<and> row_has_key k r)"
  let ?ids = "filter ?keep (db_identities db)"
  have db': "db' = db\<lparr>db_identities := ?ids\<rparr> \<or>
      n \<notin> ti_principal_id ` set ?ids \<and>
      db' = db\<lparr>db_identities := filter (\<lambda>r. ti_principal_id r \<noteq> n) ?ids, db_principals := filter (\<lambda>r. tp_id r \<noteq> n) (db_principals db)\<rparr>"
    using assms(2) Inr
    by (auto simp: rollback_identity_binding_def identity_transaction_cases Let_def result_simps sql_delete_principal_def
      split: if_splits)
  have ok: "readable_db db'" using assms(1) valid db' by (auto simp: readable_db_def)
  have ids: "set (db_identities db') = set ?ids" using db' by auto
  have ps: "set (db_principals db') = {r \<in> set (db_principals db). n \<notin> ti_principal_id ` set ?ids \<longrightarrow> tp_id r \<noteq> n} \<or>
      set (db_principals db') = set (db_principals db)" using db' by auto
  have owner: "identity_owner db' k' = Some m \<longleftrightarrow> identity_owner db k' = Some m \<and> \<not> (k' = k \<and> m = n)" for k' m
  proof -
    have "row_has_key k r \<longleftrightarrow> k' = k" if "row_has_key k' r" for r
      using that key_tuple_inject by (auto simp: row_has_key_iff)
    then show ?thesis
      using assms(1) unfolding identity_owner_Some [OF valid] ids by (auto simp: readable_db_def identity_owner_Some)
  qed
  have at: "sqlite_at db' m = sqlite_at db m" if "identity_owner db' k' = Some m" for k' m
  proof -
    have "m \<in> ti_principal_id ` set ?ids" using that unfolding identity_owner_Some [OF valid] ids by blast
    then have "r \<in> set (db_principals db') \<longleftrightarrow> r \<in> set (db_principals db)" if "tp_id r = m" for r
      using ps that by auto
    then have "sqlite_at db' m = Some q \<longleftrightarrow> sqlite_at db m = Some q" for q
      using sqlite_at_Some [OF ok] sqlite_at_Some [OF assms(1)] by metis
    then show ?thesis by (metis not_None_eq)
  qed
  have "sqlite_bound db' k' = Some q \<longleftrightarrow> sqlite_bound db k' = Some q \<and> \<not> (k' = k \<and> pi_id q = n)" for k' q
    unfolding sqlite_bound_Some [OF ok] sqlite_bound_Some [OF assms(1)] by (metis owner at)
  then have "sqlite_bound db' k' = Some q \<longleftrightarrow> ((sqlite_bound db)(k :=
      (case sqlite_bound db k of Some q \<Rightarrow> if pi_id q = n then None else Some q | None \<Rightarrow> None))) k' = Some q" for k' q
    by (auto split: option.splits)
  then have "sqlite_bound db' = (sqlite_bound db)(k :=
      (case sqlite_bound db k of Some q \<Rightarrow> if pi_id q = n then None else Some q | None \<Rightarrow> None))"
    by (metis (no_types, lifting) not_None_eq ext)
  then show ?thesis using ok Inr by auto
qed

interpretation sqlite_link: identity_bindings sqlite_identity_repository readable_db sqlite_bound
  by unfold_locales (auto simp: sqlite_identity_repository_def sqlite_find_bound sqlite_has_provider
    dest: sqlite_create_bound sqlite_bind_bound sqlite_rollback_bound)

lemma canonical_sql_trim: "canonical_id v \<Longrightarrow> sql_trim v \<noteq> []"
  by (rule trim_nonblank_sql_trim) (simp add: canonical_id_def)

lemma new_principal_checks:
  assumes "external_identity_key_of i = Inr k"
  shows "principal_checks (principal_to_row (new_principal b random i kind))" "identity_checks (identity_row_of n i)"
proof -
  let ?p = "new_principal b random i kind"
  have can: "canonical_id (ei_provider i)" "canonical_id (ei_issuer i)" "canonical_id (ei_subject i)"
    using assms by (auto simp: external_identity_key_of_def external_identity_key_new_Inr)
  then show "identity_checks (identity_row_of n i)" by (simp add: identity_checks_def identity_row_of_def canonical_sql_trim)
  have "sql_trim (pi_display_name ?p) \<noteq> []"
    using canonical_sql_trim [OF can(3)] by (auto simp: new_principal_def trim_nonblank_sql_trim split: option.splits)
  moreover have "sql_trim (pi_id ?p) \<noteq> []" by (auto simp: sql_trim_eq_Nil new_principal_def)
  ultimately show "principal_checks (principal_to_row ?p)"
    by (cases kind) (simp_all add: principal_checks_def principal_to_row_def new_principal_def)
qed

lemma first_login_creates:
  assumes db: "readable_db db" and s: "als_repository s = sqlite_identity_repository"
    and k: "external_identity_key_of (res_external_identity a) = Inr k"
    and new: "sqlite_bound db k = None" "may_create (als_policy s) (ei_provider (res_external_identity a))"
    and fresh: "sqlite_at db (''P_'' @ als_b64_encode s random) = None"
  shows "\<exists>ctx db'. resolve_login s db a kind random = (Inr ctx, db')"
proof -
  let ?i = "res_external_identity a"
  let ?p = "new_principal (als_b64_encode s) random ?i kind"
  have "pi_id ?p \<notin> set (map tp_id (db_principals db))"
    using fresh by (auto simp: sqlite_at_def sql_find_principal_def find_None_iff new_principal_def)
  moreover have "\<forall>r \<in> set (db_identities db). \<not> same_key (identity_row_of (pi_id ?p) ?i) r"
    using new(1) key_of_row [OF k, of "pi_id ?p"]
    by (force simp: sqlite_bound_None [OF db] identity_owner_map_of map_of_eq_None_iff same_key_iff row_has_key_iff)
  ultimately obtain db' where "create_principal_and_bind db ?p ?i = (Inr ?p, db')"
    using new_principal_checks [OF k] create_principal_and_bind_Inr [of db ?p ?i ?p] by blast
  then show ?thesis
    using s k new sqlite_find_bound [OF db, of k]
    by (simp add: resolve_login_def sqlite_identity_repository_def linking_context_def new_principal_def)
qed

section \<open>An example service\<close>

definition sample_linking :: "database account_linking_service" where
  "sample_linking = \<lparr>als_policy = \<lparr>al_strategy = Explicit, al_authoritative_providers = [''corporate-dsp''],
       al_allow_link = [(''corporate-dsp'', [''github'', ''wechat''])]\<rparr>,
     als_repository = sqlite_identity_repository, als_b64_encode = (\<lambda>x. x)\<rparr>"

definition corporate_login :: authentication_result where
  "corporate_login = authentication_result_new \<lparr>ei_provider = ''corporate-dsp'', ei_issuer = ''https://dsp'',
     ei_subject = ''EMP00123'', ei_claims = []\<rparr> [''test''] None 0"

definition github_login :: authentication_result where
  "github_login = authentication_result_new \<lparr>ei_provider = ''github'', ei_issuer = ''https://github'',
     ei_subject = ''987654'', ei_claims = []\<rparr> [''test''] None 0"

definition corporate_db :: database where
  "corporate_db = snd (resolve_login sample_linking empty_db corporate_login User ''r1'')"

definition corporate_ctx :: authenticated_principal_context where
  "corporate_ctx = \<lparr>ap_principal_id = ''P_r1'', ap_kind = User, ap_stable_group_ids = [], ap_trusted_claims = Map.empty,
     ap_acr = None, ap_amr = [''test'']\<rparr>"

lemma sample_linking_repository: "als_repository sample_linking = sqlite_identity_repository"
  by (simp add: sample_linking_def)

lemma empty_readable: "readable_db empty_db"
  by (simp add: readable_db_def valid_empty_db) (simp add: empty_db_def)

lemma sample_keys:
  "external_identity_key_of (res_external_identity corporate_login) =
     Inr \<lparr>ek_provider = ''corporate-dsp'', ek_issuer = ''https://dsp'', ek_subject = ''EMP00123''\<rparr>"
  "external_identity_key_of (res_external_identity github_login) =
     Inr \<lparr>ek_provider = ''github'', ek_issuer = ''https://github'', ek_subject = ''987654''\<rparr>"
  by code_simp+

lemma corporate_resolved: "resolve_login sample_linking empty_db corporate_login User ''r1'' = (Inr corporate_ctx, corporate_db)"
proof -
  have "sqlite_bound empty_db k = None" for k
    by (simp add: sqlite_bound_def identity_owner_def empty_db_def)
  moreover have "may_create (als_policy sample_linking) (ei_provider (res_external_identity corporate_login))"
    "sqlite_at empty_db (''P_'' @ als_b64_encode sample_linking ''r1'') = None" by code_simp+
  ultimately obtain ctx db' where r: "resolve_login sample_linking empty_db corporate_login User ''r1'' = (Inr ctx, db')"
    using first_login_creates [OF empty_readable sample_linking_repository sample_keys(1)] by blast
  then have "ctx = corporate_ctx"
    by (cases rule: sqlite_link.resolve_login_Inr [OF empty_readable sample_linking_repository r])
      (auto simp: \<open>\<And>k. sqlite_bound empty_db k = None\<close> linking_context_def new_principal_def corporate_ctx_def
        corporate_login_def authentication_result_new_def sample_linking_def)
  with r show ?thesis by (simp add: corporate_db_def)
qed

lemma corporate_readable: "readable_db corporate_db"
  using sqlite_link.login_binds [OF empty_readable sample_linking_repository corporate_resolved] by blast

section \<open>Properties\<close>

text \<open>
  Claim C10. One identity, one principal: once a login has resolved, every later login with the same
  external identity, after any logins and links in between, succeeds without a write and resolves to
  the same principal, with the authentication methods of the new proof.
\<close>

theorem login_is_stable:
  assumes "readable_db db" "als_repository s = sqlite_identity_repository"
    and "resolve_login s db a kind random = (Inr ctx, db')" "linking_steps s db' db''"
    and "external_identity_key_of (res_external_identity b) = external_identity_key_of (res_external_identity a)"
  shows "\<exists>ctx'. resolve_login s db'' b kind' random' = (Inr ctx', db'') \<and>
    ap_principal_id ctx' = ap_principal_id ctx \<and> ap_kind ctx' = ap_kind ctx \<and>
    ap_amr ctx' = res_amr b \<and> ap_acr ctx' = res_acr b"
  using assms by (rule sqlite_link.login_stable)

theorem login_is_stable_witness:
  "\<exists>ctx'. resolve_login sample_linking (snd (link_identity sample_linking corporate_db ''P_r1'' github_login))
       corporate_login Workload ''r2'' = (Inr ctx', snd (link_identity sample_linking corporate_db ''P_r1'' github_login)) \<and>
     ap_principal_id ctx' = ''P_r1''"
  using login_is_stable [OF empty_readable sample_linking_repository corporate_resolved
      linking_link [OF linking_refl] refl, of "''P_r1''" github_login Workload "''r2''"]
  by (auto simp: corporate_ctx_def)

text \<open>
  Accounts are created only where the policy allows it and never merged: an unbound identity
  is rejected without a write unless the strategy is first-login or its provider is authoritative;
  where creation is allowed it succeeds for a fresh identifier, and the new principal is none that
  another identity resolves to, whatever claims they share.
\<close>

theorem accounts_never_merge:
  assumes "readable_db db" "als_repository s = sqlite_identity_repository"
    and "external_identity_key_of (res_external_identity a) = Inr k" "sqlite_bound db k = None"
  shows "(\<not> may_create (als_policy s) (ei_provider (res_external_identity a)) \<longrightarrow>
      resolve_login s db a kind random = (Inl (AuthoritativeLoginRequired (ei_provider (res_external_identity a))), db)) \<and>
    (may_create (als_policy s) (ei_provider (res_external_identity a)) \<and>
      sqlite_at db (''P_'' @ als_b64_encode s random) = None \<longrightarrow>
      (\<exists>ctx db'. resolve_login s db a kind random = (Inr ctx, db') \<and> ap_kind ctx = kind \<and>
        (\<forall>k' q. sqlite_bound db k' = Some q \<longrightarrow> sqlite_bound db' k' = Some q \<and> pi_id q \<noteq> ap_principal_id ctx)))"
proof (intro conjI impI; (elim conjE)?)
  show "resolve_login s db a kind random = (Inl (AuthoritativeLoginRequired (ei_provider (res_external_identity a))), db)"
    if "\<not> may_create (als_policy s) (ei_provider (res_external_identity a))"
    using that assms sqlite_find_bound [OF assms(1), of k]
    by (simp add: resolve_login_def sqlite_identity_repository_def)
next
  assume "may_create (als_policy s) (ei_provider (res_external_identity a))"
    "sqlite_at db (''P_'' @ als_b64_encode s random) = None"
  then obtain ctx db' where r: "resolve_login s db a kind random = (Inr ctx, db')"
    using first_login_creates [OF assms] by blast
  from assms(1,2) r show "\<exists>ctx db'. resolve_login s db a kind random = (Inr ctx, db') \<and> ap_kind ctx = kind \<and>
      (\<forall>k' q. sqlite_bound db k' = Some q \<longrightarrow> sqlite_bound db' k' = Some q \<and> pi_id q \<noteq> ap_principal_id ctx)"
  proof (cases rule: sqlite_link.resolve_login_Inr)
    case (created k' p)
    then have "ap_principal_id ctx = pi_id p" "ap_kind ctx = kind"
      by (auto simp: linking_context_def new_principal_def split: if_splits)
    with created r show ?thesis by (intro exI [of _ ctx] exI [of _ db']) auto
  qed (use assms in auto)
qed

theorem accounts_never_merge_witness:
  "resolve_login sample_linking empty_db github_login User ''r1'' = (Inl (AuthoritativeLoginRequired ''github''), empty_db)"
proof -
  have "sqlite_bound empty_db k = None" for k
    by (simp add: sqlite_bound_def identity_owner_def empty_db_def)
  moreover have "\<not> may_create (als_policy sample_linking) (ei_provider (res_external_identity github_login))" by code_simp
  moreover have "ei_provider (res_external_identity github_login) = ''github''" by code_simp
  ultimately show ?thesis
    using accounts_never_merge [OF empty_readable sample_linking_repository sample_keys(2)] by metis
qed

text \<open>
  Claim C5. Explicit links are guarded: a link that succeeds, and any that writes at all, binds an
  identity no principal had to exactly the authenticated principal, and only when that principal
  already holds an identity of an authoritative provider for which the policy allows the new one;
  a later login with the linked identity resolves to that principal.
\<close>

theorem links_are_guarded:
  assumes "readable_db db" "als_repository s = sqlite_identity_repository"
    and "link_identity s db n a = (r, db')" "db' \<noteq> db \<or> (\<exists>ctx. r = Inr ctx)"
  shows "\<exists>k p k' q secondary. external_identity_key_of (res_external_identity a) = Inr k \<and>
    sqlite_bound db k = None \<and> sqlite_bound db' = (sqlite_bound db)(k \<mapsto> p) \<and> pi_id p = n \<and>
    (ek_provider k', secondary) \<in> set (al_allow_link (als_policy s)) \<and>
    ei_provider (res_external_identity a) \<in> set secondary \<and> sqlite_bound db k' = Some q \<and> pi_id q = n \<and>
    r = linking_context p a \<and> resolve_login s db' a kind random = (r, db')"
proof (rule sqlite_link.link_identity_bind [OF assms], goal_cases)
  case (1 k p authoritative secondary k' q)
  from sqlite_link.login_again [OF 1(2) assms(2) _ 1(1), of p kind random] 1
  show ?case by (metis fun_upd_same)
qed

theorem links_are_guarded_witness:
  "\<exists>ctx db'. link_identity sample_linking corporate_db ''P_r1'' github_login = (Inr ctx, db') \<and>
     resolve_login sample_linking db' github_login User ''r2'' = (Inr ctx, db')"
proof -
  have "isl (fst (link_identity sample_linking corporate_db ''P_r1'' github_login)) = False" by code_simp
  then obtain ctx db' where r: "link_identity sample_linking corporate_db ''P_r1'' github_login = (Inr ctx, db')"
    by (metis isl_def prod.collapse sum.exhaust)
  from links_are_guarded [OF corporate_readable sample_linking_repository r, of User "''r2''"] r show ?thesis by auto
qed

text \<open>
  Claim C37. A link that is rejected because the principal is disabled is not undone: the binding is committed before the
  status is checked, so the identity, which was not bound before, is bound to that principal although the caller is told
  that the link was rejected.
\<close>

theorem rejected_link_stays_bound:
  assumes "readable_db db" "als_repository s = sqlite_identity_repository"
    and "link_identity s db n a = (Inl (PrincipalDisabled m), db')"
  shows "m = n \<and> (\<exists>k p. external_identity_key_of (res_external_identity a) = Inr k \<and>
    sqlite_bound db k = None \<and> sqlite_bound db' k = Some p \<and> pi_id p = n \<and> pi_status p = Disabled)"
  using assms by (rule sqlite_link.link_rejected_disabled)

theorem rejected_link_stays_bound_witness:
  "\<exists>db db' k p. link_identity sample_linking db ''P_r1'' github_login = (Inl (PrincipalDisabled ''P_r1''), db') \<and>
     sqlite_bound db k = None \<and> sqlite_bound db' k = Some p"
proof -
  let ?db = "snd (principal_update_status corporate_db ''P_r1'' Disabled)"
  have db: "readable_db ?db" by (rule sqlite_dir.writes_ok(1) [unfolded sqlite_principal_repository_def, simplified, OF corporate_readable])
  have "case link_identity sample_linking ?db ''P_r1'' github_login of (Inl e, _) \<Rightarrow> e = PrincipalDisabled ''P_r1'' | (Inr _, _) \<Rightarrow> False"
    by code_simp
  then obtain db' where r: "link_identity sample_linking ?db ''P_r1'' github_login = (Inl (PrincipalDisabled ''P_r1''), db')"
    by (auto split: prod.splits sum.splits)
  from rejected_link_stays_bound [OF db sample_linking_repository r] r show ?thesis by blast
qed

end
