(* ===== verification/Policy_Store.thy ===== *)
theory Policy_Store
  imports Storage
begin

text \<open>
  The SQLite repository of the authorization catalog (\<open>common/src/storage/authz/role_sqlite.rs\<close>):
  \<open>load\<close> reads the tables into a policy document, \<open>replace\<close> rewrites them in one transaction. Shown
  here: when exactly a replacement is accepted, that a rejected one changes nothing, and that
  loading after a replacement returns the document up to the order of its entries and its
  revision, so that a restarted server takes the same decisions.
\<close>

section \<open>Row conversions\<close>

definition action_to_row :: "serde_lib \<Rightarrow> iam_action_info \<Rightarrow> action_row" where
  "action_to_row sd a = \<lparr>ta_identifier = act_identifier a, ta_description = act_description a,
     ta_route_matchers = matchers_to_value sd (act_route_matchers a)\<rparr>"

definition stored_action_try_into_model :: "serde_lib \<Rightarrow> action_row \<Rightarrow> (storage_error, iam_action_info) result" where
  "stored_action_try_into_model sd row =
     and_then (ok_or (Decode ''decode IAM action route matchers'')
         (matchers_from_value sd (ta_route_matchers row))) (\<lambda>matchers.
       Inr \<lparr>act_identifier = ta_identifier row, act_description = ta_description row,
            act_route_matchers = matchers\<rparr>)"

definition role_to_row :: "iam_role_info \<Rightarrow> role_row" where
  "role_to_row r = \<lparr>tr_id = role_id r, tr_name = role_name r, tr_description = role_description r\<rparr>"

definition role_binding_to_row :: "serde_lib \<Rightarrow> iam_role_binding_info \<Rightarrow> role_binding_row" where
  "role_binding_to_row sd b = \<lparr>tb_id = rb_id b, tb_principal_id = rb_principal_id b,
     tb_role_id = rb_role_id b, tb_effect = effect_as_str (rb_effect b),
     tb_resource_urn = rb_resource_urn b, tb_conditions = conditions_to_value sd (rb_conditions b)\<rparr>"

definition stored_binding_try_into_model ::
  "serde_lib \<Rightarrow> role_binding_row \<Rightarrow> (storage_error, iam_role_binding_info) result" where
  "stored_binding_try_into_model sd row =
     and_then (if tb_effect row = ''ALLOW'' then Inr Allow
               else if tb_effect row = ''DENY'' then Inr Deny
               else Inl (Failure (''unsupported IAM role binding effect `'' @ tb_effect row @ ''`''))) (\<lambda>eff.
     and_then (ok_or (Decode ''decode IAM role binding conditions'')
         (conditions_from_value sd (tb_conditions row))) (\<lambda>conditions.
       Inr \<lparr>rb_id = tb_id row, rb_principal_id = tb_principal_id row, rb_role_id = tb_role_id row,
            rb_effect = eff, rb_resource_urn = tb_resource_urn row, rb_conditions = conditions\<rparr>))"

section \<open>Reading\<close>

definition load_actions :: "serde_lib \<Rightarrow> database \<Rightarrow> (storage_error, iam_action_info list) result" where
  "load_actions sd db = traverse (stored_action_try_into_model sd) (sort_key ta_identifier (db_actions db))"

text \<open>\<open>iam_role r LEFT JOIN iam_role_action ra ON ra.role_id = r.id\<close>.\<close>

definition role_action_join :: "database \<Rightarrow> (role_row \<times> string option) list" where
  "role_action_join db =
     concat (map (\<lambda>r. case filter (\<lambda>(rid, a). rid = tr_id r) (db_role_actions db) of
         [] \<Rightarrow> [(r, None)]
       | ras \<Rightarrow> map (\<lambda>(rid, a). (r, Some a)) ras) (db_roles db))"

text \<open>
  The loop that collects the joined rows into roles; the list of roles is kept with its last
  element first.
\<close>

fun collect_roles :: "iam_role_info list \<Rightarrow> (role_row \<times> string option) list \<Rightarrow> iam_role_info list" where
  "collect_roles roles [] = rev roles"
| "collect_roles roles ((r, action) # records) =
     (let roles = (case roles of
            [] \<Rightarrow> [\<lparr>role_id = tr_id r, role_name = tr_name r, role_description = tr_description r, role_action_ids = []\<rparr>]
          | l # ls \<Rightarrow> if role_id l \<noteq> tr_id r
              then \<lparr>role_id = tr_id r, role_name = tr_name r, role_description = tr_description r, role_action_ids = []\<rparr> # l # ls
              else l # ls);
          roles = (case action of
            None \<Rightarrow> roles
          | Some identifier \<Rightarrow> (hd roles)\<lparr>role_action_ids := role_action_ids (hd roles) @ [identifier]\<rparr> # tl roles)
      in collect_roles roles records)"

definition load_roles :: "database \<Rightarrow> iam_role_info list" where
  "load_roles db = collect_roles [] (sort_key (\<lambda>(r, action). (tr_id r, action)) (role_action_join db))"

definition load_bindings :: "serde_lib \<Rightarrow> database \<Rightarrow> (storage_error, iam_role_binding_info list) result" where
  "load_bindings sd db = traverse (stored_binding_try_into_model sd) (sort_key tb_id (db_role_bindings db))"

definition sqlite_load :: "serde_lib \<Rightarrow> database \<Rightarrow> (storage_error, iam_policy_info) result" where
  "sqlite_load sd db =
     and_then (load_actions sd db) (\<lambda>actions.
     and_then (load_bindings sd db) (\<lambda>role_bindings.
       Inr \<lparr>pol_revision = 1, pol_actions = actions, pol_roles = load_roles db,
            pol_role_bindings = role_bindings\<rparr>))"

section \<open>Writing\<close>

definition insert_actions :: "serde_lib \<Rightarrow> iam_action_info list \<Rightarrow> database \<Rightarrow> (storage_error, database) result" where
  "insert_actions sd actions =
     try_fold (\<lambda>action db. map_err Database (sql_insert_action (action_to_row sd action) db)) actions"

definition insert_role :: "iam_role_info \<Rightarrow> database \<Rightarrow> (storage_error, database) result" where
  "insert_role role db =
     and_then (map_err Database (sql_insert_role (role_to_row role) db))
       (try_fold (\<lambda>identifier db. map_err Database (sql_insert_role_action (role_id role) identifier db))
         (role_action_ids role))"

definition insert_roles :: "iam_role_info list \<Rightarrow> database \<Rightarrow> (storage_error, database) result" where
  "insert_roles roles = try_fold insert_role roles"

definition insert_bindings ::
  "serde_lib \<Rightarrow> iam_role_binding_info list \<Rightarrow> database \<Rightarrow> (storage_error, database) result" where
  "insert_bindings sd bindings =
     try_fold (\<lambda>binding db. map_err Database (sql_insert_role_binding (role_binding_to_row sd binding) db)) bindings"

definition sqlite_replace ::
  "serde_lib \<Rightarrow> database \<Rightarrow> iam_policy_info \<Rightarrow> (storage_error, unit) result \<times> database" where
  "sqlite_replace sd db policy =
     in_transaction db
       (and_then (map_err Database (sql_delete_role_bindings db)) (\<lambda>db.
        and_then (map_err Database (sql_delete_role_actions db)) (\<lambda>db.
        and_then (map_err Database (sql_delete_roles db)) (\<lambda>db.
        and_then (map_err Database (sql_delete_actions db)) (\<lambda>db.
        and_then (insert_actions sd (pol_actions policy) db) (\<lambda>db.
        and_then (insert_roles (pol_roles policy) db) (\<lambda>db.
        and_then (insert_bindings sd (pol_role_bindings policy) db) (\<lambda>db. Inr ((), db)))))))))"

section \<open>Specification\<close>

text \<open>The documents the schema accepts.\<close>

definition storable_action :: "iam_action_info \<Rightarrow> bool" where
  "storable_action a \<longleftrightarrow> sql_trim (act_identifier a) \<noteq> []"

definition storable_role :: "string set \<Rightarrow> iam_role_info \<Rightarrow> bool" where
  "storable_role actions r \<longleftrightarrow> sql_trim (role_id r) \<noteq> [] \<and> sql_trim (role_name r) \<noteq> [] \<and>
     distinct (role_action_ids r) \<and> set (role_action_ids r) \<subseteq> actions"

definition storable_binding :: "string set \<Rightarrow> string set \<Rightarrow> iam_role_binding_info \<Rightarrow> bool" where
  "storable_binding principals roles b \<longleftrightarrow> sql_trim (rb_id b) \<noteq> [] \<and>
     like_urn (sql_trim (rb_resource_urn b)) \<and> rb_principal_id b \<in> principals \<and> rb_role_id b \<in> roles"

definition storable :: "database \<Rightarrow> iam_policy_info \<Rightarrow> bool" where
  "storable db p \<longleftrightarrow>
     distinct (map act_identifier (pol_actions p)) \<and> list_all storable_action (pol_actions p) \<and>
     distinct (map role_id (pol_roles p)) \<and> distinct (map role_name (pol_roles p)) \<and>
     list_all (storable_role (set (map act_identifier (pol_actions p)))) (pol_roles p) \<and>
     distinct (map rb_id (pol_role_bindings p)) \<and>
     list_all (storable_binding (set (map tp_id (db_principals db))) (set (map role_id (pol_roles p))))
       (pol_role_bindings p)"

text \<open>The tables after a replacement.\<close>

definition stored :: "serde_lib \<Rightarrow> database \<Rightarrow> iam_policy_info \<Rightarrow> database" where
  "stored sd db p = db\<lparr>db_actions := map (action_to_row sd) (pol_actions p),
     db_roles := map role_to_row (pol_roles p),
     db_role_actions := concat (map (\<lambda>r. map (Pair (role_id r)) (role_action_ids r)) (pol_roles p)),
     db_role_bindings := map (role_binding_to_row sd) (pol_role_bindings p)\<rparr>"

section \<open>Lemmas on writing\<close>

lemma to_row_simps [simp]:
  "ta_identifier (action_to_row sd a) = act_identifier a" "tr_id (role_to_row r) = role_id r"
  "tr_name (role_to_row r) = role_name r" "tr_description (role_to_row r) = role_description r"
  "tb_id (role_binding_to_row sd b) = rb_id b" "tb_principal_id (role_binding_to_row sd b) = rb_principal_id b"
  "tb_role_id (role_binding_to_row sd b) = rb_role_id b"
  "tb_effect (role_binding_to_row sd b) = effect_as_str (rb_effect b)"
  "tb_resource_urn (role_binding_to_row sd b) = rb_resource_urn b"
  by (simp_all add: action_to_row_def role_to_row_def role_binding_to_row_def)

lemma insert_actions_Inr:
  "insert_actions sd as db = Inr db' \<longleftrightarrow>
     distinct (map act_identifier as) \<and> list_all storable_action as \<and>
     set (map act_identifier as) \<inter> set (map ta_identifier (db_actions db)) = {} \<and>
     db' = db\<lparr>db_actions := db_actions db @ map (action_to_row sd) as\<rparr>"
proof (induction as arbitrary: db)
  case (Cons a as)
  then show ?case
    by (auto simp: insert_actions_def result_simps action_to_row_def storable_action_def)
qed (auto simp: insert_actions_def)

lemma insert_role_actions_Inr:
  "try_fold (\<lambda>identifier db. map_err Database (sql_insert_role_action rid identifier db)) ids db = Inr db' \<longleftrightarrow>
     distinct ids \<and> set ids \<subseteq> set (map ta_identifier (db_actions db)) \<and>
     (ids \<noteq> [] \<longrightarrow> rid \<in> set (map tr_id (db_roles db))) \<and>
     Pair rid ` set ids \<inter> set (db_role_actions db) = {} \<and>
     db' = db\<lparr>db_role_actions := db_role_actions db @ map (Pair rid) ids\<rparr>"
proof (induction ids arbitrary: db)
  case (Cons a ids)
  let ?f = "\<lambda>identifier db. map_err Database (sql_insert_role_action rid identifier db)"
  let ?db = "db\<lparr>db_role_actions := db_role_actions db @ [(rid, a)]\<rparr>"
  have "try_fold ?f (a # ids) db = Inr db' \<longleftrightarrow>
      (rid, a) \<notin> set (db_role_actions db) \<and> rid \<in> set (map tr_id (db_roles db)) \<and>
      a \<in> set (map ta_identifier (db_actions db)) \<and> try_fold ?f ids ?db = Inr db'"
    by (simp add: result_simps)
  also have "try_fold ?f ids ?db = Inr db' \<longleftrightarrow>
      distinct ids \<and> set ids \<subseteq> set (map ta_identifier (db_actions db)) \<and>
      (ids \<noteq> [] \<longrightarrow> rid \<in> set (map tr_id (db_roles db))) \<and>
      Pair rid ` set ids \<inter> (insert (rid, a) (set (db_role_actions db))) = {} \<and>
      db' = db\<lparr>db_role_actions := db_role_actions db @ map (Pair rid) (a # ids)\<rparr>"
    using Cons.IH [of ?db] by simp
  finally show ?case by (auto simp del: database.update_convs)
qed auto

lemma insert_role_Inr [result_simps]:
  assumes "fst ` set (db_role_actions db) \<subseteq> set (map tr_id (db_roles db))"
  shows "insert_role r db = Inr db' \<longleftrightarrow>
     storable_role (set (map ta_identifier (db_actions db))) r \<and>
     role_id r \<notin> set (map tr_id (db_roles db)) \<and> role_name r \<notin> set (map tr_name (db_roles db)) \<and>
     db' = db\<lparr>db_roles := db_roles db @ [role_to_row r],
       db_role_actions := db_role_actions db @ map (Pair (role_id r)) (role_action_ids r)\<rparr>"
proof -
  let ?db = "db\<lparr>db_roles := db_roles db @ [role_to_row r]\<rparr>"
  have "insert_role r db = Inr db' \<longleftrightarrow> sql_trim (role_id r) \<noteq> [] \<and> sql_trim (role_name r) \<noteq> [] \<and>
      role_id r \<notin> set (map tr_id (db_roles db)) \<and> role_name r \<notin> set (map tr_name (db_roles db)) \<and>
      try_fold (\<lambda>identifier db. map_err Database (sql_insert_role_action (role_id r) identifier db))
        (role_action_ids r) ?db = Inr db'"
    by (simp add: insert_role_def result_simps)
  moreover have "role_id r \<notin> set (map tr_id (db_roles db)) \<Longrightarrow>
      Pair (role_id r) ` set (role_action_ids r) \<inter> set (db_role_actions db) = {}"
    using assms by force
  ultimately show ?thesis
    unfolding insert_role_actions_Inr storable_role_def by (auto simp del: database.update_convs)
qed

lemma insert_roles_Inr:
  assumes "fst ` set (db_role_actions db) \<subseteq> set (map tr_id (db_roles db))"
  shows "insert_roles rs db = Inr db' \<longleftrightarrow>
     distinct (map role_id rs) \<and> distinct (map role_name rs) \<and>
     list_all (storable_role (set (map ta_identifier (db_actions db)))) rs \<and>
     set (map role_id rs) \<inter> set (map tr_id (db_roles db)) = {} \<and>
     set (map role_name rs) \<inter> set (map tr_name (db_roles db)) = {} \<and>
     db' = db\<lparr>db_roles := db_roles db @ map role_to_row rs,
       db_role_actions := db_role_actions db @ concat (map (\<lambda>r. map (Pair (role_id r)) (role_action_ids r)) rs)\<rparr>"
  using assms
proof (induction rs arbitrary: db)
  case (Cons r rs)
  let ?db = "db\<lparr>db_roles := db_roles db @ [role_to_row r],
       db_role_actions := db_role_actions db @ map (Pair (role_id r)) (role_action_ids r)\<rparr>"
  have inv: "fst ` set (db_role_actions ?db) \<subseteq> set (map tr_id (db_roles ?db))"
    using Cons.prems by (auto simp: role_to_row_def)
  have "insert_roles (r # rs) db = Inr db' \<longleftrightarrow>
      storable_role (set (map ta_identifier (db_actions db))) r \<and>
      role_id r \<notin> set (map tr_id (db_roles db)) \<and> role_name r \<notin> set (map tr_name (db_roles db)) \<and>
      insert_roles rs ?db = Inr db'"
    using insert_role_Inr [OF Cons.prems] by (auto simp: insert_roles_def result_simps)
  then show ?case unfolding Cons.IH [OF inv] by (auto simp: role_to_row_def)
qed (auto simp: insert_roles_def)

lemma insert_bindings_Inr:
  "insert_bindings sd bs db = Inr db' \<longleftrightarrow>
     distinct (map rb_id bs) \<and>
     list_all (storable_binding (set (map tp_id (db_principals db))) (set (map tr_id (db_roles db)))) bs \<and>
     set (map rb_id bs) \<inter> set (map tb_id (db_role_bindings db)) = {} \<and>
     db' = db\<lparr>db_role_bindings := db_role_bindings db @ map (role_binding_to_row sd) bs\<rparr>"
proof (induction bs arbitrary: db)
  case (Cons b bs)
  have "effect_as_str e \<in> {''ALLOW'', ''DENY''}" for e by (cases e) auto
  with Cons show ?case
    by (auto simp: insert_bindings_def result_simps role_binding_to_row_def storable_binding_def)
qed (auto simp: insert_bindings_def)

lemma sqlite_replace_Inr:
  "sqlite_replace sd db p = (Inr u, db') \<longleftrightarrow> storable db p \<and> db' = stored sd db p"
  unfolding sqlite_replace_def in_transaction_Inr storable_def stored_def
  by (simp add: result_simps sql_delete_role_bindings_def sql_delete_role_actions_def sql_delete_roles_def
    sql_delete_actions_def insert_actions_Inr insert_roles_Inr insert_bindings_Inr image_image comp_def) blast

lemma sqlite_replace_Inl: "sqlite_replace sd db p = (Inl e, db') \<Longrightarrow> db' = db"
  by (simp add: sqlite_replace_def in_transaction_Inl)

lemma sqlite_replace_cases:
  obtains (ok) "storable db p" "sqlite_replace sd db p = (Inr (), stored sd db p)"
  | (err) e where "\<not> storable db p" "sqlite_replace sd db p = (Inl e, db)"
proof (cases "fst (sqlite_replace sd db p)")
  case (Inl e)
  then have "sqlite_replace sd db p = (Inl e, db)" by (metis prod.collapse sqlite_replace_Inl)
  moreover from this have "\<not> storable db p" using sqlite_replace_Inr [of sd db p "()"] by auto
  ultimately show ?thesis by (rule err [rotated])
next
  case (Inr u)
  then have "sqlite_replace sd db p = (Inr (), snd (sqlite_replace sd db p))" by (simp add: prod_eq_iff)
  then show ?thesis using sqlite_replace_Inr ok by metis
qed

section \<open>Lemmas on reading\<close>

lemma sort_key_unique:
  assumes "distinct (map f xs)" "set xs = set ys" "distinct (map f ys)" "sorted (map f ys)"
  shows "sort_key f xs = ys"
proof (rule map_sorted_distinct_set_unique [where f = f])
  show "inj_on f (set (sort_key f xs) \<union> set ys)" using assms by (simp add: distinct_map)
  have "mset (map f (sort_key f xs)) = mset (map f xs)" by (metis mset_map mset_sort)
  then show "distinct (map f (sort_key f xs))" using assms(1) by (metis mset_eq_imp_distinct_iff)
qed (use assms in auto)

lemma sort_key_map: "sort_key f (map g xs) = map g (sort_key (f \<circ> g) xs)"
proof -
  have "insort_key f (g x) (map g ys) = map g (insort_key (f \<circ> g) x ys)" for x ys
    by (induction ys) auto
  then show ?thesis by (induction xs) (auto simp: sort_key_simps)
qed

lemma load_actions_stored:
  assumes "serde_roundtrip sd"
  shows "load_actions sd (stored sd db p) = Inr (sort_key act_identifier (pol_actions p))"
proof -
  have "load_actions sd (stored sd db p) =
      traverse (stored_action_try_into_model sd) (map (action_to_row sd) (sort_key act_identifier (pol_actions p)))"
    by (simp add: load_actions_def stored_def sort_key_map comp_def)
  also have "\<dots> = Inr (sort_key act_identifier (pol_actions p))"
    using assms by (simp add: traverse_eq_Inr list_all2_map1 list.rel_refl stored_action_try_into_model_def
      action_to_row_def serde_roundtrip_def)
  finally show ?thesis .
qed

lemma load_bindings_stored:
  assumes "serde_roundtrip sd"
  shows "load_bindings sd (stored sd db p) = Inr (sort_key rb_id (pol_role_bindings p))"
proof -
  have row: "stored_binding_try_into_model sd (role_binding_to_row sd b) = Inr b" for b
    using assms by (cases "rb_effect b")
      (simp_all add: stored_binding_try_into_model_def role_binding_to_row_def serde_roundtrip_def)
  have "load_bindings sd (stored sd db p) =
      traverse (stored_binding_try_into_model sd) (map (role_binding_to_row sd) (sort_key rb_id (pol_role_bindings p)))"
    by (simp add: load_bindings_def stored_def sort_key_map comp_def)
  also have "\<dots> = Inr (sort_key rb_id (pol_role_bindings p))"
    by (simp add: traverse_eq_Inr list_all2_map1 list.rel_refl row)
  finally show ?thesis .
qed

text \<open>The joined rows of one role, in the order of the query.\<close>

definition role_records :: "iam_role_info \<Rightarrow> (role_row \<times> string option) list" where
  "role_records r =
     (if role_action_ids r = [] then [(role_to_row r, None)]
      else map (\<lambda>a. (role_to_row r, Some a)) (role_action_ids r))"

lemma collect_roles_actions:
  "role_id l = tr_id r \<Longrightarrow>
   collect_roles (l # ls) (map (\<lambda>a. (r, Some a)) as @ records) =
   collect_roles (l\<lparr>role_action_ids := role_action_ids l @ as\<rparr> # ls) records"
  by (induction as arbitrary: l) auto

lemma collect_roles_records:
  assumes "ls \<noteq> [] \<Longrightarrow> role_id (hd ls) \<noteq> role_id r"
  shows "collect_roles ls (role_records r @ records) = collect_roles (r # ls) records"
proof (cases "role_action_ids r")
  case Nil
  with assms show ?thesis
    by (cases ls; cases r) (auto simp: role_records_def)
next
  case (Cons a as)
  let ?r = "\<lparr>role_id = role_id r, role_name = role_name r, role_description = role_description r, role_action_ids = [a]\<rparr>"
  have "collect_roles ls (role_records r @ records) =
      collect_roles (?r # ls) (map (\<lambda>a. (role_to_row r, Some a)) as @ records)"
    using assms Cons by (cases ls) (auto simp: role_records_def)
  also have "\<dots> = collect_roles (r # ls) records"
    using Cons by (subst collect_roles_actions) (cases r, auto)+
  finally show ?thesis .
qed

lemma collect_roles_concat:
  "distinct (map role_id (rev ls @ rs)) \<Longrightarrow>
   collect_roles ls (concat (map role_records rs)) = rev ls @ rs"
proof (induction rs arbitrary: ls)
  case (Cons r rs)
  have "collect_roles ls (role_records r @ concat (map role_records rs)) =
      collect_roles (r # ls) (concat (map role_records rs))"
    using Cons.prems by (intro collect_roles_records) (cases ls, auto)
  with Cons show ?case by simp
qed simp

text \<open>The roles that the tables hold, in table order.\<close>

definition roles_of_db :: "database \<Rightarrow> iam_role_info list" where
  "roles_of_db db = map (\<lambda>r. \<lparr>role_id = tr_id r, role_name = tr_name r, role_description = tr_description r,
     role_action_ids = map snd (filter (\<lambda>(rid, a). rid = tr_id r) (db_role_actions db))\<rparr>) (db_roles db)"

lemma role_action_join_eq: "role_action_join db = concat (map role_records (roles_of_db db))"
proof -
  have "(case xs of [] \<Rightarrow> [(r, None)] | ras \<Rightarrow> map (\<lambda>(rid, a). (r, Some a)) ras) =
      (if xs = [] then [(r, None)] else map (\<lambda>a. (r, Some a)) (map snd xs))"
    for r :: role_row and xs :: "(string \<times> string) list"
    by (cases xs) auto
  then show ?thesis
    unfolding role_action_join_def roles_of_db_def map_map
    by (intro arg_cong [of _ _ concat] map_cong refl) (simp add: role_records_def role_to_row_def)
qed

lemma roles_of_db_distinct:
  assumes "valid_db db"
  shows "distinct (map role_id (roles_of_db db))" "\<And>r. r \<in> set (roles_of_db db) \<Longrightarrow> distinct (role_action_ids r)"
proof -
  show "distinct (map role_id (roles_of_db db))"
    using assms by (simp add: roles_of_db_def valid_db_def comp_def)
  have "distinct (map snd (filter (\<lambda>(rid, a). rid = x) (db_role_actions db)))" for x
    using assms by (auto simp: valid_db_def distinct_map inj_on_def)
  then show "\<And>r. r \<in> set (roles_of_db db) \<Longrightarrow> distinct (role_action_ids r)"
    by (auto simp: roles_of_db_def)
qed

lemma roles_of_stored:
  assumes "distinct (map role_id (pol_roles p))"
  shows "roles_of_db (stored sd db p) = pol_roles p"
proof -
  have flt: "filter (\<lambda>(rid, a). rid = role_id r)
      (concat (map (\<lambda>r. map (Pair (role_id r)) (role_action_ids r)) rs)) =
      (if r \<in> set rs then map (Pair (role_id r)) (role_action_ids r) else [])"
    if "inj_on role_id (insert r (set rs))" "distinct rs" for r rs
    using that
  proof (induction rs)
    case (Cons s rs)
    then show ?case by (auto simp: filter_map comp_def inj_on_def filter_empty_conv split: if_splits)
  qed simp
  have "map snd (filter (\<lambda>(rid, a). rid = role_id r)
      (concat (map (\<lambda>r. map (Pair (role_id r)) (role_action_ids r)) (pol_roles p)))) =
      role_action_ids r" if "r \<in> set (pol_roles p)" for r
    using that assms flt [of r "pol_roles p"] by (simp add: distinct_map insert_absorb comp_def)
  then show ?thesis
    by (simp add: roles_of_db_def stored_def comp_def map_idI)
qed

lemma role_records_keys:
  "map (\<lambda>(r, action). (tr_id r, action)) (role_records r) =
     (if role_action_ids r = [] then [(role_id r, None)] else map (\<lambda>a. (role_id r, Some a)) (role_action_ids r))"
  by (simp add: role_records_def comp_def)

lemma role_records_key_set: "k \<in> set (map (\<lambda>(r, action). (tr_id r, action)) (role_records r)) \<Longrightarrow> fst k = role_id r"
  by (auto simp: role_records_keys split: if_splits)

lemma role_records_concat_keys:
  assumes "distinct (map role_id rs)" "\<And>r. r \<in> set rs \<Longrightarrow> distinct (role_action_ids r)"
  shows "distinct (map (\<lambda>(r, action). (tr_id r, action)) (concat (map role_records rs)))"
  using assms
proof (induction rs)
  case (Cons r rs)
  have "distinct (map (\<lambda>(r, action). (tr_id r, action)) (role_records r))"
    using Cons.prems(2) [of r] by (auto simp: role_records_keys distinct_map inj_on_def)
  moreover have "k \<notin> set (map (\<lambda>(r, action). (tr_id r, action)) (concat (map role_records rs)))"
    if "k \<in> set (map (\<lambda>(r, action). (tr_id r, action)) (role_records r))" for k
  proof
    assume "k \<in> set (map (\<lambda>(r, action). (tr_id r, action)) (concat (map role_records rs)))"
    then obtain s where "s \<in> set rs" "k \<in> set (map (\<lambda>(r, action). (tr_id r, action)) (role_records s))"
      by (simp only: set_map set_concat image_UN list.set_map) blast
    with role_records_key_set [OF that] role_records_key_set [of k s] Cons.prems(1) show False by force
  qed
  moreover have "distinct (map (\<lambda>(r, action). (tr_id r, action)) (concat (map role_records rs)))"
    using Cons by simp
  ultimately show ?case by (simp only: map_append concat.simps list.map distinct_append) blast
qed simp

lemma role_records_concat_sorted:
  assumes "sorted (map role_id rs)" "distinct (map role_id rs)" "\<And>r. r \<in> set rs \<Longrightarrow> sorted (role_action_ids r)"
  shows "sorted (map (\<lambda>(r, action). (tr_id r, action)) (concat (map role_records rs)))"
  using assms
proof (induction rs)
  case (Cons r rs)
  have "sorted (map (\<lambda>(r, action). (tr_id r, action)) (role_records r))"
    using Cons.prems(3) [of r] by (auto simp: role_records_keys sorted_map less_eq_prod_def)
  moreover have "k \<le> k'" if "k \<in> set (map (\<lambda>(r, action). (tr_id r, action)) (role_records r))"
    "s \<in> set rs" "k' \<in> set (map (\<lambda>(r, action). (tr_id r, action)) (role_records s))" for k k' s
    using role_records_key_set [OF that(1)] role_records_key_set [OF that(3)] that(2) Cons.prems(1,2)
    by (auto simp: less_eq_prod_def le_less)
  ultimately show ?case using Cons by (fastforce simp: sorted_append)
qed simp

lemma role_records_canonical: "set (role_records (canonical_role r)) = set (role_records r)"
proof -
  have "sort (role_action_ids r) = [] \<longleftrightarrow> role_action_ids r = []" by (metis set_empty set_sort)
  then show ?thesis by (simp add: role_records_def canonical_role_def role_to_row_def)
qed

lemma load_roles_eq:
  assumes "distinct (map role_id (roles_of_db db))" "\<And>r. r \<in> set (roles_of_db db) \<Longrightarrow> distinct (role_action_ids r)"
  shows "load_roles db = map canonical_role (sort_key role_id (roles_of_db db))"
proof -
  let ?rs = "map canonical_role (sort_key role_id (roles_of_db db))"
  have ids: "map role_id ?rs = map role_id (sort_key role_id (roles_of_db db))"
    by (simp add: canonical_role_def comp_def)
  moreover have "mset (map role_id (sort_key role_id (roles_of_db db))) = mset (map role_id (roles_of_db db))"
    by (metis mset_map mset_sort)
  ultimately have dist: "distinct (map role_id ?rs)" using assms(1) by (metis mset_eq_imp_distinct_iff)
  have "sort_key (\<lambda>(r, action). (tr_id r, action)) (concat (map role_records (roles_of_db db))) =
      concat (map role_records ?rs)"
  proof (rule sort_key_unique)
    show "set (concat (map role_records (roles_of_db db))) = set (concat (map role_records ?rs))"
      by (simp add: role_records_canonical)
    show "distinct (map (\<lambda>(r, action). (tr_id r, action)) (concat (map role_records ?rs)))"
      using dist assms(2) by (intro role_records_concat_keys) (auto simp: canonical_role_def)
    show "sorted (map (\<lambda>(r, action). (tr_id r, action)) (concat (map role_records ?rs)))"
      using dist by (intro role_records_concat_sorted) (simp_all only: ids sorted_sort_key, auto simp: canonical_role_def)
  qed (use assms role_records_concat_keys in auto)
  then show ?thesis
    using dist collect_roles_concat [of "[]" ?rs] by (simp add: load_roles_def role_action_join_eq)
qed

lemma sqlite_load_stored:
  assumes "serde_roundtrip sd" "storable db p"
  shows "sqlite_load sd (stored sd db p) = Inr (canonical p)"
proof -
  have "load_roles (stored sd db p) = pol_roles (canonical p)"
    using assms(2) load_roles_eq [of "stored sd db p"]
    by (simp add: roles_of_stored canonical_def storable_def list_all_iff storable_role_def)
  then show ?thesis
    by (simp add: sqlite_load_def load_actions_stored load_bindings_stored assms(1) canonical_def)
qed

lemma canonical_canonical: "canonical (canonical p) = canonical p"
proof -
  have "sort_key role_id (map canonical_role xs) = map canonical_role (sort_key role_id xs)" for xs
    by (simp add: sort_key_map canonical_role_def comp_def)
  then show ?thesis
    by (simp add: canonical_def canonical_role_def comp_def sort_key_id_if_sorted)
qed

lemma sqlite_load_canonical:
  assumes "valid_db db" "sqlite_load sd db = Inr p"
  shows "canonical p = p"
proof -
  from assms(2) obtain as bs where p: "p = \<lparr>pol_revision = 1, pol_actions = as, pol_roles = load_roles db, pol_role_bindings = bs\<rparr>"
    "load_actions sd db = Inr as" "load_bindings sd db = Inr bs"
    by (auto simp: sqlite_load_def result_simps)
  have "map act_identifier as = map ta_identifier (sort_key ta_identifier (db_actions db))"
    using p(2) unfolding load_actions_def traverse_eq_Inr
    by (induction rule: list_all2_induct) (auto simp: stored_action_try_into_model_def result_simps)
  then have as: "sort_key act_identifier as = as" by (simp add: sort_key_id_if_sorted)
  have "map rb_id bs = map tb_id (sort_key tb_id (db_role_bindings db))"
    using p(3) unfolding load_bindings_def traverse_eq_Inr
    by (induction rule: list_all2_induct) (auto simp: stored_binding_try_into_model_def result_simps)
  then have bs: "sort_key rb_id bs = bs" by (simp add: sort_key_id_if_sorted)
  have "canonical (p\<lparr>pol_roles := roles_of_db db\<rparr>) = p"
    using as bs load_roles_eq [OF roles_of_db_distinct [OF assms(1)]] by (simp add: p(1) canonical_def)
  then show ?thesis using canonical_canonical by metis
qed

section \<open>The SQLite catalog implements the repository interface\<close>

definition sqlite_policy_repository :: "serde_lib \<Rightarrow> database policy_repository" where
  "sqlite_policy_repository sd = \<lparr>repo_load = sqlite_load sd, repo_replace = sqlite_replace sd\<rparr>"

section \<open>A canonical document means the same\<close>

lemma set_canonical [simp]:
  "set (pol_actions (canonical p)) = set (pol_actions p)"
  "set (pol_roles (canonical p)) = canonical_role ` set (pol_roles p)"
  "set (pol_role_bindings (canonical p)) = set (pol_role_bindings p)"
  by (simp_all add: canonical_def)

lemma canonical_role_simps [simp]:
  "role_id (canonical_role r) = role_id r" "role_name (canonical_role r) = role_name r"
  "set (role_action_ids (canonical_role r)) = set (role_action_ids r)"
  by (simp_all add: canonical_role_def)

lemma document_binds_canonical: "document_binds net (canonical p) eff request \<longleftrightarrow> document_binds net p eff request"
  by (auto simp: document_binds_def)

lemma unique_ids_mset: "mset xs = mset ys \<Longrightarrow> unique_ids xs \<longleftrightarrow> unique_ids ys"
  by (auto simp: unique_ids_def list_all_iff dest: mset_eq_setD mset_eq_imp_distinct_iff)

lemma mset_map_sort_key: "mset (map f (sort_key k xs)) = mset (map f xs)"
  by (metis mset_map mset_sort)

lemma valid_policy_canonical: "valid_policy net (canonical p) \<longleftrightarrow> valid_policy net p"
proof -
  have "unique_ids (map act_identifier (pol_actions (canonical p))) \<longleftrightarrow> unique_ids (map act_identifier (pol_actions p))"
    "unique_ids (map role_id (pol_roles (canonical p))) \<longleftrightarrow> unique_ids (map role_id (pol_roles p))"
    "unique_ids (map rb_id (pol_role_bindings (canonical p))) \<longleftrightarrow> unique_ids (map rb_id (pol_role_bindings p))"
    by (rule unique_ids_mset, simp add: canonical_def comp_def mset_map_sort_key)+
  moreover have "mset (map rm_id (concat (map act_route_matchers (pol_actions (canonical p))))) =
      mset (map rm_id (concat (map act_route_matchers (pol_actions p))))"
    using mset_concat_map [of "sort_key act_identifier (pol_actions p)" "pol_actions p" act_route_matchers]
    by (simp add: canonical_def)
  note unique_ids_mset [OF this]
  ultimately show ?thesis
    by (auto simp: valid_policy_def list_all_iff valid_binding_def image_image)
qed

lemma compile_role_binding_canonical:
  assumes "distinct (map role_id roles)"
  shows "compile_role_binding net b (roles_by_id (map canonical_role (sort_key role_id roles))) =
    compile_role_binding net b (roles_by_id roles)"
proof -
  have "distinct (map role_id (sort_key role_id roles))"
    using assms by (metis mset_map_sort_key mset_eq_imp_distinct_iff)
  then have dist: "distinct (map role_id (map canonical_role (sort_key role_id roles)))" by (simp add: comp_def)
  have find: "roles_by_id (map canonical_role (sort_key role_id roles)) i = map_option canonical_role (roles_by_id roles i)" for i
  proof (cases "roles_by_id roles i")
    case None
    then have "i \<notin> role_id ` set roles" using roles_by_id_dom [of roles] by auto
    then have "roles_by_id (map canonical_role (sort_key role_id roles)) i = None"
      using roles_by_id_dom [of "map canonical_role (sort_key role_id roles)"] by (auto simp: image_image)
    with None show ?thesis by simp
  next
    case (Some r)
    with assms have "r \<in> set roles \<and> role_id r = i" by (simp add: roles_by_id_unique)
    then have "roles_by_id (map canonical_role (sort_key role_id roles)) i = Some (canonical_role r)"
      by (subst roles_by_id_unique [OF dist]) auto
    with Some show ?thesis by simp
  qed
  show ?thesis
    by (cases "roles_by_id roles (rb_role_id b)") (simp_all add: compile_role_binding_def find)
qed

lemma policy_compile_canonical_routes:
  assumes "policy_compile net p n = Inr cp" "policy_compile net (canonical p) m = Inr cp'"
  shows "mset (cp_routes cp') = mset (cp_routes cp)"
proof -
  have "mset (concat (map (\<lambda>action. map (Pair (act_identifier action)) (act_route_matchers action)) (pol_actions (canonical p)))) =
      mset (concat (map (\<lambda>action. map (Pair (act_identifier action)) (act_route_matchers action)) (pol_actions p)))"
    by (rule mset_concat_map) (simp add: canonical_def)
  with assms show ?thesis unfolding policy_compile_Inr by (metis (no_types, lifting) traverse_mset)
qed

lemma valid_policy_storable:
  assumes "valid_policy net p"
  shows "storable db p \<longleftrightarrow>
    distinct (map role_name (pol_roles p)) \<and>
    (\<forall>r \<in> set (pol_roles p). sql_trim (role_name r) \<noteq> [] \<and> distinct (role_action_ids r)) \<and>
    (\<forall>b \<in> set (pol_role_bindings p). rb_principal_id b \<in> set (map tp_id (db_principals db)))"
proof -
  have urn: "like_urn (sql_trim (rb_resource_urn b))" if "b \<in> set (pol_role_bindings p)" for b
  proof -
    from that assms obtain pat where "pattern_from_str (rb_resource_urn b) = Inr pat"
      by (auto simp: valid_policy_def valid_binding_def list_all_iff not_isl_iff)
    then have "\<exists>t. rb_resource_urn b = ''urn:iam:'' @ t"
      by (auto simp: pattern_from_str_iff pattern_to_string_def)
    then obtain t where t: "rb_resource_urn b = ''urn:iam:'' @ t" ..
    have "sql_trim (''urn:iam:'' @ t) = ''urn:iam:'' @ rev (dropWhile ((=) CHR '' '') (rev t))"
      by (simp add: sql_trim_def dropWhile_append)
    with t show ?thesis by (simp add: like_urn_def)
  qed
  with assms trim_nonblank_sql_trim show ?thesis
    by (auto simp: valid_policy_def storable_def list_all_iff unique_ids_def storable_action_def
      storable_role_def storable_binding_def valid_binding_def)
qed

lemma stored_valid_db:
  assumes "valid_db db" "storable db p"
  shows "valid_db (stored sd db p)"
proof -
  have "distinct (concat (map (\<lambda>r. map (Pair (role_id r)) (role_action_ids r)) rs))"
    if "distinct (map role_id rs)" "\<And>r. r \<in> set rs \<Longrightarrow> distinct (role_action_ids r)" for rs :: "iam_role_info list"
    using that by (induction rs) (auto simp: distinct_map inj_on_def)
  moreover from assms(2) have "a \<in> act_identifier ` set (pol_actions p)"
    if "r \<in> set (pol_roles p)" "a \<in> set (role_action_ids r)" for r a
    using that by (auto simp: storable_def list_all_iff storable_role_def)
  ultimately show ?thesis using assms
    by (auto simp: valid_db_def stored_def storable_def list_all_iff storable_role_def storable_binding_def comp_def image_image)
qed

text \<open>Under the documented behaviour of the JSON conversions, SQLite provides the interface.\<close>

locale serde =
  fixes sd :: serde_lib
  assumes roundtrip: "serde_roundtrip sd"

sublocale serde \<subseteq> store: policy_storage "sqlite_policy_repository sd" valid_db
proof unfold_locales
  fix d p u d'
  assume "repo_replace (sqlite_policy_repository sd) d p = (Inr u, d')"
  then show "repo_load (sqlite_policy_repository sd) d' = Inr (canonical p)"
    using roundtrip by (simp add: sqlite_policy_repository_def sqlite_replace_Inr sqlite_load_stored)
qed (auto simp: sqlite_policy_repository_def sqlite_replace_Inr stored_valid_db dest: sqlite_replace_Inl sqlite_load_canonical)

section \<open>An instance of the JSON conversions\<close>

text \<open>
  An encoding of the two column types, one array element per field, as an instance of the
  parameter that has the required property.
\<close>

definition strings_to_json :: "string list \<Rightarrow> json" where
  "strings_to_json ss = JArray (map JString ss)"

fun string_of_json :: "json \<Rightarrow> string option" where
  "string_of_json (JString s) = Some s"
| "string_of_json _ = None"

fun list_of_json :: "(json \<Rightarrow> 'a option) \<Rightarrow> json \<Rightarrow> 'a list option" where
  "list_of_json f (JArray js) = those (map f js)"
| "list_of_json f _ = None"

definition matcher_to_json :: "http_route_matcher \<Rightarrow> json" where
  "matcher_to_json m = JArray [JString (rm_id m), strings_to_json (rm_methods m), strings_to_json (rm_hosts m),
     JString (rm_path m), JString (rm_resource_urn m), strings_to_json (rm_parent_urns m)]"

fun matcher_of_json :: "json \<Rightarrow> http_route_matcher option" where
  "matcher_of_json (JArray [JString i, ms, hs, JString p, JString u, ps]) =
     (case (list_of_json string_of_json ms, list_of_json string_of_json hs, list_of_json string_of_json ps) of
        (Some ms, Some hs, Some ps) \<Rightarrow> Some \<lparr>rm_id = i, rm_methods = ms, rm_hosts = hs, rm_path = p,
           rm_resource_urn = u, rm_parent_urns = ps\<rparr>
      | _ \<Rightarrow> None)"
| "matcher_of_json _ = None"

fun optional_bool_to_json :: "bool option \<Rightarrow> json" where
  "optional_bool_to_json None = JNull"
| "optional_bool_to_json (Some b) = JBool b"

fun optional_bool_of_json :: "json \<Rightarrow> bool option option" where
  "optional_bool_of_json JNull = Some None"
| "optional_bool_of_json (JBool b) = Some (Some b)"
| "optional_bool_of_json _ = None"

definition conditions_to_json :: "authorization_condition_spec \<Rightarrow> json" where
  "conditions_to_json c =
     JArray [case cs_source_ip c of None \<Rightarrow> JNull
         | Some s \<Rightarrow> JArray [strings_to_json (sp_in_cidr s), strings_to_json (sp_not_in_cidr s)],
       strings_to_json (rc_methods (cs_request c)), optional_bool_to_json (rc_secure_transport (cs_request c)),
       optional_bool_to_json (sc_mfa (cs_subject c)),
       JObject (map (map_prod id JString) (sc_claims (cs_subject c)))]"

fun claim_of_json :: "string \<times> json \<Rightarrow> (string \<times> string) option" where
  "claim_of_json (k, v) = map_option (Pair k) (string_of_json v)"

fun source_ip_of_json :: "json \<Rightarrow> source_ip_condition_spec option option" where
  "source_ip_of_json JNull = Some None"
| "source_ip_of_json (JArray [a, b]) =
     (case (list_of_json string_of_json a, list_of_json string_of_json b) of
        (Some a, Some b) \<Rightarrow> Some (Some \<lparr>sp_in_cidr = a, sp_not_in_cidr = b\<rparr>) | _ \<Rightarrow> None)"
| "source_ip_of_json _ = None"

fun conditions_of_json :: "json \<Rightarrow> authorization_condition_spec option" where
  "conditions_of_json (JArray [ip, ms, secure, mfa, JObject claims]) =
     (case (source_ip_of_json ip, list_of_json string_of_json ms, optional_bool_of_json secure,
        optional_bool_of_json mfa, those (map claim_of_json claims)) of
        (Some ip, Some ms, Some secure, Some mfa, Some claims) \<Rightarrow>
           Some \<lparr>cs_source_ip = ip, cs_request = \<lparr>rc_methods = ms, rc_secure_transport = secure\<rparr>,
             cs_subject = \<lparr>sc_mfa = mfa, sc_claims = claims\<rparr>\<rparr>
      | _ \<Rightarrow> None)"
| "conditions_of_json _ = None"

definition object_serde :: serde_lib where
  "object_serde = \<lparr>matchers_to_value = (\<lambda>ms. JArray (map matcher_to_json ms)),
     matchers_from_value = list_of_json matcher_of_json,
     conditions_to_value = conditions_to_json, conditions_from_value = conditions_of_json\<rparr>"

lemma those_map_Some: "(\<And>x. x \<in> set xs \<Longrightarrow> f x = Some (g x)) \<Longrightarrow> those (map f xs) = Some (map g xs)"
  by (induction xs) auto

lemma list_of_strings_to_json: "list_of_json string_of_json (strings_to_json ss) = Some ss"
  using those_map_Some [of ss "string_of_json \<circ> JString" id] by (simp add: strings_to_json_def)

lemma optional_bool_of_to_json: "optional_bool_of_json (optional_bool_to_json b) = Some b"
  by (cases b) auto

lemma source_ip_of_to_json:
  "source_ip_of_json (case s of None \<Rightarrow> JNull
     | Some s \<Rightarrow> JArray [strings_to_json (sp_in_cidr s), strings_to_json (sp_not_in_cidr s)]) = Some s"
  by (cases s) (auto simp: list_of_strings_to_json)

lemma object_serde_roundtrip: "serde_roundtrip object_serde"
proof -
  have "list_of_json matcher_of_json (JArray (map matcher_to_json ms)) = Some ms" for ms
    using those_map_Some [of ms "matcher_of_json \<circ> matcher_to_json" id]
    by (simp add: matcher_to_json_def list_of_strings_to_json)
  moreover have claims: "those (map claim_of_json (map (map_prod id JString) cs)) = Some cs" for cs
    using those_map_Some [of cs "claim_of_json \<circ> map_prod id JString" id] by auto
  have "conditions_of_json (conditions_to_json c) = Some c" for c
    using claims [of "sc_claims (cs_subject c)"]
    by (simp add: conditions_to_json_def list_of_strings_to_json optional_bool_of_to_json source_ip_of_to_json)
  ultimately show ?thesis by (simp add: serde_roundtrip_def object_serde_def)
qed

interpretation sqlite: serde object_serde
  by unfold_locales (rule object_serde_roundtrip)

definition sample_db :: database where
  "sample_db = empty_db\<lparr>db_principals :=
     [\<lparr>tp_id = ''group:dev'', tp_kind = ''GROUP'', tp_display_name = ''Dev'', tp_status = ''ACTIVE'', tp_authorization_state = JObject []\<rparr>,
      \<lparr>tp_id = ''user:eve'', tp_kind = ''USER'', tp_display_name = ''Eve'', tp_status = ''ACTIVE'', tp_authorization_state = JObject []\<rparr>]\<rparr>"

lemma sample_storable: "storable sample_db sample_policy"
  by code_simp

lemma sample_db_valid: "valid_db sample_db"
  by (simp add: valid_db_def sample_db_def empty_db_def)

section \<open>Properties\<close>

text \<open>
  A catalog replacement is all or nothing: it succeeds exactly when the document
  satisfies the constraints of the schema, then the tables hold the document and the schema
  invariant, and otherwise the database is unchanged.
\<close>

theorem replace_all_or_nothing:
  assumes "valid_db db"
  shows "case sqlite_replace sd db p of
     (Inr u, db') \<Rightarrow> storable db p \<and> db' = stored sd db p \<and> valid_db db'
   | (Inl e, db') \<Rightarrow> \<not> storable db p \<and> db' = db"
  using assms stored_valid_db by (cases rule: sqlite_replace_cases [of db p sd]) auto

theorem replace_all_or_nothing_witness:
  "snd (sqlite_replace object_serde sample_db sample_policy) = stored object_serde sample_db sample_policy"
proof -
  from replace_all_or_nothing [OF sample_db_valid, where sd = object_serde and p = sample_policy] sample_storable
  show ?thesis by (auto split: prod.splits sum.splits)
qed

text \<open>
  A document accepted by the policy compiler can be stored exactly when its role names
  are unique and not blank, no role lists an action twice, and every binding names a stored
  principal: these are the constraints that only the database checks.
\<close>

theorem storage_only_constraints:
  assumes "valid_policy net p"
  shows "fst (sqlite_replace sd db p) = Inr () \<longleftrightarrow>
    distinct (map role_name (pol_roles p)) \<and>
    (\<forall>r \<in> set (pol_roles p). sql_trim (role_name r) \<noteq> [] \<and> distinct (role_action_ids r)) \<and>
    (\<forall>b \<in> set (pol_role_bindings p). rb_principal_id b \<in> set (map tp_id (db_principals db)))"
  unfolding valid_policy_storable [OF assms, symmetric]
  by (cases rule: sqlite_replace_cases [of db p sd]) auto

theorem storage_only_constraints_witness:
  "fst (sqlite_replace object_serde empty_db sample_policy) \<noteq> Inr ()"
  using storage_only_constraints [OF sample_policy_valid, of object_serde empty_db]
  by (auto simp: sample_policy_def empty_db_def)

text \<open>
  Loading after a successful replacement returns the stored document: the same actions,
  roles and bindings in the order of their identifiers, with the revision reset to 1.
\<close>

theorem replace_load_roundtrip:
  assumes "serde_roundtrip sd" and "sqlite_replace sd db p = (Inr (), db')"
  shows "sqlite_load sd db' = Inr (canonical p)"
  using assms by (simp add: sqlite_replace_Inr sqlite_load_stored)

theorem replace_load_roundtrip_witness:
  "sqlite_load object_serde (stored object_serde sample_db sample_policy) = Inr (canonical sample_policy)"
proof (rule replace_load_roundtrip [OF object_serde_roundtrip])
  show "sqlite_replace object_serde sample_db sample_policy = (Inr (), stored object_serde sample_db sample_policy)"
    using sample_storable by (simp add: sqlite_replace_Inr)
qed

text \<open>
  Claim C22. A server restarted from the database behaves as the one that wrote it: the reloaded
  document compiles, allows the same requests and resolves the same HTTP routes.
\<close>

theorem restart_preserves_behaviour:
  assumes "serde_roundtrip sd" and "policy_compile net p n = Inr cp"
    and "sqlite_replace sd db p = (Inr (), db')"
  shows "\<exists>q cp'. sqlite_load sd db' = Inr q \<and> runtime_new net q = Inr cp' \<and>
    (\<forall>request. ad_allowed (policy_authorize net cp' request) = ad_allowed (policy_authorize net cp request)) \<and>
    (\<forall>m h path claims r. resolve_http_route cp' m h path claims = Inr r \<longleftrightarrow> resolve_http_route cp m h path claims = Inr r)"
proof -
  have load: "sqlite_load sd db' = Inr (canonical p)"
    using assms by (simp add: sqlite_replace_Inr sqlite_load_stored)
  from assms(2) have "valid_policy net (canonical p)" by (metis policy_compile_ok valid_policy_canonical)
  then obtain cp' where cp': "policy_compile net (canonical p) 1 = Inr cp'" by (metis policy_compile_ok)
  then have "runtime_new net (canonical p) = Inr cp'" by (simp add: runtime_new_def canonical_def)
  moreover have "ad_allowed (policy_authorize net cp' request) = ad_allowed (policy_authorize net cp request)" for request
    by (simp add: policy_authorize_def evaluator_authorize_allowed policy_compile_binds [OF cp']
      policy_compile_binds [OF assms(2)] document_binds_canonical)
  moreover have "resolve_http_route cp' m h path claims = Inr r \<longleftrightarrow> resolve_http_route cp m h path claims = Inr r"
    for m h path claims r
    unfolding resolve_http_route_def
    by (rule resolve_route_perm [OF policy_compile_canonical_routes [OF assms(2) cp']])
  ultimately show ?thesis using load by blast
qed

theorem restart_preserves_behaviour_witness:
  "\<exists>cp db' q cp'. policy_compile office_net sample_policy 1 = Inr cp \<and>
     sqlite_replace object_serde sample_db sample_policy = (Inr (), db') \<and>
     sqlite_load object_serde db' = Inr q \<and> runtime_new office_net q = Inr cp'"
proof -
  from sample_policy_valid obtain cp where cp: "policy_compile office_net sample_policy 1 = Inr cp"
    unfolding policy_compile_ok [symmetric, where n = 1] by blast
  have rep: "sqlite_replace object_serde sample_db sample_policy = (Inr (), stored object_serde sample_db sample_policy)"
    using sample_storable by (simp add: sqlite_replace_Inr)
  from restart_preserves_behaviour [OF object_serde_roundtrip cp rep] cp rep show ?thesis by blast
qed

end
