(* ===== verification/Policy_Handler.thy ===== *)
theory Policy_Handler
  imports Policy_Store Principal_Store
begin

text \<open>
  The catalog handler (\<open>authz/src/handler/policy/policy.rs\<close>): start-up, the read operations, the
  authorization endpoint, and the mutations of actions, roles and bindings with their
  optimistic revision check. The state is the storage and the published compiled policy. The
  write lock makes every mutation one step; the steps of other clients of the storage may come in
  between. Shown here: the published policy is always the compilation of what is stored, a
  rejected mutation publishes nothing, a successful one advances the revision by exactly one and
  invalidates every other writer with the same expected revision.
\<close>

section \<open>Data\<close>

datatype policy_handler_error =
    AlreadyExists string string
  | NotFound string string
  | IdMismatch string string string
  | PrincipalDisabled string
  | Referenced string string string
  | RevisionConflict u64 u64
  | InvalidRequest string
  | AuthorizationPrincipalInactive string
  | InvalidPolicy policy_error
  | StorageError storage_error

record ('d, 'n) handler_state =
  hs_storage :: 'd
  hs_current :: "'n compiled_policy"

text \<open>The collaborators of the handler: the two repositories and the network library.\<close>

record ('d, 'n) policy_handler =
  ph_repository :: "'d policy_repository"
  ph_principals :: "'d principal_repository"
  ph_net :: "'n ipnet_lib"

record 'a resource_collection =
  rc_policy_revision :: u64
  rc_total :: nat
  rc_items :: "'a list"

record 'a resource_item =
  ri_policy_revision :: u64
  ri_resource :: 'a

record authorization_status =
  st_status :: string
  st_policy_revision :: u64
  st_actions :: nat
  st_roles :: nat
  st_role_bindings :: nat
  st_route_matchers :: nat

record authorize_request =
  aq_principal_id :: string
  aq_group_principal_ids :: "string list"
  aq_action :: string
  aq_resource_urn :: string
  aq_parent_urns :: "string list"
  aq_context :: evaluation_context

record authorize_response =
  rs_allowed :: bool
  rs_reason :: string
  rs_role_binding_id :: "string option"

section \<open>Start-up\<close>

definition policy_is_empty :: "iam_policy_info \<Rightarrow> bool" where
  "policy_is_empty p \<longleftrightarrow> pol_actions p = [] \<and> pol_roles p = [] \<and> pol_role_bindings p = []"

definition handler_open ::
  "('d, 'n) policy_handler \<Rightarrow> 'd \<Rightarrow> iam_policy_info option \<Rightarrow>
   (policy_handler_error, ('d, 'n) handler_state) result \<times> 'd" where
  "handler_open h d bootstrap_policy =
     (case repo_load (ph_repository h) d of
        Inl e \<Rightarrow> (Inl (StorageError e), d)
      | Inr loaded \<Rightarrow>
          (let initialize = policy_is_empty loaded \<and> bootstrap_policy \<noteq> None;
               policy = (case (initialize, bootstrap_policy) of (True, Some p) \<Rightarrow> p | _ \<Rightarrow> loaded)
           in case runtime_new (ph_net h) policy of
                Inl e \<Rightarrow> (Inl (InvalidPolicy e), d)
              | Inr normalized \<Rightarrow>
                  if initialize then
                    (case repo_replace (ph_repository h) d (cp_policy normalized) of
                       (Inl e, d') \<Rightarrow> (Inl (StorageError e), d')
                     | (Inr _, d') \<Rightarrow> (Inr \<lparr>hs_storage = d', hs_current = normalized\<rparr>, d'))
                  else (Inr \<lparr>hs_storage = d, hs_current = normalized\<rparr>, d)))"

section \<open>Reading\<close>

definition catalog :: "('d, 'n) handler_state \<Rightarrow> iam_policy_info" where
  "catalog hs = cp_policy (hs_current hs)"

definition collection_new :: "u64 \<Rightarrow> 'a list \<Rightarrow> 'a resource_collection" where
  "collection_new revision items = \<lparr>rc_policy_revision = revision, rc_total = length items, rc_items = items\<rparr>"

definition handler_actions :: "('d, 'n) handler_state \<Rightarrow> iam_action_info resource_collection" where
  "handler_actions hs = collection_new (pol_revision (catalog hs)) (pol_actions (catalog hs))"

definition handler_roles :: "('d, 'n) handler_state \<Rightarrow> iam_role_info resource_collection" where
  "handler_roles hs = collection_new (pol_revision (catalog hs)) (pol_roles (catalog hs))"

definition handler_role_bindings :: "('d, 'n) handler_state \<Rightarrow> iam_role_binding_info resource_collection" where
  "handler_role_bindings hs = collection_new (pol_revision (catalog hs)) (pol_role_bindings (catalog hs))"

definition find_item ::
  "u64 \<Rightarrow> 'a list \<Rightarrow> string \<Rightarrow> string \<Rightarrow> ('a \<Rightarrow> string) \<Rightarrow> (policy_handler_error, 'a resource_item) result" where
  "find_item revision items resource i item_id =
     ok_or (NotFound resource i)
       (map_option (\<lambda>item. \<lparr>ri_policy_revision = revision, ri_resource = item\<rparr>) (find (\<lambda>item. item_id item = i) items))"

definition action_item ::
  "('d, 'n) handler_state \<Rightarrow> string \<Rightarrow> (policy_handler_error, iam_action_info resource_item) result" where
  "action_item hs i = find_item (pol_revision (catalog hs)) (pol_actions (catalog hs)) ''action'' i act_identifier"

definition role_item ::
  "('d, 'n) handler_state \<Rightarrow> string \<Rightarrow> (policy_handler_error, iam_role_info resource_item) result" where
  "role_item hs i = find_item (pol_revision (catalog hs)) (pol_roles (catalog hs)) ''role'' i role_id"

definition role_binding_item ::
  "('d, 'n) handler_state \<Rightarrow> string \<Rightarrow> (policy_handler_error, iam_role_binding_info resource_item) result" where
  "role_binding_item hs i =
     find_item (pol_revision (catalog hs)) (pol_role_bindings (catalog hs)) ''role binding'' i rb_id"

definition handler_status :: "('d, 'n) handler_state \<Rightarrow> authorization_status" where
  "handler_status hs = \<lparr>st_status = ''ok'', st_policy_revision = pol_revision (catalog hs),
     st_actions = length (pol_actions (catalog hs)), st_roles = length (pol_roles (catalog hs)),
     st_role_bindings = length (pol_role_bindings (catalog hs)),
     st_route_matchers = sum_list (map (\<lambda>a. length (act_route_matchers a)) (pol_actions (catalog hs)))\<rparr>"

section \<open>Authorization endpoint\<close>

definition authorize_request ::
  "('d, 'n) policy_handler \<Rightarrow> ('d, 'n) handler_state \<Rightarrow> authorize_request \<Rightarrow>
   (policy_handler_error, authorize_response) result" where
  "authorize_request h hs request =
     (if trim (aq_principal_id request) = [] \<or> trim (aq_action request) = [] \<or> trim (aq_resource_urn request) = []
      then Inl (InvalidRequest ''principal_id, action, and resource_urn are required'')
      else
        and_then (map_err (\<lambda>e. InvalidRequest (urn_error_to_string e)) (urn_from_str (aq_resource_urn request))) (\<lambda>resource_urn.
        and_then (map_err (\<lambda>e. InvalidRequest (urn_error_to_string e)) (traverse urn_from_str (aq_parent_urns request))) (\<lambda>parent_urns.
        and_then (map_err StorageError (pr_get (ph_principals h) (hs_storage hs) (aq_principal_id request))) (\<lambda>principal.
        if \<not> (case principal of None \<Rightarrow> False | Some p \<Rightarrow> pi_status p = Active)
        then Inl (AuthorizationPrincipalInactive (aq_principal_id request))
        else
          (let decision = policy_authorize (ph_net h) (hs_current hs)
                 \<lparr>ar_principal_id = aq_principal_id request, ar_group_principal_ids = aq_group_principal_ids request,
                  ar_action = aq_action request, ar_resource_urn = resource_urn, ar_parent_urns = parent_urns,
                  ar_context = aq_context request\<rparr>
           in Inr \<lparr>rs_allowed = ad_allowed decision, rs_reason = ad_reason decision,
                   rs_role_binding_id = ad_role_binding_id decision\<rparr>)))))"

section \<open>Publication\<close>

definition require_revision ::
  "('d, 'n) handler_state \<Rightarrow> u64 \<Rightarrow> (policy_handler_error, iam_policy_info) result" where
  "require_revision hs expected =
     (if pol_revision (catalog hs) \<noteq> expected then Inl (RevisionConflict expected (pol_revision (catalog hs)))
      else Inr (catalog hs))"

definition persist_and_publish ::
  "('d, 'n) policy_handler \<Rightarrow> ('d, 'n) handler_state \<Rightarrow> u64 \<Rightarrow> iam_policy_info \<Rightarrow>
   (policy_handler_error, iam_policy_info) result \<times> ('d, 'n) handler_state" where
  "persist_and_publish h hs expected policy =
     (case checked_add expected 1 of
        None \<Rightarrow> (Inl (StorageError (Failure ''policy revision overflow'')), hs)
      | Some replacement_revision \<Rightarrow>
          (case prepare_replacement (ph_net h) policy replacement_revision of
             Inl e \<Rightarrow> (Inl (InvalidPolicy e), hs)
           | Inr compiled \<Rightarrow>
               (case repo_replace (ph_repository h) (hs_storage hs) (cp_policy compiled) of
                  (Inl e, d) \<Rightarrow> (Inl (StorageError e), hs\<lparr>hs_storage := d\<rparr>)
                | (Inr _, d) \<Rightarrow> (Inr (cp_policy compiled), \<lparr>hs_storage = d, hs_current = compiled\<rparr>))))"

definition mutate ::
  "('d, 'n) policy_handler \<Rightarrow> ('d, 'n) handler_state \<Rightarrow> u64 \<Rightarrow>
   (iam_policy_info \<Rightarrow> (policy_handler_error, iam_policy_info) result) \<Rightarrow>
   (policy_handler_error, iam_policy_info) result \<times> ('d, 'n) handler_state" where
  "mutate h hs expected mutation =
     (case and_then (require_revision hs expected) mutation of
        Inl e \<Rightarrow> (Inl e, hs)
      | Inr replacement \<Rightarrow> persist_and_publish h hs expected replacement)"

definition require_active_principal ::
  "('d, 'n) policy_handler \<Rightarrow> 'd \<Rightarrow> string \<Rightarrow> (policy_handler_error, unit) result" where
  "require_active_principal h d i =
     and_then (map_err StorageError (pr_get (ph_principals h) d i)) (\<lambda>found.
     and_then (ok_or (NotFound ''principal'' i) found) (\<lambda>principal.
       if pi_status principal = Disabled then Inl (PrincipalDisabled i) else Inr ()))"

text \<open>The identifiers are visited in the order of a \<open>BTreeSet\<close>.\<close>

definition require_active_binding_principals ::
  "('d, 'n) policy_handler \<Rightarrow> 'd \<Rightarrow> iam_policy_info \<Rightarrow> (policy_handler_error, unit) result" where
  "require_active_binding_principals h d policy =
     for_each (require_active_principal h d) (sort_dedup (map rb_principal_id (pol_role_bindings policy)))"

section \<open>Mutations of the document\<close>

definition ensure_absent :: "string list \<Rightarrow> string \<Rightarrow> string \<Rightarrow> (policy_handler_error, unit) result" where
  "ensure_absent ids resource i = (if list_ex (\<lambda>c. c = i) ids then Inl (AlreadyExists resource i) else Inr ())"

definition ensure_matching_id :: "string \<Rightarrow> string \<Rightarrow> string \<Rightarrow> (policy_handler_error, unit) result" where
  "ensure_matching_id resource path_id body_id =
     (if path_id = body_id then Inr () else Inl (IdMismatch resource path_id body_id))"

definition remove_by_id ::
  "string \<Rightarrow> 'a list \<Rightarrow> string \<Rightarrow> ('a \<Rightarrow> string) \<Rightarrow> (policy_handler_error, 'a list) result" where
  "remove_by_id resource vals i value_id =
     (let vals' = filter (\<lambda>v. value_id v \<noteq> i) vals in
      if length vals' = length vals then Inl (NotFound resource i) else Inr vals')"

definition replace_by_id ::
  "string \<Rightarrow> 'a list \<Rightarrow> string \<Rightarrow> ('a \<Rightarrow> string) \<Rightarrow> 'a \<Rightarrow> (policy_handler_error, 'a list) result" where
  "replace_by_id resource vals i value_id v =
     ok_or (NotFound resource i) (replace_first (\<lambda>c. value_id c = i) v vals)"

definition add_role_binding :: "iam_role_binding_info \<Rightarrow> iam_policy_info \<Rightarrow> (policy_handler_error, iam_policy_info) result" where
  "add_role_binding b p =
     and_then (ensure_absent (map rb_id (pol_role_bindings p)) ''role binding'' (rb_id b)) (\<lambda>_.
       Inr (p\<lparr>pol_role_bindings := pol_role_bindings p @ [b]\<rparr>))"

definition put_role_binding ::
  "string \<Rightarrow> iam_role_binding_info \<Rightarrow> iam_policy_info \<Rightarrow> (policy_handler_error, iam_policy_info) result" where
  "put_role_binding i b p =
     and_then (replace_by_id ''role binding'' (pol_role_bindings p) i rb_id b) (\<lambda>bs. Inr (p\<lparr>pol_role_bindings := bs\<rparr>))"

definition drop_role_binding :: "string \<Rightarrow> iam_policy_info \<Rightarrow> (policy_handler_error, iam_policy_info) result" where
  "drop_role_binding i p =
     and_then (remove_by_id ''role binding'' (pol_role_bindings p) i rb_id) (\<lambda>bs. Inr (p\<lparr>pol_role_bindings := bs\<rparr>))"

definition add_action :: "iam_action_info \<Rightarrow> iam_policy_info \<Rightarrow> (policy_handler_error, iam_policy_info) result" where
  "add_action a p =
     and_then (ensure_absent (map act_identifier (pol_actions p)) ''action'' (act_identifier a)) (\<lambda>_.
       Inr (p\<lparr>pol_actions := pol_actions p @ [a]\<rparr>))"

definition put_action :: "string \<Rightarrow> iam_action_info \<Rightarrow> iam_policy_info \<Rightarrow> (policy_handler_error, iam_policy_info) result" where
  "put_action i a p =
     and_then (replace_by_id ''action'' (pol_actions p) i act_identifier a) (\<lambda>as. Inr (p\<lparr>pol_actions := as\<rparr>))"

definition drop_action :: "string \<Rightarrow> iam_policy_info \<Rightarrow> (policy_handler_error, iam_policy_info) result" where
  "drop_action i p =
     (if list_ex (\<lambda>r. i \<in> set (role_action_ids r)) (pol_roles p) then Inl (Referenced ''action'' i ''a role'')
      else and_then (remove_by_id ''action'' (pol_actions p) i act_identifier) (\<lambda>as. Inr (p\<lparr>pol_actions := as\<rparr>)))"

definition add_role :: "iam_role_info \<Rightarrow> iam_policy_info \<Rightarrow> (policy_handler_error, iam_policy_info) result" where
  "add_role r p =
     and_then (ensure_absent (map role_id (pol_roles p)) ''role'' (role_id r)) (\<lambda>_.
       Inr (p\<lparr>pol_roles := pol_roles p @ [r]\<rparr>))"

definition put_role :: "string \<Rightarrow> iam_role_info \<Rightarrow> iam_policy_info \<Rightarrow> (policy_handler_error, iam_policy_info) result" where
  "put_role i r p =
     and_then (replace_by_id ''role'' (pol_roles p) i role_id r) (\<lambda>rs. Inr (p\<lparr>pol_roles := rs\<rparr>))"

definition drop_role :: "string \<Rightarrow> iam_policy_info \<Rightarrow> (policy_handler_error, iam_policy_info) result" where
  "drop_role i p =
     (if list_ex (\<lambda>b. rb_role_id b = i) (pol_role_bindings p) then Inl (Referenced ''role'' i ''a role binding'')
      else and_then (remove_by_id ''role'' (pol_roles p) i role_id) (\<lambda>rs. Inr (p\<lparr>pol_roles := rs\<rparr>)))"

definition clear_policy :: "iam_policy_info \<Rightarrow> (policy_handler_error, iam_policy_info) result" where
  "clear_policy p = Inr (p\<lparr>pol_actions := [], pol_roles := [], pol_role_bindings := []\<rparr>)"

section \<open>Operations\<close>

definition revision_of ::
  "(policy_handler_error, iam_policy_info) result \<times> 's \<Rightarrow> (policy_handler_error, u64) result \<times> 's" where
  "revision_of r = (and_then (fst r) (\<lambda>p. Inr (pol_revision p)), snd r)"

definition with_response ::
  "'a \<Rightarrow> (policy_handler_error, iam_policy_info) result \<times> 's \<Rightarrow> (policy_handler_error, u64 \<times> 'a) result \<times> 's" where
  "with_response x r = (and_then (fst r) (\<lambda>p. Inr (pol_revision p, x)), snd r)"

definition create_role_binding ::
  "('d, 'n) policy_handler \<Rightarrow> ('d, 'n) handler_state \<Rightarrow> u64 \<Rightarrow> iam_role_binding_info \<Rightarrow>
   (policy_handler_error, u64 \<times> iam_role_binding_info) result \<times> ('d, 'n) handler_state" where
  "create_role_binding h hs expected b =
     (case require_active_principal h (hs_storage hs) (rb_principal_id b) of
        Inl e \<Rightarrow> (Inl e, hs)
      | Inr _ \<Rightarrow> with_response b (mutate h hs expected (add_role_binding b)))"

definition update_role_binding ::
  "('d, 'n) policy_handler \<Rightarrow> ('d, 'n) handler_state \<Rightarrow> u64 \<Rightarrow> string \<Rightarrow> iam_role_binding_info \<Rightarrow>
   (policy_handler_error, u64 \<times> iam_role_binding_info) result \<times> ('d, 'n) handler_state" where
  "update_role_binding h hs expected i b =
     (case and_then (ensure_matching_id ''role binding'' i (rb_id b)) (\<lambda>_.
             require_active_principal h (hs_storage hs) (rb_principal_id b)) of
        Inl e \<Rightarrow> (Inl e, hs)
      | Inr _ \<Rightarrow> with_response b (mutate h hs expected (put_role_binding i b)))"

definition delete_role_binding ::
  "('d, 'n) policy_handler \<Rightarrow> ('d, 'n) handler_state \<Rightarrow> u64 \<Rightarrow> string \<Rightarrow>
   (policy_handler_error, u64) result \<times> ('d, 'n) handler_state" where
  "delete_role_binding h hs expected i = revision_of (mutate h hs expected (drop_role_binding i))"

definition create_action ::
  "('d, 'n) policy_handler \<Rightarrow> ('d, 'n) handler_state \<Rightarrow> u64 \<Rightarrow> iam_action_info \<Rightarrow>
   (policy_handler_error, u64 \<times> iam_action_info) result \<times> ('d, 'n) handler_state" where
  "create_action h hs expected a = with_response a (mutate h hs expected (add_action a))"

definition update_action ::
  "('d, 'n) policy_handler \<Rightarrow> ('d, 'n) handler_state \<Rightarrow> u64 \<Rightarrow> string \<Rightarrow> iam_action_info \<Rightarrow>
   (policy_handler_error, u64 \<times> iam_action_info) result \<times> ('d, 'n) handler_state" where
  "update_action h hs expected i a =
     (case ensure_matching_id ''action'' i (act_identifier a) of
        Inl e \<Rightarrow> (Inl e, hs)
      | Inr _ \<Rightarrow> with_response a (mutate h hs expected (put_action i a)))"

definition delete_action ::
  "('d, 'n) policy_handler \<Rightarrow> ('d, 'n) handler_state \<Rightarrow> u64 \<Rightarrow> string \<Rightarrow>
   (policy_handler_error, u64) result \<times> ('d, 'n) handler_state" where
  "delete_action h hs expected i = revision_of (mutate h hs expected (drop_action i))"

definition create_role ::
  "('d, 'n) policy_handler \<Rightarrow> ('d, 'n) handler_state \<Rightarrow> u64 \<Rightarrow> iam_role_info \<Rightarrow>
   (policy_handler_error, u64 \<times> iam_role_info) result \<times> ('d, 'n) handler_state" where
  "create_role h hs expected r = with_response r (mutate h hs expected (add_role r))"

definition update_role ::
  "('d, 'n) policy_handler \<Rightarrow> ('d, 'n) handler_state \<Rightarrow> u64 \<Rightarrow> string \<Rightarrow> iam_role_info \<Rightarrow>
   (policy_handler_error, u64 \<times> iam_role_info) result \<times> ('d, 'n) handler_state" where
  "update_role h hs expected i r =
     (case ensure_matching_id ''role'' i (role_id r) of
        Inl e \<Rightarrow> (Inl e, hs)
      | Inr _ \<Rightarrow> with_response r (mutate h hs expected (put_role i r)))"

definition delete_role ::
  "('d, 'n) policy_handler \<Rightarrow> ('d, 'n) handler_state \<Rightarrow> u64 \<Rightarrow> string \<Rightarrow>
   (policy_handler_error, u64) result \<times> ('d, 'n) handler_state" where
  "delete_role h hs expected i = revision_of (mutate h hs expected (drop_role i))"

definition replace_policy ::
  "('d, 'n) policy_handler \<Rightarrow> ('d, 'n) handler_state \<Rightarrow> u64 \<Rightarrow> iam_policy_info \<Rightarrow>
   (policy_handler_error, iam_policy_info) result \<times> ('d, 'n) handler_state" where
  "replace_policy h hs expected policy =
     (if expected \<noteq> pol_revision policy
      then (Inl (InvalidRequest ''If-Match must equal the policy revision in the request body''), hs)
      else case and_then (require_revision hs expected) (\<lambda>_.
             require_active_binding_principals h (hs_storage hs) policy) of
             Inl e \<Rightarrow> (Inl e, hs)
           | Inr _ \<Rightarrow> persist_and_publish h hs expected policy)"

definition reset_policy ::
  "('d, 'n) policy_handler \<Rightarrow> ('d, 'n) handler_state \<Rightarrow> u64 \<Rightarrow>
   (policy_handler_error, u64) result \<times> ('d, 'n) handler_state" where
  "reset_policy h hs expected = revision_of (mutate h hs expected clear_policy)"

text \<open>The mutating requests, with the operation that serves each.\<close>

datatype handler_command =
    CreateRoleBinding iam_role_binding_info
  | UpdateRoleBinding string iam_role_binding_info
  | DeleteRoleBinding string
  | CreateAction iam_action_info
  | UpdateAction string iam_action_info
  | DeleteAction string
  | CreateRole iam_role_info
  | UpdateRole string iam_role_info
  | DeleteRole string
  | ReplacePolicy iam_policy_info
  | ResetPolicy

definition first_of :: "('e, 'a \<times> 'b) result \<times> 's \<Rightarrow> ('e, 'a) result \<times> 's" where
  "first_of r = (and_then (fst r) (\<lambda>(a, b). Inr a), snd r)"

fun run_command ::
  "('d, 'n) policy_handler \<Rightarrow> ('d, 'n) handler_state \<Rightarrow> u64 \<Rightarrow> handler_command \<Rightarrow>
   (policy_handler_error, u64) result \<times> ('d, 'n) handler_state" where
  "run_command h hs expected (CreateRoleBinding b) = first_of (create_role_binding h hs expected b)"
| "run_command h hs expected (UpdateRoleBinding i b) = first_of (update_role_binding h hs expected i b)"
| "run_command h hs expected (DeleteRoleBinding i) = delete_role_binding h hs expected i"
| "run_command h hs expected (CreateAction a) = first_of (create_action h hs expected a)"
| "run_command h hs expected (UpdateAction i a) = first_of (update_action h hs expected i a)"
| "run_command h hs expected (DeleteAction i) = delete_action h hs expected i"
| "run_command h hs expected (CreateRole r) = first_of (create_role h hs expected r)"
| "run_command h hs expected (UpdateRole i r) = first_of (update_role h hs expected i r)"
| "run_command h hs expected (DeleteRole i) = delete_role h hs expected i"
| "run_command h hs expected (ReplacePolicy p) = revision_of (replace_policy h hs expected p)"
| "run_command h hs expected ResetPolicy = reset_policy h hs expected"

section \<open>Runs of the handler\<close>

text \<open>
  One step of the system: a command under the write lock, or a change of the storage by another
  client that the relation \<open>ext\<close> allows.
\<close>

inductive handler_step ::
  "('d, 'n) policy_handler \<Rightarrow> ('d \<Rightarrow> 'd \<Rightarrow> bool) \<Rightarrow> ('d, 'n) handler_state \<Rightarrow> ('d, 'n) handler_state \<Rightarrow> bool"
  for h :: "('d, 'n) policy_handler" and ext :: "'d \<Rightarrow> 'd \<Rightarrow> bool" where
  commanded: "handler_step h ext s (snd (run_command h s expected c))"
| external: "ext (hs_storage s) d \<Longrightarrow> handler_step h ext s (s\<lparr>hs_storage := d\<rparr>)"

inductive handler_reachable ::
  "('d, 'n) policy_handler \<Rightarrow> ('d \<Rightarrow> 'd \<Rightarrow> bool) \<Rightarrow> 'd \<Rightarrow> ('d, 'n) handler_state \<Rightarrow> bool"
  for h :: "('d, 'n) policy_handler" and ext :: "'d \<Rightarrow> 'd \<Rightarrow> bool" and d0 :: 'd where
  opened: "handler_open h d0 bootstrap = (Inr s, d) \<Longrightarrow> handler_reachable h ext d0 s"
| step: "handler_reachable h ext d0 s \<Longrightarrow> handler_step h ext s s' \<Longrightarrow> handler_reachable h ext d0 s'"

inductive_cases handler_stepE: "handler_step h ext s s'"

text \<open>The published policy is the compilation of what is stored.\<close>

definition published ::
  "('d, 'n) policy_handler \<Rightarrow> ('d \<Rightarrow> bool) \<Rightarrow> ('d, 'n) handler_state \<Rightarrow> bool" where
  "published h ok s \<longleftrightarrow> ok (hs_storage s) \<and>
     repo_load (ph_repository h) (hs_storage s) = Inr (canonical (catalog s)) \<and>
     policy_compile (ph_net h) (catalog s) (pol_revision (catalog s)) = Inr (hs_current s)"

section \<open>Lemmas\<close>

lemma policy_compile_policy: "policy_compile net p n = Inr cp \<Longrightarrow> cp_policy cp = p\<lparr>pol_revision := n\<rparr>"
  by (simp add: policy_compile_Inr)

lemma policy_compile_again: "policy_compile net p n = Inr cp \<Longrightarrow> policy_compile net (cp_policy cp) n = Inr cp"
  by (simp add: policy_compile_Inr)

lemma canonical_revision [simp]: "canonical (p\<lparr>pol_revision := n\<rparr>) = canonical p"
  by (simp add: canonical_def)

lemma persist_and_publish_cases:
  obtains (rejected) e where "persist_and_publish h hs expected policy = (Inl e, hs)"
  | (failed) e d where "persist_and_publish h hs expected policy = (Inl (StorageError e), hs\<lparr>hs_storage := d\<rparr>)"
      "repo_replace (ph_repository h) (hs_storage hs) (policy\<lparr>pol_revision := expected + 1\<rparr>) = (Inl e, d)"
  | (committed) compiled d where
      "persist_and_publish h hs expected policy = (Inr (policy\<lparr>pol_revision := expected + 1\<rparr>), \<lparr>hs_storage = d, hs_current = compiled\<rparr>)"
      "policy_compile (ph_net h) policy (expected + 1) = Inr compiled"
      "unat (expected + 1) = unat expected + 1"
      "repo_replace (ph_repository h) (hs_storage hs) (policy\<lparr>pol_revision := expected + 1\<rparr>) = (Inr (), d)"
proof (cases "checked_add expected 1")
  case None
  then show ?thesis by (intro rejected) (simp add: persist_and_publish_def)
next
  case (Some revision)
  then have revision: "revision = expected + 1" "unat (expected + 1) = unat expected + 1"
    using checked_add_Some [OF Some] by (auto simp: checked_add_def split: if_splits)
  show ?thesis
  proof (cases "policy_compile (ph_net h) policy (expected + 1)")
    case (Inl e)
    with Some revision show ?thesis by (intro rejected) (simp add: persist_and_publish_def prepare_replacement_def)
  next
    case (Inr compiled)
    note cp = policy_compile_policy [OF Inr]
    show ?thesis
    proof (cases "repo_replace (ph_repository h) (hs_storage hs) (policy\<lparr>pol_revision := expected + 1\<rparr>)")
      case (Pair r d)
      with Some revision Inr cp failed committed show ?thesis
        by (cases r) (auto simp: persist_and_publish_def prepare_replacement_def)
    qed
  qed
qed

lemma mutate_cases:
  obtains (rejected) e where "mutate h hs expected f = (Inl e, hs)"
  | (published) policy where "pol_revision (catalog hs) = expected" "f (catalog hs) = Inr policy"
      "mutate h hs expected f = persist_and_publish h hs expected policy"
proof (cases "and_then (require_revision hs expected) f")
  case (Inl e)
  then show ?thesis by (intro rejected) (simp add: mutate_def)
next
  case (Inr policy)
  moreover from this have "pol_revision (catalog hs) = expected" "f (catalog hs) = Inr policy"
    by (auto simp: result_simps require_revision_def split: if_splits)
  ultimately show ?thesis by (intro published) (simp_all add: mutate_def)
qed

lemma replace_policy_cases:
  obtains (rejected) e where "replace_policy h hs expected p = (Inl e, hs)"
  | (published) "pol_revision (catalog hs) = expected"
      "require_active_binding_principals h (hs_storage hs) p = Inr ()"
      "replace_policy h hs expected p = persist_and_publish h hs expected p"
proof (cases "expected = pol_revision p")
  case False
  then show ?thesis by (intro rejected) (simp add: replace_policy_def)
next
  case True
  show ?thesis
  proof (cases "and_then (require_revision hs expected) (\<lambda>_. require_active_binding_principals h (hs_storage hs) p)")
    case (Inl e)
    with True show ?thesis by (intro rejected) (simp add: replace_policy_def)
  next
    case (Inr u)
    moreover from this have "pol_revision (catalog hs) = expected"
      "require_active_binding_principals h (hs_storage hs) p = Inr ()"
      by (auto simp: result_simps require_revision_def split: if_splits)
    ultimately show ?thesis using True by (intro published) (simp_all add: replace_policy_def)
  qed
qed

lemma handler_open_loaded:
  assumes "handler_open h d0 bootstrap = (Inr s, d)" "repo_load (ph_repository h) d0 = Inr loaded"
    "\<not> (policy_is_empty loaded \<and> bootstrap \<noteq> None)"
  shows "runtime_new (ph_net h) loaded = Inr (hs_current s) \<and> hs_storage s = d0 \<and> d = d0"
proof -
  have "(case (policy_is_empty loaded \<and> bootstrap \<noteq> None, bootstrap) of (True, Some p) \<Rightarrow> p | _ \<Rightarrow> loaded) = loaded"
    using assms(3) by auto
  with assms show ?thesis
    by (cases "runtime_new (ph_net h) loaded") (simp_all add: handler_open_def, auto)
qed

lemma handler_open_bootstrap:
  assumes "handler_open h d0 (Some p) = (Inr s, d)" "repo_load (ph_repository h) d0 = Inr loaded" "policy_is_empty loaded"
  shows "runtime_new (ph_net h) p = Inr (hs_current s) \<and> hs_storage s = d \<and>
    repo_replace (ph_repository h) d0 (cp_policy (hs_current s)) = (Inr (), d)"
proof (cases "runtime_new (ph_net h) p")
  case (Inr cp)
  show ?thesis
  proof (cases "repo_replace (ph_repository h) d0 (cp_policy cp)")
    case (Pair r d')
    with Inr assms show ?thesis by (cases r) (auto simp: handler_open_def)
  qed
qed (use assms in \<open>simp add: handler_open_def\<close>)

lemma runtime_new_again:
  assumes "runtime_new net p = Inr cp"
  shows "canonical (cp_policy cp) = canonical p"
    "policy_compile net (cp_policy cp) (pol_revision (cp_policy cp)) = Inr cp"
  using assms policy_compile_policy [of net p "max (pol_revision p) 1" cp] policy_compile_again [of net p "max (pol_revision p) 1" cp]
  by (simp_all add: runtime_new_def)

text \<open>Every command either rejects the request or persists and publishes one document.\<close>

lemma first_of_simps [simp]:
  "first_of (with_response x r) = revision_of r" "first_of (Inl e, hs) = (Inl e, hs)"
  by (cases "fst r"; simp add: first_of_def with_response_def revision_of_def) (simp add: first_of_def)

lemma run_command_cases:
  obtains (rejected) e where "run_command h hs expected c = (Inl e, hs)"
  | (published) policy where "pol_revision (catalog hs) = expected"
      "run_command h hs expected c = revision_of (persist_and_publish h hs expected policy)"
proof -
  have lift: thesis if "run_command h hs expected c = revision_of (mutate h hs expected f)" for f
    using that by (cases rule: mutate_cases [of h hs expected f]) (auto simp: revision_of_def intro: rejected published)
  have guarded: thesis if "run_command h hs expected c =
      (case g of Inl e \<Rightarrow> (Inl e, hs) | Inr _ \<Rightarrow> revision_of (mutate h hs expected f))"
    for f and g :: "(policy_handler_error, unit) result"
    using that by (cases g) (auto intro: rejected lift)
  show thesis
  proof (cases c)
    case (CreateRoleBinding b)
    then show ?thesis by (intro guarded [where g = "require_active_principal h (hs_storage hs) (rb_principal_id b)" and f = "add_role_binding b"])
      (simp add: create_role_binding_def split: sum.split)
  next
    case (UpdateRoleBinding i b)
    then show ?thesis
      by (intro guarded [where g = "and_then (ensure_matching_id ''role binding'' i (rb_id b)) (\<lambda>_.
          require_active_principal h (hs_storage hs) (rb_principal_id b))" and f = "put_role_binding i b"])
        (simp add: update_role_binding_def split: sum.split)
  next
    case (UpdateAction i a)
    then show ?thesis by (intro guarded [where g = "ensure_matching_id ''action'' i (act_identifier a)" and f = "put_action i a"])
      (simp add: update_action_def split: sum.split)
  next
    case (UpdateRole i r)
    then show ?thesis by (intro guarded [where g = "ensure_matching_id ''role'' i (role_id r)" and f = "put_role i r"])
      (simp add: update_role_def split: sum.split)
  next
    case (ReplacePolicy p)
    then show ?thesis
      by (cases rule: replace_policy_cases [of h hs expected p]) (auto simp: revision_of_def intro: rejected published)
  qed (rule lift, simp add: delete_role_binding_def create_action_def delete_action_def create_role_def delete_role_def
    reset_policy_def)+
qed

lemma snd_revision_of [simp]: "snd (revision_of r) = snd r"
  by (simp add: revision_of_def)

context policy_storage
begin

lemma persist_and_publish_published:
  assumes "ph_repository h = repo" "published h wf s"
  shows "published h wf (snd (persist_and_publish h s expected policy))"
proof (cases rule: persist_and_publish_cases [of h s expected policy])
  case (rejected e)
  with assms show ?thesis by simp
next
  case (failed e d)
  then have "d = hs_storage s" using assms(1) replace_failed by metis
  with failed assms show ?thesis by simp
next
  case (committed compiled d)
  let ?q = "policy\<lparr>pol_revision := expected + 1\<rparr>"
  have "cp_policy compiled = ?q" by (rule policy_compile_policy [OF committed(2)])
  moreover have "wf d" "repo_load repo d = Inr (canonical ?q)"
    using committed(4) assms replace_wf replace_load unfolding published_def by metis+
  moreover have "policy_compile (ph_net h) ?q (expected + 1) = Inr compiled"
    using policy_compile_again [OF committed(2)] \<open>cp_policy compiled = ?q\<close> by simp
  ultimately show ?thesis using committed(1) assms(1) by (simp add: published_def catalog_def)
qed

lemma run_command_published:
  "ph_repository h = repo \<Longrightarrow> published h wf s \<Longrightarrow> published h wf (snd (run_command h s expected c))"
  by (cases rule: run_command_cases [of h s expected c]) (auto intro: persist_and_publish_published)

text \<open>An error leaves both the storage and the published policy as they were.\<close>

lemma run_command_error_unchanged:
  assumes "ph_repository h = repo" "run_command h s expected c = (Inl e, s')"
  shows "s' = s"
proof (cases rule: run_command_cases [of h s expected c])
  case (rejected e')
  with assms show ?thesis by simp
next
  case (published policy)
  show ?thesis
  proof (cases rule: persist_and_publish_cases [of h s expected policy])
    case (failed e' d)
    then have "d = hs_storage s" using assms(1) replace_failed by metis
    with failed published assms(2) show ?thesis by (auto simp: revision_of_def)
  qed (use published assms(2) in \<open>auto simp: revision_of_def\<close>)
qed

lemma open_published:
  assumes "ph_repository h = repo" "wf d0" "handler_open h d0 bootstrap = (Inr s, d)"
  shows "published h wf s \<and> d = hs_storage s"
proof -
  from assms(1,3) obtain loaded where loaded: "repo_load repo d0 = Inr loaded"
    by (auto simp: handler_open_def split: sum.splits)
  show ?thesis
  proof (cases "policy_is_empty loaded \<and> bootstrap \<noteq> None")
    case True
    then obtain p where p: "handler_open h d0 (Some p) = (Inr s, d)" "policy_is_empty loaded" using assms(3) by auto
    note o = handler_open_bootstrap [OF p(1) loaded [folded assms(1)] p(2)]
    note rep = o [THEN conjunct2, THEN conjunct2, unfolded assms(1)]
    from replace_wf [OF assms(2) rep] replace_load [OF assms(2) rep] runtime_new_again [OF o [THEN conjunct1]] o assms(1)
    show ?thesis by (simp add: published_def catalog_def)
  next
    case False
    note o = handler_open_loaded [OF assms(3) loaded [folded assms(1)] False]
    from o runtime_new_again [OF o [THEN conjunct1]] loaded assms(1,2) load_canonical [OF assms(2) loaded]
    show ?thesis by (simp add: published_def catalog_def)
  qed
qed

lemma reachable_published:
  assumes "handler_reachable h ext d0 s" "ph_repository h = repo" "wf d0"
    and ext: "\<And>d d'. wf d \<Longrightarrow> ext d d' \<Longrightarrow> wf d' \<and> repo_load repo d' = repo_load repo d"
  shows "published h wf s"
  using assms(1)
proof induction
  case (opened bootstrap s d)
  with assms(2,3) open_published show ?case by blast
next
  case (step s s')
  from step.hyps(2) show ?case
  proof (rule handler_stepE)
    fix expected c assume "s' = snd (run_command h s expected c)"
    with step.IH assms(2) run_command_published show ?thesis by blast
  next
    fix d assume d: "s' = s\<lparr>hs_storage := d\<rparr>" "ext (hs_storage s) d"
    from step.IH have "wf (hs_storage s)" by (simp add: published_def)
    from ext [OF this d(2)] step.IH d(1) assms(2) show ?thesis by (simp add: published_def catalog_def)
  qed
qed

end

section \<open>The handler over SQLite\<close>

definition sqlite_handler :: "serde_lib \<Rightarrow> 'n ipnet_lib \<Rightarrow> (database, 'n) policy_handler" where
  "sqlite_handler sd net = \<lparr>ph_repository = sqlite_policy_repository sd,
     ph_principals = sqlite_principal_repository, ph_net = net\<rparr>"

lemma sqlite_load_same_catalog: "same_catalog db db' \<Longrightarrow> sqlite_load sd db' = sqlite_load sd db"
  by (simp add: sqlite_load_def load_actions_def load_bindings_def load_roles_def role_action_join_def same_catalog_def)

lemma sqlite_handler_simps [simp]:
  "ph_repository (sqlite_handler sd net) = sqlite_policy_repository sd" "ph_net (sqlite_handler sd net) = net"
  "ph_principals (sqlite_handler sd net) = sqlite_principal_repository"
  by (simp_all add: sqlite_handler_def)

lemma sqlite_replace_failed: "repo_replace (sqlite_policy_repository sd) d p = (Inl e, d') \<Longrightarrow> d' = d"
  by (auto simp: sqlite_policy_repository_def dest: sqlite_replace_Inl)

context serde
begin

lemma reachable:
  assumes "valid_db d0" "handler_reachable (sqlite_handler sd net) principal_step d0 s"
  shows "published (sqlite_handler sd net) valid_db s"
proof (rule store.reachable_published [OF assms(2) _ assms(1)])
  show "valid_db d' \<and> repo_load (sqlite_policy_repository sd) d' = repo_load (sqlite_policy_repository sd) d"
    if "valid_db d" "principal_step d d'" for d d'
    using that principal_step_valid sqlite_load_same_catalog [OF principal_step_same_catalog [OF that(2)]]
    by (auto simp: sqlite_policy_repository_def)
qed simp

lemma command_error_unchanged:
  "run_command (sqlite_handler sd net) s expected c = (Inl e, s') \<Longrightarrow> s' = s"
  by (rule store.run_command_error_unchanged) auto

end

lemma sqlite_reachable_published:
  assumes "serde_roundtrip sd" "valid_db d0" "handler_reachable (sqlite_handler sd net) principal_step d0 s"
  shows "published (sqlite_handler sd net) valid_db s"
  using serde.reachable [OF serde.intro [OF assms(1)] assms(2,3)] .

section \<open>Lookups after mutations\<close>

lemma find_append_new: "\<forall>x \<in> set xs. f x \<noteq> f y \<Longrightarrow> find (\<lambda>x. f x = f y) (xs @ [y]) = Some y"
  by (induction xs) auto

lemma find_append_other: "f y \<noteq> i \<Longrightarrow> find (\<lambda>x. f x = i) (xs @ [y]) = find (\<lambda>x. f x = i) xs"
  by (induction xs) auto

lemma find_filter_other: "j \<noteq> i \<Longrightarrow> find (\<lambda>x. f x = j) (filter (\<lambda>x. f x \<noteq> i) xs) = find (\<lambda>x. f x = j) xs"
  by (induction xs) auto

lemma find_filter_same: "find (\<lambda>x. f x = i) (filter (\<lambda>x. f x \<noteq> i) xs) = None"
  by (induction xs) auto

lemma mutate_Inr:
  assumes "mutate h hs expected f = (Inr p, hs')"
  shows "pol_revision (catalog hs) = expected" "p = catalog hs'" "unat (expected + 1) = unat expected + 1"
    "\<exists>q. f (catalog hs) = Inr q \<and> catalog hs' = q\<lparr>pol_revision := expected + 1\<rparr>"
proof -
  from assms obtain q where q: "pol_revision (catalog hs) = expected" "f (catalog hs) = Inr q"
    "persist_and_publish h hs expected q = (Inr p, hs')"
    by (cases rule: mutate_cases [of h hs expected f]) auto
  from q(3) obtain compiled d where c: "hs' = \<lparr>hs_storage = d, hs_current = compiled\<rparr>" "p = q\<lparr>pol_revision := expected + 1\<rparr>"
    "policy_compile (ph_net h) q (expected + 1) = Inr compiled" "unat (expected + 1) = unat expected + 1"
    by (cases rule: persist_and_publish_cases [of h hs expected q]) auto
  from policy_compile_policy [OF c(3)] c q show "pol_revision (catalog hs) = expected" "p = catalog hs'"
    "unat (expected + 1) = unat expected + 1" "\<exists>q. f (catalog hs) = Inr q \<and> catalog hs' = q\<lparr>pol_revision := expected + 1\<rparr>"
    by (auto simp: catalog_def)
qed

lemma mutate_stale:
  "pol_revision (catalog hs) \<noteq> expected \<Longrightarrow>
   mutate h hs expected f = (Inl (RevisionConflict expected (pol_revision (catalog hs))), hs)"
  by (simp add: mutate_def require_revision_def)

lemma with_response_Inr:
  "with_response x r = (Inr (n, y), hs') \<longleftrightarrow> (\<exists>p. r = (Inr p, hs') \<and> n = pol_revision p \<and> y = x)"
  by (cases r) (auto simp: with_response_def result_simps)

lemma revision_of_Inr: "revision_of r = (Inr n, hs') \<longleftrightarrow> (\<exists>p. r = (Inr p, hs') \<and> n = pol_revision p)"
  by (cases r) (auto simp: revision_of_def result_simps)

lemma ensure_absent_Inr [result_simps]: "ensure_absent ids resource i = Inr u \<longleftrightarrow> i \<notin> set ids"
  by (auto simp: ensure_absent_def list_ex_iff)

lemma remove_by_id_Inr [result_simps]:
  "remove_by_id resource vals i f = Inr vs \<longleftrightarrow> i \<in> f ` set vals \<and> vs = filter (\<lambda>v. f v \<noteq> i) vals"
proof -
  have "length (filter P xs) = length xs \<longleftrightarrow> (\<forall>x \<in> set xs. P x)" for P and xs :: "'a list"
  proof (induction xs)
    case (Cons x xs)
    then show ?case by (cases "P x") (auto, metis Suc_n_not_le_n length_filter_le)
  qed simp
  then have "length (filter (\<lambda>v. f v \<noteq> i) vals) = length vals \<longleftrightarrow> i \<notin> f ` set vals" by auto
  then show ?thesis by (auto simp: remove_by_id_def Let_def)
qed

lemma drop_role_unreferenced: "drop_role i p = Inr q \<Longrightarrow> \<not> (\<exists>b \<in> set (pol_role_bindings p). rb_role_id b = i)"
  by (auto simp: drop_role_def list_ex_iff split: if_splits)

lemma drop_action_unreferenced: "drop_action i p = Inr q \<Longrightarrow> \<not> (\<exists>r \<in> set (pol_roles p). i \<in> set (role_action_ids r))"
  by (auto simp: drop_action_def list_ex_iff split: if_splits)

lemma create_role_binding_Inr:
  assumes "create_role_binding h hs expected b = (Inr (n, b'), hs')"
  shows "b' = b \<and> n = pol_revision (catalog hs') \<and> rb_id b \<notin> set (map rb_id (pol_role_bindings (catalog hs))) \<and>
    catalog hs' = (catalog hs)\<lparr>pol_role_bindings := pol_role_bindings (catalog hs) @ [b], pol_revision := expected + 1\<rparr>"
proof -
  from assms obtain p where p: "mutate h hs expected (add_role_binding b) = (Inr p, hs')" "n = pol_revision p" "b' = b"
    by (auto simp: create_role_binding_def with_response_Inr split: sum.splits)
  from mutate_Inr [OF p(1)] p(2,3) show ?thesis by (auto simp: add_role_binding_def result_simps)
qed

lemma delete_role_binding_Inr:
  assumes "delete_role_binding h hs expected i = (Inr n, hs')"
  shows "n = pol_revision (catalog hs') \<and> i \<in> set (map rb_id (pol_role_bindings (catalog hs))) \<and>
    catalog hs' = (catalog hs)\<lparr>pol_role_bindings := filter (\<lambda>b. rb_id b \<noteq> i) (pol_role_bindings (catalog hs)),
      pol_revision := expected + 1\<rparr>"
proof -
  from assms obtain p where p: "mutate h hs expected (drop_role_binding i) = (Inr p, hs')" "n = pol_revision p"
    by (auto simp: delete_role_binding_def revision_of_Inr)
  from mutate_Inr [OF p(1)] p(2) show ?thesis by (auto simp: drop_role_binding_def result_simps)
qed

section \<open>An example run\<close>

definition sample_handler :: "(database, nat) policy_handler" where
  "sample_handler = sqlite_handler object_serde office_net"

definition sample_state :: "(database, nat) handler_state" where
  "sample_state = (case handler_open sample_handler sample_db (Some sample_policy) of
     (Inr s, _) \<Rightarrow> s | (Inl _, d) \<Rightarrow> \<lparr>hs_storage = d, hs_current = \<lparr>cp_policy = sample_policy, cp_evaluator = [], cp_routes = []\<rparr>\<rparr>)"

lemma sample_open:
  "handler_open sample_handler sample_db (Some sample_policy) = (Inr sample_state, hs_storage sample_state)"
  "catalog sample_state = sample_policy"
proof -
  have load: "sqlite_load object_serde sample_db = Inr \<lparr>pol_revision = 1, pol_actions = [], pol_roles = [], pol_role_bindings = []\<rparr>"
    by (simp add: sqlite_load_def load_actions_def load_roles_def load_bindings_def role_action_join_def sample_db_def empty_db_def)
  from sample_policy_valid obtain cp where cp: "policy_compile office_net sample_policy 1 = Inr cp"
    unfolding policy_compile_ok [symmetric, where n = 1] by blast
  have rev: "pol_revision sample_policy = 1" by (simp add: sample_policy_def)
  with cp have run: "runtime_new office_net sample_policy = Inr cp" "cp_policy cp = sample_policy"
    using policy_compile_policy [OF cp] by (simp_all add: runtime_new_def sample_policy_def)
  have rep: "sqlite_replace object_serde sample_db sample_policy = (Inr (), stored object_serde sample_db sample_policy)"
    using sample_storable by (simp add: sqlite_replace_Inr)
  have "handler_open sample_handler sample_db (Some sample_policy) =
      (Inr \<lparr>hs_storage = stored object_serde sample_db sample_policy, hs_current = cp\<rparr>, stored object_serde sample_db sample_policy)"
    using load run rep by (simp add: handler_open_def sample_handler_def sqlite_policy_repository_def policy_is_empty_def)
  then show "handler_open sample_handler sample_db (Some sample_policy) = (Inr sample_state, hs_storage sample_state)"
    "catalog sample_state = sample_policy"
    using run(2) by (simp_all add: sample_state_def catalog_def)
qed

lemma sample_reachable: "handler_reachable sample_handler principal_step sample_db sample_state"
  using sample_open(1) by (rule opened)

lemma sample_published: "published sample_handler valid_db sample_state"
  using sqlite_reachable_published [OF object_serde_roundtrip sample_db_valid sample_reachable [unfolded sample_handler_def]]
  by (simp add: sample_handler_def)

lemma sample_delete:
  "fst (delete_role_binding sample_handler sample_state 1 ''b2'') = Inr 2"
  by code_simp

lemma pr_get_sqlite [simp]: "pr_get sqlite_principal_repository = principal_get"
  by (simp add: sqlite_principal_repository_def)

lemma active_check_Inr:
  "(if \<not> (case found of None \<Rightarrow> False | Some p \<Rightarrow> pi_status p = Active) then Inl e else Inr x) = Inr r \<longleftrightarrow>
     (\<exists>p. found = Some p \<and> pi_status p = Active) \<and> r = x"
  by (cases found) auto

lemma authorize_request_allowed:
  assumes "policy_compile (ph_net h) (catalog hs) n = Inr (hs_current hs)"
  shows "(\<exists>r. authorize_request h hs q = Inr r \<and> rs_allowed r) \<longleftrightarrow>
    trim (aq_principal_id q) \<noteq> [] \<and> trim (aq_action q) \<noteq> [] \<and> trim (aq_resource_urn q) \<noteq> [] \<and>
    (\<exists>u us p request. urn_from_str (aq_resource_urn q) = Inr u \<and> traverse urn_from_str (aq_parent_urns q) = Inr us \<and>
       pr_get (ph_principals h) (hs_storage hs) (aq_principal_id q) = Inr (Some p) \<and> pi_status p = Active \<and>
       request = \<lparr>ar_principal_id = aq_principal_id q, ar_group_principal_ids = aq_group_principal_ids q,
         ar_action = aq_action q, ar_resource_urn = u, ar_parent_urns = us, ar_context = aq_context q\<rparr> \<and>
       document_binds (ph_net h) (catalog hs) Allow request \<and> \<not> document_binds (ph_net h) (catalog hs) Deny request)"
  unfolding authorize_request_def Let_def
  by (cases "trim (aq_principal_id q) = [] \<or> trim (aq_action q) = [] \<or> trim (aq_resource_urn q) = []")
    (auto simp: result_simps active_check_Inr policy_authorize_def evaluator_authorize_allowed policy_compile_binds [OF assms])

definition sample_binding :: iam_role_binding_info where
  "sample_binding = \<lparr>rb_id = ''b3'', rb_principal_id = ''user:eve'', rb_role_id = ''reader'', rb_effect = Allow,
     rb_resource_urn = ''urn:iam:prod:cg:global:acme:job/9'', rb_conditions = default_conditions\<rparr>"

lemma sample_create_binding:
  "fst (create_role_binding sample_handler sample_state 1 sample_binding) = Inr (2, sample_binding)"
  by code_simp

definition sample_query :: authorize_request where
  "sample_query = \<lparr>aq_principal_id = ''user:eve'', aq_group_principal_ids = [''group:dev''], aq_action = ''job.read'',
     aq_resource_urn = ''urn:iam:prod:cg:global:acme:job/1'', aq_parent_urns = [], aq_context = default_context\<rparr>"

definition sample_eve :: iam_principal_info where
  "sample_eve = \<lparr>pi_id = ''user:eve'', pi_kind = User, pi_display_name = ''Eve'', pi_status = Active, pi_authorization_state = []\<rparr>"

section \<open>Properties\<close>

text \<open>
  Claim C7. In every reachable state of a server over SQLite, whatever commands were served and
  whatever the principal operations of the two services did in between, the published policy is
  the compilation of the published document, that document is what the database holds, and the
  database satisfies the schema.
\<close>

theorem published_policy_is_stored_policy:
  assumes "serde_roundtrip sd" and "valid_db d0"
    and "handler_reachable (sqlite_handler sd net) principal_step d0 s"
  shows "valid_db (hs_storage s) \<and> sqlite_load sd (hs_storage s) = Inr (canonical (catalog s)) \<and>
    policy_compile net (catalog s) (pol_revision (catalog s)) = Inr (hs_current s)"
  using sqlite_reachable_published [OF assms] by (simp add: published_def sqlite_policy_repository_def)

theorem published_policy_is_stored_policy_witness:
  "sqlite_load object_serde (hs_storage sample_state) = Inr (canonical sample_policy)"
  using published_policy_is_stored_policy [OF object_serde_roundtrip sample_db_valid sample_reachable [unfolded sample_handler_def]]
  by (simp add: sample_open(2))

text \<open>
  Claim C21. Revisions are a compare-and-swap for every command of the handler, replacing and resetting the policy included: a
  command succeeds only against the published revision and publishes the next one without wrap-around, and from then on
  every command that still expects the old revision is rejected and changes nothing, a reset and a replacement by a policy of that
  revision with a conflict.
\<close>

theorem command_compare_and_swap:
  assumes "run_command h hs expected c = (Inr n, hs')"
  shows "expected = pol_revision (catalog hs) \<and> n = pol_revision (catalog hs') \<and> unat n = unat expected + 1 \<and>
    (\<forall>c'. \<exists>e. run_command h hs' expected c' = (Inl e, hs')) \<and>
    run_command h hs' expected ResetPolicy = (Inl (RevisionConflict expected n), hs') \<and>
    (\<forall>p. pol_revision p = expected \<longrightarrow> run_command h hs' expected (ReplacePolicy p) = (Inl (RevisionConflict expected n), hs'))"
proof (cases rule: run_command_cases [of h hs expected c])
  case (published policy)
  then obtain p where p: "persist_and_publish h hs expected policy = (Inr p, hs')" "n = pol_revision p"
    using assms unfolding published(2) revision_of_Inr by blast
  then obtain compiled d where c: "hs' = \<lparr>hs_storage = d, hs_current = compiled\<rparr>" "p = policy\<lparr>pol_revision := expected + 1\<rparr>"
    "policy_compile (ph_net h) policy (expected + 1) = Inr compiled" "unat (expected + 1) = unat expected + 1"
    by (cases rule: persist_and_publish_cases [of h hs expected policy]) auto
  have n: "n = expected + 1" "pol_revision (catalog hs') = n" using policy_compile_policy [OF c(3)] c(1,2) p(2) by (auto simp: catalog_def)
  then have stale: "pol_revision (catalog hs') \<noteq> expected" using c(4) by (metis Suc_eq_plus1 n_not_Suc_n)
  then have "\<exists>e. run_command h hs' expected c' = (Inl e, hs')" for c' by (cases rule: run_command_cases [of h hs' expected c']) auto
  moreover have "run_command h hs' expected ResetPolicy = (Inl (RevisionConflict expected n), hs')"
    using mutate_stale [OF stale] n(2) by (simp add: reset_policy_def revision_of_def)
  moreover have "run_command h hs' expected (ReplacePolicy q) = (Inl (RevisionConflict expected n), hs')" if "pol_revision q = expected" for q
    using that stale n(2) by (simp add: replace_policy_def require_revision_def revision_of_def)
  moreover have "expected = pol_revision (catalog hs)" "n = pol_revision (catalog hs')" "unat n = unat expected + 1"
    using published(1) n c(4) by simp_all
  ultimately show ?thesis by blast
qed (use assms in simp)

theorem command_compare_and_swap_witness:
  "\<exists>hs'. run_command sample_handler sample_state 1 (DeleteRoleBinding ''b2'') = (Inr 2, hs') \<and>
     pol_revision (catalog hs') = 2 \<and> run_command sample_handler hs' 1 ResetPolicy = (Inl (RevisionConflict 1 2), hs')"
proof -
  obtain hs' where m: "run_command sample_handler sample_state 1 (DeleteRoleBinding ''b2'') = (Inr 2, hs')"
    using sample_delete by (cases "delete_role_binding sample_handler sample_state 1 ''b2''") auto
  from command_compare_and_swap [OF m] m show ?thesis by auto
qed

text \<open>
  A command that fails, for whatever reason, changes neither the published policy nor
  the database.
\<close>

theorem failed_command_changes_nothing:
  assumes "run_command (sqlite_handler sd net) hs expected c = (Inl e, hs')"
  shows "hs' = hs"
proof (cases rule: run_command_cases [of "sqlite_handler sd net" hs expected c])
  case (published policy)
  then show ?thesis
    using assms sqlite_replace_failed
    by (cases rule: persist_and_publish_cases [of "sqlite_handler sd net" hs expected policy])
      (fastforce simp: revision_of_def)+
qed (use assms in simp)

theorem failed_command_changes_nothing_witness:
  "snd (run_command (sqlite_handler object_serde office_net) sample_state 7 ResetPolicy) = sample_state"
proof -
  have "run_command (sqlite_handler object_serde office_net) sample_state 7 ResetPolicy =
      (Inl (RevisionConflict 7 (pol_revision (catalog sample_state))), sample_state)"
    using mutate_stale [of sample_state 7 "sqlite_handler object_serde office_net" clear_policy] sample_open(2)
    by (simp add: reset_policy_def revision_of_def sample_policy_def)
  from failed_command_changes_nothing [OF this] this show ?thesis by simp
qed

text \<open>
  At the largest revision no command can succeed any more: the revision never wraps
  around to one that an old client might still hold.
\<close>

theorem no_command_at_last_revision:
  "fst (run_command h hs (- 1) c) \<noteq> Inr n"
proof (cases rule: run_command_cases [of h hs "- 1" c])
  case (published policy)
  then show ?thesis
    by (cases rule: persist_and_publish_cases [of h hs "- 1" policy]) (auto simp: revision_of_def)
qed simp

text \<open>
  A created role binding is found afterwards under its identifier with the new revision,
  and the list of bindings is the old one with the new binding at its end.
\<close>

theorem created_binding_is_found:
  assumes "create_role_binding h hs expected b = (Inr (n, b'), hs')"
  shows "role_binding_item hs' (rb_id b) = Inr \<lparr>ri_policy_revision = n, ri_resource = b\<rparr> \<and>
    handler_role_bindings hs' = collection_new n (rc_items (handler_role_bindings hs) @ [b])"
proof -
  note c = create_role_binding_Inr [OF assms]
  have "find (\<lambda>x. rb_id x = rb_id b) (pol_role_bindings (catalog hs) @ [b]) = Some b"
    using c by (intro find_append_new) (auto simp: image_iff)
  with c show ?thesis
    by (simp add: role_binding_item_def find_item_def handler_role_bindings_def collection_new_def)
qed

theorem created_binding_is_found_witness:
  "\<exists>hs'. create_role_binding sample_handler sample_state 1 sample_binding = (Inr (2, sample_binding), hs') \<and>
     role_binding_item hs' ''b3'' = Inr \<lparr>ri_policy_revision = 2, ri_resource = sample_binding\<rparr>"
proof -
  obtain hs' where c: "create_role_binding sample_handler sample_state 1 sample_binding = (Inr (2, sample_binding), hs')"
    using sample_create_binding by (metis prod.collapse)
  have "rb_id sample_binding = ''b3''" by (simp add: sample_binding_def)
  with created_binding_is_found [OF c] c show ?thesis by auto
qed

text \<open>
  A deleted role binding is not found any more, and exactly that binding is gone from
  the list.
\<close>

theorem deleted_binding_is_gone:
  assumes "delete_role_binding h hs expected i = (Inr n, hs')"
  shows "role_binding_item hs' i = Inl (NotFound ''role binding'' i) \<and>
    handler_role_bindings hs' = collection_new n (filter (\<lambda>b. rb_id b \<noteq> i) (rc_items (handler_role_bindings hs)))"
  using delete_role_binding_Inr [OF assms]
  by (simp add: role_binding_item_def find_item_def handler_role_bindings_def collection_new_def find_filter_same)

theorem deleted_binding_is_gone_witness:
  "\<exists>hs'. delete_role_binding sample_handler sample_state 1 ''b2'' = (Inr 2, hs') \<and>
     role_binding_item hs' ''b2'' = Inl (NotFound ''role binding'' ''b2'')"
proof -
  obtain hs' where "delete_role_binding sample_handler sample_state 1 ''b2'' = (Inr 2, hs')"
    using sample_delete by (metis prod.collapse)
  with deleted_binding_is_gone [OF this] show ?thesis by blast
qed

text \<open>
  References are protected: a role that a binding uses and an action that a role uses
  cannot be deleted, whatever the revision.
\<close>

theorem referenced_entities_are_kept:
  "((\<exists>b \<in> set (pol_role_bindings (catalog hs)). rb_role_id b = i) \<longrightarrow> fst (delete_role h hs expected i) \<noteq> Inr n) \<and>
   ((\<exists>r \<in> set (pol_roles (catalog hs)). j \<in> set (role_action_ids r)) \<longrightarrow> fst (delete_action h hs expected j) \<noteq> Inr n)"
proof -
  have "\<exists>q. f (catalog hs) = Inr q" if "fst (revision_of (mutate h hs expected f)) = Inr n" for f
    using that mutate_Inr(4) [of h hs expected f] by (cases "mutate h hs expected f") (auto simp: revision_of_def result_simps)
  then show ?thesis
    using drop_role_unreferenced [of i "catalog hs"] drop_action_unreferenced [of j "catalog hs"]
    unfolding delete_role_def delete_action_def by blast
qed

theorem referenced_entities_are_kept_witness:
  "fst (delete_role sample_handler sample_state 1 ''reader'') \<noteq> Inr 2 \<and>
   fst (delete_action sample_handler sample_state 1 ''job.read'') \<noteq> Inr 2"
proof -
  have "\<exists>b \<in> set (pol_role_bindings (catalog sample_state)). rb_role_id b = ''reader''"
    "\<exists>r \<in> set (pol_roles (catalog sample_state)). ''job.read'' \<in> set (role_action_ids r)"
    by (simp_all add: sample_open(2) sample_policy_def)
  with referenced_entities_are_kept [of sample_state "''reader''" sample_handler 1 2 "''job.read''"] show ?thesis by blast
qed

text \<open>
  The authorization endpoint allows a request if and only if its fields are given and
  parse, the principal is stored and active at this moment, and the published document has an
  allow binding for the request and no deny binding.
\<close>

theorem endpoint_allows_exactly:
  assumes "published h ok hs"
  shows "(\<exists>r. authorize_request h hs q = Inr r \<and> rs_allowed r) \<longleftrightarrow>
    trim (aq_principal_id q) \<noteq> [] \<and> trim (aq_action q) \<noteq> [] \<and> trim (aq_resource_urn q) \<noteq> [] \<and>
    (\<exists>u us p request. urn_from_str (aq_resource_urn q) = Inr u \<and> traverse urn_from_str (aq_parent_urns q) = Inr us \<and>
       pr_get (ph_principals h) (hs_storage hs) (aq_principal_id q) = Inr (Some p) \<and> pi_status p = Active \<and>
       request = \<lparr>ar_principal_id = aq_principal_id q, ar_group_principal_ids = aq_group_principal_ids q,
         ar_action = aq_action q, ar_resource_urn = u, ar_parent_urns = us, ar_context = aq_context q\<rparr> \<and>
       document_binds (ph_net h) (catalog hs) Allow request \<and> \<not> document_binds (ph_net h) (catalog hs) Deny request)"
  using assms by (intro authorize_request_allowed) (auto simp: published_def)

theorem endpoint_allows_exactly_witness:
  "\<exists>r. authorize_request sample_handler sample_state sample_query = Inr r \<and> rs_allowed r"
proof -
  have doc: "urn_from_str (aq_resource_urn sample_query) = Inr (ar_resource_urn sample_request)"
    "trim (aq_principal_id sample_query) \<noteq> []" "trim (aq_action sample_query) \<noteq> []" "trim (aq_resource_urn sample_query) \<noteq> []"
    "document_binds office_net sample_policy Allow sample_request" "\<not> document_binds office_net sample_policy Deny sample_request"
    by code_simp+
  have get: "pr_get (ph_principals sample_handler) (hs_storage sample_state) (aq_principal_id sample_query) = Inr (Some sample_eve)"
    by code_simp
  have net: "ph_net sample_handler = office_net" by (simp add: sample_handler_def)
  show ?thesis
    unfolding endpoint_allows_exactly [OF sample_published] sample_open(2) net
    using doc get by (auto simp: sample_query_def sample_request_def sample_eve_def intro!: exI [of _ "[]"])
qed

text \<open>
  A restart always succeeds and decides as before, but it starts again at revision 1:
  from any reachable state, opening a new handler on the same database publishes a policy that
  allows the same requests under revision 1, whatever revision clients have seen.
\<close>

theorem restart_succeeds_at_revision_one:
  assumes "serde_roundtrip sd" and "valid_db d0"
    and "handler_reachable (sqlite_handler sd net) principal_step d0 s"
  shows "\<exists>s'. handler_open (sqlite_handler sd net) (hs_storage s) None = (Inr s', hs_storage s) \<and>
    pol_revision (catalog s') = 1 \<and>
    (\<forall>request. ad_allowed (policy_authorize net (hs_current s') request) =
       ad_allowed (policy_authorize net (hs_current s) request))"
proof -
  note pub = sqlite_reachable_published [OF assms]
  then have load: "sqlite_load sd (hs_storage s) = Inr (canonical (catalog s))"
    and cp: "policy_compile net (catalog s) (pol_revision (catalog s)) = Inr (hs_current s)"
    by (simp_all add: published_def sqlite_policy_repository_def)
  from cp have "valid_policy net (canonical (catalog s))" by (metis policy_compile_ok valid_policy_canonical)
  then obtain cp' where cp': "policy_compile net (canonical (catalog s)) 1 = Inr cp'" by (metis policy_compile_ok)
  then have "runtime_new net (canonical (catalog s)) = Inr cp'" by (simp add: runtime_new_def canonical_def)
  with load have "handler_open (sqlite_handler sd net) (hs_storage s) None =
      (Inr \<lparr>hs_storage = hs_storage s, hs_current = cp'\<rparr>, hs_storage s)"
    by (simp add: handler_open_def sqlite_policy_repository_def)
  moreover have "ad_allowed (policy_authorize net cp' request) = ad_allowed (policy_authorize net (hs_current s) request)" for request
    by (simp add: policy_authorize_def evaluator_authorize_allowed policy_compile_binds [OF cp'] policy_compile_binds [OF cp]
      document_binds_canonical)
  ultimately show ?thesis using policy_compile_policy [OF cp'] by (auto simp: catalog_def)
qed

theorem restart_succeeds_at_revision_one_witness:
  "\<exists>s'. handler_open (sqlite_handler object_serde office_net) (hs_storage sample_state) None = (Inr s', hs_storage sample_state) \<and>
     pol_revision (catalog s') = 1"
  using restart_succeeds_at_revision_one [OF object_serde_roundtrip sample_db_valid sample_reachable [unfolded sample_handler_def]]
  by blast

end
