(* ===== verification/Std_Text.thy ===== *)
theory Std_Text
  imports Conditions
begin

text \<open>
  Text conversions of the Rust standard library that the services use: prefixes and suffixes, decimal numbers and
  \<open>IpAddr::from_str\<close>. Printing and parsing a number are inverse, and a dotted quad is read back
  as the address it denotes.
\<close>

section \<open>Prefixes and suffixes\<close>

text \<open>\<open>str::strip_prefix\<close>, \<open>str::strip_suffix\<close> and \<open>str::split_once\<close>.\<close>

fun strip_prefix :: "string \<Rightarrow> string \<Rightarrow> string option" where
  "strip_prefix [] s = Some s"
| "strip_prefix (c # p) [] = None"
| "strip_prefix (c # p) (d # s) = (if c = d then strip_prefix p s else None)"

definition strip_suffix :: "string \<Rightarrow> string \<Rightarrow> string option" where
  "strip_suffix suffix_text s = map_option rev (strip_prefix (rev suffix_text) (rev s))"

fun split_once_at :: "string \<Rightarrow> string \<Rightarrow> (string \<times> string) option" where
  "split_once_at p [] = (if p = [] then Some ([], []) else None)"
| "split_once_at p (c # s) =
     (case strip_prefix p (c # s) of
        Some rest \<Rightarrow> Some ([], rest)
      | None \<Rightarrow> map_option (\<lambda>(a, b). (c # a, b)) (split_once_at p s))"

lemma strip_prefix_Some: "strip_prefix p s = Some r \<longleftrightarrow> s = p @ r"
  by (induction p s rule: strip_prefix.induct) auto

lemma strip_suffix_Some: "strip_suffix p s = Some r \<longleftrightarrow> s = r @ p"
  by (auto simp: strip_suffix_def strip_prefix_Some) (metis rev_append rev_rev_ident)

section \<open>Decimal numbers\<close>

definition digit_char :: "int \<Rightarrow> char" where
  "digit_char n = char_of (48 + nat n)"

function decimal :: "int \<Rightarrow> string" where
  "decimal n = (if n < 10 then [digit_char n] else decimal (n div 10) @ [digit_char (n mod 10)])"
  by pat_completeness auto
termination
  by (relation "measure nat") auto

declare decimal.simps [simp del]

definition digits_value :: "string \<Rightarrow> int" where
  "digits_value s = foldl (\<lambda>n c. 10 * n + (int (code c) - 48)) 0 s"

text \<open>\<open>str::parse\<close> at an unsigned type: an optional plus sign and digits whose value is below the bound.\<close>

definition all_digits :: "string \<Rightarrow> bool" where
  "all_digits s \<longleftrightarrow> s \<noteq> [] \<and> list_all is_ascii_digit s"

definition parse_below :: "int \<Rightarrow> string \<Rightarrow> int option" where
  "parse_below bound s =
     (let t = (case s of c # r \<Rightarrow> if c = CHR ''+'' then r else s | [] \<Rightarrow> s)
      in if all_digits t \<and> digits_value t < bound then Some (digits_value t) else None)"

definition u64_to_string :: "u64 \<Rightarrow> string" where
  "u64_to_string n = decimal (uint n)"

definition parse_u64_digits :: "string \<Rightarrow> u64 option" where
  "parse_u64_digits s = (if all_digits s \<and> digits_value s < 2 ^ 64 then Some (of_int (digits_value s)) else None)"

lemma code_digit_char: "0 \<le> n \<Longrightarrow> n < 10 \<Longrightarrow> int (code (digit_char n)) = 48 + n"
  by (simp add: digit_char_def)

lemma digits_value_snoc: "digits_value (s @ [c]) = 10 * digits_value s + (int (code c) - 48)"
  by (simp add: digits_value_def)

lemma digits_value_decimal: "0 \<le> n \<Longrightarrow> digits_value (decimal n) = n"
proof (induction n rule: decimal.induct)
  case (1 n)
  show ?case
  proof (cases "n < 10")
    case True
    then show ?thesis using 1 by (simp add: decimal.simps digits_value_def code_digit_char)
  next
    case False
    then have "digits_value (decimal n) = 10 * (n div 10) + n mod 10"
      using 1 by (subst decimal.simps) (simp add: digits_value_snoc code_digit_char)
    then show ?thesis by simp
  qed
qed

lemma all_digits_decimal: "0 \<le> n \<Longrightarrow> all_digits (decimal n)"
proof (induction n rule: decimal.induct)
  case (1 n)
  have d: "is_ascii_digit (digit_char k)" if "0 \<le> k" "k < 10" for k
    using code_digit_char [OF that] that by (simp add: is_ascii_digit_def)
  then show ?case using 1 by (cases "n < 10") (simp_all add: decimal.simps [of n] all_digits_def)
qed

lemma parse_u64_print: "parse_u64_digits (u64_to_string n) = Some n"
proof -
  have "0 \<le> uint n" "uint n < 2 ^ 64" using uint_bounded [of n] by simp_all
  then show ?thesis by (simp add: parse_u64_digits_def u64_to_string_def all_digits_decimal digits_value_decimal)
qed

section \<open>IP addresses\<close>

text \<open>
  The recursive-descent parser of \<open>core::net\<close>. Each reader returns the value and the rest of the input.
  A decimal octet has one to three digits, no leading zero and a value below 256.
\<close>

definition digit_of :: "int \<Rightarrow> char \<Rightarrow> int option" where
  "digit_of radix c =
     (let d = (if is_ascii_digit c then int (code c) - 48
               else if 97 \<le> code c \<and> code c \<le> 122 then int (code c) - 87
               else if 65 \<le> code c \<and> code c \<le> 90 then int (code c) - 55 else 36)
      in if d < radix then Some d else None)"

fun read_digits :: "int \<Rightarrow> nat \<Rightarrow> int \<Rightarrow> string \<Rightarrow> nat \<times> int \<times> string" where
  "read_digits radix 0 acc s = (0, acc, s)"
| "read_digits radix (Suc n) acc [] = (0, acc, [])"
| "read_digits radix (Suc n) acc (c # s) =
     (case digit_of radix c of
        None \<Rightarrow> (0, acc, c # s)
      | Some d \<Rightarrow> (let (k, v, r) = read_digits radix n (radix * acc + d) s in (Suc k, v, r)))"

text \<open>A run of more digits than allowed is refused, as is a leading zero where it is not allowed.\<close>

definition read_number :: "int \<Rightarrow> nat \<Rightarrow> bool \<Rightarrow> int \<Rightarrow> string \<Rightarrow> (int \<times> string) option" where
  "read_number radix max_digits allow_zero_prefix bound s =
     (let (k, v, r) = read_digits radix (Suc max_digits) 0 s in
      if k = 0 \<or> max_digits < k \<or> bound \<le> v \<or> (\<not> allow_zero_prefix \<and> hd s = CHR ''0'' \<and> 1 < k)
      then None else Some (v, r))"

fun read_separator :: "char \<Rightarrow> nat \<Rightarrow> string \<Rightarrow> string option" where
  "read_separator c 0 s = Some s"
| "read_separator c (Suc n) [] = None"
| "read_separator c (Suc n) (x # s) = (if x = c then Some s else None)"

fun read_octets :: "nat \<Rightarrow> nat \<Rightarrow> string \<Rightarrow> (int list \<times> string) option" where
  "read_octets i 0 s = Some ([], s)"
| "read_octets i (Suc n) s =
     Option.bind (read_separator CHR ''.'' i s) (\<lambda>t.
     Option.bind (read_number 10 3 False 256 t) (\<lambda>(v, r).
       map_option (\<lambda>(vs, r'). (v # vs, r')) (read_octets (Suc i) n r)))"

definition read_ipv4 :: "string \<Rightarrow> (int list \<times> string) option" where
  "read_ipv4 s = read_octets 0 4 s"

text \<open>Up to \<open>n\<close> groups of an IPv6 address; a dotted quad may take the place of the last two.\<close>

fun read_groups_v6 :: "nat \<Rightarrow> nat \<Rightarrow> string \<Rightarrow> int list \<times> bool \<times> string" where
  "read_groups_v6 i 0 s = ([], False, s)"
| "read_groups_v6 i (Suc n) s =
     (case (if n = 0 then None else Option.bind (read_separator CHR '':'' i s) read_ipv4) of
        Some ([a, b, c, d], r) \<Rightarrow> ([256 * a + b, 256 * c + d], True, r)
      | _ \<Rightarrow>
          (case Option.bind (read_separator CHR '':'' i s) (read_number 16 4 True 65536) of
             None \<Rightarrow> ([], False, s)
           | Some (v, r) \<Rightarrow> (let (vs, quad, r') = read_groups_v6 (Suc i) n r in (v # vs, quad, r'))))"

definition word_of_groups :: "int list \<Rightarrow> 128 word" where
  "word_of_groups gs = of_int (foldl (\<lambda>n g. 65536 * n + g) 0 gs)"

definition read_ipv6 :: "string \<Rightarrow> (128 word \<times> string) option" where
  "read_ipv6 s =
     (let (head, quad, r) = read_groups_v6 0 8 s in
      if length head = 8 then Some (word_of_groups head, r)
      else if quad then None
      else (case r of
          c # d # t \<Rightarrow>
            if c = CHR '':'' \<and> d = CHR '':'' then
              (let (tail, q, r') = read_groups_v6 0 (7 - length head) t
               in Some (word_of_groups (head @ replicate (8 - length head - length tail) 0 @ tail), r'))
            else None
        | _ \<Rightarrow> None))"

definition parse_ip :: "string \<Rightarrow> ip_addr option" where
  "parse_ip s =
     (case read_ipv4 s of
        Some (vs, r) \<Rightarrow> (if r = [] then Some (IpV4 (of_int (foldl (\<lambda>n v. 256 * n + v) 0 vs))) else None)
      | None \<Rightarrow>
          (case read_ipv6 s of
             Some (w, r) \<Rightarrow> (if r = [] then Some (IpV6 w) else None)
           | None \<Rightarrow> None))"

lemma parse_ip_examples:
  "parse_ip ''10.0.0.7'' = Some (IpV4 0x0A000007)" "parse_ip ''10.0.0.256'' = None" "parse_ip ''010.0.0.1'' = None"
  "parse_ip ''::1'' = Some (IpV6 1)" "parse_ip ''fe80::1:2'' = Some (IpV6 0xfe800000000000000000000000010002)"
  "parse_ip ''::ffff:1.2.3.4'' = Some (IpV6 0xffff01020304)" "parse_ip ''1:2:3:4:5:6:7::'' = Some (IpV6 0x00010002000300040005000600070000)"
  "parse_ip ''::1::'' = None" "parse_ip ''12345::'' = None" "parse_ip '''' = None"
  by code_simp+

end
