(* ===== verification/Principals.thy ===== *)
theory Principals
  imports Principal_Store Std_Text
begin

text \<open>
  The principal handler of the authorization service (\<open>authz/src/handler/principal.rs\<close>) with the data
  and checks of principal discovery (\<open>common/src/principal/mod.rs\<close>): resolution of the authenticated
  caller against the durable principals, federated search, materialization of an external principal,
  and the lifecycle operations. The discovery providers (Keycloak, LDAP, custom) are parameters. The
  lemmas are proved over any repository with the laws of \<open>principal_directory\<close>: resolution fails
  closed, disabling or deleting a principal takes effect at once, walking the pages of a listing
  meets every selected principal exactly once, and the result of a search does not depend on the
  order in which the providers answer.
\<close>

section \<open>Ordered maps\<close>

text \<open>\<open>BTreeMap::insert\<close> and \<open>entry(k).or_insert(v)\<close> on the sorted list of entries.\<close>

fun btree_insert :: "'k::linorder \<Rightarrow> 'v \<Rightarrow> ('k \<times> 'v) list \<Rightarrow> ('k \<times> 'v) list" where
  "btree_insert k v [] = [(k, v)]"
| "btree_insert k v ((l, w) # m) =
     (if k < l then (k, v) # (l, w) # m else if k = l then (k, v) # m else (l, w) # btree_insert k v m)"

definition btree_or_insert :: "'k::linorder \<Rightarrow> 'v \<Rightarrow> ('k \<times> 'v) list \<Rightarrow> ('k \<times> 'v) list" where
  "btree_or_insert k v m = (if k \<in> fst ` set m then m else btree_insert k v m)"

section \<open>Discovery\<close>

record external_principal_ref =
  er_provider_id :: string
  er_issuer :: string
  er_external_id :: string

record principal_materialization_request =
  mr_principal_id :: string
  mr_reference :: external_principal_ref

record principal_projection =
  pj_reference :: external_principal_ref
  pj_kind :: principal_kind
  pj_display_name :: string
  pj_username :: "string option"
  pj_email :: "string option"
  pj_enabled :: bool
  pj_attributes :: "(string \<times> json) list"

definition identity_key :: "principal_projection \<Rightarrow> string \<times> string" where
  "identity_key p = (er_issuer (pj_reference p), er_external_id (pj_reference p))"

text \<open>The sets and maps of a query are ordered collections, given by their elements.\<close>

record principal_search_query =
  sq_text :: string
  sq_kinds :: "principal_kind list"
  sq_provider_ids :: "string list"
  sq_per_provider_limit :: u32
  sq_cursors :: "(string \<times> string) list"

record principal_search_page =
  sp_principals :: "principal_projection list"
  sp_next_cursors :: "(string \<times> string) list"

datatype principal_discovery_error =
    InvalidConfiguration string
  | InvalidQuery string
  | UnknownProvider string
  | ProviderAuthentication string
  | HttpStatus string string nat
  | Transport string string string
  | InvalidResponse string string
  | Task string

definition principal_search_query_new :: "string \<Rightarrow> principal_search_query" where
  "principal_search_query_new t = \<lparr>sq_text = t, sq_kinds = [], sq_provider_ids = [],
     sq_per_provider_limit = 20, sq_cursors = []\<rparr>"

definition cursor_for :: "principal_search_query \<Rightarrow> string \<Rightarrow> string option" where
  "cursor_for q provider_id = map_of (sq_cursors q) provider_id"

definition supports_kind :: "principal_search_query \<Rightarrow> principal_kind \<Rightarrow> bool" where
  "supports_kind q k \<longleftrightarrow> sq_kinds q = [] \<or> k \<in> set (sq_kinds q)"

definition cursor_key :: "string \<Rightarrow> string \<Rightarrow> string" where
  "cursor_key provider_id stream = provider_id @ '':'' @ stream"

definition parse_u32 :: "string \<Rightarrow> u32 option" where
  "parse_u32 s = map_option of_int (parse_below (2 ^ 32) s)"

definition offset_cursor ::
  "principal_search_query \<Rightarrow> string \<Rightarrow> string \<Rightarrow> (principal_discovery_error, u32) result" where
  "offset_cursor q provider_id stream =
     (let key = cursor_key provider_id stream in
      case cursor_for q key of
        None \<Rightarrow> Inr 0
      | Some v \<Rightarrow> ok_or (InvalidQuery (''cursor for provider `'' @ key @ ''` is invalid'')) (parse_u32 v))"

definition validate_search_query :: "principal_search_query \<Rightarrow> (principal_discovery_error, unit) result" where
  "validate_search_query q =
     (if trim (sq_text q) = [] then Inl (InvalidQuery ''search text must not be empty'')
      else if length (sq_text q) > 256 then Inl (InvalidQuery ''search text must not exceed 256 bytes'')
      else if \<not> (1 \<le> sq_per_provider_limit q \<and> sq_per_provider_limit q \<le> 100)
        then Inl (InvalidQuery ''per_provider_limit must be between 1 and 100'')
      else Inr ())"

text \<open>A discovery provider, as the trait \<open>IPrincipalDiscovery\<close> presents it.\<close>

record search_provider =
  sv_provider :: string
  sv_provider_id :: string
  sv_discover :: "principal_search_query \<Rightarrow> (principal_discovery_error, principal_search_page) result"
  sv_resolve :: "external_principal_ref \<Rightarrow> (principal_discovery_error, principal_projection option) result"

section \<open>Handler\<close>

record resolved_request_principal =
  rp_principal_id :: string
  rp_group_principal_ids :: "string list"

datatype principal_handler_error =
    PrincipalNotFound string
  | PrincipalDisabled string
  | KindMismatch string
  | Referenced string
  | IdentityConflict
  | ProviderUnavailable
  | Discovery principal_discovery_error
  | PrincipalStorage storage_error

record 'd principal_handler =
  pn_repository :: "'d principal_repository"
  pn_federated :: "search_provider list"

record principal_page =
  pp_total :: nat
  pp_items :: "iam_principal_info list"
  pp_next_cursor :: "string option"

subsection \<open>Resolution of a request\<close>

text \<open>The loop over the claimed groups, with the map of loaded principals it removes entries from.\<close>

fun resolve_groups :: "(string \<Rightarrow> iam_principal_info option) \<Rightarrow> string list \<Rightarrow> string list" where
  "resolve_groups projected [] = []"
| "resolve_groups projected (g # gs) =
     (case projected g of
        None \<Rightarrow> resolve_groups projected gs
      | Some p \<Rightarrow> (if pi_status p = Active \<and> pi_kind p = Group then [pi_id p] else []) @
                  resolve_groups (projected(g := None)) gs)"

definition project_by_id :: "iam_principal_info list \<Rightarrow> string \<Rightarrow> iam_principal_info option" where
  "project_by_id ps = map_of (rev (map (\<lambda>p. (pi_id p, p)) ps))"

definition resolve_request ::
  "'d principal_handler \<Rightarrow> 'd \<Rightarrow> authenticated_principal_context \<Rightarrow>
   (principal_handler_error, resolved_request_principal) result" where
  "resolve_request h d identity =
     and_then (map_err PrincipalStorage
       (pr_find_by_ids (pn_repository h) d (ap_principal_id identity # ap_stable_group_ids identity))) (\<lambda>found.
     let projected = project_by_id found in
     case projected (ap_principal_id identity) of
       None \<Rightarrow> Inl (PrincipalNotFound (ap_principal_id identity))
     | Some primary \<Rightarrow>
         if pi_status primary \<noteq> Active then Inl (PrincipalDisabled (pi_id primary))
         else if pi_kind primary \<noteq> ap_kind identity then Inl (KindMismatch (pi_id primary))
         else Inr \<lparr>rp_principal_id = pi_id primary,
           rp_group_principal_ids = sort_dedup
             (resolve_groups (projected(ap_principal_id identity := None)) (ap_stable_group_ids identity))\<rparr>)"

subsection \<open>Federated search\<close>

text \<open>The choice of one provider for one identifier of the filter.\<close>

definition choose_provider ::
  "search_provider list \<Rightarrow> string \<Rightarrow> (principal_discovery_error, search_provider) result" where
  "choose_provider providers i = (case filter (\<lambda>v. sv_provider_id v = i) providers of
      [] \<Rightarrow> Inl (UnknownProvider i)
    | [v] \<Rightarrow> Inr v
    | _ \<Rightarrow> Inl (InvalidConfiguration (''duplicate search provider id `'' @ i @ ''`'')))"

definition selected_search_providers ::
  "search_provider list \<Rightarrow> string list \<Rightarrow> (principal_discovery_error, search_provider list) result" where
  "selected_search_providers providers ids =
     (if ids = [] then Inr providers else traverse (choose_provider providers) (sort_dedup ids))"

definition deduplicate_principals :: "principal_projection list \<Rightarrow> principal_projection list" where
  "deduplicate_principals ps =
     map snd (fold (\<lambda>p. btree_or_insert (identity_key p) p) ps [])"

text \<open>
  The tasks complete in an order of the scheduler's choice, each with the provider's answer or with the
  message of a failed task; the first error ends the search.
\<close>

fun join_pages ::
  "principal_search_query \<Rightarrow> (search_provider \<times> string option) list \<Rightarrow> (string \<times> principal_search_page) list \<Rightarrow>
   (principal_handler_error, (string \<times> principal_search_page) list) result" where
  "join_pages q [] pages = Inr pages"
| "join_pages q ((v, Some message) # ts) pages = Inl (Discovery (Task message))"
| "join_pages q ((v, None) # ts) pages =
     and_then (map_err Discovery (sv_discover v q)) (\<lambda>page. join_pages q ts (btree_insert (sv_provider_id v) page pages))"

definition aggregate_pages :: "principal_search_page list \<Rightarrow> principal_search_page" where
  "aggregate_pages pages =
     \<lparr>sp_principals = deduplicate_principals (concat (map sp_principals pages)),
      sp_next_cursors = fold (\<lambda>(k, c). btree_insert k c) (concat (map sp_next_cursors pages)) []\<rparr>"

definition search ::
  "'d principal_handler \<Rightarrow> (search_provider list \<Rightarrow> (search_provider \<times> string option) list) \<Rightarrow> principal_search_query \<Rightarrow>
   (principal_handler_error, principal_search_page) result" where
  "search h schedule q =
     and_then (map_err Discovery (validate_search_query q)) (\<lambda>_.
     if pn_federated h = [] then Inl ProviderUnavailable
     else and_then (map_err Discovery (selected_search_providers (pn_federated h) (sq_provider_ids q))) (\<lambda>chosen.
          and_then (join_pages q (schedule chosen) []) (\<lambda>pages.
            Inr (aggregate_pages (map snd pages)))))"

subsection \<open>Materialization and lifecycle\<close>

fun map_storage_error :: "storage_error \<Rightarrow> principal_handler_error" where
  "map_storage_error PrincipalIdentityConflict = IdentityConflict"
| "map_storage_error (PrincipalReferenced i) = Referenced i"
| "map_storage_error e = PrincipalStorage e"

definition upsert_external ::
  "'d principal_handler \<Rightarrow> 'd \<Rightarrow> string \<Rightarrow> principal_projection \<Rightarrow>
   (principal_handler_error, iam_principal_info) result \<times> 'd" where
  "upsert_external h d i e =
     (let p = \<lparr>pi_id = i, pi_kind = pj_kind e, pi_display_name = pj_display_name e,
               pi_status = (if pj_enabled e then Active else Disabled), pi_authorization_state = []\<rparr>;
          identity = \<lparr>ii_principal_id = i, ii_provider = er_provider_id (pj_reference e),
               ii_issuer = er_issuer (pj_reference e), ii_subject = er_external_id (pj_reference e),
               ii_claims = JObject (pj_attributes e)\<rparr>;
          (r, d') = pr_upsert_with_identity (pn_repository h) d p identity
      in (map_err map_storage_error r, d'))"

definition materialize ::
  "'d principal_handler \<Rightarrow> 'd \<Rightarrow> principal_materialization_request \<Rightarrow>
   (principal_handler_error, iam_principal_info) result \<times> 'd" where
  "materialize h d request =
     (case find (\<lambda>v. sv_provider_id v = er_provider_id (mr_reference request)) (pn_federated h) of
        None \<Rightarrow> (Inl (Discovery (UnknownProvider (er_provider_id (mr_reference request)))), d)
      | Some v \<Rightarrow>
          (case sv_resolve v (mr_reference request) of
             Inl e \<Rightarrow> (Inl (Discovery e), d)
           | Inr None \<Rightarrow> (Inl (PrincipalNotFound (er_external_id (mr_reference request))), d)
           | Inr (Some e) \<Rightarrow> upsert_external h d (mr_principal_id request) e))"

definition handler_get ::
  "'d principal_handler \<Rightarrow> 'd \<Rightarrow> string \<Rightarrow> (principal_handler_error, iam_principal_info option) result" where
  "handler_get h d i = map_err PrincipalStorage (pr_get (pn_repository h) d i)"

definition list_page ::
  "'d principal_handler \<Rightarrow> 'd \<Rightarrow> string \<Rightarrow> string option \<Rightarrow> u32 \<Rightarrow> (principal_handler_error, principal_page) result" where
  "list_page h d query after_id limit0 =
     (let limit = max 1 (min limit0 100) in
      and_then (map_err PrincipalStorage (pr_list (pn_repository h) d query after_id limit)) (\<lambda>items.
        Inr \<lparr>pp_total = length items, pp_items = items,
             pp_next_cursor = (if length items = unat limit then (if items = [] then None else Some (pi_id (last items))) else None)\<rparr>))"

definition update_status ::
  "'d principal_handler \<Rightarrow> 'd \<Rightarrow> string \<Rightarrow> principal_status \<Rightarrow>
   (principal_handler_error, iam_principal_info) result \<times> 'd" where
  "update_status h d i status =
     (let (r, d') = pr_update_status (pn_repository h) d i status
      in (and_then (map_err PrincipalStorage r) (ok_or (PrincipalNotFound i)), d'))"

definition delete_principal ::
  "'d principal_handler \<Rightarrow> 'd \<Rightarrow> string \<Rightarrow> (principal_handler_error, unit) result \<times> 'd" where
  "delete_principal h d i =
     (let (r, d') = pr_delete (pn_repository h) d i
      in (and_then (map_err map_storage_error r) (\<lambda>deleted. if deleted then Inr () else Inl (PrincipalNotFound i)), d'))"

section \<open>Lemmas\<close>

subsection \<open>Ordered maps\<close>

definition btree :: "('k::linorder \<times> 'v) list \<Rightarrow> bool" where
  "btree m \<longleftrightarrow> sorted_wrt (<) (map fst m)"

lemma btree_Nil [simp]: "btree []"
  by (simp add: btree_def)

lemma btree_insert_keys: "fst ` set (btree_insert k v m) = insert k (fst ` set m)"
  by (induction k v m rule: btree_insert.induct) (simp_all add: insert_commute)

lemma btree_insert_btree: "btree m \<Longrightarrow> btree (btree_insert k v m)"
proof (induction m)
  case (Cons e m)
  obtain l w where e: "e = (l, w)" by fastforce
  have "fst ` set (btree_insert k v m) = insert k (fst ` set m)" by (rule btree_insert_keys)
  then show ?case using Cons by (force simp: e btree_def)
qed (simp add: btree_def)

lemma map_of_btree_insert: "btree m \<Longrightarrow> map_of (btree_insert k v m) = (map_of m)(k \<mapsto> v)"
proof (induction m)
  case (Cons e m)
  then show ?case by (cases e) (auto simp: btree_def fun_eq_iff)
qed simp

lemma btree_distinct: "btree m \<Longrightarrow> distinct (map fst m)"
  by (simp add: btree_def strict_sorted_iff)

lemma btree_unique:
  assumes "btree m" "btree m'" "map_of m = map_of m'"
  shows "m = m'"
proof -
  have set: "set m = set m'"
    using assms by (metis btree_distinct set_map_of_compr)
  moreover have "sorted (map fst m)" "sorted (map fst m')"
    using assms unfolding btree_def by (auto intro: strict_sorted_imp_sorted)
  ultimately show ?thesis
    using assms btree_distinct [of m] btree_distinct [of m']
    by (intro map_sorted_distinct_set_unique [of fst]) (auto simp: distinct_map)
qed

lemma btree_or_insert_btree: "btree m \<Longrightarrow> btree (btree_or_insert k v m)"
  by (simp add: btree_or_insert_def btree_insert_btree)

lemma map_of_btree_or_insert:
  "btree m \<Longrightarrow> map_of (btree_or_insert k v m) = (if map_of m k = None then (map_of m)(k \<mapsto> v) else map_of m)"
  by (simp add: btree_or_insert_def map_of_btree_insert map_of_eq_None_iff)

subsection \<open>Deduplication\<close>

lemma fold_or_insert:
  assumes "btree m"
  shows "btree (fold (\<lambda>p. btree_or_insert (f p) p) ps m)"
    and "map_of (fold (\<lambda>p. btree_or_insert (f p) p) ps m) k =
      (case map_of m k of Some v \<Rightarrow> Some v | None \<Rightarrow> find (\<lambda>p. f p = k) ps)"
  using assms
  by (induction ps arbitrary: m)
    (auto simp: btree_or_insert_btree map_of_btree_or_insert split: option.splits)

lemma find_key: "find (\<lambda>q. f q = k) ps = Some p \<Longrightarrow> f p = k"
  by (induction ps) (auto split: if_splits)

lemma unique_entries:
  "(k, p) \<in> set (fold (\<lambda>p. btree_or_insert (f p) p) ps []) \<longleftrightarrow> find (\<lambda>q. f q = k) ps = Some p"
proof -
  let ?m = "fold (\<lambda>p. btree_or_insert (f p) p) ps []"
  have "(k, p) \<in> set ?m \<longleftrightarrow> map_of ?m k = Some p"
    using btree_distinct [OF fold_or_insert(1) [of "[]" f ps]] by simp
  then show ?thesis using fold_or_insert(2) [of "[]" f ps k] by simp
qed

lemma deduplicate_principals_first:
  "p \<in> set (deduplicate_principals ps) \<longleftrightarrow> find (\<lambda>q. identity_key q = identity_key p) ps = Some p"
proof -
  have "p \<in> set (deduplicate_principals ps) \<longleftrightarrow> (\<exists>k. find (\<lambda>q. identity_key q = k) ps = Some p)"
    by (simp add: deduplicate_principals_def image_iff Bex_def unique_entries)
  moreover have "find (\<lambda>q. identity_key q = identity_key p) ps = Some p"
    if "find (\<lambda>q. identity_key q = k) ps = Some p" for k
    using that find_key [OF that] by simp
  ultimately show ?thesis by blast
qed

lemma deduplicate_principals_keys: "sorted_wrt (<) (map identity_key (deduplicate_principals ps))"
proof -
  let ?m = "fold (\<lambda>p. btree_or_insert (identity_key p) p) ps []"
  have "identity_key v = k" if "(k, v) \<in> set ?m" for k v
    using that unfolding unique_entries by (rule find_key)
  then have "map (\<lambda>e. identity_key (snd e)) ?m = map fst ?m" by (intro map_cong refl) (simp add: split_paired_all)
  moreover have "btree ?m" by (rule fold_or_insert(1)) simp
  moreover have "map identity_key (deduplicate_principals ps) = map (\<lambda>e. identity_key (snd e)) ?m"
    by (simp add: deduplicate_principals_def)
  ultimately show ?thesis by (simp only: btree_def)
qed

subsection \<open>Search\<close>

definition all_answer :: "principal_search_query \<Rightarrow> search_provider list \<Rightarrow> bool" where
  "all_answer q vs \<longleftrightarrow> (\<forall>v \<in> set vs. \<exists>page. sv_discover v q = Inr page)"

definition page_of :: "principal_search_query \<Rightarrow> search_provider \<Rightarrow> principal_search_page" where
  "page_of q v = projr (sv_discover v q)"

lemma join_pages_fold:
  "all_answer q vs \<Longrightarrow> join_pages q (map (\<lambda>v. (v, None)) vs) pages =
     Inr (fold (\<lambda>v. btree_insert (sv_provider_id v) (page_of q v)) vs pages)"
  by (induction vs arbitrary: pages) (auto simp: all_answer_def page_of_def)

lemma fold_insert_map_of:
  assumes "btree m"
  shows "btree (fold (\<lambda>v. btree_insert (f v) (g v)) vs m)"
    and "map_of (fold (\<lambda>v. btree_insert (f v) (g v)) vs m) = map_of m ++ map_of (rev (map (\<lambda>v. (f v, g v)) vs))"
  using assms
  by (induction vs arbitrary: m) (simp_all add: btree_insert_btree map_of_btree_insert map_add_upd_left dom_map_of_conv_image_fst)

lemma complete_schedule:
  assumes "mset ts = mset (map (\<lambda>v. (v, None)) vs)"
  obtains us where "ts = map (\<lambda>v. (v, None)) us" "mset us = mset vs"
proof
  have "set ts = set (map (\<lambda>v. (v, None)) vs)" using assms by (rule mset_eq_setD)
  then have "\<forall>t \<in> set ts. snd t = None" by auto
  then show ts: "ts = map (\<lambda>v. (v, None)) (map fst ts)" by (auto simp: comp_def intro!: map_idI [symmetric])
  show "mset (map fst ts) = mset vs"
    using arg_cong [OF assms, of "image_mset fst"] by (simp add: comp_def flip: mset_map)
qed

lemma all_answer_mset: "mset us = mset vs \<Longrightarrow> all_answer q us = all_answer q vs"
  by (simp add: all_answer_def) (metis mset_eq_setD)

lemma map_of_rev_mset:
  assumes "mset us = mset vs" "distinct (map f vs)"
  shows "map_of (rev (map (\<lambda>v. (f v, g v)) us)) = map_of (map (\<lambda>v. (f v, g v)) vs)"
proof -
  have "mset (map f us) = mset (map f vs)" using assms(1) by (simp add: mset_map)
  then have d: "distinct (map f us)" using assms(2) by (rule mset_eq_imp_distinct_iff [THEN iffD2])
  moreover have "set us = set vs" using assms(1) by (rule mset_eq_setD)
  ultimately show ?thesis using assms(2)
    by (intro map_of_inject_set [THEN iffD2]) (simp_all add: comp_def distinct_map inj_on_def rev_map [symmetric])
qed

lemma sorted_pages_btree: "distinct (map f vs) \<Longrightarrow> btree (map (\<lambda>v. (f v, g v)) (sort_key f vs))"
  by (simp add: btree_def comp_def strict_sorted_iff distinct_map)

lemma pages_in_order:
  assumes "all_answer q vs" "distinct (map sv_provider_id vs)" "mset ts = mset (map (\<lambda>v. (v, None)) vs)"
  shows "join_pages q ts [] = Inr (map (\<lambda>v. (sv_provider_id v, page_of q v)) (sort_key sv_provider_id vs))"
proof -
  obtain us where us: "ts = map (\<lambda>v. (v, None)) us" "mset us = mset vs" using complete_schedule [OF assms(3)] .
  let ?m = "fold (\<lambda>v. btree_insert (sv_provider_id v) (page_of q v)) us []"
  have "map_of ?m = map_of (map (\<lambda>v. (sv_provider_id v, page_of q v)) (sort_key sv_provider_id vs))"
    using map_of_rev_mset [of us "sort_key sv_provider_id vs" sv_provider_id "page_of q"] us(2) assms(2)
    by (simp add: fold_insert_map_of(2) distinct_map)
  then have "?m = map (\<lambda>v. (sv_provider_id v, page_of q v)) (sort_key sv_provider_id vs)"
    using sorted_pages_btree [OF assms(2), of "page_of q"] by (intro btree_unique fold_insert_map_of(1)) simp_all
  moreover have "all_answer q us" using assms(1) all_answer_mset [OF us(2)] by simp
  ultimately show ?thesis unfolding us(1) by (simp add: join_pages_fold)
qed

lemma choose_provider_Inr:
  assumes "choose_provider vs i = Inr v"
  shows "v \<in> set vs \<and> sv_provider_id v = i"
proof -
  have "filter (\<lambda>v. sv_provider_id v = i) vs = [v]"
    using assms by (auto simp: choose_provider_def split: list.splits)
  then have "v \<in> set (filter (\<lambda>v. sv_provider_id v = i) vs)" by simp
  then show ?thesis by simp
qed

lemma selected_search_providers_distinct:
  assumes "distinct (map sv_provider_id vs)" "selected_search_providers vs ids = Inr chosen"
  shows "set chosen \<subseteq> set vs \<and> distinct (map sv_provider_id chosen) \<and>
    (ids \<noteq> [] \<longrightarrow> map sv_provider_id chosen = sort_dedup ids)"
proof (cases "ids = []")
  case False
  then have "list_all2 (\<lambda>i v. choose_provider vs i = Inr v) (sort_dedup ids) chosen"
    using assms(2) by (simp add: selected_search_providers_def traverse_eq_Inr)
  then have "list_all2 (\<lambda>i v. v \<in> set vs \<and> sv_provider_id v = i) (sort_dedup ids) chosen"
    by (rule list_all2_mono) (rule choose_provider_Inr)
  then have "set chosen \<subseteq> set vs" "map sv_provider_id chosen = sort_dedup ids"
    by (auto simp: list_all2_conv_all_nth in_set_conv_nth intro!: nth_equalityI)
  then show ?thesis by simp
qed (use assms in \<open>auto simp: selected_search_providers_def\<close>)

lemma search_result:
  assumes "distinct (map sv_provider_id (pn_federated h))"
    and "\<And>vs. mset (schedule vs) = mset (map (\<lambda>v. (v, None)) vs)"
    and "all_answer q (pn_federated h)" "validate_search_query q = Inr ()" "pn_federated h \<noteq> []"
    and "selected_search_providers (pn_federated h) (sq_provider_ids q) = Inr chosen"
  shows "search h schedule q = Inr (aggregate_pages (map (page_of q) (sort_key sv_provider_id chosen)))"
proof -
  have c: "set chosen \<subseteq> set (pn_federated h)" "distinct (map sv_provider_id chosen)"
    using selected_search_providers_distinct [OF assms(1,6)] by blast+
  then have "all_answer q chosen" using assms(3) by (auto simp: all_answer_def)
  from pages_in_order [OF this c(2) assms(2)] show ?thesis
    using assms(4-6) by (simp add: search_def comp_def)
qed

subsection \<open>Resolution\<close>

definition active_group :: "iam_principal_info option \<Rightarrow> bool" where
  "active_group x \<longleftrightarrow> (case x of None \<Rightarrow> False | Some p \<Rightarrow> pi_status p = Active \<and> pi_kind p = Group)"

lemma set_resolve_groups:
  "(\<And>g p. projected g = Some p \<Longrightarrow> pi_id p = g) \<Longrightarrow>
   set (resolve_groups projected gs) = {g \<in> set gs. active_group (projected g)}"
proof (induction gs arbitrary: projected)
  case (Cons g gs)
  show ?case
  proof (cases "projected g")
    case (Some p)
    have "set (resolve_groups (projected(g := None)) gs) = {x \<in> set gs. active_group ((projected(g := None)) x)}"
      by (rule Cons.IH) (simp add: Cons.prems split: if_splits)
    then have "set (resolve_groups (projected(g := None)) gs) = {x \<in> set gs. x \<noteq> g \<and> active_group (projected x)}"
      by (auto simp: active_group_def split: if_splits)
    then have "set (resolve_groups projected (g # gs)) =
        (if active_group (projected g) then {g} else {}) \<union> {x \<in> set gs. x \<noteq> g \<and> active_group (projected x)}"
      using Cons.prems [OF Some]
      by (cases "pi_status p = Active \<and> pi_kind p = Group") (auto simp: Some active_group_def)
    then show ?thesis by auto
  qed (use Cons in \<open>auto simp: active_group_def\<close>)
qed simp

lemma project_by_id_Some:
  assumes "distinct (map pi_id ps)"
  shows "project_by_id ps i = Some p \<longleftrightarrow> p \<in> set ps \<and> pi_id p = i"
proof -
  have d: "distinct (map fst (rev (map (\<lambda>p. (pi_id p, p)) ps)))" using assms by (simp add: rev_map [symmetric] comp_def)
  show ?thesis unfolding project_by_id_def map_of_eq_Some_iff [OF d] by auto
qed

lemma sort_dedup_iff: "xs = sort_dedup ys \<longleftrightarrow> sorted xs \<and> distinct xs \<and> set xs = set ys"
proof
  assume "sorted xs \<and> distinct xs \<and> set xs = set ys"
  then show "xs = sort_dedup ys" by (intro sorted_distinct_set_unique) auto
qed simp

context principal_directory
begin

lemma project_by_id_at:
  assumes "ok d" "pr_find_by_ids repo d ids = Inr ps" "i \<in> set ids"
  shows "project_by_id ps i = at d i"
proof -
  obtain qs where qs: "pr_find_by_ids repo d ids = Inr qs" "distinct (map pi_id qs)"
    "set qs = {p. \<exists>i \<in> set ids. at d i = Some p}" using find_by_ids [OF assms(1), of ids] by blast
  have eq: "ps = qs" using qs(1) assms(2) by simp
  have "project_by_id ps i = Some p \<longleftrightarrow> at d i = Some p" for p
  proof -
    have "p \<in> set qs \<and> pi_id p = i \<longleftrightarrow> at d i = Some p"
      using qs(3) assms(3) at_id [OF assms(1)] by auto
    then show ?thesis unfolding eq project_by_id_Some [OF qs(2)] .
  qed
  then show ?thesis by (metis not_None_eq)
qed

lemma resolve_request_eq:
  assumes "ok d" "pn_repository h = repo"
  shows "resolve_request h d identity =
    (case at d (ap_principal_id identity) of
       None \<Rightarrow> Inl (PrincipalNotFound (ap_principal_id identity))
     | Some p \<Rightarrow>
         if pi_status p \<noteq> Active then Inl (PrincipalDisabled (ap_principal_id identity))
         else if pi_kind p \<noteq> ap_kind identity then Inl (KindMismatch (ap_principal_id identity))
         else Inr \<lparr>rp_principal_id = ap_principal_id identity,
           rp_group_principal_ids = sort_dedup
             (filter (\<lambda>g. g \<noteq> ap_principal_id identity \<and> active_group (at d g)) (ap_stable_group_ids identity))\<rparr>)"
proof -
  let ?ids = "ap_principal_id identity # ap_stable_group_ids identity"
  obtain ps where ps: "pr_find_by_ids repo d ?ids = Inr ps" "distinct (map pi_id ps)"
    using find_by_ids [OF assms(1), of ?ids] by blast
  let ?m = "(project_by_id ps)(ap_principal_id identity := None)"
  have proj: "project_by_id ps i = at d i" if "i \<in> set ?ids" for i
    using project_by_id_at [OF assms(1) ps(1) that] .
  have "set (resolve_groups ?m (ap_stable_group_ids identity)) =
      {g \<in> set (ap_stable_group_ids identity). active_group (?m g)}"
    by (rule set_resolve_groups) (auto simp: project_by_id_Some [OF ps(2)] split: if_splits)
  also have "\<dots> = set (filter (\<lambda>g. g \<noteq> ap_principal_id identity \<and> active_group (at d g)) (ap_stable_group_ids identity))"
    using proj by (auto simp: active_group_def)
  finally have "sort_dedup (resolve_groups ?m (ap_stable_group_ids identity)) =
      sort_dedup (filter (\<lambda>g. g \<noteq> ap_principal_id identity \<and> active_group (at d g)) (ap_stable_group_ids identity))"
    by (rule sort_dedup_cong)
  moreover have "pi_id p = ap_principal_id identity" if "at d (ap_principal_id identity) = Some p" for p
    using at_id [OF assms(1) that] .
  ultimately show ?thesis
    using ps(1) proj [of "ap_principal_id identity"] assms(2)
    by (simp add: resolve_request_def Let_def split: option.splits)
qed

lemma resolve_request_cong:
  assumes "ok d" "ok d'" "pn_repository h = repo"
    and "\<And>i. i \<in> insert (ap_principal_id identity) (set (ap_stable_group_ids identity)) \<Longrightarrow> at d' i = at d i"
  shows "resolve_request h d' identity = resolve_request h d identity"
proof -
  have "filter (\<lambda>g. g \<noteq> ap_principal_id identity \<and> active_group (at d' g)) (ap_stable_group_ids identity) =
      filter (\<lambda>g. g \<noteq> ap_principal_id identity \<and> active_group (at d g)) (ap_stable_group_ids identity)"
    by (rule filter_cong) (auto simp: assms(4))
  moreover have "at d' (ap_principal_id identity) = at d (ap_principal_id identity)" by (rule assms(4)) simp
  ultimately show ?thesis
    unfolding resolve_request_eq [OF assms(1,3)] resolve_request_eq [OF assms(2,3)] by (simp only:)
qed

lemma revoked_effect:
  assumes "ok d" "pn_repository h = repo"
    and "update_status h d i Disabled = (Inr p, d') \<or> delete_principal h d i = (Inr u, d')"
  shows "ok d'" "at d' = (at d)(i := at d' i)" "\<And>q. at d' i = Some q \<Longrightarrow> pi_status q = Disabled"
proof -
  consider (status) r where "pr_update_status repo d i Disabled = (r, d')"
    | (delete) b where "pr_delete repo d i = (Inr b, d')"
    using assms(2,3)
    by (auto simp: update_status_def delete_principal_def result_simps split: prod.splits)
  then show "ok d'" "at d' = (at d)(i := at d' i)" "\<And>q. at d' i = Some q \<Longrightarrow> pi_status q = Disabled"
    by (cases; use status [OF assms(1), of i Disabled _ d'] delete [OF assms(1), of i _ d'] in fastforce)+
qed

lemma revoked_principal:
  assumes "ok d" "pn_repository h = repo"
    and "update_status h d i Disabled = (Inr p, d') \<or> delete_principal h d i = (Inr u, d')"
  shows "ap_principal_id identity = i \<Longrightarrow> \<exists>e. resolve_request h d' identity = Inl e"
    and "resolve_request h d' identity = Inr r \<Longrightarrow> i \<notin> set (rp_group_principal_ids r)"
    and "ap_principal_id identity \<noteq> i \<Longrightarrow> i \<notin> set (ap_stable_group_ids identity) \<Longrightarrow>
      resolve_request h d' identity = resolve_request h d identity"
proof -
  note eff = revoked_effect [OF assms]
  show "ap_principal_id identity = i \<Longrightarrow> \<exists>e. resolve_request h d' identity = Inl e"
    using eff(3) by (auto simp: resolve_request_eq [OF eff(1) assms(2)] split: option.splits)
  show "resolve_request h d' identity = Inr r \<Longrightarrow> i \<notin> set (rp_group_principal_ids r)"
    using eff(3) by (auto simp: resolve_request_eq [OF eff(1) assms(2)] active_group_def split: option.splits if_splits)
  show "resolve_request h d' identity = resolve_request h d identity"
    if "ap_principal_id identity \<noteq> i" "i \<notin> set (ap_stable_group_ids identity)"
    using that by (intro resolve_request_cong [OF assms(1) eff(1) assms(2)]) (subst eff(2), auto)
qed

end

subsection \<open>Listing\<close>

text \<open>A client that follows the cursors of a listing, for at most \<open>n\<close> further pages.\<close>

fun walk_pages ::
  "nat \<Rightarrow> 'd principal_handler \<Rightarrow> 'd \<Rightarrow> string \<Rightarrow> string option \<Rightarrow> u32 \<Rightarrow> iam_principal_info list list option" where
  "walk_pages n h d query after limit =
     (case list_page h d query after limit of
        Inl e \<Rightarrow> None
      | Inr page \<Rightarrow> (case pp_next_cursor page of
            None \<Rightarrow> Some [pp_items page]
          | Some c \<Rightarrow> (case n of 0 \<Rightarrow> None
              | Suc m \<Rightarrow> map_option ((#) (pp_items page)) (walk_pages m h d query (Some c) limit))))"

declare walk_pages.simps [simp del]

lemma filter_after_last:
  assumes "sorted (map f xs)" "distinct (map f xs)" "k < length xs"
  shows "filter (\<lambda>x. f x > f (xs ! k)) xs = drop (Suc k) xs"
proof -
  have lt: "f (xs ! i) < f (xs ! j)" if "i < j" "j < length xs" for i j
  proof -
    have "sorted_wrt (<) (map f xs)" using assms by (simp add: strict_sorted_iff)
    then show ?thesis using that by (auto simp: sorted_wrt_iff_nth_less)
  qed
  have "filter (\<lambda>x. f x > f (xs ! k)) (take (Suc k) xs) = []"
    unfolding filter_empty_conv using assms(3) lt by (fastforce simp: in_set_conv_nth less_Suc_eq dest: order.asym)
  moreover have "filter (\<lambda>x. f x > f (xs ! k)) (drop (Suc k) xs) = drop (Suc k) xs"
    unfolding filter_id_conv using assms(3) lt by (auto simp: in_set_conv_nth)
  ultimately show ?thesis using append_take_drop_id [of "Suc k" xs] by (metis append_Nil filter_append)
qed

lemma nonempty_above: "s \<noteq> [] \<Longrightarrow> [] < s" for s :: string
  by (cases s) simp_all

lemma last_take: "0 < k \<Longrightarrow> k \<le> length xs \<Longrightarrow> last (take k xs) = xs ! (k - 1)"
  by (subst last_conv_nth) auto

context principal_directory
begin

abbreviation rest :: "'d \<Rightarrow> string \<Rightarrow> string option \<Rightarrow> iam_principal_info list" where
  "rest d query after \<equiv> filter (\<lambda>p. pi_id p > (case after of None \<Rightarrow> [] | Some a \<Rightarrow> a)) (selected d query)"

lemma limit_positive: "0 < unat (max 1 (min n 100) :: u32)"
proof -
  have "1 \<le> (max 1 (min n 100) :: u32)" by simp
  then have "unat (1 :: u32) \<le> unat (max 1 (min n 100) :: u32)" by (simp only: word_le_nat_alt)
  then show ?thesis by simp
qed

lemma rest_cursor:
  assumes "ok d" "0 < k" "k \<le> length (rest d query after)"
  shows "rest d query (Some (pi_id (last (take k (rest d query after))))) = drop k (rest d query after)"
proof -
  let ?xs = "rest d query after"
  let ?c = "pi_id (?xs ! (k - 1))"
  have "?xs ! (k - 1) \<in> set ?xs" using assms(2,3) by (intro nth_mem) linarith
  then have above: "?c > (case after of None \<Rightarrow> [] | Some a \<Rightarrow> a)" by simp
  have "filter (\<lambda>p. pi_id p > ?c) (selected d query) = filter (\<lambda>p. pi_id p > ?c) ?xs"
    unfolding filter_filter by (rule filter_cong) (use above order.strict_trans in blast)+
  also have "\<dots> = drop (Suc (k - 1)) ?xs"
    using selected_order [OF assms(1), of query] assms(2,3)
    by (intro filter_after_last) (auto simp: sorted_filter distinct_map_filter)
  finally show ?thesis using assms(2,3) by (simp add: last_take)
qed

lemma walk_pages_rest:
  assumes "ok d" "pn_repository h = repo"
  shows "length (rest d query after) \<le> n \<Longrightarrow>
    \<exists>pages. walk_pages n h d query after limit = Some pages \<and> concat pages = rest d query after"
proof (induction n arbitrary: after)
  case 0
  then show ?case using limit_positive [of limit]
    by (simp add: walk_pages.simps list_page_def list [OF assms(1)] assms(2) Let_def)
next
  case (Suc n)
  let ?xs = "rest d query after"
  let ?k = "unat (max 1 (min limit 100))"
  have items: "pr_list repo d query after (max 1 (min limit 100)) = Inr (take ?k ?xs)"
    by (simp add: list [OF assms(1)] min.absorb1 max_def min_def)
  show ?case
  proof (cases "?k \<le> length ?xs")
    case True
    let ?c = "Some (pi_id (last (take ?k ?xs)))"
    have drop: "rest d query ?c = drop ?k ?xs" using rest_cursor [OF assms(1) limit_positive True] .
    then have "length (rest d query ?c) \<le> n" using Suc.prems limit_positive [of limit]
      by (simp only: length_drop)
    then obtain pages where "walk_pages n h d query ?c limit = Some pages" "concat pages = drop ?k ?xs"
      using Suc.IH drop by metis
    moreover have "take ?k ?xs \<noteq> []" "length (take ?k ?xs) = ?k" using True limit_positive [of limit] by auto
    ultimately show ?thesis
      by (simp add: walk_pages.simps [of "Suc n"] list_page_def assms(2) Let_def items del: length_take)
  next
    case False
    then show ?thesis by (simp add: walk_pages.simps [of "Suc n"] list_page_def assms(2) Let_def items)
  qed
qed

lemma walk_all_pages:
  assumes "ok d" "pn_repository h = repo"
  shows "\<exists>pages. walk_pages (length (selected d query)) h d query None limit = Some pages \<and> concat pages = selected d query"
proof -
  have "rest d query None = selected d query" using selected_ids [OF assms(1)] by (auto simp: filter_id_conv nonempty_above)
  then show ?thesis using walk_pages_rest [OF assms, where query = query and after = None] by simp
qed

end

section \<open>The handler over SQLite\<close>

definition sqlite_principal_handler :: "search_provider list \<Rightarrow> database principal_handler" where
  "sqlite_principal_handler vs = \<lparr>pn_repository = sqlite_principal_repository, pn_federated = vs\<rparr>"

lemma sqlite_principal_handler_simps [simp]:
  "pn_repository (sqlite_principal_handler vs) = sqlite_principal_repository"
  "pn_federated (sqlite_principal_handler vs) = vs"
  by (simp_all add: sqlite_principal_handler_def)

text \<open>A write of one principal: nothing happens, or the entry of that principal is the one returned.\<close>

definition writes_principal :: "database \<Rightarrow> string \<Rightarrow> ('e, iam_principal_info) result \<times> database \<Rightarrow> bool" where
  "writes_principal db i run \<longleftrightarrow> readable_db (snd run) \<and>
     (case fst run of Inl e \<Rightarrow> snd run = db | Inr p \<Rightarrow> pi_id p = i \<and> sqlite_at (snd run) = (sqlite_at db)(i \<mapsto> p))"

lemma upsert_external_writes:
  assumes "readable_db db"
  shows "writes_principal db i (upsert_external (sqlite_principal_handler vs) db i e)"
proof -
  define p where "p = \<lparr>pi_id = i, pi_kind = pj_kind e, pi_display_name = pj_display_name e,
    pi_status = (if pj_enabled e then Active else Disabled), pi_authorization_state = []\<rparr>"
  define ident where "ident = \<lparr>ii_principal_id = i, ii_provider = er_provider_id (pj_reference e),
    ii_issuer = er_issuer (pj_reference e), ii_subject = er_external_id (pj_reference e),
    ii_claims = JObject (pj_attributes e)\<rparr>"
  obtain r d' where run: "pr_upsert_with_identity sqlite_principal_repository db p ident = (r, d')" by fastforce
  have "upsert_external (sqlite_principal_handler vs) db i e = (map_err map_storage_error r, d')"
    using run by (simp add: upsert_external_def p_def ident_def)
  moreover have "pi_id p = i" by (simp add: p_def)
  ultimately show ?thesis using sqlite_dir.upsert [OF assms run] by (cases r) (auto simp: writes_principal_def)
qed

lemma materialize_writes:
  "readable_db db \<Longrightarrow> writes_principal db (mr_principal_id request) (materialize (sqlite_principal_handler vs) db request)"
  by (simp add: materialize_def upsert_external_writes split: option.split sum.split) (simp add: writes_principal_def)

section \<open>An example directory\<close>

definition directory_principal :: "string \<Rightarrow> principal_kind \<Rightarrow> principal_status \<Rightarrow> iam_principal_info" where
  "directory_principal i k st = \<lparr>pi_id = i, pi_kind = k, pi_display_name = i, pi_status = st, pi_authorization_state = []\<rparr>"

definition sample_directory :: database where
  "sample_directory = empty_db\<lparr>db_principals := map principal_to_row
     [directory_principal ''user:ann'' User Active, directory_principal ''group:ops'' Group Active,
      directory_principal ''group:old'' Group Disabled]\<rparr>"

definition ann_claims :: authenticated_principal_context where
  "ann_claims = \<lparr>ap_principal_id = ''user:ann'', ap_kind = User,
     ap_stable_group_ids = [''group:old'', ''group:ops'', ''group:other''], ap_trusted_claims = Map.empty, ap_acr = None, ap_amr = []\<rparr>"

definition directory_provider :: "string \<Rightarrow> search_provider" where
  "directory_provider i = \<lparr>sv_provider = ''FED_LDAP'', sv_provider_id = i,
     sv_discover = (\<lambda>q. Inr \<lparr>sp_principals = [\<lparr>pj_reference = \<lparr>er_provider_id = i, er_issuer = ''corp'', er_external_id = sq_text q\<rparr>,
        pj_kind = User, pj_display_name = sq_text q, pj_username = None, pj_email = None, pj_enabled = True, pj_attributes = []\<rparr>],
        sp_next_cursors = [(i, ''1'')]\<rparr>),
     sv_resolve = (\<lambda>_. Inr None)\<rparr>"

lemma readable_sample_directory: "readable_db sample_directory"
  by (simp add: readable_db_def valid_db_def sample_directory_def empty_db_def principal_to_row_def directory_principal_def
    principal_checks_def sql_trim_def)

section \<open>Properties\<close>

lemma sqlite_resolution:
  assumes "readable_db db"
  shows "resolve_request (sqlite_principal_handler vs) db identity = Inr r \<longleftrightarrow>
    (\<exists>p. sqlite_at db (ap_principal_id identity) = Some p \<and> pi_status p = Active \<and> pi_kind p = ap_kind identity) \<and>
    rp_principal_id r = ap_principal_id identity \<and>
    sorted (rp_group_principal_ids r) \<and> distinct (rp_group_principal_ids r) \<and>
    set (rp_group_principal_ids r) = {g \<in> set (ap_stable_group_ids identity). g \<noteq> ap_principal_id identity \<and>
      (\<exists>p. sqlite_at db g = Some p \<and> pi_status p = Active \<and> pi_kind p = Group)}"
proof -
  let ?pid = "ap_principal_id identity"
  let ?gs = "filter (\<lambda>g. g \<noteq> ?pid \<and> active_group (sqlite_at db g)) (ap_stable_group_ids identity)"
  let ?S = "{g \<in> set (ap_stable_group_ids identity). g \<noteq> ?pid \<and>
      (\<exists>p. sqlite_at db g = Some p \<and> pi_status p = Active \<and> pi_kind p = Group)}"
  have S: "set ?gs = ?S" by (auto simp: active_group_def split: option.splits)
  have "xs = sort_dedup ?gs \<longleftrightarrow> sorted xs \<and> distinct xs \<and> set xs = ?S" for xs
    unfolding sort_dedup_iff S ..
  then have "r = \<lparr>rp_principal_id = ?pid, rp_group_principal_ids = sort_dedup ?gs\<rparr> \<longleftrightarrow>
      rp_principal_id r = ?pid \<and> sorted (rp_group_principal_ids r) \<and> distinct (rp_group_principal_ids r) \<and>
      set (rp_group_principal_ids r) = ?S"
    by (cases r) simp
  moreover have "resolve_request (sqlite_principal_handler vs) db identity = Inr r \<longleftrightarrow>
      (\<exists>p. sqlite_at db ?pid = Some p \<and> pi_status p = Active \<and> pi_kind p = ap_kind identity) \<and>
      r = \<lparr>rp_principal_id = ?pid, rp_group_principal_ids = sort_dedup ?gs\<rparr>"
    unfolding sqlite_dir.resolve_request_eq [OF assms sqlite_principal_handler_simps(1)]
    by (auto split: option.splits)
  ultimately show ?thesis by simp
qed

text \<open>
  Claim C8. Resolution of a request fails closed and trusts only durable state: it succeeds exactly
  for a principal that is stored, active and of the authenticated kind, and it grants exactly those of
  the claimed groups, other than the caller, that are stored as active groups, in order and without
  repetition.
\<close>

theorem resolution_fails_closed:
  assumes "readable_db db"
  shows "resolve_request (sqlite_principal_handler vs) db identity = Inr r \<longleftrightarrow>
    (\<exists>p. sqlite_at db (ap_principal_id identity) = Some p \<and> pi_status p = Active \<and> pi_kind p = ap_kind identity) \<and>
    rp_principal_id r = ap_principal_id identity \<and>
    sorted (rp_group_principal_ids r) \<and> distinct (rp_group_principal_ids r) \<and>
    set (rp_group_principal_ids r) = {g \<in> set (ap_stable_group_ids identity). g \<noteq> ap_principal_id identity \<and>
      (\<exists>p. sqlite_at db g = Some p \<and> pi_status p = Active \<and> pi_kind p = Group)}"
  using assms by (rule sqlite_resolution)

lemma sample_resolution:
  "resolve_request (sqlite_principal_handler []) sample_directory ann_claims =
     Inr \<lparr>rp_principal_id = ''user:ann'', rp_group_principal_ids = [''group:ops'']\<rparr>"
  by code_simp

theorem resolution_fails_closed_witness:
  "\<exists>p. sqlite_at sample_directory ''user:ann'' = Some p \<and> pi_status p = Active \<and> pi_kind p = User"
  using resolution_fails_closed [OF readable_sample_directory, THEN iffD1, OF sample_resolution]
  by (simp add: ann_claims_def)

text \<open>
  Disabling or deleting a principal takes effect at once: requests of that principal are
  refused, it is no longer granted as a group, and requests that do not mention it are resolved as before.
\<close>

theorem revocation_takes_effect:
  assumes "readable_db db"
    and "update_status (sqlite_principal_handler vs) db i Disabled = (Inr p, db') \<or>
      delete_principal (sqlite_principal_handler vs) db i = (Inr u, db')"
  shows "(ap_principal_id identity = i \<longrightarrow> (\<exists>e. resolve_request (sqlite_principal_handler vs) db' identity = Inl e)) \<and>
    (\<forall>r. resolve_request (sqlite_principal_handler vs) db' identity = Inr r \<longrightarrow> i \<notin> set (rp_group_principal_ids r)) \<and>
    (ap_principal_id identity \<noteq> i \<and> i \<notin> set (ap_stable_group_ids identity) \<longrightarrow>
      resolve_request (sqlite_principal_handler vs) db' identity = resolve_request (sqlite_principal_handler vs) db identity)"
  using sqlite_dir.revoked_principal [OF assms(1) sqlite_principal_handler_simps(1) assms(2)] by blast

theorem revocation_takes_effect_witness:
  "\<exists>e. resolve_request (sqlite_principal_handler [])
     (snd (update_status (sqlite_principal_handler []) sample_directory ''user:ann'' Disabled)) ann_claims = Inl e"
proof -
  let ?run = "update_status (sqlite_principal_handler []) sample_directory ''user:ann'' Disabled"
  have "fst ?run = Inr (directory_principal ''user:ann'' User Disabled)" by code_simp
  then have "?run = (Inr (directory_principal ''user:ann'' User Disabled), snd ?run)" by (metis prod.collapse)
  from revocation_takes_effect [OF readable_sample_directory disjI1 [OF this], where identity = ann_claims]
  show ?thesis by (simp add: ann_claims_def)
qed

text \<open>
  Claim C33. Following the cursors of a listing ends and meets every principal whose name or identifier
  has the given prefix exactly once, in the order of the identifiers, for every page size the client asks for.
\<close>

theorem listing_is_complete:
  assumes "readable_db db"
  shows "\<exists>pages. walk_pages (length (db_principals db)) (sqlite_principal_handler vs) db query None limit = Some pages \<and>
    sorted (map pi_id (concat pages)) \<and> distinct (map pi_id (concat pages)) \<and>
    set (concat pages) = {p. \<exists>r \<in> set (db_principals db). principal_matches_query query r \<and> principal_from_row r = Inr p}"
proof -
  have "length (sqlite_dir.rest db query None) \<le> length (db_principals db)"
    by (intro order.trans [OF length_filter_le]) (simp add: sqlite_selected_def)
  then obtain pages where pages: "walk_pages (length (db_principals db)) (sqlite_principal_handler vs) db query None limit = Some pages"
    "concat pages = sqlite_dir.rest db query None"
    using sqlite_dir.walk_pages_rest [OF assms sqlite_principal_handler_simps(1)] by blast
  have all: "sqlite_dir.rest db query None = sqlite_selected db query"
    using sqlite_selected_ids [OF assms] by (auto simp: filter_id_conv nonempty_above)
  have "set (sqlite_selected db query) =
      {p. \<exists>r \<in> set (db_principals db). principal_matches_query query r \<and> principal_from_row r = Inr p}"
    using readable_rows(1) [OF assms] by (auto simp: sqlite_selected_def)
  then show ?thesis
    using pages(1) sqlite_selected_order [OF assms, of query] unfolding pages(2) [unfolded all, symmetric] by blast
qed

theorem listing_is_complete_witness:
  "\<exists>pages. walk_pages 3 (sqlite_principal_handler []) sample_directory ''group:'' None 1 = Some pages \<and>
     sorted (map pi_id (concat pages)) \<and> distinct (map pi_id (concat pages))"
proof -
  have "length (db_principals sample_directory) = 3" by (simp add: sample_directory_def)
  then show ?thesis
    using listing_is_complete [OF readable_sample_directory, where vs = "[]" and query = "''group:''" and limit = 1] by auto
qed

text \<open>
  A federated search does not depend on the order in which the providers answer, and it
  returns each external identity that some provider found exactly once, in the order of the identity keys.
\<close>

theorem search_independent_of_schedule:
  assumes "distinct (map sv_provider_id (pn_federated h))" "all_answer q (pn_federated h)"
    and "\<And>vs. mset (schedule vs) = mset (map (\<lambda>v. (v, None)) vs)"
    and "\<And>vs. mset (schedule' vs) = mset (map (\<lambda>v. (v, None)) vs)"
    and "search h schedule q = Inr page"
  shows "search h schedule' q = Inr page \<and> sorted_wrt (<) (map identity_key (sp_principals page)) \<and>
    (\<exists>chosen. selected_search_providers (pn_federated h) (sq_provider_ids q) = Inr chosen \<and>
      identity_key ` set (sp_principals page) = (\<Union>v \<in> set chosen. identity_key ` set (sp_principals (page_of q v))))"
proof -
  obtain chosen where chosen: "validate_search_query q = Inr ()" "pn_federated h \<noteq> []"
    "selected_search_providers (pn_federated h) (sq_provider_ids q) = Inr chosen"
    using assms(5) by (auto simp: search_def result_simps split: if_splits)
  let ?pages = "map (page_of q) (sort_key sv_provider_id chosen)"
  have page: "page = aggregate_pages ?pages" "search h schedule' q = Inr page"
    using search_result [OF assms(1,3,2) chosen] search_result [OF assms(1,4,2) chosen] assms(5) by simp_all
  let ?all = "concat (map sp_principals ?pages)"
  have "identity_key ` set (deduplicate_principals ps) = identity_key ` set ps" for ps
  proof (intro equalityI subsetI)
    fix k assume "k \<in> identity_key ` set ps"
    then obtain p where p: "find (\<lambda>q. identity_key q = k) ps = Some p"
      by (cases "find (\<lambda>q. identity_key q = k) ps") (auto simp: find_None_iff)
    have "identity_key p = k" by (rule find_key [OF p])
    with p show "k \<in> identity_key ` set (deduplicate_principals ps)"
      using deduplicate_principals_first by (metis image_eqI)
  next
    fix k assume "k \<in> identity_key ` set (deduplicate_principals ps)"
    then show "k \<in> identity_key ` set ps"
      by (auto simp: deduplicate_principals_first find_Some_iff simp flip: in_set_conv_nth)
  qed
  then have "identity_key ` set (sp_principals page) = identity_key ` set ?all"
    by (simp add: page(1) aggregate_pages_def)
  moreover have "sorted_wrt (<) (map identity_key (sp_principals page))"
    by (simp add: page(1) aggregate_pages_def deduplicate_principals_keys)
  ultimately show ?thesis using page(2) chosen(3) by (auto simp: image_UN)
qed

theorem search_independent_of_schedule_witness:
  "search \<lparr>pn_repository = sqlite_principal_repository, pn_federated = [directory_provider ''b'', directory_provider ''a'']\<rparr>
     (\<lambda>vs. rev (map (\<lambda>v. (v, None)) vs)) (principal_search_query_new ''ann'') =
   search \<lparr>pn_repository = sqlite_principal_repository, pn_federated = [directory_provider ''b'', directory_provider ''a'']\<rparr>
     (map (\<lambda>v. (v, None))) (principal_search_query_new ''ann'')"
proof -
  let ?h = "\<lparr>pn_repository = sqlite_principal_repository, pn_federated = [directory_provider ''b'', directory_provider ''a'']\<rparr>"
  let ?q = "principal_search_query_new ''ann''"
  have "\<exists>page. search ?h (map (\<lambda>v. (v, None))) ?q = Inr page" 
    by (simp add: search_def validate_search_query_def principal_search_query_new_def selected_search_providers_def directory_provider_def
      trim_def trim_start_def trim_end_def white_space_def strip_all.simps)
  then obtain page where page: "search ?h (map (\<lambda>v. (v, None))) ?q = Inr page" by blast
  have "all_answer ?q (pn_federated ?h)" by (simp add: all_answer_def directory_provider_def)
  then have "search ?h (\<lambda>vs. rev (map (\<lambda>v. (v, None)) vs)) ?q = Inr page"
    using search_independent_of_schedule [OF _ _ _ _ page, where schedule' = "\<lambda>vs. rev (map (\<lambda>v. (v, None)) vs)"]
    by (simp add: directory_provider_def)
  then show ?thesis using page by simp
qed

end
