(* ===== verification/Memory_Cache.thy ===== *)
theory Memory_Cache
  imports Prelude
begin

text \<open>
  The in-process cache (\<open>common/src/cache/memory.rs\<close>) behind the traits \<open>ICache\<close> (values that are
  stored once and taken once) and \<open>IAuthorizationCache\<close> (scopes that are read many times, with least
  recently used eviction). A hash map is the list of its entries in iteration order; the readings of the
  clock are arguments, two where the code reads it twice. The locale \<open>one_time_cache\<close> is what clients of
  \<open>ICache\<close> rely on; its lemmas give that a stored value is taken at most once.
\<close>

section \<open>State\<close>

record memory_cache_properties =
  mp_initial_capacity :: nat
  mp_max_capacity :: nat
  mp_ttl :: duration
  mp_eviction_policy :: string

record memory_scope =
  ms_encoded_context :: string
  ms_expires_at_epoch_seconds :: u64
  ms_last_access_sequence :: u64

record memory_value =
  mv_value :: string
  mv_expires_at_epoch_seconds :: u64

record memory_scopes =
  sc_entries :: "(string \<times> memory_scope) list"
  sc_next_access_sequence :: u64

record memory_cache =
  mc_scopes :: memory_scopes
  mc_values :: "(string \<times> memory_value) list"
  mc_max_capacity :: nat
  mc_default_ttl :: duration

section \<open>Operations\<close>

definition memory_cache_new :: "memory_cache_properties \<Rightarrow> memory_cache" where
  "memory_cache_new config =
     \<lparr>mc_scopes = \<lparr>sc_entries = [], sc_next_access_sequence = 0\<rparr>, mc_values = [],
      mc_max_capacity = mp_max_capacity config, mc_default_ttl = mp_ttl config\<rparr>"

definition expires_at :: "memory_cache \<Rightarrow> u64 \<Rightarrow> duration \<Rightarrow> u64" where
  "expires_at c now ttl = saturating_add now (max (as_secs (duration_min ttl (mc_default_ttl c))) 1)"

text \<open>\<open>HashMap::remove\<close> and \<open>HashMap::insert\<close>, which replaces the value of an existing key.\<close>

definition remove_entry :: "string \<Rightarrow> (string \<times> 'v) list \<Rightarrow> (string \<times> 'v) list" where
  "remove_entry k m = filter (\<lambda>e. fst e \<noteq> k) m"

definition insert_entry :: "string \<Rightarrow> 'v \<Rightarrow> (string \<times> 'v) list \<Rightarrow> (string \<times> 'v) list" where
  "insert_entry k v m = (if k \<in> fst ` set m then map (\<lambda>e. if fst e = k then (k, v) else e) m else m @ [(k, v)])"

definition retain_values :: "u64 \<Rightarrow> (string \<times> memory_value) list \<Rightarrow> (string \<times> memory_value) list" where
  "retain_values now m = filter (\<lambda>e. mv_expires_at_epoch_seconds (snd e) > now) m"

definition retain_scopes :: "u64 \<Rightarrow> (string \<times> memory_scope) list \<Rightarrow> (string \<times> memory_scope) list" where
  "retain_scopes now m = filter (\<lambda>e. ms_expires_at_epoch_seconds (snd e) > now) m"

definition put_if_absent :: "u64 \<Rightarrow> u64 \<Rightarrow> string \<Rightarrow> string \<Rightarrow> duration \<Rightarrow> memory_cache \<Rightarrow> bool \<times> memory_cache" where
  "put_if_absent now now' key v ttl c =
     (let values = retain_values now (mc_values c) in
      if key \<in> fst ` set values then (False, c\<lparr>mc_values := values\<rparr>)
      else (True, c\<lparr>mc_values := insert_entry key
              \<lparr>mv_value = v, mv_expires_at_epoch_seconds = expires_at c now' ttl\<rparr> values\<rparr>))"

definition take_value :: "u64 \<Rightarrow> string \<Rightarrow> memory_cache \<Rightarrow> string option \<times> memory_cache" where
  "take_value now key c =
     (let values = retain_values now (mc_values c)
      in (map_option mv_value (map_of values key), c\<lparr>mc_values := remove_entry key values\<rparr>))"

text \<open>\<open>min_by_key\<close> returns the first of several minimal elements.\<close>

fun min_entry :: "(string \<times> memory_scope) list \<Rightarrow> (string \<times> memory_scope) option" where
  "min_entry [] = None"
| "min_entry (e # m) = (case min_entry m of
      None \<Rightarrow> Some e
    | Some f \<Rightarrow> Some (if ms_last_access_sequence (snd f) < ms_last_access_sequence (snd e) then f else e))"

definition make_room :: "nat \<Rightarrow> string \<Rightarrow> (string \<times> memory_scope) list \<Rightarrow> (string \<times> memory_scope) list" where
  "make_room capacity token entries =
     (if token \<notin> fst ` set entries \<and> capacity \<le> length entries then
        (case min_entry entries of None \<Rightarrow> entries | Some (k, _) \<Rightarrow> remove_entry k entries)
      else entries)"

definition store_scope :: "u64 \<Rightarrow> u64 \<Rightarrow> string \<Rightarrow> string \<Rightarrow> duration \<Rightarrow> memory_cache \<Rightarrow> memory_cache" where
  "store_scope now now' token encoded ttl c =
     (let entries = make_room (mc_max_capacity c) token (retain_scopes now (sc_entries (mc_scopes c)));
          sequence = saturating_add (sc_next_access_sequence (mc_scopes c)) 1
      in c\<lparr>mc_scopes := \<lparr>sc_entries = insert_entry token
             \<lparr>ms_encoded_context = encoded, ms_expires_at_epoch_seconds = expires_at c now' ttl,
              ms_last_access_sequence = sequence\<rparr> entries,
           sc_next_access_sequence = sequence\<rparr>\<rparr>)"

definition load_scope :: "u64 \<Rightarrow> string \<Rightarrow> memory_cache \<Rightarrow> string option \<times> memory_cache" where
  "load_scope now token c =
     (let entries = retain_scopes now (sc_entries (mc_scopes c));
          sequence = saturating_add (sc_next_access_sequence (mc_scopes c)) 1;
          touch = (\<lambda>e. if fst e = token then (token, (snd e)\<lparr>ms_last_access_sequence := sequence\<rparr>) else e)
      in (map_option ms_encoded_context (map_of entries token),
          c\<lparr>mc_scopes := \<lparr>sc_entries = map touch entries, sc_next_access_sequence = sequence\<rparr>\<rparr>))"

section \<open>Interface of one-time values\<close>

text \<open>
  In terms of the value \<open>live c t k\<close> that a cache holds for a key at a time: storing succeeds exactly when
  there is none and then the value lives at most until its expiry, taking returns it and removes it.
\<close>

locale one_time_cache =
  fixes put :: "u64 \<Rightarrow> u64 \<Rightarrow> string \<Rightarrow> string \<Rightarrow> duration \<Rightarrow> 'c \<Rightarrow> bool \<times> 'c"
    and pull :: "u64 \<Rightarrow> string \<Rightarrow> 'c \<Rightarrow> string option \<times> 'c"
    and live :: "'c \<Rightarrow> u64 \<Rightarrow> string \<Rightarrow> string option"
    and deadline :: "'c \<Rightarrow> u64 \<Rightarrow> duration \<Rightarrow> u64"
    and ok :: "'c \<Rightarrow> bool"
  assumes live_earlier: "ok c \<Longrightarrow> live c t k = Some v \<Longrightarrow> t' \<le> t \<Longrightarrow> live c t' k = Some v"
    and put_ok: "ok c \<Longrightarrow> ok (snd (put t t' k v ttl c))"
    and take_ok: "ok c \<Longrightarrow> ok (snd (pull t k c))"
    and put_result: "ok c \<Longrightarrow> fst (put t t' k v ttl c) \<longleftrightarrow> live c t k = None"
    and put_live: "ok c \<Longrightarrow> t \<le> t'' \<Longrightarrow> live (snd (put t t' k v ttl c)) t'' j =
      (if j = k \<and> live c t k = None then (if t'' < deadline c t' ttl then Some v else None) else live c t'' j)"
    and take_result: "ok c \<Longrightarrow> fst (pull t k c) = live c t k"
    and take_live: "ok c \<Longrightarrow> t \<le> t'' \<Longrightarrow> live (snd (pull t k c)) t'' j = (if j = k then None else live c t'' j)"
begin

lemma take_twice: "ok c \<Longrightarrow> t \<le> t' \<Longrightarrow> fst (pull t' k (snd (pull t k c))) = None"
  by (simp add: take_result take_ok take_live)

lemma put_take:
  "ok c \<Longrightarrow> fst (put t t' k v ttl c) \<Longrightarrow> t \<le> t'' \<Longrightarrow>
   fst (pull t'' k (snd (put t t' k v ttl c))) = (if t'' < deadline c t' ttl then Some v else None)"
  by (simp add: put_result take_result put_ok put_live)

lemma put_twice:
  "ok c \<Longrightarrow> fst (put t t' k v ttl c) \<Longrightarrow> t \<le> u \<Longrightarrow> u < deadline c t' ttl \<Longrightarrow>
   \<not> fst (put u u' k w ttl' (snd (put t t' k v ttl c)))"
  by (simp add: put_result put_ok put_live)

end

text \<open>A run of cache operations, each with its readings of the clock, and what it reports for one key.\<close>

datatype cache_op = PutOp u64 u64 string string duration | TakeOp u64 string

fun op_time :: "cache_op \<Rightarrow> u64" where
  "op_time (PutOp t t' k v ttl) = t"
| "op_time (TakeOp t k) = t"

fun puts_and_takes ::
  "(u64 \<Rightarrow> u64 \<Rightarrow> string \<Rightarrow> string \<Rightarrow> duration \<Rightarrow> 'c \<Rightarrow> bool \<times> 'c) \<Rightarrow> (u64 \<Rightarrow> string \<Rightarrow> 'c \<Rightarrow> string option \<times> 'c) \<Rightarrow>
   string \<Rightarrow> cache_op list \<Rightarrow> 'c \<Rightarrow> nat \<times> nat" where
  "puts_and_takes put pull key [] c = (0, 0)"
| "puts_and_takes put pull key (PutOp t t' k v ttl # ops) c =
     (let (done_it, c') = put t t' k v ttl c; (p, n) = puts_and_takes put pull key ops c'
      in (if k = key \<and> done_it then Suc p else p, n))"
| "puts_and_takes put pull key (TakeOp t k # ops) c =
     (let (r, c') = pull t k c; (p, n) = puts_and_takes put pull key ops c'
      in (p, if k = key \<and> r \<noteq> None then Suc n else n))"

context one_time_cache
begin

lemma takes_bounded_by_puts:
  assumes "ok c" "sorted (map op_time ops)" "\<And>t. t \<in> op_time ` set ops \<Longrightarrow> t0 \<le> t"
  shows "snd (puts_and_takes put pull key ops c) \<le>
    fst (puts_and_takes put pull key ops c) + (if live c t0 key = None then 0 else 1)"
  using assms
proof (induction ops arbitrary: c t0)
  case (Cons x ops)
  have rest: "sorted (map op_time ops)" "\<And>t. t \<in> op_time ` set ops \<Longrightarrow> op_time x \<le> t" "t0 \<le> op_time x"
    using Cons.prems by auto
  have dead: "live c (op_time x) key = None" if "live c t0 key = None"
    using live_earlier [OF Cons.prems(1) _ rest(3)] that by (metis option.exhaust)
  show ?case
  proof (cases x)
    case (PutOp t t' k v ttl)
    let ?c = "snd (put t t' k v ttl c)"
    have "snd (puts_and_takes put pull key ops ?c) \<le>
        fst (puts_and_takes put pull key ops ?c) + (if live ?c t key = None then 0 else 1)"
      using Cons.IH [OF put_ok rest(1)] Cons.prems(1) rest(2) PutOp by simp
    moreover have "live ?c t key = None" if "live c t key = None" "\<not> (k = key \<and> fst (put t t' k v ttl c))"
      using that by (auto simp: put_live [OF Cons.prems(1)] put_result [OF Cons.prems(1)] split: if_splits)
    ultimately show ?thesis using dead PutOp by (fastforce simp: Let_def case_prod_beta split: if_splits)
  next
    case (TakeOp t k)
    let ?c = "snd (pull t k c)"
    have "snd (puts_and_takes put pull key ops ?c) \<le>
        fst (puts_and_takes put pull key ops ?c) + (if live ?c t key = None then 0 else 1)"
      using Cons.IH [OF take_ok rest(1)] Cons.prems(1) rest(2) TakeOp by simp
    moreover have "live ?c t key = (if key = k then None else live c t key)"
      by (simp add: take_live [OF Cons.prems(1)])
    ultimately show ?thesis using dead TakeOp take_result [OF Cons.prems(1), of t k]
      by (fastforce simp: Let_def case_prod_beta split: if_splits)
  qed
qed simp

end

section \<open>The memory cache as a one-time cache\<close>

definition live_value :: "memory_cache \<Rightarrow> u64 \<Rightarrow> string \<Rightarrow> string option" where
  "live_value c t k = map_option mv_value (map_of (retain_values t (mc_values c)) k)"

definition distinct_values :: "memory_cache \<Rightarrow> bool" where
  "distinct_values c \<longleftrightarrow> distinct (map fst (mc_values c))"

lemma map_of_filter_value:
  "distinct (map fst m) \<Longrightarrow> map_of (filter (\<lambda>e. P (snd e)) m) k = (case map_of m k of Some v \<Rightarrow> if P v then Some v else None | None \<Rightarrow> None)"
proof (induction m)
  case (Cons e m)
  then have "map_of m (fst e) = None" by (simp add: map_of_eq_None_iff)
  then show ?case using Cons by (cases e) auto
qed simp

lemma map_of_remove_entry: "map_of (remove_entry k m) = (map_of m)(k := None)"
  by (induction m) (auto simp: remove_entry_def fun_eq_iff)

lemma map_of_insert_entry: "map_of (insert_entry k v m) = (map_of m)(k \<mapsto> v)"
proof -
  have "map_of (map (\<lambda>e. if fst e = k then (k, v) else e) m) j =
      (if j = k then (if k \<in> fst ` set m then Some v else None) else map_of m j)" for j
  proof (induction m)
    case (Cons e m)
    then show ?case by (cases "fst e = k"; cases "j = k") auto
  qed simp
  moreover have "map_of (m @ [(k, v)]) j = ((map_of m)(k \<mapsto> v)) j" if "k \<notin> fst ` set m" for j
    using that map_of_eq_None_iff [of m k] by (simp add: map_add_def split: option.splits)
  ultimately show ?thesis by (auto simp: insert_entry_def fun_eq_iff)
qed

lemma keys_insert_entry:
  "map fst (insert_entry k v m) = (if k \<in> fst ` set m then map fst m else map fst m @ [k])"
  by (auto simp: insert_entry_def)

lemma distinct_retain [simp]:
  "distinct (map fst m) \<Longrightarrow> distinct (map fst (retain_values t m))"
  "distinct (map fst n) \<Longrightarrow> distinct (map fst (retain_scopes t n))"
  "distinct (map fst l) \<Longrightarrow> distinct (map fst (remove_entry k l))"
  by (simp_all add: retain_values_def retain_scopes_def remove_entry_def distinct_map_filter)

lemma distinct_insert_entry [simp]: "distinct (map fst m) \<Longrightarrow> distinct (map fst (insert_entry k v m))"
  by (auto simp: keys_insert_entry)

lemma retained_lookup:
  "distinct_values c \<Longrightarrow> map_of (retain_values t (mc_values c)) k =
     (case map_of (mc_values c) k of Some v \<Rightarrow> if t < mv_expires_at_epoch_seconds v then Some v else None | None \<Rightarrow> None)"
  unfolding retain_values_def distinct_values_def
  by (rule map_of_filter_value [where P = "\<lambda>v. t < mv_expires_at_epoch_seconds v"])

lemma live_value_eq:
  "distinct_values c \<Longrightarrow> live_value c t k =
     (case map_of (mc_values c) k of Some v \<Rightarrow> if t < mv_expires_at_epoch_seconds v then Some (mv_value v) else None | None \<Rightarrow> None)"
  by (simp add: live_value_def retained_lookup split: option.splits)

lemma key_retained: "k \<in> fst ` set m \<longleftrightarrow> map_of m k \<noteq> None"
  by (simp add: map_of_eq_None_iff)

interpretation memory: one_time_cache put_if_absent take_value live_value expires_at distinct_values
proof
  fix c t t' t'' k j v ttl assume ok: "distinct_values c"
  then show ok_put: "distinct_values (snd (put_if_absent t t' k v ttl c))"
    and ok_take: "distinct_values (snd (take_value t k c))"
    by (auto simp: distinct_values_def put_if_absent_def take_value_def Let_def)
  show "live_value c t k = Some v \<Longrightarrow> t' \<le> t \<Longrightarrow> live_value c t' k = Some v"
    by (auto simp: live_value_eq [OF ok] split: option.splits if_splits)
  show "fst (put_if_absent t t' k v ttl c) \<longleftrightarrow> live_value c t k = None"
    by (auto simp: put_if_absent_def Let_def live_value_def key_retained)
  show "fst (take_value t k c) = live_value c t k"
    by (simp add: take_value_def live_value_def Let_def)
  assume later: "t \<le> t''"
  show "live_value (snd (take_value t k c)) t'' j = (if j = k then None else live_value c t'' j)"
    using later unfolding live_value_eq [OF ok_take] live_value_eq [OF ok]
    by (auto simp: take_value_def Let_def map_of_remove_entry
      retained_lookup [OF ok] split: option.splits)
  show "live_value (snd (put_if_absent t t' k v ttl c)) t'' j =
      (if j = k \<and> live_value c t k = None then (if t'' < expires_at c t' ttl then Some v else None) else live_value c t'' j)"
  proof (cases "k \<in> fst ` set (retain_values t (mc_values c))")
    case True
    then have "live_value c t k \<noteq> None" by (auto simp: live_value_def key_retained)
    then show ?thesis
      using True later unfolding live_value_eq [OF ok_put] live_value_eq [OF ok] by (auto simp: put_if_absent_def Let_def
        retained_lookup [OF ok] split: option.splits)
  next
    case False
    then have "live_value c t k = None" by (auto simp: live_value_def key_retained)
    then show ?thesis
      using False later unfolding live_value_eq [OF ok_put] live_value_eq [OF ok] by (auto simp: put_if_absent_def Let_def
        map_of_insert_entry retained_lookup [OF ok] split: option.splits)
  qed
qed

section \<open>Scopes\<close>

definition scopes_wf :: "memory_cache \<Rightarrow> bool" where
  "scopes_wf c \<longleftrightarrow> distinct (map fst (sc_entries (mc_scopes c))) \<and>
     (\<forall>e \<in> set (sc_entries (mc_scopes c)). ms_last_access_sequence (snd e) \<le> sc_next_access_sequence (mc_scopes c)) \<and>
     length (sc_entries (mc_scopes c)) \<le> max 1 (mc_max_capacity c)"

datatype scope_op = StoreScope u64 u64 string string duration | LoadScope u64 string

fun run_scope_op :: "scope_op \<Rightarrow> memory_cache \<Rightarrow> memory_cache" where
  "run_scope_op (StoreScope t t' k v ttl) c = store_scope t t' k v ttl c"
| "run_scope_op (LoadScope t k) c = snd (load_scope t k c)"

fun scope_op_time :: "scope_op \<Rightarrow> u64" where
  "scope_op_time (StoreScope t t' k v ttl) = t"
| "scope_op_time (LoadScope t k) = t"

fun stores_key :: "string \<Rightarrow> scope_op \<Rightarrow> bool" where
  "stores_key key (StoreScope t t' k v ttl) \<longleftrightarrow> k = key"
| "stores_key key (LoadScope t k) \<longleftrightarrow> False"

lemma min_entry_None: "min_entry m = None \<longleftrightarrow> m = []"
  by (cases m) (auto split: option.splits)

lemma min_entry_Some: "min_entry m = Some e \<Longrightarrow> e \<in> set m \<and> (\<forall>f \<in> set m. ms_last_access_sequence (snd e) \<le> ms_last_access_sequence (snd f))"
  by (induction m arbitrary: e) (auto simp: min_entry_None split: option.splits if_splits intro: order.trans)

lemma set_make_room: "set (make_room n k m) \<subseteq> set m"
  by (auto simp: make_room_def remove_entry_def split: option.splits)

lemma distinct_make_room: "distinct (map fst m) \<Longrightarrow> distinct (map fst (make_room n k m))"
  by (simp add: make_room_def split: option.splits prod.splits)

lemma set_insert_entry: "set (insert_entry k v m) \<subseteq> insert (k, v) (set m)"
  by (auto simp: insert_entry_def)

lemma length_insert_entry: "length (insert_entry k v m) = (if k \<in> fst ` set m then length m else Suc (length m))"
  by (simp add: insert_entry_def)

lemma length_remove_entry: "k \<in> fst ` set m \<Longrightarrow> length (remove_entry k m) < length m"
  by (auto simp: remove_entry_def intro: length_filter_less)

lemma room_capacity:
  assumes "length m \<le> max 1 n"
  shows "length (insert_entry k v (make_room n k m)) \<le> max 1 n"
proof (cases "k \<notin> fst ` set m \<and> n \<le> length m \<and> m \<noteq> []")
  case True
  then obtain j s where min: "min_entry m = Some (j, s)" by (metis min_entry_None not_None_eq surj_pair)
  then have "j \<in> fst ` set m" using min_entry_Some by force
  then have "length (remove_entry j m) < length m" by (rule length_remove_entry)
  then show ?thesis using True min assms by (auto simp: make_room_def length_insert_entry)
next
  case False
  then show ?thesis using assms by (auto simp: make_room_def length_insert_entry split: option.splits)
qed

lemma scopes_wf_new: "scopes_wf (memory_cache_new config)"
  by (simp add: scopes_wf_def memory_cache_new_def)

lemma sequence_next:
  "scopes_wf c \<Longrightarrow> e \<in> set (sc_entries (mc_scopes c)) \<Longrightarrow>
   ms_last_access_sequence (snd e) \<le> saturating_add (sc_next_access_sequence (mc_scopes c)) 1"
  using saturating_add_ge [of "sc_next_access_sequence (mc_scopes c)" 1] by (meson order.trans scopes_wf_def)

lemma scopes_wf_store:
  assumes "scopes_wf c"
  shows "scopes_wf (store_scope t t' k v ttl c)"
proof -
  let ?ret = "retain_scopes t (sc_entries (mc_scopes c))"
  let ?next = "saturating_add (sc_next_access_sequence (mc_scopes c)) 1"
  have ret: "set ?ret \<subseteq> set (sc_entries (mc_scopes c))" "distinct (map fst ?ret)" "length ?ret \<le> max 1 (mc_max_capacity c)"
    using assms by (auto simp: retain_scopes_def scopes_wf_def distinct_map_filter intro: order.trans [OF length_filter_le])
  have le: "ms_last_access_sequence (snd e) \<le> ?next" if "e \<in> set ?ret" for e
    using that ret(1) sequence_next [OF assms] by blast
  have "ms_last_access_sequence (snd e) \<le> ?next"
    if "e \<in> set (insert_entry k \<lparr>ms_encoded_context = v, ms_expires_at_epoch_seconds = x, ms_last_access_sequence = ?next\<rparr>
      (make_room (mc_max_capacity c) k ?ret))" for e x
  proof -
    have "e = (k, \<lparr>ms_encoded_context = v, ms_expires_at_epoch_seconds = x, ms_last_access_sequence = ?next\<rparr>) \<or> e \<in> set ?ret"
      using subsetD [OF set_insert_entry that] subsetD [OF set_make_room] by blast
    then show ?thesis by (elim disjE) (simp, rule le)
  qed
  then show ?thesis
    using distinct_make_room [OF ret(2)] room_capacity [OF ret(3)]
    by (simp add: scopes_wf_def store_scope_def Let_def)
qed

lemma scopes_wf_load:
  assumes "scopes_wf c"
  shows "scopes_wf (snd (load_scope t k c))"
proof -
  let ?ret = "retain_scopes t (sc_entries (mc_scopes c))"
  let ?next = "saturating_add (sc_next_access_sequence (mc_scopes c)) 1"
  let ?touch = "\<lambda>e. if fst e = k then (k, (snd e)\<lparr>ms_last_access_sequence := ?next\<rparr>) else e"
  have keys: "map fst (map ?touch m) = map fst m" for m by auto
  have "set ?ret \<subseteq> set (sc_entries (mc_scopes c))" by (auto simp: retain_scopes_def)
  then have seq: "ms_last_access_sequence (snd e) \<le> ?next" if "e \<in> set ?ret" for e
    using that sequence_next [OF assms] by blast
  have "distinct (map fst (map ?touch ?ret))" unfolding keys using assms by (simp add: scopes_wf_def)
  moreover have "length ?ret \<le> max 1 (mc_max_capacity c)"
    using assms by (auto simp: retain_scopes_def scopes_wf_def intro: order.trans [OF length_filter_le])
  ultimately show ?thesis using seq by (auto simp: scopes_wf_def load_scope_def Let_def simp del: map_map)
qed

lemma scopes_wf_op: "scopes_wf c \<Longrightarrow> scopes_wf (run_scope_op x c)"
  by (cases x) (simp_all add: scopes_wf_store scopes_wf_load)

subsection \<open>Survival of a recently used scope\<close>

text \<open>The entries that were used no earlier than a given entry.\<close>

definition newer :: "string \<Rightarrow> u64 \<Rightarrow> (string \<times> memory_scope) list \<Rightarrow> nat" where
  "newer k n m = length (filter (\<lambda>e. fst e \<noteq> k \<and> n \<le> ms_last_access_sequence (snd e)) m)"

definition holds :: "string \<Rightarrow> memory_scope \<Rightarrow> memory_cache \<Rightarrow> bool" where
  "holds k s c \<longleftrightarrow> distinct (map fst (sc_entries (mc_scopes c))) \<and> (k, s) \<in> set (sc_entries (mc_scopes c))"

lemma fresh_key: "distinct (map fst (e # m)) \<Longrightarrow> x \<in> set m \<Longrightarrow> fst x \<noteq> fst e"
  by (metis distinct.simps(2) image_eqI list.set_map list.simps(9))

lemma newer_filter: "newer k n (filter P m) \<le> newer k n m"
proof -
  have "length (filter Q (filter P m)) \<le> length (filter Q m)" for Q by (induction m) auto
  then show ?thesis by (simp add: newer_def)
qed

lemma newer_make_room: "newer k n (make_room c j m) \<le> newer k n m"
  by (auto simp: make_room_def remove_entry_def newer_filter split: option.splits)

lemma newer_map_one:
  "distinct (map fst m) \<Longrightarrow> (\<And>e. fst e \<noteq> j \<Longrightarrow> f e = e) \<Longrightarrow> newer k n (map f m) \<le> Suc (newer k n m)"
proof (induction m)
  case (Cons e m)
  show ?case
  proof (cases "fst e = j")
    case True
    have "map f m = m"
    proof (rule map_idI)
      fix x assume "x \<in> set m"
      then have "fst x \<noteq> j" using fresh_key [OF Cons.prems(1)] True by simp
      then show "f x = x" by (rule Cons.prems(2))
    qed
    then show ?thesis by (simp add: newer_def)
  qed (use Cons in \<open>simp add: newer_def\<close>)
qed (simp add: newer_def)

lemma newer_insert_entry: "distinct (map fst m) \<Longrightarrow> newer k n (insert_entry j v m) \<le> Suc (newer k n m)"
proof (cases "j \<in> fst ` set m")
  case True
  assume "distinct (map fst m)"
  then have "newer k n (map (\<lambda>e. if fst e = j then (j, v) else e) m) \<le> Suc (newer k n m)"
    by (rule newer_map_one [where j = j]) simp
  then show ?thesis using True by (simp add: insert_entry_def)
qed (simp add: insert_entry_def newer_def)

lemma room_keeps_recent:
  assumes "distinct (map fst m)" "(k, s) \<in> set m" "Suc (newer k (ms_last_access_sequence s) m) < n"
  shows "(k, s) \<in> set (make_room n j m)"
proof (cases "min_entry m")
  case (Some e)
  obtain i u where e: "e = (i, u)" by fastforce
  have "i \<noteq> k" if "n \<le> length m"
  proof
    assume "i = k"
    then have "u = s" using min_entry_Some [OF Some] assms(1,2) e by (auto dest: eq_key_imp_eq_value)
    then have "\<forall>f \<in> set m. ms_last_access_sequence s \<le> ms_last_access_sequence (snd f)"
      using min_entry_Some [OF Some] e by simp
    then have "newer k (ms_last_access_sequence s) m = length (filter (\<lambda>e. fst e \<noteq> k) m)"
      unfolding newer_def by (intro arg_cong [where f = length] filter_cong) auto
    moreover have "length m = Suc (length (filter (\<lambda>e. fst e \<noteq> k) m))" using assms(1,2)
    proof (induction m)
      case (Cons f m)
      show ?case
      proof (cases "fst f = k")
        case True
        then have "filter (\<lambda>e. fst e \<noteq> k) m = m" using fresh_key [OF Cons.prems(1)] by (simp add: filter_id_conv)
        then show ?thesis using True by simp
      qed (use Cons in auto)
    qed simp
    ultimately show False using assms(3) that by simp
  qed
  then show ?thesis using assms(2) Some e by (auto simp: make_room_def remove_entry_def)
qed (use assms(2) in \<open>simp add: make_room_def\<close>)

lemma retained_scope: "(k, s) \<in> set m \<Longrightarrow> t < ms_expires_at_epoch_seconds s \<Longrightarrow> (k, s) \<in> set (retain_scopes t m)"
  by (simp add: retain_scopes_def)

lemma newer_retain: "newer k n (retain_scopes t m) \<le> newer k n m"
  by (simp add: retain_scopes_def newer_filter)

lemma store_keeps_recent:
  assumes "holds k s c" "t < ms_expires_at_epoch_seconds s" "j \<noteq> k"
    and "Suc (newer k (ms_last_access_sequence s) (sc_entries (mc_scopes c))) < mc_max_capacity c"
  shows "holds k s (store_scope t t' j v ttl c) \<and>
    newer k (ms_last_access_sequence s) (sc_entries (mc_scopes (store_scope t t' j v ttl c))) \<le>
      Suc (newer k (ms_last_access_sequence s) (sc_entries (mc_scopes c)))"
proof -
  let ?m = "sc_entries (mc_scopes c)" and ?n = "ms_last_access_sequence s"
  let ?room = "make_room (mc_max_capacity c) j (retain_scopes t ?m)"
  have d: "distinct (map fst (retain_scopes t ?m))" using assms(1) by (simp add: holds_def)
  have "(k, s) \<in> set ?room"
    using assms newer_retain [of k ?n t ?m] by (intro room_keeps_recent d retained_scope) (auto simp: holds_def)
  then have "(k, s) \<in> set (insert_entry j w ?room)" for w using assms(3) by (auto simp: insert_entry_def image_iff)
  moreover have "newer k ?n (insert_entry j w ?room) \<le> Suc (newer k ?n ?m)" for w
    using newer_insert_entry [OF distinct_make_room [OF d], of k ?n j w "mc_max_capacity c" j]
      newer_make_room [of k ?n "mc_max_capacity c" j "retain_scopes t ?m"] newer_retain [of k ?n t ?m] by linarith
  ultimately show ?thesis
    using distinct_make_room [OF d] by (simp add: holds_def store_scope_def Let_def)
qed

lemma load_keeps_recent:
  assumes "holds k s c" "t < ms_expires_at_epoch_seconds s" "j \<noteq> k"
  shows "holds k s (snd (load_scope t j c)) \<and>
    newer k (ms_last_access_sequence s) (sc_entries (mc_scopes (snd (load_scope t j c)))) \<le>
      Suc (newer k (ms_last_access_sequence s) (sc_entries (mc_scopes c)))"
proof -
  let ?m = "sc_entries (mc_scopes c)" and ?n = "ms_last_access_sequence s"
  let ?f = "\<lambda>e. if fst e = j then (j, (snd e)\<lparr>ms_last_access_sequence := saturating_add (sc_next_access_sequence (mc_scopes c)) 1\<rparr>) else e"
  have d: "distinct (map fst (retain_scopes t ?m))" using assms(1) by (simp add: holds_def)
  have keys: "map fst (map ?f m) = map fst m" for m by auto
  have "(k, s) \<in> set (retain_scopes t ?m)" using assms(1,2) by (intro retained_scope) (auto simp: holds_def)
  then have "?f (k, s) \<in> set (map ?f (retain_scopes t ?m))" unfolding set_map by (rule imageI)
  then have "(k, s) \<in> set (map ?f (retain_scopes t ?m))" using assms(3) by simp
  moreover have "distinct (map fst (map ?f (retain_scopes t ?m)))" unfolding keys by (rule d)
  moreover have "newer k ?n (map ?f (retain_scopes t ?m)) \<le> Suc (newer k ?n ?m)"
    using newer_map_one [OF d, of j ?f k ?n] newer_retain [of k ?n t ?m] by simp
  ultimately show ?thesis by (simp add: holds_def load_scope_def Let_def del: map_map)
qed

text \<open>A load of the scope itself makes it the most recent one and keeps its text and expiry.\<close>

definition kept :: "string \<Rightarrow> string \<Rightarrow> u64 \<Rightarrow> nat \<Rightarrow> memory_cache \<Rightarrow> bool" where
  "kept k v deadline n c \<longleftrightarrow> (\<exists>s. holds k s c \<and> ms_encoded_context s = v \<and> ms_expires_at_epoch_seconds s = deadline \<and>
     newer k (ms_last_access_sequence s) (sc_entries (mc_scopes c)) \<le> n)"

lemma length_filter_mono: "(\<And>e. P e \<Longrightarrow> Q e) \<Longrightarrow> length (filter P m) \<le> length (filter Q m)"
  by (induction m) auto

lemma newer_mono: "a \<le> b \<Longrightarrow> newer k b m \<le> newer k a m"
  unfolding newer_def by (rule length_filter_mono) (auto intro: order.trans)

lemma load_touches:
  assumes "scopes_wf c" "holds k s c" "t < ms_expires_at_epoch_seconds s"
  shows "kept k (ms_encoded_context s) (ms_expires_at_epoch_seconds s)
    (newer k (ms_last_access_sequence s) (sc_entries (mc_scopes c))) (snd (load_scope t k c))"
proof -
  let ?m = "sc_entries (mc_scopes c)" and ?next = "saturating_add (sc_next_access_sequence (mc_scopes c)) 1"
  let ?f = "\<lambda>e. if fst e = k then (k, (snd e)\<lparr>ms_last_access_sequence := ?next\<rparr>) else e"
  let ?s = "s\<lparr>ms_last_access_sequence := ?next\<rparr>"
  have d: "distinct (map fst (retain_scopes t ?m))" using assms(2) by (simp add: holds_def)
  have keys: "map fst (map ?f m) = map fst m" for m by auto
  have mem: "(k, s) \<in> set ?m" using assms(2) by (simp add: holds_def)
  then have "(k, s) \<in> set (retain_scopes t ?m)" using assms(3) by (rule retained_scope)
  then have "?f (k, s) \<in> set (map ?f (retain_scopes t ?m))" unfolding set_map by (rule imageI)
  then have "(k, ?s) \<in> set (map ?f (retain_scopes t ?m))" by simp
  moreover have "distinct (map fst (map ?f (retain_scopes t ?m)))" unfolding keys by (rule d)
  moreover have "newer k ?next (map ?f (retain_scopes t ?m)) \<le> newer k (ms_last_access_sequence s) ?m"
  proof -
    have "newer k ?next (map ?f m) = newer k ?next m" for m by (induction m) (auto simp: newer_def)
    then show ?thesis
      using newer_retain [of k ?next t ?m] newer_mono [OF sequence_next [OF assms(1) mem], of k ?m] by simp
  qed
  ultimately show ?thesis unfolding kept_def
    by (intro exI [of _ ?s]) (simp add: holds_def load_scope_def Let_def del: map_map)
qed

lemma op_keeps:
  assumes "scopes_wf c" "kept k v deadline n c" "scope_op_time x < deadline" "\<not> stores_key k x" "Suc n < mc_max_capacity c"
  shows "kept k v deadline (Suc n) (run_scope_op x c)"
proof -
  obtain s where s: "holds k s c" "ms_encoded_context s = v" "ms_expires_at_epoch_seconds s = deadline"
    "newer k (ms_last_access_sequence s) (sc_entries (mc_scopes c)) \<le> n" using assms(2) by (auto simp: kept_def)
  show ?thesis
  proof (cases x)
    case (StoreScope t t' j w ttl)
    then show ?thesis unfolding kept_def
      using store_keeps_recent [OF s(1), of t j t' w ttl] assms(3-5) s(2-4) by (intro exI [of _ s]) auto
  next
    case (LoadScope t j)
    show ?thesis
    proof (cases "j = k")
      case True
      then show ?thesis using load_touches [OF assms(1) s(1), of t] assms(3) s LoadScope by (auto simp: kept_def)
    next
      case False
      then show ?thesis unfolding kept_def
        using load_keeps_recent [OF s(1), of t j] assms(3) s(2-4) LoadScope by (intro exI [of _ s]) auto
    qed
  qed
qed

lemma run_scope_op_capacity [simp]: "mc_max_capacity (run_scope_op x c) = mc_max_capacity c"
  by (cases x) (simp_all add: store_scope_def load_scope_def Let_def)

lemma ops_keep:
  "scopes_wf c \<Longrightarrow> kept k v deadline n c \<Longrightarrow> n + length ops < mc_max_capacity c \<Longrightarrow>
   (\<And>x. x \<in> set ops \<Longrightarrow> scope_op_time x < deadline \<and> \<not> stores_key k x) \<Longrightarrow>
   kept k v deadline (n + length ops) (fold run_scope_op ops c)"
proof (induction ops arbitrary: c n)
  case (Cons x ops)
  have "kept k v deadline (Suc n) (run_scope_op x c)" using Cons.prems by (intro op_keeps) auto
  from Cons.IH [OF scopes_wf_op [OF Cons.prems(1)] this] show ?case using Cons.prems by simp
qed simp

lemma store_kept:
  assumes "scopes_wf c" "sc_next_access_sequence (mc_scopes c) < - 1"
  shows "kept k v (expires_at c t' ttl) 0 (store_scope t t' k v ttl c)"
proof -
  let ?next = "saturating_add (sc_next_access_sequence (mc_scopes c)) 1"
  let ?s = "\<lparr>ms_encoded_context = v, ms_expires_at_epoch_seconds = expires_at c t' ttl, ms_last_access_sequence = ?next\<rparr>"
  let ?room = "make_room (mc_max_capacity c) k (retain_scopes t (sc_entries (mc_scopes c)))"
  have d: "distinct (map fst ?room)" using assms(1) by (intro distinct_make_room) (simp add: scopes_wf_def)
  have "unat (sc_next_access_sequence (mc_scopes c)) < 2 ^ 64 - 1"
    using assms(2) by (simp add: word_less_nat_alt unsigned_minus_1_eq_mask mask_eq_exp_minus_1)
  then have "sc_next_access_sequence (mc_scopes c) < ?next"
    unfolding word_less_nat_alt unat_saturating_add by simp
  then have old: "ms_last_access_sequence (snd e) < ?next" if "e \<in> set ?room" for e
    using that subsetD [OF set_make_room] assms(1) by (fastforce simp: scopes_wf_def retain_scopes_def)
  have "\<not> ?next \<le> ms_last_access_sequence (snd e)" if "e \<in> set (insert_entry k ?s ?room)" "fst e \<noteq> k" for e
    using subsetD [OF set_insert_entry that(1)] that(2) old [of e] by auto
  then have "newer k ?next (insert_entry k ?s ?room) = 0" by (auto simp: newer_def filter_empty_conv)
  moreover have "(k, ?s) \<in> set (insert_entry k ?s ?room)" by (force simp: insert_entry_def)
  ultimately show ?thesis unfolding kept_def using d
    by (intro exI [of _ ?s]) (simp add: holds_def store_scope_def Let_def)
qed

lemma load_kept:
  assumes "kept k v deadline n c"
  shows "fst (load_scope t k c) = (if t < deadline then Some v else None)"
proof -
  obtain s where s: "holds k s c" "ms_encoded_context s = v" "ms_expires_at_epoch_seconds s = deadline"
    using assms by (auto simp: kept_def)
  have "map_of (sc_entries (mc_scopes c)) k = Some s" using s(1) by (simp add: holds_def)
  then have "map_of (retain_scopes t (sc_entries (mc_scopes c))) k = (if t < deadline then Some s else None)"
    using s map_of_filter_value [where P = "\<lambda>s. t < ms_expires_at_epoch_seconds s" and m = "sc_entries (mc_scopes c)" and k = k]
    by (simp add: retain_scopes_def holds_def)
  then show ?thesis using s(2) by (simp add: load_scope_def Let_def)
qed

section \<open>Properties\<close>

text \<open>
  Replay protection: in every sequence of cache operations whose clock does not go back, a key is
  taken successfully at most as often as it was stored successfully before, and never again after a
  successful take without a new store.
\<close>

theorem one_time_values:
  assumes "sorted (map op_time ops)"
  shows "snd (puts_and_takes put_if_absent take_value key ops (memory_cache_new config)) \<le>
      fst (puts_and_takes put_if_absent take_value key ops (memory_cache_new config)) \<and>
    (\<forall>c t t'. distinct_values c \<and> t \<le> t' \<longrightarrow> fst (take_value t' key (snd (take_value t key c))) = None)"
proof -
  have "distinct_values (memory_cache_new config)" "live_value (memory_cache_new config) 0 key = None"
    by (simp_all add: distinct_values_def live_value_def memory_cache_new_def retain_values_def)
  then show ?thesis
    using memory.takes_bounded_by_puts [OF _ assms, of "memory_cache_new config" 0 key] memory.take_twice by simp
qed

theorem one_time_values_witness:
  "snd (puts_and_takes put_if_absent take_value ''n''
     [PutOp 5 5 ''n'' ''v'' (from_secs 60), TakeOp 6 ''n'', TakeOp 7 ''n'']
     (memory_cache_new \<lparr>mp_initial_capacity = 1, mp_max_capacity = 2, mp_ttl = from_secs 60, mp_eviction_policy = ''LRU''\<rparr>)) \<le> 1"
proof -
  let ?ops = "[PutOp 5 5 ''n'' ''v'' (from_secs 60), TakeOp 6 ''n'', TakeOp 7 ''n'']"
  let ?c = "\<lparr>mp_initial_capacity = 1, mp_max_capacity = 2, mp_ttl = from_secs 60, mp_eviction_policy = ''LRU''\<rparr>"
  have "fst (puts_and_takes put_if_absent take_value ''n'' ?ops (memory_cache_new ?c)) = 1" by code_simp
  then show ?thesis using one_time_values [of ?ops "''n''" ?c] by simp
qed

text \<open>
  A stored scope is found, until it expires, after any further operations of which there are fewer
  than the capacity of the cache and none stores the same token: eviction never removes a recently used scope.
  (The access counter must not have reached the largest 64-bit number, where it stays.)
\<close>

theorem stored_scope_survives:
  assumes "scopes_wf c" "sc_next_access_sequence (mc_scopes c) < - 1"
    and "length ops < mc_max_capacity c"
    and "\<And>x. x \<in> set ops \<Longrightarrow> scope_op_time x < expires_at c t' ttl \<and> \<not> stores_key token x"
  shows "fst (load_scope now token (fold run_scope_op ops (store_scope t t' token encoded ttl c))) =
    (if now < expires_at c t' ttl then Some encoded else None)"
proof -
  have "mc_max_capacity (store_scope t t' token encoded ttl c) = mc_max_capacity c"
    by (simp add: store_scope_def Let_def)
  then show ?thesis
    using load_kept [OF ops_keep [OF scopes_wf_store [OF assms(1)] store_kept [OF assms(1,2)]]] assms(3,4) by simp
qed

definition small_cache :: memory_cache where
  "small_cache = memory_cache_new \<lparr>mp_initial_capacity = 1, mp_max_capacity = 2, mp_ttl = from_secs 60, mp_eviction_policy = ''LRU''\<rparr>"

theorem stored_scope_survives_witness:
  "fst (load_scope 20 ''a'' (fold run_scope_op [StoreScope 11 11 ''b'' ''y'' (from_secs 30)]
     (store_scope 10 10 ''a'' ''x'' (from_secs 30) small_cache))) = Some ''x''"
proof -
  have e: "expires_at small_cache 10 (from_secs 30) = 40" by code_simp
  have "scopes_wf small_cache" unfolding small_cache_def by (rule scopes_wf_new)
  moreover have "sc_next_access_sequence (mc_scopes small_cache) < - 1" by code_simp
  moreover have "mc_max_capacity small_cache = 2" by (simp add: small_cache_def memory_cache_new_def)
  ultimately show ?thesis
    using stored_scope_survives [of small_cache "[StoreScope 11 11 ''b'' ''y'' (from_secs 30)]" 10 "from_secs 30" "''a''" 20 10 "''x''"]
    by (simp add: e)
qed

text \<open>
  The scope table never holds more than its capacity (one entry at least), its keys stay distinct,
  and no operation ever returns a scope at or after its expiry.
\<close>

theorem scope_table_bounded:
  assumes "scopes_wf c"
  shows "scopes_wf (run_scope_op x c) \<and> length (sc_entries (mc_scopes (run_scope_op x c))) \<le> max 1 (mc_max_capacity c) \<and>
    (fst (load_scope now token c) = Some v \<longrightarrow>
      (\<exists>s. (token, s) \<in> set (sc_entries (mc_scopes c)) \<and> ms_encoded_context s = v \<and> now < ms_expires_at_epoch_seconds s))"
proof -
  have "scopes_wf (run_scope_op x c)" by (rule scopes_wf_op [OF assms])
  moreover have "\<exists>s. (token, s) \<in> set (sc_entries (mc_scopes c)) \<and> ms_encoded_context s = v \<and> now < ms_expires_at_epoch_seconds s"
    if "fst (load_scope now token c) = Some v"
    using that by (auto simp: load_scope_def Let_def retain_scopes_def dest!: map_of_SomeD)
  ultimately show ?thesis by (auto simp: scopes_wf_def)
qed

theorem scope_table_bounded_witness:
  "scopes_wf (run_scope_op (StoreScope 11 11 ''b'' ''y'' (from_secs 30)) small_cache)"
  using scope_table_bounded [of small_cache "StoreScope 11 11 ''b'' ''y'' (from_secs 30)"]
  by (simp add: small_cache_def scopes_wf_new)

end
