(* ===== verification/Ext_Authz.thy ===== *)
theory Ext_Authz
  imports Policy_Handler Principals Access_Context Memory_Cache
begin

text \<open>
  The external authorization handler (\<open>authz/src/handler/authorization.rs\<close>): the Envoy \<open>Check\<close> call
  from the raw request to the response with its trusted headers, and the resolution of scope tokens. The
  messages of the crate \<open>envoy_types\<close> are records, the crates \<open>http\<close>, \<open>base64\<close>, \<open>serde_json\<close>, \<open>hmac\<close>
  and \<open>rsa\<close> are parameters, as are the readings of the clock and the random bytes of a scope token.
  Tracing and metrics are left out. The lemmas characterise the allowed responses and the headers they
  carry, and bound the lifetime of re-signed tokens.
\<close>

section \<open>Messages of the transport\<close>

datatype http_status_code = BadRequest | Unauthorized | Forbidden | InternalServerError | ServiceUnavailable

datatype grpc_code = GrpcOk | InvalidArgument | Unauthenticated | PermissionDenied | Internal | Unavailable

datatype envoy_address = SocketAddress string | Pipe | EnvoyInternalAddress

record http_attributes =
  ha_method :: string
  ha_host :: string
  ha_path :: string
  ha_scheme :: string
  ha_headers :: "(string \<times> string) list"

text \<open>The optional messages of the protocol buffers: peer address, request and HTTP part.\<close>

record attribute_context =
  at_source :: "envoy_address option option option"
  at_request :: "http_attributes option option"

type_synonym check_request = "attribute_context option"

record ok_http_response =
  ok_headers :: headers
  ok_headers_to_remove :: "string list"

record denied_http_response =
  dn_status :: http_status_code
  dn_headers :: headers
  dn_body :: json

datatype http_response = OkHttp ok_http_response | DeniedHttp denied_http_response

record check_response =
  rsp_code :: grpc_code
  rsp_message :: string
  rsp_http :: http_response

section \<open>Handler\<close>

record identity_properties =
  ip_token_header :: string
  ip_principal_id_claim :: string
  ip_principal_kind_claim :: string
  ip_groups_claim :: string

record scope_delivery_properties =
  sd_direct_urn_limit :: nat
  sd_max_direct_header_bytes :: nat
  sd_direct_context_hmac_key :: string
  sd_context_ttl :: duration
  sd_scope_token_ttl :: duration

record 'k resign_signer =
  rg_key :: 'k
  rg_max_ttl :: duration

text \<open>The trait \<open>IAuthorizationCache\<close>, over the type of cache states.\<close>

record 'c authorization_cache =
  ch_store_scope :: "u64 \<Rightarrow> u64 \<Rightarrow> string \<Rightarrow> string \<Rightarrow> duration \<Rightarrow> 'c \<Rightarrow> (string, unit) result \<times> 'c"
  ch_load_scope :: "u64 \<Rightarrow> string \<Rightarrow> 'c \<Rightarrow> (string, string option) result \<times> 'c"

text \<open>
  \<open>HeaderName::from_bytes\<close> (with the normalised name), \<open>HeaderValue::from_str\<close>, \<open>serde_json::to_vec\<close> on
  claims and base64 for scope tokens.
\<close>

record ext_lib =
  header_name :: "string \<Rightarrow> string option"
  header_value :: "string \<Rightarrow> string option"
  claims_to_vec :: "(string \<rightharpoonup> json) \<Rightarrow> string option"
  scope_b64_encode :: "string \<Rightarrow> string"

record ('d, 'n, 'c, 'k, 'p) authorization_handler =
  az_policy :: "('d, 'n) policy_handler"
  az_principals :: "'d principal_handler"
  az_cache :: "'c authorization_cache"
  az_identity :: identity_properties
  az_scope_delivery :: scope_delivery_properties
  az_signer :: access_context_signer
  az_resign :: "'k resign_signer option"
  az_tokens :: token_lib
  az_access :: access_lib
  az_rsa :: "('k, 'p) rsa_lib"
  az_ext :: ext_lib

text \<open>The readings of \<open>epoch_seconds\<close> in one check, in program order.\<close>

record clock =
  ck_allowed :: u64
  ck_resign :: u64
  ck_store :: u64
  ck_store_expiry :: u64

record workload_request =
  wr_method :: string
  wr_host :: string
  wr_path :: string
  wr_headers :: headers
  wr_source_ip :: "ip_addr option"
  wr_secure_transport :: bool

record request_evaluation =
  re_principal_id :: string
  re_route :: resolved_http_route
  re_decision :: authorization_decision
  re_authorization_scope :: "authorization_scope option"
  re_policy_revision :: u64
  re_identity :: authenticated_principal_context
  re_source_expires_at :: "u64 option"

datatype access_delivery = Direct string | Token string

record check_failure =
  cf_status :: http_status_code
  cf_metric_reason :: string
  cf_code :: string
  cf_message :: string

subsection \<open>Reading the request\<close>

definition peer_ip :: "envoy_address option option \<Rightarrow> ip_addr option" where
  "peer_ip peer =
     (case peer of
        Some (Some (SocketAddress a)) \<Rightarrow> parse_ip a
      | _ \<Rightarrow> None)"

definition header_insert :: "string \<Rightarrow> string \<Rightarrow> headers \<Rightarrow> headers" where
  "header_insert name v hs = (name, v) # filter (\<lambda>h. fst h \<noteq> name) hs"

definition header_map :: "ext_lib \<Rightarrow> (string \<times> string) list \<Rightarrow> headers" where
  "header_map lib hs =
     fold (\<lambda>(name, v) result.
       case header_name lib name of
         None \<Rightarrow> result
       | Some n \<Rightarrow> (case header_value lib v of None \<Rightarrow> result | Some w \<Rightarrow> header_insert n w result)) hs []"

definition workload_try_from :: "ext_lib \<Rightarrow> check_request \<Rightarrow> (string, workload_request) result" where
  "workload_try_from lib request =
     and_then (ok_or ''Envoy CheckRequest is missing attributes'' request) (\<lambda>attributes.
     let source_ip = Option.bind (at_source attributes) peer_ip in
     and_then (ok_or ''Envoy CheckRequest is missing HTTP attributes'' (Option.bind (at_request attributes) (\<lambda>r. r))) (\<lambda>http.
     if ha_method http = [] \<or> ha_path http = [] then Inl ''Envoy CheckRequest method and path are required''
     else Inr \<lparr>wr_method = ha_method http,
       wr_host = (if ha_host http = [] then (case map_of (ha_headers http) ''host'' of Some v \<Rightarrow> v | None \<Rightarrow> []) else ha_host http),
       wr_path = hd (split_on CHR ''?'' (ha_path http)),
       wr_headers = header_map lib (ha_headers http), wr_source_ip = source_ip,
       wr_secure_transport = eq_ignore_ascii_case (ha_scheme http) ''https''\<rparr>))"

definition request_id :: "workload_request \<Rightarrow> string option" where
  "request_id r =
     Option.bind (header_get (wr_headers r) ''x-request-id'') (\<lambda>v.
       if v \<noteq> [] \<and> length v \<le> 128 \<and> list_all is_ascii_graphic v then Some v else None)"

subsection \<open>Failures\<close>

definition context_encoding :: check_failure where
  "context_encoding = \<lparr>cf_status = InternalServerError, cf_metric_reason = ''invalid request'',
     cf_code = ''context_encoding_failed'', cf_message = ''failed to create trusted access context''\<rparr>"

definition scope_cache_unavailable :: check_failure where
  "scope_cache_unavailable = \<lparr>cf_status = ServiceUnavailable, cf_metric_reason = ''scope cache unavailable'',
     cf_code = ''scope_cache_unavailable'', cf_message = ''authorization scope is temporarily unavailable''\<rparr>"

definition invalid_identity_expiry :: check_failure where
  "invalid_identity_expiry = \<lparr>cf_status = Unauthorized, cf_metric_reason = ''invalid identity'',
     cf_code = ''invalid_identity_expiry'', cf_message = ''trusted identity token expiry is missing or expired''\<rparr>"

definition resign_unavailable :: check_failure where
  "resign_unavailable = \<lparr>cf_status = ServiceUnavailable, cf_metric_reason = ''resign unavailable'',
     cf_code = ''resign_unavailable'', cf_message = ''trusted upstream identity could not be issued''\<rparr>"

fun principal_failure :: "principal_handler_error \<Rightarrow> check_failure" where
  "principal_failure (PrincipalDisabled i) = \<lparr>cf_status = Forbidden, cf_metric_reason = ''principal disabled'',
     cf_code = ''principal_disabled'', cf_message = ''the authenticated principal is disabled''\<rparr>"
| "principal_failure (KindMismatch i) = \<lparr>cf_status = Forbidden, cf_metric_reason = ''principal disabled'',
     cf_code = ''principal_disabled'', cf_message = ''the authenticated principal is disabled''\<rparr>"
| "principal_failure (PrincipalNotFound i) = \<lparr>cf_status = Unauthorized, cf_metric_reason = ''unknown principal'',
     cf_code = ''unknown_principal'', cf_message = ''the authenticated principal is not registered''\<rparr>"
| "principal_failure ProviderUnavailable = \<lparr>cf_status = Unauthorized, cf_metric_reason = ''unknown principal'',
     cf_code = ''unknown_principal'', cf_message = ''the authenticated principal is not registered''\<rparr>"
| "principal_failure e = \<lparr>cf_status = ServiceUnavailable, cf_metric_reason = ''principal resolution unavailable'',
     cf_code = ''principal_resolution_unavailable'', cf_message = ''principal resolution is temporarily unavailable''\<rparr>"

subsection \<open>Evaluation\<close>

definition request_identity ::
  "('d, 'n, 'c, 'k, 'p) authorization_handler \<Rightarrow> workload_request \<Rightarrow> (check_failure, authenticated_principal_context) result" where
  "request_identity h r =
     (case from_gateway_headers (az_tokens h) (wr_headers r) (ip_token_header (az_identity h))
         (ip_principal_id_claim (az_identity h)) (ip_principal_kind_claim (az_identity h)) (ip_groups_claim (az_identity h)) of
        Inr identity \<Rightarrow> Inr identity
      | Inl Missing \<Rightarrow> Inl \<lparr>cf_status = Unauthorized, cf_metric_reason = ''missing identity'',
          cf_code = ''missing_identity'', cf_message = ''trusted identity token is required''\<rparr>
      | Inl e \<Rightarrow> Inl \<lparr>cf_status = Unauthorized, cf_metric_reason = ''invalid identity'',
          cf_code = ''invalid_identity'', cf_message = ''trusted identity token is invalid''\<rparr>)"

fun json_as_u64 :: "json \<Rightarrow> u64 option" where
  "json_as_u64 (JNumber s) = parse_u64_digits s"
| "json_as_u64 _ = None"

text \<open>\<open>Value::get\<close> with a string index is \<open>None\<close> on anything but an object.\<close>

definition token_expiry :: "token_lib \<Rightarrow> string \<Rightarrow> u64 option" where
  "token_expiry lib token =
     Option.bind (case split_on CHR ''.'' token of _ # encoded # _ \<Rightarrow> Some encoded | _ \<Rightarrow> None) (\<lambda>encoded.
     Option.bind (case url_safe_no_pad_decode lib encoded of Some p \<Rightarrow> Some p | None \<Rightarrow> url_safe_decode lib encoded) (\<lambda>payload.
     Option.bind (json_from_slice lib payload) (\<lambda>claims.
     Option.bind (json_as_object claims) (\<lambda>object.
     Option.bind (map_of object ''exp'') json_as_u64))))"

definition source_token_expiry ::
  "('d, 'n, 'c, 'k, 'p) authorization_handler \<Rightarrow> workload_request \<Rightarrow> (check_failure, u64 option) result" where
  "source_token_expiry h r =
     (if az_resign h = None then Inr None
      else and_then (ok_or invalid_identity_expiry (gateway_token (wr_headers r) (ip_token_header (az_identity h)))) (\<lambda>token.
           and_then (ok_or invalid_identity_expiry (token_expiry (az_tokens h) token)) (\<lambda>source_exp.
             Inr (Some source_exp))))"

definition evaluation_context_of :: "workload_request \<Rightarrow> authenticated_principal_context \<Rightarrow> evaluation_context" where
  "evaluation_context_of r identity = \<lparr>ec_source_ip = wr_source_ip r, ec_request_method = Some (wr_method r),
     ec_secure_transport = Some (wr_secure_transport r), ec_claims = ap_trusted_claims identity\<rparr>"

definition authorization_request_of ::
  "workload_request \<Rightarrow> authenticated_principal_context \<Rightarrow> resolved_request_principal \<Rightarrow> resolved_http_route \<Rightarrow> authorization_request" where
  "authorization_request_of r identity resolved route =
     \<lparr>ar_principal_id = rp_principal_id resolved, ar_group_principal_ids = rp_group_principal_ids resolved,
      ar_action = rr_action route, ar_resource_urn = rr_resource_urn route, ar_parent_urns = rr_parent_urns route,
      ar_context = evaluation_context_of r identity\<rparr>"

definition evaluate_request ::
  "('d, 'n, 'c, 'k, 'p) authorization_handler \<Rightarrow> ('d, 'n) handler_state \<Rightarrow> workload_request \<Rightarrow>
   (check_failure, request_evaluation) result" where
  "evaluate_request h hs r =
     and_then (request_identity h r) (\<lambda>identity.
     and_then (source_token_expiry h r) (\<lambda>source_exp.
     and_then (map_err principal_failure (resolve_request (az_principals h) (hs_storage hs) identity)) (\<lambda>resolved.
     let cp = hs_current hs in
     case resolve_http_route cp (wr_method r) (wr_host r) (wr_path r) (ap_trusted_claims identity) of
       Inl NotMapped \<Rightarrow> Inl \<lparr>cf_status = Forbidden, cf_metric_reason = ''route not mapped'',
         cf_code = ''route_not_mapped'', cf_message = ''request route has no authorization mapping''\<rparr>
     | Inl e \<Rightarrow> Inl \<lparr>cf_status = Forbidden, cf_metric_reason = ''invalid request'',
         cf_code = ''invalid_route_mapping'', cf_message = ''request route mapping is invalid''\<rparr>
     | Inr route \<Rightarrow>
         let ctx = evaluation_context_of r identity;
             decision = policy_authorize (ph_net (az_policy h)) cp (authorization_request_of r identity resolved route)
         in Inr \<lparr>re_principal_id = rp_principal_id resolved, re_route = route, re_decision = decision,
              re_authorization_scope = (if ad_allowed decision
                then Some (policy_scope (ph_net (az_policy h)) cp (rp_principal_id resolved)
                  (rp_group_principal_ids resolved) (rr_action route) ctx) else None),
              re_policy_revision = pol_revision (cp_policy cp), re_identity = identity,
              re_source_expires_at = source_exp\<rparr>)))"

subsection \<open>Re-signed tokens\<close>

definition resign_token_claims ::
  "authenticated_principal_context \<Rightarrow> string \<Rightarrow> u64 \<Rightarrow> duration \<Rightarrow> string \<rightharpoonup> json" where
  "resign_token_claims identity principal_id now ttl =
     (let base = (map_option JString \<circ> ap_trusted_claims identity)
          (''iss'' \<mapsto> JString ''authguard-authz'', ''sub'' \<mapsto> JString principal_id, ''principal_id'' \<mapsto> JString principal_id,
           ''principal_kind'' \<mapsto> JString (kind_as_str (ap_kind identity)),
           ''authguard_group_ids'' \<mapsto> JArray (map JString (ap_stable_group_ids identity)));
          with_acr = (case ap_acr identity of Some acr \<Rightarrow> base(''acr'' \<mapsto> JString acr) | None \<Rightarrow> base)
      in with_acr(''amr'' \<mapsto> JArray (map JString (ap_amr identity)), ''authguardOrigin'' \<mapsto> JBool True,
           ''iat'' \<mapsto> JNumber (u64_to_string now), ''exp'' \<mapsto> JNumber (u64_to_string (saturating_add now (as_secs ttl)))))"

definition resign_token ::
  "('d, 'n, 'c, 'k, 'p) authorization_handler \<Rightarrow> u64 \<Rightarrow> authenticated_principal_context \<Rightarrow> string \<Rightarrow> u64 option \<Rightarrow>
   (check_failure, string option) result" where
  "resign_token h now identity principal_id source_expires_at =
     (case az_resign h of
        None \<Rightarrow> Inr None
      | Some signer \<Rightarrow>
          and_then (ok_or invalid_identity_expiry
            (Option.bind (Option.bind source_expires_at (\<lambda>expires. checked_sub expires now))
              (\<lambda>remaining. if remaining > 0 then Some remaining else None))) (\<lambda>remaining.
          let ttl = duration_min (rg_max_ttl signer) (from_secs remaining) in
          and_then (ok_or resign_unavailable (claims_to_vec (az_ext h) (resign_token_claims identity principal_id now ttl))) (\<lambda>payload.
          and_then (map_err (\<lambda>_. resign_unavailable) (jwt_sign (az_rsa h) (rg_key signer) payload)) (\<lambda>token.
            Inr (Some token)))))"

subsection \<open>Delivery\<close>

definition new_scope_token :: "ext_lib \<Rightarrow> string \<Rightarrow> string" where
  "new_scope_token lib bytes = ''ags_'' @ scope_b64_encode lib bytes"

definition prepare_delivery ::
  "('d, 'n, 'c, 'k, 'p) authorization_handler \<Rightarrow> clock \<Rightarrow> string \<Rightarrow> access_context \<Rightarrow> nat \<Rightarrow> u64 \<Rightarrow> 'c \<Rightarrow>
   (check_failure, access_delivery) result \<times> 'c" where
  "prepare_delivery h ck bytes direct urn_count now cache =
     (case context_encode (az_access h) direct of
        None \<Rightarrow> (Inl context_encoding, cache)
      | Some payload \<Rightarrow>
     (case sign_encoded (az_access h) (az_signer h) payload of
        Inl e \<Rightarrow> (Inl context_encoding, cache)
      | Inr direct_encoded \<Rightarrow>
     if urn_count \<le> sd_direct_urn_limit (az_scope_delivery h) \<and>
        length direct_encoded \<le> sd_max_direct_header_bytes (az_scope_delivery h)
     then (Inr (Direct direct_encoded), cache)
     else
       (let token_context = context_new \<lparr>ci_principal_id = ac_principal_id direct, ci_action = ac_action direct,
              ci_resource_urn = ac_resource_urn direct, ci_allow_resource_urns = ac_allow_resource_urns direct,
              ci_deny_resource_urns = ac_deny_resource_urns direct, ci_policy_revision = ac_policy_revision direct\<rparr>
              now (sd_scope_token_ttl (az_scope_delivery h))
        in case context_encode (az_access h) token_context of
             None \<Rightarrow> (Inl context_encoding, cache)
           | Some encoded \<Rightarrow>
               (let token = new_scope_token (az_ext h) bytes;
                    (stored, cache') = ch_store_scope (az_cache h) (ck_store ck) (ck_store_expiry ck) token encoded
                      (sd_scope_token_ttl (az_scope_delivery h)) cache
                in case stored of
                     Inl e \<Rightarrow> (Inl scope_cache_unavailable, cache')
                   | Inr _ \<Rightarrow> (Inr (Token token), cache')))))"

definition legacy_access_headers :: "string list" where
  "legacy_access_headers = [''x-authguard-subject-id'', ''x-authguard-action'', ''x-authguard-resource-urn'']"

definition untrusted_identity_headers :: "string list" where
  "untrusted_identity_headers = [''x-authguard-id-token'', ''x-authguard-issuer'', ''x-authguard-external-id'',
     ''x-authguard-groups'', ''x-authguard-claim-tenant-id'']"

definition allowed_http_response ::
  "('d, 'n, 'c, 'k, 'p) authorization_handler \<Rightarrow> access_delivery \<Rightarrow> string option \<Rightarrow> ok_http_response" where
  "allowed_http_response h delivery resigned =
     \<lparr>ok_headers =
        (case delivery of Direct encoded \<Rightarrow> [(access_context_header, encoded)] | Token token \<Rightarrow> [(scope_token_header, token)]) @
        (case resigned of Some token \<Rightarrow> [(''authorization'', ''Bearer '' @ token)] | None \<Rightarrow> []),
      ok_headers_to_remove =
        (if resigned = None then [''authorization''] else []) @ legacy_access_headers @ untrusted_identity_headers @
        (if resigned = None \<or> \<not> eq_ignore_ascii_case (ip_token_header (az_identity h)) ''authorization''
         then [ip_token_header (az_identity h)] else []) @
        (case delivery of Direct encoded \<Rightarrow> [scope_token_header] | Token token \<Rightarrow> [access_context_header])\<rparr>"

definition denied :: "http_status_code \<Rightarrow> string \<Rightarrow> string \<Rightarrow> check_response" where
  "denied status errcode message =
     \<lparr>rsp_code = (case status of Unauthorized \<Rightarrow> Unauthenticated | BadRequest \<Rightarrow> InvalidArgument
        | InternalServerError \<Rightarrow> Internal | _ \<Rightarrow> PermissionDenied),
      rsp_message = message,
      rsp_http = DeniedHttp \<lparr>dn_status = status,
        dn_headers = (''content-type'', ''application/json'') #
          (if status = Unauthorized then [(''www-authenticate'', ''Bearer realm=\"authguard\"'')] else []),
        dn_body = JObject [(''code'', JString errcode), (''message'', JString message)]\<rparr>\<rparr>"

definition denied_failure :: "check_failure \<Rightarrow> check_response" where
  "denied_failure f = denied (cf_status f) (cf_code f) (cf_message f)"

definition context_input_of :: "request_evaluation \<Rightarrow> authorization_scope \<Rightarrow> access_context_input" where
  "context_input_of e scoped = \<lparr>ci_principal_id = re_principal_id e, ci_action = rr_action (re_route e),
     ci_resource_urn = urn_to_string (rr_resource_urn (re_route e)),
     ci_allow_resource_urns = as_allow_resource_urns scoped, ci_deny_resource_urns = as_deny_resource_urns scoped,
     ci_policy_revision = re_policy_revision e\<rparr>"

definition direct_context_of ::
  "('d, 'n, 'c, 'k, 'p) authorization_handler \<Rightarrow> clock \<Rightarrow> request_evaluation \<Rightarrow> authorization_scope \<Rightarrow> access_context" where
  "direct_context_of h ck e scoped = context_new (context_input_of e scoped) (ck_allowed ck) (sd_context_ttl (az_scope_delivery h))"

definition allowed ::
  "('d, 'n, 'c, 'k, 'p) authorization_handler \<Rightarrow> clock \<Rightarrow> string \<Rightarrow> request_evaluation \<Rightarrow> 'c \<Rightarrow> check_response \<times> 'c" where
  "allowed h ck bytes e cache =
     (case re_authorization_scope e of
        None \<Rightarrow> (denied InternalServerError ''invalid_authorization_result''
          ''authorization result did not contain a resource scope'', cache)
      | Some scoped \<Rightarrow>
     (case resign_token h (ck_resign ck) (re_identity e) (re_principal_id e) (re_source_expires_at e) of
        Inl f \<Rightarrow> (denied_failure f, cache)
      | Inr resigned \<Rightarrow>
     (let urn_count = length (as_allow_resource_urns scoped) + length (as_deny_resource_urns scoped);
          (delivery, cache') = prepare_delivery h ck bytes (direct_context_of h ck e scoped) urn_count (ck_allowed ck) cache
      in case delivery of
           Inl f \<Rightarrow> (denied_failure f, cache')
         | Inr d \<Rightarrow> (\<lparr>rsp_code = GrpcOk, rsp_message = ''request authorized'',
                      rsp_http = OkHttp (allowed_http_response h d resigned)\<rparr>, cache'))))"

definition check ::
  "('d, 'n, 'c, 'k, 'p) authorization_handler \<Rightarrow> ('d, 'n) handler_state \<Rightarrow> clock \<Rightarrow> string \<Rightarrow> check_request \<Rightarrow> 'c \<Rightarrow>
   check_response \<times> 'c" where
  "check h hs ck bytes request cache =
     (case workload_try_from (az_ext h) request of
        Inl message \<Rightarrow> (denied BadRequest ''invalid_request'' message, cache)
      | Inr input \<Rightarrow>
          (case evaluate_request h hs input of
             Inr e \<Rightarrow>
               if ad_allowed (re_decision e) then allowed h ck bytes e cache
               else (denied Forbidden ''authorization_denied'' ''request is not authorized'', cache)
           | Inl f \<Rightarrow> (denied_failure f, cache)))"

subsection \<open>Scope tokens\<close>

definition valid_scope_token :: "string \<Rightarrow> bool" where
  "valid_scope_token token \<longleftrightarrow> length token = 4 + 43 \<and> take 4 token = ''ags_'' \<and>
     list_all (\<lambda>c. is_ascii_alphanumeric c \<or> c = CHR ''-'' \<or> c = CHR ''_'') (drop 4 token)"

definition resolve_scope ::
  "('d, 'n, 'c, 'k, 'p) authorization_handler \<Rightarrow> u64 \<Rightarrow> u64 \<Rightarrow> string \<Rightarrow> 'c \<Rightarrow> (grpc_code \<times> string, string) result \<times> 'c" where
  "resolve_scope h load_time decode_time token cache =
     (if \<not> valid_scope_token token then (Inl (InvalidArgument, ''invalid scope token''), cache)
      else
        (let (loaded, cache') = ch_load_scope (az_cache h) load_time token cache
         in case loaded of
              Inl e \<Rightarrow> (Inl (Unavailable, ''authorization scope is temporarily unavailable''), cache')
            | Inr None \<Rightarrow> (Inl (Unauthenticated, ''scope token is unknown or expired''), cache')
            | Inr (Some encoded) \<Rightarrow>
                (case context_decode (az_access h) decode_time encoded of
                   Inl e \<Rightarrow> (Inl (Unauthenticated, ''scope token is unknown or expired''), cache')
                 | Inr c \<Rightarrow> (Inr encoded, cache'))))"

section \<open>Lemmas\<close>

subsection \<open>Allowed responses\<close>

lemma denied_code [simp]: "rsp_code (denied status errcode message) \<noteq> GrpcOk"
  by (cases status) (simp_all add: denied_def)

lemma denied_failure_code [simp]: "rsp_code (denied_failure f) \<noteq> GrpcOk"
  by (simp add: denied_failure_def)

lemma request_identity_Inr [result_simps]:
  "request_identity h r = Inr identity \<longleftrightarrow>
     from_gateway_headers (az_tokens h) (wr_headers r) (ip_token_header (az_identity h))
       (ip_principal_id_claim (az_identity h)) (ip_principal_kind_claim (az_identity h)) (ip_groups_claim (az_identity h)) = Inr identity"
  by (auto simp: request_identity_def split: sum.splits identity_error.splits)

text \<open>The evaluation of an identified, resolved and routed request.\<close>

definition evaluation_of ::
  "('d, 'n, 'c, 'k, 'p) authorization_handler \<Rightarrow> ('d, 'n) handler_state \<Rightarrow> workload_request \<Rightarrow>
   authenticated_principal_context \<Rightarrow> u64 option \<Rightarrow> resolved_request_principal \<Rightarrow> resolved_http_route \<Rightarrow> request_evaluation" where
  "evaluation_of h hs r identity source_exp resolved route =
     (let decision = policy_authorize (ph_net (az_policy h)) (hs_current hs) (authorization_request_of r identity resolved route)
      in \<lparr>re_principal_id = rp_principal_id resolved, re_route = route, re_decision = decision,
          re_authorization_scope = (if ad_allowed decision
            then Some (policy_scope (ph_net (az_policy h)) (hs_current hs) (rp_principal_id resolved)
              (rp_group_principal_ids resolved) (rr_action route) (evaluation_context_of r identity)) else None),
          re_policy_revision = pol_revision (cp_policy (hs_current hs)), re_identity = identity,
          re_source_expires_at = source_exp\<rparr>)"

lemma evaluate_request_Inr:
  "evaluate_request h hs r = Inr e \<longleftrightarrow>
     (\<exists>identity source_exp resolved route. request_identity h r = Inr identity \<and> source_token_expiry h r = Inr source_exp \<and>
        resolve_request (az_principals h) (hs_storage hs) identity = Inr resolved \<and>
        resolve_http_route (hs_current hs) (wr_method r) (wr_host r) (wr_path r) (ap_trusted_claims identity) = Inr route \<and>
        e = evaluation_of h hs r identity source_exp resolved route)"
proof -
  have route: "(case res of Inl NotMapped \<Rightarrow> Inl a | Inl f \<Rightarrow> Inl b | Inr route \<Rightarrow> Inr (g route)) = Inr e \<longleftrightarrow>
      (\<exists>route. res = Inr route \<and> e = g route)" for res and a b :: check_failure and g
    by (auto split: sum.splits http_mapping_error.splits)
  show ?thesis
    unfolding evaluate_request_def and_then_eq_Inr map_err_eq_Inr Let_def route evaluation_of_def by blast
qed

lemma check_ok_iff:
  "check h hs ck bytes request cache = (\<lparr>rsp_code = GrpcOk, rsp_message = m, rsp_http = hp\<rparr>, cache') \<longleftrightarrow>
     m = ''request authorized'' \<and>
     (\<exists>input e scoped resigned d. workload_try_from (az_ext h) request = Inr input \<and> evaluate_request h hs input = Inr e \<and>
        ad_allowed (re_decision e) \<and> re_authorization_scope e = Some scoped \<and>
        resign_token h (ck_resign ck) (re_identity e) (re_principal_id e) (re_source_expires_at e) = Inr resigned \<and>
        prepare_delivery h ck bytes (direct_context_of h ck e scoped)
          (length (as_allow_resource_urns scoped) + length (as_deny_resource_urns scoped)) (ck_allowed ck) cache = (Inr d, cache') \<and>
        hp = OkHttp (allowed_http_response h d resigned))"
proof -
  have ne: "denied_failure f \<noteq> \<lparr>rsp_code = GrpcOk, rsp_message = m, rsp_http = hp\<rparr>"
    "denied st c msg \<noteq> \<lparr>rsp_code = GrpcOk, rsp_message = m, rsp_http = hp\<rparr>" for f st c msg
    by (metis check_response.select_convs(1) denied_failure_code, metis check_response.select_convs(1) denied_code)
  have "allowed h ck bytes e cache = (\<lparr>rsp_code = GrpcOk, rsp_message = m, rsp_http = hp\<rparr>, cache') \<longleftrightarrow>
     m = ''request authorized'' \<and>
     (\<exists>scoped resigned d. re_authorization_scope e = Some scoped \<and>
        resign_token h (ck_resign ck) (re_identity e) (re_principal_id e) (re_source_expires_at e) = Inr resigned \<and>
        prepare_delivery h ck bytes (direct_context_of h ck e scoped)
          (length (as_allow_resource_urns scoped) + length (as_deny_resource_urns scoped)) (ck_allowed ck) cache = (Inr d, cache') \<and>
        hp = OkHttp (allowed_http_response h d resigned))" for e
  proof (cases "re_authorization_scope e")
    case (Some scoped)
    show ?thesis
    proof (cases "resign_token h (ck_resign ck) (re_identity e) (re_principal_id e) (re_source_expires_at e)")
      case (Inr resigned)
      obtain dl c where "prepare_delivery h ck bytes (direct_context_of h ck e scoped)
        (length (as_allow_resource_urns scoped) + length (as_deny_resource_urns scoped)) (ck_allowed ck) cache = (dl, c)" by fastforce
      then show ?thesis using Some Inr ne by (cases dl) (auto simp: allowed_def)
    qed (use Some ne in \<open>simp add: allowed_def\<close>)
  qed (use ne in \<open>simp add: allowed_def\<close>)
  then show ?thesis unfolding check_def using ne by (auto split: sum.splits)
qed

lemma check_ok_cases:
  assumes "rsp_code (fst (check h hs ck bytes request cache)) = GrpcOk"
  obtains input identity source_exp resolved route scoped resigned d where
    "workload_try_from (az_ext h) request = Inr input" "request_identity h input = Inr identity"
    "source_token_expiry h input = Inr source_exp"
    "resolve_request (az_principals h) (hs_storage hs) identity = Inr resolved"
    "resolve_http_route (hs_current hs) (wr_method input) (wr_host input) (wr_path input) (ap_trusted_claims identity) = Inr route"
    "ad_allowed (policy_authorize (ph_net (az_policy h)) (hs_current hs) (authorization_request_of input identity resolved route))"
    "scoped = policy_scope (ph_net (az_policy h)) (hs_current hs) (rp_principal_id resolved)
       (rp_group_principal_ids resolved) (rr_action route) (evaluation_context_of input identity)"
    "resign_token h (ck_resign ck) identity (rp_principal_id resolved) source_exp = Inr resigned"
    "prepare_delivery h ck bytes (direct_context_of h ck (evaluation_of h hs input identity source_exp resolved route) scoped)
       (length (as_allow_resource_urns scoped) + length (as_deny_resource_urns scoped)) (ck_allowed ck) cache =
       (Inr d, snd (check h hs ck bytes request cache))"
    "rsp_http (fst (check h hs ck bytes request cache)) = OkHttp (allowed_http_response h d resigned)"
proof -
  obtain m hp cache' where run: "check h hs ck bytes request cache = (\<lparr>rsp_code = GrpcOk, rsp_message = m, rsp_http = hp\<rparr>, cache')"
    using assms by (metis (full_types) check_response.surjective old.unit.exhaust prod.collapse)
  then obtain input e scoped resigned d where *: "workload_try_from (az_ext h) request = Inr input" "evaluate_request h hs input = Inr e"
    "ad_allowed (re_decision e)" "re_authorization_scope e = Some scoped"
    "resign_token h (ck_resign ck) (re_identity e) (re_principal_id e) (re_source_expires_at e) = Inr resigned"
    "prepare_delivery h ck bytes (direct_context_of h ck e scoped)
      (length (as_allow_resource_urns scoped) + length (as_deny_resource_urns scoped)) (ck_allowed ck) cache = (Inr d, cache')"
    "hp = OkHttp (allowed_http_response h d resigned)" unfolding check_ok_iff by blast
  from *(2) obtain identity source_exp resolved route where e: "request_identity h input = Inr identity"
    "source_token_expiry h input = Inr source_exp" "resolve_request (az_principals h) (hs_storage hs) identity = Inr resolved"
    "resolve_http_route (hs_current hs) (wr_method input) (wr_host input) (wr_path input) (ap_trusted_claims identity) = Inr route"
    "e = evaluation_of h hs input identity source_exp resolved route" unfolding evaluate_request_Inr by blast
  show ?thesis
    by (rule that [OF *(1) e(1-4)]) (use * run e(5) in \<open>auto simp: evaluation_of_def Let_def split: if_splits\<close>)
qed

subsection \<open>Delivery\<close>

lemma prepare_delivery_cases:
  assumes "prepare_delivery h ck bytes (context_new i now ttl) n now cache = (Inr d, cache')"
  obtains (direct) payload v where "d = Direct v" "cache' = cache" "context_encode (az_access h) (context_new i now ttl) = Some payload"
      "sign_encoded (az_access h) (az_signer h) payload = Inr v"
      "n \<le> sd_direct_urn_limit (az_scope_delivery h)" "length v \<le> sd_max_direct_header_bytes (az_scope_delivery h)"
    | (token) encoded where "d = Token (new_scope_token (az_ext h) bytes)"
      "context_encode (az_access h) (context_new i now (sd_scope_token_ttl (az_scope_delivery h))) = Some encoded"
      "ch_store_scope (az_cache h) (ck_store ck) (ck_store_expiry ck) (new_scope_token (az_ext h) bytes) encoded
         (sd_scope_token_ttl (az_scope_delivery h)) cache = (Inr (), cache')"
proof -
  have i: "context_new \<lparr>ci_principal_id = ac_principal_id (context_new i now ttl), ci_action = ac_action (context_new i now ttl),
      ci_resource_urn = ac_resource_urn (context_new i now ttl), ci_allow_resource_urns = ac_allow_resource_urns (context_new i now ttl),
      ci_deny_resource_urns = ac_deny_resource_urns (context_new i now ttl),
      ci_policy_revision = ac_policy_revision (context_new i now ttl)\<rparr> now x = context_new i now x" for x
    by (simp add: context_new_def)
  obtain payload v where *: "context_encode (az_access h) (context_new i now ttl) = Some payload"
    "sign_encoded (az_access h) (az_signer h) payload = Inr v"
    using assms unfolding prepare_delivery_def by (auto split: option.splits sum.splits)
  show thesis
  proof (cases "n \<le> sd_direct_urn_limit (az_scope_delivery h) \<and> length v \<le> sd_max_direct_header_bytes (az_scope_delivery h)")
    case True
    then show thesis using assms * by (intro direct [of v payload]) (simp_all add: prepare_delivery_def)
  next
    case False
    then show thesis using assms * token unfolding prepare_delivery_def i
      by (auto simp: Let_def split: option.splits sum.splits prod.splits)
  qed
qed

text \<open>What delivery by token relies on: a stored scope is loaded until its deadline.\<close>

locale scope_cache =
  fixes cache :: "'c authorization_cache" and ok :: "'c \<Rightarrow> bool" and deadline :: "'c \<Rightarrow> u64 \<Rightarrow> duration \<Rightarrow> u64"
  assumes store_load: "ok c \<Longrightarrow> ch_store_scope cache t t' k v ttl c = (Inr u, c') \<Longrightarrow> now < deadline c t' ttl \<Longrightarrow>
    fst (ch_load_scope cache now k c') = Inr (Some v)"
begin

lemma resolve_stored:
  assumes "az_cache h = cache" "ok c" "ch_store_scope cache t t' token encoded ttl c = (Inr u, c')"
    and "valid_scope_token token" "load_time < deadline c t' ttl" "context_decode (az_access h) decode_time encoded = Inr x"
  shows "fst (resolve_scope h load_time decode_time token c') = Inr encoded"
  using assms store_load [OF assms(2,3,5)] by (cases "ch_load_scope cache load_time token c'") (simp add: resolve_scope_def)

end

definition memory_authorization_cache :: "memory_cache authorization_cache" where
  "memory_authorization_cache = \<lparr>ch_store_scope = (\<lambda>t t' k v ttl c. (Inr (), store_scope t t' k v ttl c)),
     ch_load_scope = (\<lambda>t k c. (Inr (fst (load_scope t k c)), snd (load_scope t k c)))\<rparr>"

definition fresh_scopes :: "memory_cache \<Rightarrow> bool" where
  "fresh_scopes c \<longleftrightarrow> scopes_wf c \<and> sc_next_access_sequence (mc_scopes c) < - 1"

interpretation memory_scopes: scope_cache memory_authorization_cache fresh_scopes expires_at
  by unfold_locales (auto simp: memory_authorization_cache_def fresh_scopes_def load_kept [OF store_kept])

subsection \<open>Resigned tokens\<close>

lemma resign_token_Some:
  assumes "resign_token h now identity principal_id source = Inr (Some token)"
  obtains signer expires payload ttl where "az_resign h = Some signer" "source = Some expires" "now < expires"
    "ttl = duration_min (rg_max_ttl signer) (from_secs (expires - now))"
    "claims_to_vec (az_ext h) (resign_token_claims identity principal_id now ttl) = Some payload"
    "jwt_sign (az_rsa h) (rg_key signer) payload = Inr token"
proof -
  obtain signer where signer: "az_resign h = Some signer" using assms by (auto simp: resign_token_def split: option.splits)
  then obtain remaining payload where run:
    "Option.bind (Option.bind source (\<lambda>expires. checked_sub expires now)) (\<lambda>remaining. if remaining > 0 then Some remaining else None) = Some remaining"
    "claims_to_vec (az_ext h) (resign_token_claims identity principal_id now (duration_min (rg_max_ttl signer) (from_secs remaining))) = Some payload"
    "jwt_sign (az_rsa h) (rg_key signer) payload = Inr token"
    using assms unfolding resign_token_def Let_def by (simp only: option.case result_simps) blast
  from run(1) obtain expires where source: "source = Some expires" "checked_sub expires now = Some remaining" "remaining > 0"
    by (auto simp: bind_eq_Some_conv split: if_splits)
  then have rest: "now \<le> expires" "remaining = expires - now" by (auto simp: checked_sub_def split: if_splits)
  with source(3) have "now < expires" by (metis le_neq_trans less_irrefl diff_self)
  then show thesis using that [OF signer source(1) _ refl] run(2,3) rest(2) by simp
qed

lemma resign_claims_reserved:
  "resign_token_claims identity principal_id now ttl ''exp'' = Some (JNumber (u64_to_string (saturating_add now (as_secs ttl))))"
  "resign_token_claims identity principal_id now ttl ''iat'' = Some (JNumber (u64_to_string now))"
  "resign_token_claims identity principal_id now ttl ''authguardOrigin'' = Some (JBool True)"
  "resign_token_claims identity principal_id now ttl ''iss'' = Some (JString ''authguard-authz'')"
  "resign_token_claims identity principal_id now ttl ''sub'' = Some (JString principal_id)"
  "resign_token_claims identity principal_id now ttl ''principal_id'' = Some (JString principal_id)"
  "resign_token_claims identity principal_id now ttl ''principal_kind'' = Some (JString (kind_as_str (ap_kind identity)))"
  by (simp_all add: resign_token_claims_def Let_def split: option.split)

lemma resign_expiry:
  assumes "now < expires" "ttl = duration_min max_ttl (from_secs (expires - now))"
  shows "saturating_add now (as_secs ttl) \<le> expires"
    and "unat (saturating_add now (as_secs ttl)) \<le> unat now + unat (as_secs max_ttl)"
proof -
  have "unat (as_secs ttl) \<le> unat (expires - now)" "unat (as_secs ttl) \<le> unat (as_secs max_ttl)"
    unfolding assms(2) as_secs_duration_min as_secs_from_secs by (auto simp: min_def word_le_nat_alt)
  moreover have "unat (expires - now) = unat expires - unat now" using assms(1) by (simp add: unat_sub)
  moreover have "unat now < unat expires" using assms(1) by (simp add: word_less_nat_alt)
  ultimately show "saturating_add now (as_secs ttl) \<le> expires"
    "unat (saturating_add now (as_secs ttl)) \<le> unat now + unat (as_secs max_ttl)"
    unfolding word_le_nat_alt unat_saturating_add by linarith+
qed

section \<open>An example check\<close>

definition eve_token_lib :: token_lib where
  "eve_token_lib = \<lparr>url_safe_no_pad_decode = (\<lambda>s. Some s), url_safe_decode = (\<lambda>s. None),
     json_from_slice = (\<lambda>s. Some (JObject [(''authguard_group_ids'', JString ''group:dev''), (''exp'', JNumber ''1500''),
       (''principal_id'', JString ''user:eve''), (''principal_kind'', JString ''USER''), (''tenant'', JString ''acme'')]))\<rparr>"

definition eve_input :: access_context_input where
  "eve_input = \<lparr>ci_principal_id = ''user:eve'', ci_action = ''job.read'', ci_resource_urn = ''urn:iam:prod:cg:global:acme:job/1'',
     ci_allow_resource_urns = [''urn:iam:prod:cg:global:acme:job/**''],
     ci_deny_resource_urns = [''urn:iam:prod:cg:global:acme:job/2''], ci_policy_revision = 1\<rparr>"

definition eve_handler :: "nat \<Rightarrow> (database, nat, memory_cache, string, string) authorization_handler" where
  "eve_handler limit = \<lparr>az_policy = sample_handler, az_principals = sqlite_principal_handler [],
     az_cache = memory_authorization_cache,
     az_identity = \<lparr>ip_token_header = ''x-authguard-id-token'', ip_principal_id_claim = ''principal_id'',
       ip_principal_kind_claim = ''principal_kind'', ip_groups_claim = ''authguard_group_ids''\<rparr>,
     az_scope_delivery = \<lparr>sd_direct_urn_limit = limit, sd_max_direct_header_bytes = 200, sd_direct_context_hmac_key = ''k'',
       sd_context_ttl = from_secs 60, sd_scope_token_ttl = from_secs 30\<rparr>,
     az_signer = \<lparr>sg_key = ''k''\<rparr>, az_resign = Some \<lparr>rg_key = ''r'', rg_max_ttl = from_secs 300\<rparr>, az_tokens = eve_token_lib,
     az_access = table_lib [(context_new eve_input 1000 (from_secs 60), ''d''), (context_new eve_input 1000 (from_secs 30), ''t'')],
     az_rsa = text_rsa,
     az_ext = \<lparr>header_name = (\<lambda>s. Some (to_ascii_lowercase s)), header_value = Some,
       claims_to_vec = (\<lambda>m. Some ''claims''), scope_b64_encode = (\<lambda>b. replicate 43 CHR ''A'')\<rparr>\<rparr>"

definition eve_request :: check_request where
  "eve_request = Some \<lparr>at_source = Some (Some (Some (SocketAddress ''10.0.0.7''))),
     at_request = Some (Some \<lparr>ha_method = ''GET'', ha_host = ''api'', ha_path = ''/jobs/1?full=1'', ha_scheme = ''https'',
       ha_headers = [(''X-AuthGuard-Id-Token'', ''h.b.s'')]\<rparr>)\<rparr>"

definition eve_clock :: clock where
  "eve_clock = \<lparr>ck_allowed = 1000, ck_resign = 1000, ck_store = 1000, ck_store_expiry = 1000\<rparr>"

definition eve_workload :: workload_request where
  "eve_workload = \<lparr>wr_method = ''GET'', wr_host = ''api'', wr_path = ''/jobs/1'',
     wr_headers = [(''x-authguard-id-token'', ''h.b.s'')], wr_source_ip = parse_ip ''10.0.0.7'', wr_secure_transport = True\<rparr>"

definition eve_scope :: authorization_scope where
  "eve_scope = \<lparr>as_allow_resource_urns = [''urn:iam:prod:cg:global:acme:job/**''],
     as_deny_resource_urns = [''urn:iam:prod:cg:global:acme:job/2'']\<rparr>"

lemma eve_parsed: "workload_try_from (az_ext (eve_handler 0)) eve_request = Inr eve_workload"
  by code_simp

lemma eve_evaluated:
  "case evaluate_request (eve_handler 0) sample_state eve_workload of
     Inl f \<Rightarrow> False
   | Inr e \<Rightarrow> ad_allowed (re_decision e) \<and> re_authorization_scope e = Some eve_scope \<and>
       context_input_of e eve_scope = eve_input \<and> re_source_expires_at e = Some 1500"
  by code_simp

lemma eve_limit:
  "workload_try_from (az_ext (eve_handler n)) = workload_try_from (az_ext (eve_handler 0))"
  "evaluate_request (eve_handler n) = evaluate_request (eve_handler 0)"
proof -
  have same: "az_ext (eve_handler n) = az_ext (eve_handler 0)" "az_policy (eve_handler n) = az_policy (eve_handler 0)"
    "az_principals (eve_handler n) = az_principals (eve_handler 0)" "az_identity (eve_handler n) = az_identity (eve_handler 0)"
    "az_tokens (eve_handler n) = az_tokens (eve_handler 0)" "az_resign (eve_handler n) = az_resign (eve_handler 0)"
    by (simp_all add: eve_handler_def)
  show "workload_try_from (az_ext (eve_handler n)) = workload_try_from (az_ext (eve_handler 0))"
    by (simp only: same)
  show "evaluate_request (eve_handler n) = evaluate_request (eve_handler 0)"
    by (intro ext) (simp only: evaluate_request_def request_identity_def source_token_expiry_def same)
qed

lemma length_hex_encode: "length (hex_encode s) = 2 * length s"
  by (induction s) (simp_all add: hex_encode_def)

lemma eve_codec:
  "context_encode (az_access (eve_handler n)) (context_new eve_input 1000 (from_secs 60)) = Some (hex_encode ''d'')"
  "context_encode (az_access (eve_handler n)) (context_new eve_input 1000 (from_secs 30)) = Some (hex_encode ''t'')"
  "sign_encoded (az_access (eve_handler n)) (az_signer (eve_handler n)) (hex_encode ''d'') =
     Inr (''agctx1.'' @ hex_encode ''d'' @ ''.'' @ hex_encode (''mkagctx1.'' @ hex_encode ''d''))"
proof -
  have lib: "az_access (eve_handler n) =
      table_lib [(context_new eve_input 1000 (from_secs 60), ''d''), (context_new eve_input 1000 (from_secs 30), ''t'')]"
    "az_signer (eve_handler n) = \<lparr>sg_key = ''k''\<rparr>"
    by (simp_all add: eve_handler_def)
  have ne: "context_new eve_input 1000 (from_secs 60) \<noteq> context_new eve_input 1000 (from_secs 30)" by code_simp
  show "context_encode (az_access (eve_handler n)) (context_new eve_input 1000 (from_secs 60)) = Some (hex_encode ''d'')"
    "context_encode (az_access (eve_handler n)) (context_new eve_input 1000 (from_secs 30)) = Some (hex_encode ''t'')"
    "sign_encoded (az_access (eve_handler n)) (az_signer (eve_handler n)) (hex_encode ''d'') =
       Inr (''agctx1.'' @ hex_encode ''d'' @ ''.'' @ hex_encode (''mkagctx1.'' @ hex_encode ''d''))"
    unfolding lib by (use ne in \<open>simp_all add: context_encode_def table_lib_def sign_encoded_def\<close>)
qed

definition eve_header :: string where
  "eve_header = ''agctx1.'' @ hex_encode ''d'' @ ''.'' @ hex_encode (''mkagctx1.'' @ hex_encode ''d'')"

lemma eve_fields:
  "az_scope_delivery (eve_handler n) = \<lparr>sd_direct_urn_limit = n, sd_max_direct_header_bytes = 200, sd_direct_context_hmac_key = ''k'',
     sd_context_ttl = from_secs 60, sd_scope_token_ttl = from_secs 30\<rparr>"
  "az_cache (eve_handler n) = memory_authorization_cache"
  "az_resign (eve_handler n) = Some \<lparr>rg_key = ''r'', rg_max_ttl = from_secs 300\<rparr>"
  by (simp_all add: eve_handler_def)

lemma context_new_again:
  "context_new \<lparr>ci_principal_id = ac_principal_id (context_new i now ttl), ci_action = ac_action (context_new i now ttl),
      ci_resource_urn = ac_resource_urn (context_new i now ttl), ci_allow_resource_urns = ac_allow_resource_urns (context_new i now ttl),
      ci_deny_resource_urns = ac_deny_resource_urns (context_new i now ttl),
      ci_policy_revision = ac_policy_revision (context_new i now ttl)\<rparr> = context_new i"
  by (simp add: context_new_def fun_eq_iff)

lemma eve_delivered:
  "\<exists>d cache'. prepare_delivery (eve_handler n) eve_clock bytes (context_new eve_input 1000 (from_secs 60)) 2 1000 small_cache =
     (Inr d, cache') \<and> (if 2 \<le> n then d = Direct eve_header else \<exists>t. d = Token t)"
proof -
  have "length (''agctx1.'' @ hex_encode ''d'' @ ''.'' @ hex_encode (''mkagctx1.'' @ hex_encode ''d'')) \<le> 200"
    by (simp add: length_hex_encode)
  then show ?thesis
    unfolding prepare_delivery_def eve_codec option.case sum.case context_new_again eve_fields scope_delivery_properties.simps
      memory_authorization_cache_def authorization_cache.simps Let_def prod.case by (simp add: eve_header_def)
qed

lemma eve_evaluation:
  obtains e where "evaluate_request (eve_handler n) sample_state eve_workload = Inr e" "ad_allowed (re_decision e)"
    "re_authorization_scope e = Some eve_scope" "context_input_of e eve_scope = eve_input" "re_source_expires_at e = Some 1500"
  using eve_evaluated unfolding eve_limit [of n, symmetric] by (auto split: sum.splits)

lemma eve_workload_parsed: "workload_try_from (az_ext (eve_handler n)) eve_request = Inr eve_workload"
  using eve_parsed unfolding eve_limit [of n, symmetric] .

lemma eve_allowed:
  "rsp_code (fst (check (eve_handler n) sample_state eve_clock bytes eve_request small_cache)) = GrpcOk"
proof -
  obtain e where e: "evaluate_request (eve_handler n) sample_state eve_workload = Inr e" "ad_allowed (re_decision e)"
    "re_authorization_scope e = Some eve_scope" "context_input_of e eve_scope = eve_input" "re_source_expires_at e = Some 1500"
    by (rule eve_evaluation)
  note eve_workload_parsed [of n]
  moreover have "direct_context_of (eve_handler n) eve_clock e eve_scope = context_new eve_input 1000 (from_secs 60)"
    by (simp add: direct_context_of_def e(4) eve_clock_def eve_handler_def)
  moreover have "\<exists>t. resign_token (eve_handler n) 1000 (re_identity e) (re_principal_id e) (Some 1500) = Inr t"
    by (simp add: resign_token_def eve_handler_def checked_sub_def jwt_sign_def Let_def)
  moreover obtain d cache' where "prepare_delivery (eve_handler n) eve_clock bytes (context_new eve_input 1000 (from_secs 60)) 2 1000 small_cache = (Inr d, cache')"
    using eve_delivered by blast
  ultimately show ?thesis using e unfolding check_def allowed_def
    by (auto simp: eve_scope_def eve_clock_def numeral_2_eq_2)
qed

lemma eve_published:
  "policy_compile (ph_net (az_policy (eve_handler n))) (catalog sample_state) 1 = Inr (hs_current sample_state)"
  using sample_published sample_open(2)
  by (simp add: published_def eve_handler_def sample_policy_def)

lemma ok_http_cases:
  assumes "rsp_http (fst (check h hs ck bytes request cache)) = OkHttp ok"
  shows "rsp_code (fst (check h hs ck bytes request cache)) = GrpcOk"
proof -
  have no: "rsp_http (denied st c msg) \<noteq> OkHttp x" "rsp_http (denied_failure f) \<noteq> OkHttp x" for st c msg x f
    by (simp_all add: denied_def denied_failure_def)
  have "rsp_code (fst (allowed h ck bytes e cache)) = GrpcOk" if "rsp_http (fst (allowed h ck bytes e cache)) = OkHttp ok" for e
    using that no unfolding allowed_def by (auto simp: Let_def split: option.splits sum.splits prod.splits)
  then show ?thesis
    using assms no unfolding check_def by (auto split: sum.splits if_splits)
qed

section \<open>Properties\<close>

text \<open>
  Claim C2. A check is answered with OK only for an authorized request: the gateway token identifies a
  principal that is stored, active and of the authenticated kind, the route of the request resolves, and
  the published document has an allow binding and no deny binding for that principal, those of its
  claimed groups that are stored as active groups, and the action and resource of the route.
\<close>

theorem check_allows_only_authorized:
  assumes "readable_db (hs_storage hs)" "az_principals h = sqlite_principal_handler vs"
    and "policy_compile (ph_net (az_policy h)) (catalog hs) n = Inr (hs_current hs)"
    and "rsp_code (fst (check h hs ck bytes request cache)) = GrpcOk"
  shows "\<exists>input identity p route q. workload_try_from (az_ext h) request = Inr input \<and>
    request_identity h input = Inr identity \<and>
    sqlite_at (hs_storage hs) (ap_principal_id identity) = Some p \<and> pi_status p = Active \<and> pi_kind p = ap_kind identity \<and>
    resolve_http_route (hs_current hs) (wr_method input) (wr_host input) (wr_path input) (ap_trusted_claims identity) = Inr route \<and>
    ar_principal_id q = ap_principal_id identity \<and>
    set (ar_group_principal_ids q) = {g \<in> set (ap_stable_group_ids identity). g \<noteq> ap_principal_id identity \<and>
      (\<exists>p. sqlite_at (hs_storage hs) g = Some p \<and> pi_status p = Active \<and> pi_kind p = Group)} \<and>
    ar_action q = rr_action route \<and> ar_resource_urn q = rr_resource_urn route \<and> ar_parent_urns q = rr_parent_urns route \<and>
    ar_context q = evaluation_context_of input identity \<and>
    document_binds (ph_net (az_policy h)) (catalog hs) Allow q \<and> \<not> document_binds (ph_net (az_policy h)) (catalog hs) Deny q"
proof -
  from assms(4) obtain input identity source_exp resolved route where ok: "workload_try_from (az_ext h) request = Inr input"
    "request_identity h input = Inr identity" "resolve_request (az_principals h) (hs_storage hs) identity = Inr resolved"
    "resolve_http_route (hs_current hs) (wr_method input) (wr_host input) (wr_path input) (ap_trusted_claims identity) = Inr route"
    "ad_allowed (policy_authorize (ph_net (az_policy h)) (hs_current hs) (authorization_request_of input identity resolved route))"
    by (rule check_ok_cases)
  let ?q = "authorization_request_of input identity resolved route"
  have "document_binds (ph_net (az_policy h)) (catalog hs) Allow ?q \<and> \<not> document_binds (ph_net (az_policy h)) (catalog hs) Deny ?q"
    using ok(5) by (simp add: policy_authorize_def evaluator_authorize_allowed policy_compile_binds [OF assms(3)])
  moreover have resolved: "\<exists>p. sqlite_at (hs_storage hs) (ap_principal_id identity) = Some p \<and> pi_status p = Active \<and> pi_kind p = ap_kind identity"
    "rp_principal_id resolved = ap_principal_id identity"
    "set (rp_group_principal_ids resolved) = {g \<in> set (ap_stable_group_ids identity). g \<noteq> ap_principal_id identity \<and>
      (\<exists>p. sqlite_at (hs_storage hs) g = Some p \<and> pi_status p = Active \<and> pi_kind p = Group)}"
    using ok(3) unfolding assms(2) sqlite_resolution [OF assms(1)] by simp_all
  then obtain p where "sqlite_at (hs_storage hs) (ap_principal_id identity) = Some p" "pi_status p = Active" "pi_kind p = ap_kind identity"
    by blast
  ultimately show ?thesis using ok(1,2,4) resolved
    by (intro exI [of _ input] exI [of _ identity] exI [of _ p] exI [of _ route] exI [of _ ?q]) (simp add: authorization_request_of_def)
qed


lemma eve_readable: "readable_db (hs_storage sample_state)"
proof -
  have "valid_db (hs_storage sample_state)" using sample_published by (simp add: published_def)
  moreover have "list_all (\<lambda>r. principal_checks r \<and> json_as_object (tp_authorization_state r) \<noteq> None) (db_principals (hs_storage sample_state))"
    by code_simp
  ultimately show ?thesis by (simp add: readable_db_def list_all_iff)
qed

theorem check_allows_only_authorized_witness:
  "\<exists>input identity p. workload_try_from (az_ext (eve_handler 2)) eve_request = Inr input \<and>
     request_identity (eve_handler 2) input = Inr identity \<and>
     sqlite_at (hs_storage sample_state) (ap_principal_id identity) = Some p \<and> pi_status p = Active"
proof -
  have "az_principals (eve_handler 2) = sqlite_principal_handler []" by (simp add: eve_handler_def)
  from check_allows_only_authorized [OF eve_readable this eve_published eve_allowed] show ?thesis by blast
qed

text \<open>The headers an allowed response may set.\<close>

definition delivery_headers :: "string list" where
  "delivery_headers = [''authorization'', access_context_header, scope_token_header]"

lemma fixed_headers_apart:
  assumes "n \<in> set delivery_headers"
  shows "m \<in> set (legacy_access_headers @ untrusted_identity_headers) \<Longrightarrow> \<not> eq_ignore_ascii_case m n"
    and "m \<in> set delivery_headers \<Longrightarrow> eq_ignore_ascii_case m n \<longleftrightarrow> m = n"
proof -
  have "list_all (\<lambda>n. list_all (\<lambda>m. \<not> eq_ignore_ascii_case m n) (legacy_access_headers @ untrusted_identity_headers)) delivery_headers"
    "list_all (\<lambda>n. list_all (\<lambda>m. eq_ignore_ascii_case m n \<longleftrightarrow> m = n) delivery_headers) delivery_headers" by code_simp+
  then show "m \<in> set (legacy_access_headers @ untrusted_identity_headers) \<Longrightarrow> \<not> eq_ignore_ascii_case m n"
    "m \<in> set delivery_headers \<Longrightarrow> eq_ignore_ascii_case m n \<longleftrightarrow> m = n"
    using assms unfolding list_all_iff by blast+
qed

lemma allowed_header_set:
  "fst ` set (ok_headers (allowed_http_response h d resigned)) =
     (case d of Direct v \<Rightarrow> {access_context_header} | Token t \<Rightarrow> {scope_token_header}) \<union>
     (case resigned of None \<Rightarrow> {} | Some t \<Rightarrow> {''authorization''})"
  unfolding allowed_http_response_def by (cases d; cases resigned; simp add: insert_commute)

lemma allowed_header_removed:
  "set (ok_headers_to_remove (allowed_http_response h d resigned)) =
     (case resigned of None \<Rightarrow> {''authorization''} | Some t \<Rightarrow> {}) \<union> set (legacy_access_headers @ untrusted_identity_headers) \<union>
     (if resigned = None \<or> \<not> eq_ignore_ascii_case (ip_token_header (az_identity h)) ''authorization''
      then {ip_token_header (az_identity h)} else {}) \<union>
     (case d of Direct v \<Rightarrow> {scope_token_header} | Token t \<Rightarrow> {access_context_header})"
  unfolding allowed_http_response_def ok_http_response.select_convs set_append
  by (cases d; cases resigned) (simp_all only: option.case access_delivery.case option.distinct not_Some_eq simp_thms if_True if_False
    list.set Un_assoc Un_empty_left if_distrib [of set])

lemma allowed_headers_apart:
  assumes "n \<in> fst ` set (ok_headers (allowed_http_response h d resigned))"
    and "m \<in> set (ok_headers_to_remove (allowed_http_response h d resigned))" "eq_ignore_ascii_case m n"
  shows "eq_ignore_ascii_case (ip_token_header (az_identity h)) access_context_header \<or>
    eq_ignore_ascii_case (ip_token_header (az_identity h)) scope_token_header"
proof -
  let ?t = "ip_token_header (az_identity h)"
  have clash: "m = n \<or> m = ?t"
  proof (rule ccontr)
    assume ne: "\<not> (m = n \<or> m = ?t)"
    have "n \<in> set delivery_headers"
      using assms(1) unfolding allowed_header_set delivery_headers_def by (cases d; cases resigned) auto
    moreover have "m \<in> set (legacy_access_headers @ untrusted_identity_headers) \<or>
        m \<in> set delivery_headers"
      using assms(2) ne unfolding allowed_header_removed delivery_headers_def by (cases d; cases resigned) (auto split: if_splits)
    ultimately show False using fixed_headers_apart [of n m] assms(3) ne by blast
  qed
  show ?thesis
  proof (cases "m = ?t")
    case True
    then show ?thesis
      using assms fixed_headers_apart(1) [of "''authorization''" ?t]
      unfolding allowed_header_set allowed_header_removed delivery_headers_def
      by (cases d; cases resigned) (auto split: if_splits)
  next
    case False
    then have "n \<in> set (ok_headers_to_remove (allowed_http_response h d resigned)) - {?t}" using clash assms(2) by simp
    moreover have "n \<notin> set (legacy_access_headers @ untrusted_identity_headers)"
      using fixed_headers_apart(1) [of n n] assms(1) unfolding allowed_header_set delivery_headers_def
      by (cases d; cases resigned) auto
    ultimately show ?thesis
      using assms(1) unfolding allowed_header_set allowed_header_removed
      by (cases d; cases resigned) (simp_all split: if_splits)
  qed
qed

lemma allowed_headers_cover:
  assumes "name \<in> {''authorization'', access_context_header, scope_token_header, ip_token_header (az_identity h)} \<union>
        set legacy_access_headers \<union> set untrusted_identity_headers"
    and "ok = allowed_http_response h d resigned"
  shows "\<exists>n \<in> fst ` set (ok_headers ok) \<union> set (ok_headers_to_remove ok). eq_ignore_ascii_case name n"
proof -
  let ?names = "fst ` set (ok_headers ok) \<union> set (ok_headers_to_remove ok)"
  have "name \<in> ?names \<or> name = ip_token_header (az_identity h)"
    using assms(1) unfolding assms(2) allowed_header_set allowed_header_removed set_append
    by (cases d; cases resigned) auto
  moreover have "ip_token_header (az_identity h) \<in> ?names \<or>
      eq_ignore_ascii_case (ip_token_header (az_identity h)) ''authorization'' \<and> ''authorization'' \<in> ?names"
    unfolding assms(2) allowed_header_set allowed_header_removed by (cases resigned) simp_all
  ultimately show ?thesis using eq_ignore_ascii_case_refl by blast
qed

text \<open>
  Claim C18. An allowed response leaves no header of the client in a trusted position: the credentials, the
  identity headers and the context headers are each overwritten or removed, whatever the case of the
  configured token header. No header is both set and removed, provided that the configured token header is
  not one of the two context headers.
\<close>

theorem trusted_headers_are_replaced:
  assumes "rsp_http (fst (check h hs ck bytes request cache)) = OkHttp ok"
  shows "(\<forall>name \<in> {''authorization'', access_context_header, scope_token_header, ip_token_header (az_identity h)} \<union>
        set legacy_access_headers \<union> set untrusted_identity_headers.
      \<exists>n \<in> fst ` set (ok_headers ok) \<union> set (ok_headers_to_remove ok). eq_ignore_ascii_case name n) \<and>
    (\<not> eq_ignore_ascii_case (ip_token_header (az_identity h)) access_context_header \<and>
     \<not> eq_ignore_ascii_case (ip_token_header (az_identity h)) scope_token_header \<longrightarrow>
      \<not> (\<exists>n \<in> fst ` set (ok_headers ok). \<exists>m \<in> set (ok_headers_to_remove ok). eq_ignore_ascii_case m n))"
proof -
  from ok_http_cases [OF assms] obtain d resigned where "ok = allowed_http_response h d resigned"
    using assms by (elim check_ok_cases) auto
  note ok = this
  show ?thesis
  proof (intro conjI ballI impI)
    fix name assume "name \<in> {''authorization'', access_context_header, scope_token_header, ip_token_header (az_identity h)} \<union>
        set legacy_access_headers \<union> set untrusted_identity_headers"
    then show "\<exists>n \<in> fst ` set (ok_headers ok) \<union> set (ok_headers_to_remove ok). eq_ignore_ascii_case name n"
      using ok by (rule allowed_headers_cover)
  next
    assume "\<not> eq_ignore_ascii_case (ip_token_header (az_identity h)) access_context_header \<and>
      \<not> eq_ignore_ascii_case (ip_token_header (az_identity h)) scope_token_header"
    then show "\<not> (\<exists>n \<in> fst ` set (ok_headers ok). \<exists>m \<in> set (ok_headers_to_remove ok). eq_ignore_ascii_case m n)"
      using allowed_headers_apart [of _ h d resigned] unfolding ok by blast
  qed
qed

theorem trusted_headers_are_replaced_witness:
  "\<exists>ok. rsp_http (fst (check (eve_handler 2) sample_state eve_clock [] eve_request small_cache)) = OkHttp ok \<and>
     \<not> (\<exists>n \<in> fst ` set (ok_headers ok). \<exists>m \<in> set (ok_headers_to_remove ok). eq_ignore_ascii_case m n)"
proof -
  obtain ok where ok: "rsp_http (fst (check (eve_handler 2) sample_state eve_clock [] eve_request small_cache)) = OkHttp ok"
    using eve_allowed [of 2 "[]"] by (rule check_ok_cases)
  have "ip_token_header (az_identity (eve_handler 2)) = ''x-authguard-id-token''" by (simp add: eve_handler_def)
  moreover have "\<not> eq_ignore_ascii_case ''x-authguard-id-token'' access_context_header"
    "\<not> eq_ignore_ascii_case ''x-authguard-id-token'' scope_token_header" by code_simp+
  ultimately show ?thesis using trusted_headers_are_replaced [OF ok] ok by simp
qed

text \<open>
  A token header configured as the context header is both set and removed by every allowed response that delivers the
  context directly.
\<close>

theorem token_header_conflict:
  assumes "ip_token_header (az_identity h) = access_context_header"
  shows "access_context_header \<in> fst ` set (ok_headers (allowed_http_response h (Direct v) resigned)) \<inter>
    set (ok_headers_to_remove (allowed_http_response h (Direct v) resigned))"
proof -
  have "\<not> eq_ignore_ascii_case access_context_header ''authorization''" by code_simp
  then show ?thesis unfolding allowed_header_set allowed_header_removed assms by simp
qed

theorem token_header_conflict_witness:
  "\<exists>h :: (database, nat, memory_cache, string, string) authorization_handler.
     access_context_header \<in> fst ` set (ok_headers (allowed_http_response h (Direct ''agctx1'') None)) \<inter>
       set (ok_headers_to_remove (allowed_http_response h (Direct ''agctx1'') None))"
proof -
  let ?h = "eve_handler 2\<lparr>az_identity := az_identity (eve_handler 2)\<lparr>ip_token_header := access_context_header\<rparr>\<rparr>"
  have "ip_token_header (az_identity ?h) = access_context_header" by simp
  from token_header_conflict [OF this] show ?thesis by blast
qed

subsection \<open>What the services receive\<close>

lemma check_delivery_cases:
  assumes "check h hs ck bytes request cache = (rsp, cache')" "rsp_http rsp = OkHttp ok"
  obtains input e scoped resigned d where
    "workload_try_from (az_ext h) request = Inr input" "evaluate_request h hs input = Inr e"
    "re_authorization_scope e = Some scoped"
    "resign_token h (ck_resign ck) (re_identity e) (re_principal_id e) (re_source_expires_at e) = Inr resigned"
    "prepare_delivery h ck bytes (context_new (context_input_of e scoped) (ck_allowed ck) (sd_context_ttl (az_scope_delivery h)))
       (length (as_allow_resource_urns scoped) + length (as_deny_resource_urns scoped)) (ck_allowed ck) cache = (Inr d, cache')"
    "ok = allowed_http_response h d resigned"
proof -
  have "rsp_code rsp = GrpcOk" using ok_http_cases [of h hs ck bytes request cache ok] assms by simp
  then obtain m where "rsp = \<lparr>rsp_code = GrpcOk, rsp_message = m, rsp_http = OkHttp ok\<rparr>"
    using assms(2) by (metis (full_types) check_response.surjective old.unit.exhaust)
  from assms(1) [unfolded this, unfolded check_ok_iff] show thesis
    using that unfolding direct_context_of_def by blast
qed

lemma delivered_header:
  "(access_context_header, v) \<in> set (ok_headers (allowed_http_response h d resigned)) \<longleftrightarrow> d = Direct v"
  "(scope_token_header, t) \<in> set (ok_headers (allowed_http_response h d resigned)) \<longleftrightarrow> d = Token t"
  "(''authorization'', b) \<in> set (ok_headers (allowed_http_response h d resigned)) \<longleftrightarrow> (\<exists>r. resigned = Some r \<and> b = ''Bearer '' @ r)"
  unfolding allowed_http_response_def by (cases d; cases resigned; auto)+

text \<open>
  The context header of an allowed response is accepted by a service with the same key: its
  signature verifies, and for as long as it lives it decodes to a context with the principal, the action,
  the resource and the policy revision of the evaluated request, and with the resource scope the policy
  gives that principal for that action.
\<close>

theorem direct_context_verifies:
  assumes "context_codec (az_access h)" "check h hs ck bytes request cache = (rsp, cache')"
    and "rsp_http rsp = OkHttp ok" "(access_context_header, v) \<in> set (ok_headers ok)"
  shows "\<exists>payload input e scoped. context_verify (az_access h) (az_signer h) v = Inr payload \<and>
    workload_try_from (az_ext h) request = Inr input \<and> evaluate_request h hs input = Inr e \<and>
    re_authorization_scope e = Some scoped \<and>
    (\<forall>now. unat (ck_allowed ck) \<le> unat now + 30 \<and> now < - 1 \<and> ck_allowed ck < - 1 \<and>
       0 < as_secs (sd_context_ttl (az_scope_delivery h)) \<and> unat now < unat (ck_allowed ck) + unat (as_secs (sd_context_ttl (az_scope_delivery h))) \<longrightarrow>
      (\<exists>c. context_decode (az_access h) now payload = Inr c \<and> ac_principal_id c = re_principal_id e \<and>
        ac_action c = rr_action (re_route e) \<and> ac_resource_urn c = urn_to_string (rr_resource_urn (re_route e)) \<and>
        ac_policy_revision c = re_policy_revision e \<and>
        ac_allow_resource_urns c = as_allow_resource_urns scoped \<and> ac_deny_resource_urns c = as_deny_resource_urns scoped))"
proof -
  from assms(2,3) obtain input e scoped resigned d where run: "workload_try_from (az_ext h) request = Inr input"
    "evaluate_request h hs input = Inr e" "re_authorization_scope e = Some scoped"
    "prepare_delivery h ck bytes (context_new (context_input_of e scoped) (ck_allowed ck) (sd_context_ttl (az_scope_delivery h)))
       (length (as_allow_resource_urns scoped) + length (as_deny_resource_urns scoped)) (ck_allowed ck) cache = (Inr d, cache')"
    "ok = allowed_http_response h d resigned"
    by (rule check_delivery_cases)
  let ?c = "context_new (context_input_of e scoped) (ck_allowed ck) (sd_context_ttl (az_scope_delivery h))"
  have "d = Direct v" using assms(4) unfolding run(5) delivered_header .
  with run(4) obtain payload where payload: "context_encode (az_access h) ?c = Some payload"
    "sign_encoded (az_access h) (az_signer h) payload = Inr v"
    by (elim prepare_delivery_cases) auto
  have "context_verify (az_access h) (az_signer h) v = Inr payload"
    using context_codec.verify_encoded [OF assms(1) payload] .
  moreover have "context_decode (az_access h) now payload = Inr ?c" if "unat (ck_allowed ck) \<le> unat now + 30 \<and> now < - 1 \<and> ck_allowed ck < - 1 \<and>
       0 < as_secs (sd_context_ttl (az_scope_delivery h)) \<and> unat now < unat (ck_allowed ck) + unat (as_secs (sd_context_ttl (az_scope_delivery h)))" for now
    using context_codec.decode_alive [OF assms(1) payload(1)] that by blast
  ultimately show ?thesis using run(1-3)
    by (intro exI [of _ payload] exI [of _ input] exI [of _ e] exI [of _ scoped]) (auto simp: context_new_def context_input_of_def)
qed

text \<open>
  Claim C19. A scope token of an allowed response resolves to the same scope: while the memory cache keeps
  it, the token service returns an encoding which, for as long as the context lives, decodes to a context
  with the principal, action, resource, revision and resource scope of the evaluated request.
\<close>

theorem scope_token_resolves:
  assumes "context_codec (az_access h)" "az_cache h = memory_authorization_cache" "fresh_scopes cache"
    and "valid_scope_token (new_scope_token (az_ext h) bytes)"
    and "check h hs ck bytes request cache = (rsp, cache')"
    and "rsp_http rsp = OkHttp ok" "(scope_token_header, token) \<in> set (ok_headers ok)"
    and "load_time < expires_at cache (ck_store_expiry ck) (sd_scope_token_ttl (az_scope_delivery h))"
    and "unat (ck_allowed ck) \<le> unat now + 30" "now < - 1" "ck_allowed ck < - 1"
      "0 < as_secs (sd_scope_token_ttl (az_scope_delivery h))"
      "unat now < unat (ck_allowed ck) + unat (as_secs (sd_scope_token_ttl (az_scope_delivery h)))"
  shows "\<exists>encoded input e scoped c. fst (resolve_scope h load_time now token cache') = Inr encoded \<and>
    workload_try_from (az_ext h) request = Inr input \<and> evaluate_request h hs input = Inr e \<and>
    re_authorization_scope e = Some scoped \<and>
    context_decode (az_access h) now encoded = Inr c \<and> ac_principal_id c = re_principal_id e \<and>
    ac_action c = rr_action (re_route e) \<and> ac_resource_urn c = urn_to_string (rr_resource_urn (re_route e)) \<and>
    ac_policy_revision c = re_policy_revision e \<and>
    ac_allow_resource_urns c = as_allow_resource_urns scoped \<and> ac_deny_resource_urns c = as_deny_resource_urns scoped"
proof -
  from assms(5,6) obtain input e scoped resigned d where run: "workload_try_from (az_ext h) request = Inr input"
    "evaluate_request h hs input = Inr e" "re_authorization_scope e = Some scoped"
    "prepare_delivery h ck bytes (context_new (context_input_of e scoped) (ck_allowed ck) (sd_context_ttl (az_scope_delivery h)))
       (length (as_allow_resource_urns scoped) + length (as_deny_resource_urns scoped)) (ck_allowed ck) cache = (Inr d, cache')"
    "ok = allowed_http_response h d resigned"
    by (rule check_delivery_cases)
  let ?c = "context_new (context_input_of e scoped) (ck_allowed ck) (sd_scope_token_ttl (az_scope_delivery h))"
  have "d = Token token" using assms(7) unfolding run(5) delivered_header .
  with run(4) obtain encoded where enc: "token = new_scope_token (az_ext h) bytes" "context_encode (az_access h) ?c = Some encoded"
    "ch_store_scope memory_authorization_cache (ck_store ck) (ck_store_expiry ck) token encoded
       (sd_scope_token_ttl (az_scope_delivery h)) cache = (Inr (), cache')"
    unfolding assms(2) [symmetric] by (elim prepare_delivery_cases) auto
  have c: "context_decode (az_access h) now encoded = Inr ?c"
    using context_codec.decode_alive [OF assms(1) enc(2)] assms(9-13) by blast
  have "fst (resolve_scope h load_time now token cache') = Inr encoded"
    using memory_scopes.resolve_stored [OF assms(2,3) enc(3) _ assms(8) c] assms(4) enc(1) by simp
  then show ?thesis using run(1-3) c
    by (intro exI [of _ encoded] exI [of _ input] exI [of _ e] exI [of _ scoped] exI [of _ ?c]) (auto simp: context_new_def context_input_of_def)
qed

lemma eve_response:
  obtains rsp cache' ok where "check (eve_handler n) sample_state eve_clock bytes eve_request small_cache = (rsp, cache')"
    "rsp_http rsp = OkHttp ok"
    "2 \<le> n \<Longrightarrow> (access_context_header, eve_header) \<in> set (ok_headers ok)"
    "n < 2 \<Longrightarrow> \<exists>t. (scope_token_header, t) \<in> set (ok_headers ok)"
    "\<exists>t. (''authorization'', ''Bearer '' @ t) \<in> set (ok_headers ok)"
proof -
  obtain ok where ok: "rsp_http (fst (check (eve_handler n) sample_state eve_clock bytes eve_request small_cache)) = OkHttp ok"
    using eve_allowed [of n bytes] by (rule check_ok_cases)
  then obtain rsp cache' where run: "check (eve_handler n) sample_state eve_clock bytes eve_request small_cache = (rsp, cache')"
    "rsp_http rsp = OkHttp ok" by (metis fst_conv surj_pair)
  obtain e where e: "evaluate_request (eve_handler n) sample_state eve_workload = Inr e"
    "re_authorization_scope e = Some eve_scope" "context_input_of e eve_scope = eve_input"
    by (rule eve_evaluation)
  from run obtain resigned d where d: "prepare_delivery (eve_handler n) eve_clock bytes (context_new eve_input 1000 (from_secs 60)) 2 1000 small_cache =
      (Inr d, cache')" "ok = allowed_http_response (eve_handler n) d resigned" "resigned \<noteq> None"
    by (rule check_delivery_cases)
      (use e eve_workload_parsed [of n] in \<open>auto simp: eve_clock_def eve_scope_def numeral_2_eq_2 eve_fields resign_token_def Let_def
         result_simps split: option.splits\<close>)
  have "if 2 \<le> n then d = Direct eve_header else \<exists>t. d = Token t"
    using eve_delivered [of n bytes] d(1) by auto
  then show thesis using that [OF run] d(3) unfolding d(2) delivered_header by (auto split: if_splits)
qed

theorem direct_context_verifies_witness:
  "\<exists>v payload c. context_verify (az_access (eve_handler 2)) (az_signer (eve_handler 2)) v = Inr payload \<and>
     context_decode (az_access (eve_handler 2)) 1059 payload = Inr c"
proof -
  obtain rsp cache' ok v where run: "check (eve_handler 2) sample_state eve_clock [] eve_request small_cache = (rsp, cache')"
    "rsp_http rsp = OkHttp ok" "(access_context_header, v) \<in> set (ok_headers ok)"
    by (rule eve_response [of 2 "[]"]) auto
  have "context_codec (az_access (eve_handler 2))" by (simp add: eve_handler_def table_codec)
  from direct_context_verifies [OF this run] obtain payload where
    "context_verify (az_access (eve_handler 2)) (az_signer (eve_handler 2)) v = Inr payload"
    and live: "\<And>now. unat (1000 :: u64) \<le> unat now + 30 \<and> now < - 1 \<and> (1000 :: u64) < - 1 \<and> 0 < (60 :: u64) \<and>
      unat now < unat (1000 :: u64) + unat (60 :: u64) \<Longrightarrow> \<exists>c. context_decode (az_access (eve_handler 2)) now payload = Inr c"
    unfolding eve_fields eve_clock_def clock.simps scope_delivery_properties.simps as_secs_from_secs by blast
  moreover have "\<exists>c. context_decode (az_access (eve_handler 2)) 1059 payload = Inr c" by (rule live) simp
  ultimately show ?thesis by blast
qed

theorem scope_token_resolves_witness:
  "\<exists>rsp cache' token encoded. check (eve_handler 0) sample_state eve_clock [] eve_request small_cache = (rsp, cache') \<and>
     fst (resolve_scope (eve_handler 0) 1029 1029 token cache') = Inr encoded"
proof -
  obtain rsp cache' ok token where run: "check (eve_handler 0) sample_state eve_clock [] eve_request small_cache = (rsp, cache')"
    "rsp_http rsp = OkHttp ok" "(scope_token_header, token) \<in> set (ok_headers ok)"
    by (rule eve_response [of 0 "[]"]) auto
  have h: "context_codec (az_access (eve_handler 0))" "az_cache (eve_handler 0) = memory_authorization_cache"
    by (simp_all add: eve_handler_def table_codec)
  have cache: "fresh_scopes small_cache" "valid_scope_token (new_scope_token (az_ext (eve_handler 0)) [])"
    "1029 < expires_at small_cache (ck_store_expiry eve_clock) (sd_scope_token_ttl (az_scope_delivery (eve_handler 0)))"
    by code_simp+
  from scope_token_resolves [OF h cache(1,2) run cache(3), of 1029] run(1) show ?thesis
    by (auto simp: eve_fields eve_clock_def)
qed

text \<open>
  Claim C20. A re-signed token replaces the credentials of the client: it is signed with the configured key,
  its claims name AuthGuard as the issuer and the resolved principal as the subject and carry the origin
  mark, whatever the claims of the client's token were, and it expires neither after the token of the
  client nor later than the configured lifetime allows.
\<close>

theorem resigned_token_is_bounded:
  assumes "rsa_scheme (az_rsa h)" "check h hs ck bytes request cache = (rsp, cache')"
    and "rsp_http rsp = OkHttp ok" "(''authorization'', v) \<in> set (ok_headers ok)"
    and "\<And>m. claims_to_vec (az_ext h) m \<noteq> Some []"
  shows "\<exists>signer token claims payload input e source_token source_exp expiry.
    az_resign h = Some signer \<and> v = ''Bearer '' @ token \<and> claims_to_vec (az_ext h) claims = Some payload \<and>
    (\<forall>pem. public_key_pem (az_rsa h) (rg_key signer) = Inr pem \<longrightarrow> jwt_verify (az_rsa h) pem token = Inr payload) \<and>
    workload_try_from (az_ext h) request = Inr input \<and> evaluate_request h hs input = Inr e \<and>
    claims ''iss'' = Some (JString ''authguard-authz'') \<and> claims ''authguardOrigin'' = Some (JBool True) \<and>
    claims ''sub'' = Some (JString (re_principal_id e)) \<and> claims ''exp'' = Some (JNumber (u64_to_string expiry)) \<and>
    gateway_token (wr_headers input) (ip_token_header (az_identity h)) = Some source_token \<and>
    token_expiry (az_tokens h) source_token = Some source_exp \<and> expiry \<le> source_exp \<and>
    unat expiry \<le> unat (ck_resign ck) + unat (as_secs (rg_max_ttl signer))"
proof -
  from assms(2,3) obtain input e resigned d where run: "workload_try_from (az_ext h) request = Inr input"
    "evaluate_request h hs input = Inr e"
    "resign_token h (ck_resign ck) (re_identity e) (re_principal_id e) (re_source_expires_at e) = Inr resigned"
    "ok = allowed_http_response h d resigned"
    by (rule check_delivery_cases)
  from assms(4) obtain token where token: "resigned = Some token" "v = ''Bearer '' @ token"
    unfolding run(4) delivered_header by blast
  from run(3) [unfolded token(1)] obtain signer source_exp payload ttl where r: "az_resign h = Some signer"
    "re_source_expires_at e = Some source_exp" "ck_resign ck < source_exp"
    "ttl = duration_min (rg_max_ttl signer) (from_secs (source_exp - ck_resign ck))"
    "claims_to_vec (az_ext h) (resign_token_claims (re_identity e) (re_principal_id e) (ck_resign ck) ttl) = Some payload"
    "jwt_sign (az_rsa h) (rg_key signer) payload = Inr token"
    by (rule resign_token_Some)
  have "source_token_expiry h input = Inr (Some source_exp)"
    using run(2) r(2) unfolding evaluate_request_Inr by (auto simp: evaluation_of_def Let_def)
  then obtain source_token where "gateway_token (wr_headers input) (ip_token_header (az_identity h)) = Some source_token"
    "token_expiry (az_tokens h) source_token = Some source_exp"
    using r(1) by (auto simp: source_token_expiry_def result_simps)
  moreover have "payload \<noteq> []" using assms(5) r(5) by auto
  then have "jwt_verify (az_rsa h) pem token = Inr payload" if "public_key_pem (az_rsa h) (rg_key signer) = Inr pem" for pem
    using rsa_scheme.verify_sign [OF assms(1) that r(6)] by blast
  ultimately show ?thesis
    using run(1,2) token(2) r(1,5) resign_claims_reserved [of "re_identity e" "re_principal_id e" "ck_resign ck" ttl]
      resign_expiry [OF r(3,4)] by blast
qed

theorem resigned_token_is_bounded_witness:
  "\<exists>v token payload. v = ''Bearer '' @ token \<and> jwt_verify text_rsa ''r'' token = Inr payload"
proof -
  obtain rsp cache' ok t where run: "check (eve_handler 2) sample_state eve_clock [] eve_request small_cache = (rsp, cache')"
    "rsp_http rsp = OkHttp ok" "(''authorization'', ''Bearer '' @ t) \<in> set (ok_headers ok)"
    by (rule eve_response [of 2 "[]"]) auto
  have h: "az_rsa (eve_handler 2) = text_rsa" "az_resign (eve_handler 2) = Some \<lparr>rg_key = ''r'', rg_max_ttl = from_secs 300\<rparr>"
    "claims_to_vec (az_ext (eve_handler 2)) m \<noteq> Some []" for m
    by (simp_all add: eve_handler_def)
  have "rsa_scheme (az_rsa (eve_handler 2))" unfolding h by (rule texts.rsa_scheme_axioms)
  moreover have "public_key_pem text_rsa ''r'' = Inr ''r''" by (simp add: public_key_pem_def text_rsa_def)
  ultimately show ?thesis using resigned_token_is_bounded [OF _ run h(3)] unfolding h by fastforce
qed

end
