(* ===== verification/Authentication.thy ===== *)
theory Authentication
  imports Account_Linking Ext_Authz
begin

text \<open>
  The authentication service behind its protocols: the issuer and verifier of the canonical token
  (\<open>authn/src/authentication/token.rs\<close>), the pipeline in which every protocol converges
  (\<open>authn/src/handler/authentication.rs\<close>) and the one-time challenges of the interactive ceremonies
  (\<open>authn/src/authentication/challenge.rs\<close>). The crates are parameters; the locale \<open>issuer_codec\<close>
  extends \<open>rsa_scheme\<close> with what \<open>serde_json\<close> promises. The lemmas show that the token a login
  issues authenticates as the principal the login resolved to, here and at the gateway.
\<close>

section \<open>Tokens\<close>

record token_properties =
  tk_issuer :: string
  tk_audience :: string
  tk_ttl :: duration
  tk_private_key :: string
  tk_private_key_b64 :: string
  tk_private_key_file :: string

record 'k token_issuer =
  ts_config :: token_properties
  ts_signing_key :: "'k option"
  ts_public_key :: "string option"

datatype token_error = SigningUnavailable | InvalidToken

text \<open>RSA and JWT encoding, the readers of a token, and \<open>serde_json::to_vec\<close> on claims.\<close>

record ('k, 'p) issuer_lib =
  il_rsa :: "('k, 'p) rsa_lib"
  il_tokens :: token_lib
  il_claims_to_vec :: "(string \<rightharpoonup> json) \<Rightarrow> string option"

text \<open>The part of the authentication configuration that the issuer reads, and the sources of its key.\<close>

record authn_properties =
  an_providers :: "string list"
  an_standalone_enabled :: bool
  an_wallet_enabled :: bool
  an_token :: token_properties

record key_sources =
  ks_standard_decode :: "string \<Rightarrow> string option"
  ks_from_utf8 :: "string \<Rightarrow> string option"
  ks_read_file :: "string \<Rightarrow> string option"

datatype issuer_config_error =
    SeveralKeySources
  | KeyNotBase64
  | KeyNotUtf8
  | KeyFileUnreadable
  | KeyRequired
  | KeyRejected jwt_error

definition issuer_from_config ::
  "('k, 'p) issuer_lib \<Rightarrow> key_sources \<Rightarrow> authn_properties \<Rightarrow> (issuer_config_error, 'k token_issuer) result" where
  "issuer_from_config lib src config =
     (let token = an_token config;
          configured_sources = length (filter (\<lambda>v. v \<noteq> [])
            [tk_private_key token, tk_private_key_b64 token, tk_private_key_file token])
      in if configured_sources > 1 then Inl SeveralKeySources
         else and_then
           (if tk_private_key_b64 token \<noteq> [] then
              and_then (ok_or KeyNotBase64 (ks_standard_decode src (trim (tk_private_key_b64 token)))) (\<lambda>decoded.
                ok_or KeyNotUtf8 (ks_from_utf8 src decoded))
            else if tk_private_key_file token \<noteq> [] then ok_or KeyFileUnreadable (ks_read_file src (tk_private_key_file token))
            else Inr (tk_private_key token)) (\<lambda>key.
         let authn_enabled = an_providers config \<noteq> [] \<or> an_standalone_enabled config \<or> an_wallet_enabled config
         in if key = [] \<and> authn_enabled then Inl KeyRequired
            else if key = [] then Inr \<lparr>ts_config = token, ts_signing_key = None, ts_public_key = None\<rparr>
            else and_then (map_err KeyRejected (load_signing_key (il_rsa lib) key)) (\<lambda>signing_key.
                 and_then (map_err KeyRejected (public_key_pem (il_rsa lib) signing_key)) (\<lambda>public_key.
                   Inr \<lparr>ts_config = token, ts_signing_key = Some signing_key, ts_public_key = Some public_key\<rparr>))))"

text \<open>\<open>u64::try_from\<close> of an \<open>i64\<close> timestamp.\<close>

definition timestamp_u64 :: "int \<Rightarrow> u64 option" where
  "timestamp_u64 n = (if 0 \<le> n \<and> n < 2 ^ 63 then Some (of_int n) else None)"

definition issued_claims ::
  "token_properties \<Rightarrow> authenticated_principal_context \<Rightarrow> authentication_result \<Rightarrow> u64 \<Rightarrow> u64 \<Rightarrow> string \<rightharpoonup> json" where
  "issued_claims config who authentication auth_time now =
     (let base = (map_option JString \<circ> ap_trusted_claims who)
        (''iss'' \<mapsto> JString (tk_issuer config), ''aud'' \<mapsto> JString (tk_audience config),
         ''sub'' \<mapsto> JString (ap_principal_id who), ''principal_id'' \<mapsto> JString (ap_principal_id who),
         ''principal_kind'' \<mapsto> JString (kind_as_str (ap_kind who)),
         ''authguard_group_ids'' \<mapsto> JArray (map JString (ap_stable_group_ids who)),
         ''amr'' \<mapsto> JArray (map JString (res_amr authentication)),
         ''auth_time'' \<mapsto> JNumber (u64_to_string auth_time), ''iat'' \<mapsto> JNumber (u64_to_string now),
         ''exp'' \<mapsto> JNumber (u64_to_string (saturating_add now (as_secs (tk_ttl config)))))
      in case res_acr authentication of Some acr \<Rightarrow> base(''acr'' \<mapsto> JString acr) | None \<Rightarrow> base)"

definition issue ::
  "('k, 'p) issuer_lib \<Rightarrow> 'k token_issuer \<Rightarrow> u64 \<Rightarrow> authenticated_principal_context \<Rightarrow> authentication_result \<Rightarrow>
   (token_error, string) result" where
  "issue lib t now who authentication =
     and_then (ok_or SigningUnavailable (ts_signing_key t)) (\<lambda>key.
     and_then (ok_or SigningUnavailable (timestamp_u64 (res_authenticated_at authentication))) (\<lambda>auth_time.
     and_then (ok_or SigningUnavailable
       (il_claims_to_vec lib (issued_claims (ts_config t) who authentication auth_time now))) (\<lambda>payload.
       map_err (\<lambda>_. SigningUnavailable) (jwt_sign (il_rsa lib) key payload))))"

definition jwks :: "('k, 'p) issuer_lib \<Rightarrow> 'k token_issuer \<Rightarrow> (token_error, json) result" where
  "jwks lib t =
     and_then (ok_or SigningUnavailable (ts_signing_key t)) (\<lambda>key.
       let (modulus, exponent) = public_key_jwk_components (il_rsa lib) key
       in Inr (JObject [(''keys'', JArray [JObject [(''kty'', JString ''RSA''), (''use'', JString ''sig''),
            (''alg'', JString ''RS256''), (''n'', JString (jwt_b64_encode (il_rsa lib) modulus)),
            (''e'', JString (jwt_b64_encode (il_rsa lib) exponent))]])]))"

fun audience_matches :: "json option \<Rightarrow> string \<Rightarrow> bool" where
  "audience_matches (Some (JString v)) expected = (v = expected)"
| "audience_matches (Some (JArray vs)) expected = list_ex (\<lambda>v. json_as_str v = Some expected) vs"
| "audience_matches _ expected = False"

definition authenticate ::
  "('k, 'p) issuer_lib \<Rightarrow> 'k token_issuer \<Rightarrow> u64 \<Rightarrow> string \<Rightarrow> (token_error, authenticated_principal_context) result" where
  "authenticate lib t now token =
     and_then (ok_or SigningUnavailable (ts_public_key t)) (\<lambda>pem.
     and_then (map_err (\<lambda>_. InvalidToken) (jwt_verify (il_rsa lib) pem token)) (\<lambda>payload.
     and_then (ok_or InvalidToken (json_from_slice (il_tokens lib) payload)) (\<lambda>v.
     and_then (ok_or InvalidToken (json_as_object v)) (\<lambda>claims.
     and_then (ok_or InvalidToken (case Option.bind (map_of claims ''principal_id'') json_as_str of
         Some i \<Rightarrow> if i = [] then None else Some i | None \<Rightarrow> None)) (\<lambda>principal_id.
       if Option.bind (map_of claims ''sub'') json_as_str \<noteq> Some principal_id
        \<or> Option.bind (map_of claims ''iss'') json_as_str \<noteq> Some (tk_issuer (ts_config t))
        \<or> \<not> audience_matches (map_of claims ''aud'') (tk_audience (ts_config t))
        \<or> (case Option.bind (map_of claims ''exp'') json_as_u64 of None \<Rightarrow> True | Some exp \<Rightarrow> exp \<le> now)
       then Inl InvalidToken
       else map_err (\<lambda>_. InvalidToken) (from_verified_jwt (il_tokens lib) token))))))"

definition authenticate_bearer ::
  "('k, 'p) issuer_lib \<Rightarrow> 'k token_issuer \<Rightarrow> u64 \<Rightarrow> headers \<Rightarrow> (token_error, string) result" where
  "authenticate_bearer lib t now hs =
     and_then (ok_or InvalidToken (Option.bind (header_get hs ''authorization'') bearer_value)) (\<lambda>token.
     and_then (authenticate lib t now token) (\<lambda>ctx. Inr (ap_principal_id ctx)))"

fun find_token_entry :: "string list \<Rightarrow> string option" where
  "find_token_entry [] = None"
| "find_token_entry (entry # rest) =
     (case Option.bind (strip_prefix ''authguard_token'' (trim entry)) (strip_prefix ''='') of
        Some token \<Rightarrow> if token = [] then find_token_entry rest else Some token
      | None \<Rightarrow> find_token_entry rest)"

definition cookie_token :: "string \<Rightarrow> string option" where
  "cookie_token v = find_token_entry (split_on CHR '';'' v)"

definition authenticate_cookie ::
  "('k, 'p) issuer_lib \<Rightarrow> 'k token_issuer \<Rightarrow> u64 \<Rightarrow> headers \<Rightarrow> (token_error, authenticated_principal_context) result" where
  "authenticate_cookie lib t now hs =
     and_then (ok_or InvalidToken (Option.bind (header_get hs ''cookie'') cookie_token)) (authenticate lib t now)"

section \<open>Projected context\<close>

fun identity_group_values :: "json \<Rightarrow> string list option" where
  "identity_group_values (JString v) = Some [v]"
| "identity_group_values (JArray vs) = those (map json_as_str vs)"
| "identity_group_values _ = None"

definition is_private_or_reserved_claim :: "string \<Rightarrow> bool" where
  "is_private_or_reserved_claim name \<longleftrightarrow> name \<in>
     {''username'', ''email'', ''display_name'', ''iss'', ''sub'', ''aud'', ''iat'', ''exp'', ''nbf'', ''jti'', ''provider'',
      ''access_token'', ''refresh_token'', ''authorization_code'', ''principal_id'', ''principal_kind'',
      ''authguard_group_ids'', ''acr'', ''amr'', ''authguardOrigin''}"

definition projected_groups :: "json option \<Rightarrow> string list" where
  "projected_groups v =
     (case Option.bind v identity_group_values of
        None \<Rightarrow> []
      | Some groups \<Rightarrow>
          if length groups \<le> 128 \<and> int (sum_list (map length groups)) \<le> 16 * 1024 \<and>
             list_all (\<lambda>g. validate_canonical g ''authguard_group_ids'' = Inr ()) groups
          then sort_dedup groups else [])"

text \<open>The loop over the claims, with the bytes taken so far.\<close>

fun projected_claims :: "int \<Rightarrow> (string \<times> json) list \<Rightarrow> (string \<times> string) list" where
  "projected_claims context_bytes [] = []"
| "projected_claims context_bytes ((name, v) # claims) =
     (if is_private_or_reserved_claim name then projected_claims context_bytes claims
      else case scalar_claim v of
        None \<Rightarrow> projected_claims context_bytes claims
      | Some s \<Rightarrow>
          let size = int (length name + length s)
          in if validate_canonical name ''trusted_claim'' \<noteq> Inr () \<or> context_bytes + size > 64 * 1024
             then projected_claims context_bytes claims
             else (name, s) # projected_claims (context_bytes + size) claims)"

definition project_authorization_context ::
  "authenticated_principal_context \<Rightarrow> authentication_result \<Rightarrow> authenticated_principal_context" where
  "project_authorization_context who authentication =
     (let claims = ei_claims (res_external_identity authentication)
      in who\<lparr>ap_stable_group_ids := projected_groups (map_of claims ''authguard_group_ids''),
           ap_trusted_claims := map_of (rev (projected_claims 0 claims))\<rparr>)"

section \<open>Pipeline\<close>

record ('d, 'k, 'p) authentication_pipeline =
  pl_linking :: "'d account_linking_service"
  pl_tokens :: "'k token_issuer"
  pl_lib :: "('k, 'p) issuer_lib"

record issued_authentication =
  ia_access_token :: string
  ia_expires_in :: u64
  ia_principal :: authenticated_principal_context

datatype authentication_pipeline_error =
    Linking account_linking_error
  | TokenFailure token_error
  | StepUpPrincipalMismatch

definition pipeline_issue ::
  "('d, 'k, 'p) authentication_pipeline \<Rightarrow> u64 \<Rightarrow> authentication_result \<Rightarrow> authenticated_principal_context \<Rightarrow>
   (authentication_pipeline_error, issued_authentication) result" where
  "pipeline_issue pl now authentication who =
     (let projected = project_authorization_context who authentication in
      and_then (map_err TokenFailure (issue (pl_lib pl) (pl_tokens pl) now projected authentication)) (\<lambda>access_token.
        Inr \<lparr>ia_access_token = access_token, ia_expires_in = as_secs (tk_ttl (ts_config (pl_tokens pl))),
             ia_principal = projected\<rparr>))"

definition pipeline_login ::
  "('d, 'k, 'p) authentication_pipeline \<Rightarrow> 'd \<Rightarrow> u64 \<Rightarrow> authentication_result \<Rightarrow> principal_kind \<Rightarrow> string \<Rightarrow>
   (authentication_pipeline_error, issued_authentication) result \<times> 'd" where
  "pipeline_login pl d now authentication kind random =
     (case resolve_login (pl_linking pl) d authentication kind random of
        (Inl e, d') \<Rightarrow> (Inl (Linking e), d')
      | (Inr who, d') \<Rightarrow> (pipeline_issue pl now authentication who, d'))"

definition pipeline_link ::
  "('d, 'k, 'p) authentication_pipeline \<Rightarrow> 'd \<Rightarrow> u64 \<Rightarrow> string \<Rightarrow> authentication_result \<Rightarrow>
   (authentication_pipeline_error, issued_authentication) result \<times> 'd" where
  "pipeline_link pl d now principal_id authentication =
     (case link_identity (pl_linking pl) d principal_id authentication of
        (Inl e, d') \<Rightarrow> (Inl (Linking e), d')
      | (Inr who, d') \<Rightarrow> (pipeline_issue pl now authentication who, d'))"

definition authenticate_token ::
  "('d, 'k, 'p) authentication_pipeline \<Rightarrow> u64 \<Rightarrow> headers \<Rightarrow> (token_error, string) result" where
  "authenticate_token pl now hs = authenticate_bearer (pl_lib pl) (pl_tokens pl) now hs"

definition authenticate_browser_cookie ::
  "('d, 'k, 'p) authentication_pipeline \<Rightarrow> u64 \<Rightarrow> headers \<Rightarrow> (token_error, authenticated_principal_context) result" where
  "authenticate_browser_cookie pl now hs = authenticate_cookie (pl_lib pl) (pl_tokens pl) now hs"

definition contains_header :: "headers \<Rightarrow> string \<Rightarrow> bool" where
  "contains_header hs name \<longleftrightarrow> list_ex (\<lambda>(n, _). to_ascii_lowercase n = to_ascii_lowercase name) hs"

definition authenticate_request_principal ::
  "('d, 'k, 'p) authentication_pipeline \<Rightarrow> u64 \<Rightarrow> headers \<Rightarrow> (token_error, string) result" where
  "authenticate_request_principal pl now hs =
     (if contains_header hs ''authorization'' then authenticate_token pl now hs
      else and_then (authenticate_browser_cookie pl now hs) (\<lambda>who. Inr (ap_principal_id who)))"

definition resolve_step_up ::
  "('d, 'k, 'p) authentication_pipeline \<Rightarrow> 'd \<Rightarrow> string \<Rightarrow> authentication_result \<Rightarrow> principal_kind \<Rightarrow> string \<Rightarrow>
   (authentication_pipeline_error, authenticated_principal_context) result \<times> 'd" where
  "resolve_step_up pl d principal_id authentication kind random =
     (case resolve_login (pl_linking pl) d authentication kind random of
        (Inl e, d') \<Rightarrow> (Inl (Linking e), d')
      | (Inr who, d') \<Rightarrow>
          if ap_principal_id who \<noteq> principal_id then (Inl StepUpPrincipalMismatch, d') else (Inr who, d'))"

definition verify_step_up ::
  "('d, 'k, 'p) authentication_pipeline \<Rightarrow> 'd \<Rightarrow> string \<Rightarrow> authentication_result \<Rightarrow> principal_kind \<Rightarrow> string \<Rightarrow>
   (authentication_pipeline_error, unit) result \<times> 'd" where
  "verify_step_up pl d principal_id authentication kind random =
     (case resolve_step_up pl d principal_id authentication kind random of
        (Inl e, d') \<Rightarrow> (Inl e, d')
      | (Inr _, d') \<Rightarrow> (Inr (), d'))"

definition complete_step_up ::
  "('d, 'k, 'p) authentication_pipeline \<Rightarrow> 'd \<Rightarrow> u64 \<Rightarrow> string \<Rightarrow> authentication_result \<Rightarrow> principal_kind \<Rightarrow> string \<Rightarrow>
   (authentication_pipeline_error, issued_authentication) result \<times> 'd" where
  "complete_step_up pl d now principal_id authentication kind random =
     (case resolve_step_up pl d principal_id authentication kind random of
        (Inl e, d') \<Rightarrow> (Inl e, d')
      | (Inr who, d') \<Rightarrow> (pipeline_issue pl now authentication who, d'))"

definition pipeline_jwks :: "('d, 'k, 'p) authentication_pipeline \<Rightarrow> (token_error, json) result" where
  "pipeline_jwks pl = jwks (pl_lib pl) (pl_tokens pl)"

definition pipeline_rollback ::
  "('d, 'k, 'p) authentication_pipeline \<Rightarrow> 'd \<Rightarrow> string \<Rightarrow> external_identity_key \<Rightarrow>
   (authentication_pipeline_error, unit) result \<times> 'd" where
  "pipeline_rollback pl d principal_id key =
     (case linking_rollback (pl_linking pl) d principal_id key of
        (Inl e, d') \<Rightarrow> (Inl (Linking e), d')
      | (Inr _, d') \<Rightarrow> (Inr (), d'))"

section \<open>Challenges\<close>

datatype challenge_error = ChallengeBackend | InvalidState

text \<open>The trait \<open>ICache\<close> and the codecs: \<open>serde_json\<close> on challenge payloads and the SHA-256 digest in hexadecimal.\<close>

record 'c challenge_cache =
  cc_put_if_absent :: "u64 \<Rightarrow> u64 \<Rightarrow> string \<Rightarrow> string \<Rightarrow> duration \<Rightarrow> 'c \<Rightarrow> (string, bool) result \<times> 'c"
  cc_take :: "u64 \<Rightarrow> string \<Rightarrow> 'c \<Rightarrow> (string, string option) result \<times> 'c"

record 'a challenge_codec =
  co_to_vec :: "'a \<Rightarrow> string option"
  co_from_slice :: "string \<Rightarrow> 'a option"
  co_sha256_hex :: "string \<Rightarrow> string"

definition challenge_key :: "(string \<Rightarrow> string) \<Rightarrow> string \<Rightarrow> string \<Rightarrow> string" where
  "challenge_key sha256_hex purpose challenge_id =
     ''authn-challenge:v1:'' @ sha256_hex (purpose @ [CHR 0x00] @ challenge_id)"

definition put_json ::
  "'c challenge_cache \<Rightarrow> 'a challenge_codec \<Rightarrow> u64 \<Rightarrow> u64 \<Rightarrow> string \<Rightarrow> string \<Rightarrow> 'a \<Rightarrow> duration \<Rightarrow> 'c \<Rightarrow>
   (challenge_error, unit) result \<times> 'c" where
  "put_json cache js now now' purpose challenge_id payload ttl c =
     (case co_to_vec js payload of
        None \<Rightarrow> (Inl InvalidState, c)
      | Some bytes \<Rightarrow>
          (case cc_put_if_absent cache now now' (challenge_key (co_sha256_hex js) purpose challenge_id) bytes ttl c of
             (Inl e, c') \<Rightarrow> (Inl ChallengeBackend, c')
           | (Inr written, c') \<Rightarrow> (if written then Inr () else Inl ChallengeBackend, c')))"

definition consume_json ::
  "'c challenge_cache \<Rightarrow> 'a challenge_codec \<Rightarrow> u64 \<Rightarrow> string \<Rightarrow> string \<Rightarrow> 'c \<Rightarrow>
   (challenge_error, 'a option) result \<times> 'c" where
  "consume_json cache js now purpose challenge_id c =
     (case cc_take cache now (challenge_key (co_sha256_hex js) purpose challenge_id) c of
        (Inl e, c') \<Rightarrow> (Inl ChallengeBackend, c')
      | (Inr None, c') \<Rightarrow> (Inr None, c')
      | (Inr (Some bytes), c') \<Rightarrow>
          (case co_from_slice js bytes of None \<Rightarrow> (Inl InvalidState, c') | Some x \<Rightarrow> (Inr (Some x), c')))"

definition memory_challenges :: "memory_cache challenge_cache" where
  "memory_challenges = \<lparr>cc_put_if_absent = (\<lambda>t t' k v ttl c. (Inr (fst (put_if_absent t t' k v ttl c)), snd (put_if_absent t t' k v ttl c))),
     cc_take = (\<lambda>t k c. (Inr (fst (take_value t k c)), snd (take_value t k c)))\<rparr>"

section \<open>Interfaces\<close>

text \<open>
  The base64 engine of the readers is that of the JWT primitive and writes visible ASCII, and serialized
  claims are not empty and parse back to an object with the same members.
\<close>

locale issuer_codec = rsa_scheme "il_rsa lib" for lib :: "('k, 'p) issuer_lib" +
  assumes same_engine: "url_safe_no_pad_decode (il_tokens lib) = jwt_b64_decode (il_rsa lib)"
    and claims_parse: "il_claims_to_vec lib m = Some payload \<Longrightarrow> payload \<noteq> [] \<and>
      (\<exists>object. json_from_slice (il_tokens lib) payload = Some (JObject object) \<and>
        distinct (map fst object) \<and> map_of object = m)"
    and enc_graphic: "list_all is_ascii_graphic (jwt_b64_encode (il_rsa lib) x)"

section \<open>Lemmas\<close>

subsection \<open>Projection\<close>

abbreviation claim_bytes :: "(string \<times> string) list \<Rightarrow> nat" where
  "claim_bytes cs \<equiv> sum_list (map (\<lambda>(n, v). length n + length v) cs)"

lemma projected_claims_Cons:
  "projected_claims b ((n, v) # cs) = projected_claims b cs \<or>
   (\<exists>s. scalar_claim v = Some s \<and> \<not> is_private_or_reserved_claim n \<and> canonical_id n \<and>
      b + int (length n + length s) \<le> 64 * 1024 \<and>
      projected_claims b ((n, v) # cs) = (n, s) # projected_claims (b + int (length n + length s)) cs)"
proof (cases "is_private_or_reserved_claim n \<or> scalar_claim v = None")
  case False
  then obtain s where "\<not> is_private_or_reserved_claim n" "scalar_claim v = Some s" by auto
  then show ?thesis by (auto simp: Let_def not_less result_simps)
qed auto

lemma projected_claims_set:
  "(n, s) \<in> set (projected_claims b cs) \<Longrightarrow>
   \<not> is_private_or_reserved_claim n \<and> canonical_id n \<and> (\<exists>v. (n, v) \<in> set cs \<and> scalar_claim v = Some s)"
proof (induction cs arbitrary: b)
  case (Cons c cs)
  obtain m v where c: "c = (m, v)" by fastforce
  from projected_claims_Cons [of b m v cs] show ?case
  proof
    assume "projected_claims b ((m, v) # cs) = projected_claims b cs"
    then show ?thesis using Cons.IH [of b] Cons.prems by (auto simp del: projected_claims.simps simp: c)
  next
    assume "\<exists>s. scalar_claim v = Some s \<and> \<not> is_private_or_reserved_claim m \<and> canonical_id m \<and>
      b + int (length m + length s) \<le> 64 * 1024 \<and>
      projected_claims b ((m, v) # cs) = (m, s) # projected_claims (b + int (length m + length s)) cs"
    then obtain s' b' where s: "scalar_claim v = Some s'" "\<not> is_private_or_reserved_claim m" "canonical_id m"
      "projected_claims b ((m, v) # cs) = (m, s') # projected_claims b' cs" by blast
    from Cons.prems [unfolded c s(4)] Cons.IH [of b'] s(1-3) show ?thesis by (auto simp: c)
  qed
qed simp

lemma projected_claims_bytes: "b \<le> 64 * 1024 \<Longrightarrow> b + int (claim_bytes (projected_claims b cs)) \<le> 64 * 1024"
proof (induction cs arbitrary: b)
  case (Cons c cs)
  obtain m v where c: "c = (m, v)" by fastforce
  from projected_claims_Cons [of b m v cs] show ?case
  proof
    assume "projected_claims b ((m, v) # cs) = projected_claims b cs"
    then show ?thesis using Cons by (simp only: c)
  next
    assume "\<exists>s. scalar_claim v = Some s \<and> \<not> is_private_or_reserved_claim m \<and> canonical_id m \<and>
      b + int (length m + length s) \<le> 64 * 1024 \<and>
      projected_claims b ((m, v) # cs) = (m, s) # projected_claims (b + int (length m + length s)) cs"
    then obtain s where s: "b + int (length m + length s) \<le> 64 * 1024"
      "projected_claims b ((m, v) # cs) = (m, s) # projected_claims (b + int (length m + length s)) cs" by blast
    from Cons.IH [OF s(1)] show ?thesis unfolding c s(2) by simp
  qed
qed simp

lemma projected_claims_names: "fst ` set (projected_claims b cs) \<subseteq> fst ` set cs"
  using projected_claims_set by (force simp: image_iff)

lemma projected_claims_distinct: "distinct (map fst cs) \<Longrightarrow> distinct (map fst (projected_claims b cs))"
proof (induction cs arbitrary: b)
  case (Cons c cs)
  obtain m v where c: "c = (m, v)" by fastforce
  have fresh: "m \<notin> fst ` set (projected_claims b' cs)" for b'
    using projected_claims_names [of b' cs] Cons.prems by (auto simp: c)
  from projected_claims_Cons [of b m v cs] show ?case
    using Cons fresh by (auto simp del: projected_claims.simps simp: c)
qed simp

lemma sum_list_sort_dedup: "sum_list (map length (sort_dedup xs)) \<le> sum_list (map length xs)"
proof -
  have "sum_list (map length (sort_dedup xs)) = sum length (set xs)"
    by (simp add: sum_list_distinct_conv_sum_set)
  also have "\<dots> \<le> sum_list (map length xs)"
    by (induction xs) (auto simp: sum.insert_if)
  finally show ?thesis .
qed

lemma sort_dedup_sorted: "sorted xs \<Longrightarrow> distinct xs \<Longrightarrow> sort_dedup xs = xs"
  by (simp add: sort_dedup_def sort_key_id_if_sorted remdups_adj_distinct)

lemma projected_groups_props:
  "length (projected_groups v) \<le> 128" "int (sum_list (map length (projected_groups v))) \<le> 16 * 1024"
  "list_all canonical_id (projected_groups v)" "sorted (projected_groups v)" "distinct (projected_groups v)"
proof -
  have sum: "int (sum_list (map length (sort_dedup gs))) \<le> 16 * 1024" if "int (sum_list (map length gs)) \<le> 16 * 1024" for gs
    using that sum_list_sort_dedup [of gs] by linarith
  show "length (projected_groups v) \<le> 128" "int (sum_list (map length (projected_groups v))) \<le> 16 * 1024"
    "list_all canonical_id (projected_groups v)" "sorted (projected_groups v)" "distinct (projected_groups v)"
    using sum length_sort_dedup order_trans
    by (fastforce simp: projected_groups_def list_all_iff result_simps split: option.splits)+
qed

lemma read_projected_groups: "read_groups (Some (JArray (map JString (projected_groups v)))) = Inr (projected_groups v)"
proof -
  let ?gs = "projected_groups v"
  note gs = projected_groups_props [of v]
  have "traverse (\<lambda>g. and_then (map_err (\<lambda>_. InvalidGroups) (validate_canonical g ''group_id'')) (\<lambda>_. Inr g)) ?gs = Inr ?gs"
    using gs(3) by (simp add: traverse_eq_Inr list_all2_same list_all_iff validate_canonical_ok)
  moreover have "those (map json_as_str (map JString ?gs)) = Some ?gs"
    using those_map_Some [of ?gs Some id] by (simp add: comp_def)
  ultimately show ?thesis
    using gs by (simp add: read_groups_def group_values_def sort_dedup_sorted)
qed

lemma read_string_array_strings: "read_string_array (Some (JArray (map JString xs))) = Inr xs"
  by (simp add: read_string_array_def traverse_eq_Inr list_all2_map1 list_all2_same)

subsection \<open>Reading claims\<close>

lemma parse_kind_as_str: "parse_principal_kind (kind_as_str k) = Some k"
  by (cases k) (simp_all add: parse_principal_kind_def)

lemma scalar_claims_Cons:
  "scalar_claims ((n, v) # object) =
     (if is_boundary_claim n then scalar_claims object
      else case scalar_claim v of None \<Rightarrow> scalar_claims object | Some s \<Rightarrow> (n, s) # scalar_claims object)"
  by (simp add: scalar_claims_def map_filter_simps split: option.splits)

lemma distinct_scalar_claims: "distinct (map fst object) \<Longrightarrow> distinct (map fst (scalar_claims object))"
proof (induction object)
  case (Cons x object)
  obtain n v where x: "x = (n, v)" by fastforce
  have "n \<notin> fst ` set (scalar_claims object)"
    using Cons.prems set_scalar_claims [of n _ object] by (force simp: x)
  then show ?case using Cons by (auto simp: x scalar_claims_Cons split: option.splits)
qed (simp add: scalar_claims_def map_filter_simps)

lemma map_of_rev_distinct: "distinct (map fst xs) \<Longrightarrow> map_of (rev xs) = map_of xs"
  by (rule map_of_eqI) (auto simp: map_of_eq_Some_iff rev_map [symmetric])

lemma lookup_scalar_claims:
  assumes "distinct (map fst object)"
  shows "map_of (rev (scalar_claims object)) n = (if is_boundary_claim n then None else Option.bind (map_of object n) scalar_claim)"
proof -
  have "map_of (scalar_claims object) n = (if is_boundary_claim n then None else Option.bind (map_of object n) scalar_claim)"
  proof (rule option_eqI_Some)
    fix s
    have "map_of (scalar_claims object) n = Some s \<longleftrightarrow> (n, s) \<in> set (scalar_claims object)"
      by (rule map_of_eq_Some_iff [OF distinct_scalar_claims [OF assms]])
    also have "\<dots> \<longleftrightarrow> (if is_boundary_claim n then None else Option.bind (map_of object n) scalar_claim) = Some s"
      using map_of_eq_Some_iff [OF assms, of n] by (auto simp: set_scalar_claims bind_eq_Some_conv)
    finally show "map_of (scalar_claims object) n = Some s \<longleftrightarrow>
      (if is_boundary_claim n then None else Option.bind (map_of object n) scalar_claim) = Some s" .
  qed
  then show ?thesis by (simp add: map_of_rev_distinct [OF distinct_scalar_claims [OF assms]])
qed

lemma reserved_boundary: "is_boundary_claim n \<Longrightarrow> is_private_or_reserved_claim n"
  by (auto simp: is_boundary_claim_def is_private_or_reserved_claim_def)

subsection \<open>Issued claims\<close>

lemma issued_claims_reserved:
  "issued_claims c who a at now ''iss'' = Some (JString (tk_issuer c))"
  "issued_claims c who a at now ''aud'' = Some (JString (tk_audience c))"
  "issued_claims c who a at now ''sub'' = Some (JString (ap_principal_id who))"
  "issued_claims c who a at now ''principal_id'' = Some (JString (ap_principal_id who))"
  "issued_claims c who a at now ''principal_kind'' = Some (JString (kind_as_str (ap_kind who)))"
  "issued_claims c who a at now ''authguard_group_ids'' = Some (JArray (map JString (ap_stable_group_ids who)))"
  "issued_claims c who a at now ''amr'' = Some (JArray (map JString (res_amr a)))"
  "issued_claims c who a at now ''auth_time'' = Some (JNumber (u64_to_string at))"
  "issued_claims c who a at now ''exp'' = Some (JNumber (u64_to_string (saturating_add now (as_secs (tk_ttl c)))))"
  by (simp_all add: issued_claims_def Let_def split: option.split)

lemma issued_claims_acr:
  "ap_trusted_claims who ''acr'' = None \<Longrightarrow>
   Option.bind (issued_claims c who a at now ''acr'') json_as_str = res_acr a"
  by (simp add: issued_claims_def Let_def split: option.split)

lemma issued_claims_other:
  "\<not> is_boundary_claim n \<Longrightarrow> n \<noteq> ''auth_time'' \<Longrightarrow>
   issued_claims c who a at now n = map_option JString (ap_trusted_claims who n)"
  by (auto simp: issued_claims_def Let_def is_boundary_claim_def split: option.split)

text \<open>The claims of a token that policy conditions see: the projected ones, the time of authentication and \<open>mfa\<close>.\<close>

definition read_claims :: "(string \<rightharpoonup> string) \<Rightarrow> u64 \<Rightarrow> string list \<Rightarrow> string \<rightharpoonup> string" where
  "read_claims trusted auth_time amr =
     trusted(''auth_time'' \<mapsto> u64_to_string auth_time, ''mfa'' \<mapsto> bool_to_string (''mfa'' \<in> set amr))"

text \<open>What a reader counts against its limit.\<close>

definition read_bytes :: "(string \<times> string) list \<Rightarrow> u64 \<Rightarrow> nat" where
  "read_bytes projected auth_time =
     claim_bytes (filter (\<lambda>(n, _). n \<noteq> ''auth_time'') projected) + (9 + length (u64_to_string auth_time))"

lemma claim_bytes_set: "distinct cs \<Longrightarrow> claim_bytes cs = (\<Sum>(n, v) \<in> set cs. length n + length v)"
  by (simp add: sum_list_distinct_conv_sum_set)

lemma issued_scalar_bytes:
  assumes "distinct (map fst object)" "map_of object = issued_claims c who a at now"
    and "ap_trusted_claims who = map_of projected" "distinct (map fst projected)"
    and "\<And>n. n \<in> fst ` set projected \<Longrightarrow> \<not> is_boundary_claim n"
  shows "claim_bytes (scalar_claims object) = read_bytes projected at"
proof -
  let ?rest = "filter (\<lambda>(n, _). n \<noteq> ''auth_time'') projected"
  have auth: "\<not> is_boundary_claim ''auth_time''" by (simp add: is_boundary_claim_def)
  have "(n, s) \<in> set (scalar_claims object) \<longleftrightarrow> (n, s) \<in> insert (''auth_time'', u64_to_string at) (set ?rest)" for n s
  proof -
    have "(n, s) \<in> set (scalar_claims object) \<longleftrightarrow> map_of (rev (scalar_claims object)) n = Some s"
      using map_of_eq_Some_iff [OF distinct_scalar_claims [OF assms(1)]]
      by (simp add: map_of_rev_distinct [OF distinct_scalar_claims [OF assms(1)]])
    also have "\<dots> \<longleftrightarrow> \<not> is_boundary_claim n \<and> Option.bind (issued_claims c who a at now n) scalar_claim = Some s"
      by (simp add: lookup_scalar_claims [OF assms(1)] assms(2))
    also have "\<dots> \<longleftrightarrow> (n, s) \<in> insert (''auth_time'', u64_to_string at) (set ?rest)"
    proof (cases "n = ''auth_time''")
      case False
      have "\<not> is_boundary_claim n \<and> Option.bind (issued_claims c who a at now n) scalar_claim = Some s \<longleftrightarrow>
          \<not> is_boundary_claim n \<and> map_of projected n = Some s"
        using issued_claims_other [OF _ False, of c who a at now] by (cases "map_of projected n") (auto simp: assms(3))
      also have "\<dots> \<longleftrightarrow> (n, s) \<in> set projected"
        using assms(5) [of n] by (force simp: map_of_eq_Some_iff [OF assms(4)])
      finally show ?thesis using False by simp
    qed (simp add: auth issued_claims_reserved eq_commute)
    finally show ?thesis .
  qed
  then have set_eq: "set (scalar_claims object) = insert (''auth_time'', u64_to_string at) (set ?rest)" by auto
  have "distinct ?rest" "distinct (scalar_claims object)"
    using assms(4) distinct_scalar_claims [OF assms(1)] by (auto simp: distinct_map)
  then show ?thesis unfolding claim_bytes_set [OF \<open>distinct (scalar_claims object)\<close>] set_eq read_bytes_def
      claim_bytes_set [OF \<open>distinct ?rest\<close>] by (subst sum.insert) auto
qed

lemma issued_trusted_claims:
  assumes "distinct (map fst object)" "map_of object = issued_claims c who a at now"
    and "\<And>n. is_boundary_claim n \<Longrightarrow> ap_trusted_claims who n = None"
  shows "(map_of (rev (scalar_claims object)))(''mfa'' \<mapsto> bool_to_string (list_ex (\<lambda>m. m = ''mfa'') amr)) =
    read_claims (ap_trusted_claims who) at amr"
proof -
  have auth: "\<not> is_boundary_claim ''auth_time''" by (simp add: is_boundary_claim_def)
  have "map_of (rev (scalar_claims object)) n = ((ap_trusted_claims who)(''auth_time'' \<mapsto> u64_to_string at)) n" for n
  proof (cases "n = ''auth_time'' \<or> is_boundary_claim n")
    case False
    then have "issued_claims c who a at now n = map_option JString (ap_trusted_claims who n)"
      by (intro issued_claims_other) auto
    with False show ?thesis
      by (cases "ap_trusted_claims who n") (auto simp: lookup_scalar_claims [OF assms(1)] assms(2))
  qed (use auth assms(3) in \<open>auto simp: lookup_scalar_claims [OF assms(1)] assms(2) issued_claims_reserved\<close>)
  then show ?thesis by (simp add: read_claims_def fun_eq_iff list_ex_iff)
qed

context issuer_codec
begin

lemma issue_Inr:
  assumes "issue lib t now who a = Inr token"
  obtains key at payload object where "ts_signing_key t = Some key" "timestamp_u64 (res_authenticated_at a) = Some at"
    "jwt_sign (il_rsa lib) key payload = Inr token" "payload \<noteq> []"
    "json_from_slice (il_tokens lib) payload = Some (JObject object)" "distinct (map fst object)"
    "map_of object = issued_claims (ts_config t) who a at now"
proof -
  from assms obtain key at payload where *: "ts_signing_key t = Some key" "timestamp_u64 (res_authenticated_at a) = Some at"
    "il_claims_to_vec lib (issued_claims (ts_config t) who a at now) = Some payload"
    "jwt_sign (il_rsa lib) key payload = Inr token"
    unfolding issue_def by (auto simp: result_simps)
  with claims_parse [OF *(3)] that show thesis by blast
qed

lemma signed_body:
  assumes "jwt_sign (il_rsa lib) key payload = Inr token"
  shows "\<exists>sig. split_on CHR ''.'' token = [jwt_header, jwt_b64_encode (il_rsa lib) payload, sig]"
  using split_signed [of jwt_header "jwt_b64_encode (il_rsa lib) payload"] header_dotless(1) enc_alphabet assms
  by (auto simp: jwt_sign_def Let_def)

lemma read_signed:
  assumes "jwt_sign (il_rsa lib) key payload = Inr token" "payload \<noteq> []"
    and "json_from_slice (il_tokens lib) payload = Some (JObject object)" "distinct (map fst object)"
    and m: "map_of object = issued_claims c who a at now"
    and who: "ap_trusted_claims who = map_of projected" "distinct (map fst projected)"
      "\<And>n. n \<in> fst ` set projected \<Longrightarrow> \<not> is_boundary_claim n" "ap_stable_group_ids who = projected_groups v"
  shows "from_verified_jwt (il_tokens lib) token =
    (if \<not> canonical_id (ap_principal_id who) then Inl MissingPrincipalId
     else if int (read_bytes projected at) > 64 * 1024 then Inl TooLarge
     else Inr (who\<lparr>ap_trusted_claims := read_claims (ap_trusted_claims who) at (res_amr a),
       ap_acr := res_acr a, ap_amr := res_amr a\<rparr>))"
proof -
  obtain sig where split: "split_on CHR ''.'' token = [jwt_header, jwt_b64_encode (il_rsa lib) payload, sig]"
    using signed_body [OF assms(1)] by blast
  have dec: "url_safe_no_pad_decode (il_tokens lib) (jwt_b64_encode (il_rsa lib) payload) = Some payload"
    by (simp add: same_engine)
  have none: "ap_trusted_claims who n = None" if "is_boundary_claim n" for n
    using who(1,3) that by (force simp: map_of_eq_None_iff)
  have acr: "Option.bind (map_of object ''acr'') json_as_str = res_acr a"
    unfolding m by (rule issued_claims_acr) (simp add: none is_boundary_claim_def)
  have valid: "validate_canonical (ap_principal_id who) ''principal_id'' =
      (if canonical_id (ap_principal_id who) then Inr () else Inl ''principal_id'')"
    by (auto simp: validate_canonical_def canonical_id_def)
  have bytes: "claim_bytes (scalar_claims object) = read_bytes projected at"
    using issued_scalar_bytes [OF assms(4) m who(1-3)] .
  have claims: "(map_of (rev (scalar_claims object)))(''mfa'' \<mapsto> bool_to_string (list_ex (\<lambda>m. m = ''mfa'') (res_amr a))) =
      read_claims (ap_trusted_claims who) at (res_amr a)"
    using issued_trusted_claims [OF assms(4) m none] .
  have body: "jwt_b64_encode (il_rsa lib) payload \<noteq> []" using assms(2) by (simp add: enc_Nil)
  have groups: "read_groups (map_of object ''authguard_group_ids'') = Inr (ap_stable_group_ids who)"
    using read_projected_groups [of v] by (simp add: m issued_claims_reserved who(4))
  have amr: "read_string_array (map_of object ''amr'') = Inr (res_amr a)"
    by (simp add: m issued_claims_reserved read_string_array_strings)
  show ?thesis
    unfolding from_verified_jwt_def from_verified_jwt_with_claims_def split
    by (simp add: body dec assms(3) valid groups [unfolded m issued_claims_reserved]
      amr [unfolded m issued_claims_reserved] acr [unfolded m] bytes claims m [THEN fun_cong] issued_claims_reserved
      parse_kind_as_str)
qed

end

subsection \<open>Visible text\<close>

lemma strip_all_graphic:
  assumes "list_all (\<lambda>w. w \<noteq> [] \<and> \<not> is_ascii_graphic (hd w)) ws" "list_all is_ascii_graphic s"
  shows "strip_all ws s = s"
proof -
  have "strip_first ws s = None"
    using assms
  proof (induction ws)
    case (Cons w ws)
    have "take (length w) s \<noteq> w" if "w \<noteq> []" "\<not> is_ascii_graphic (hd w)"
      using that Cons.prems(2) by (cases w; cases s) auto
    with Cons show ?case by simp
  qed simp
  then show ?thesis by (simp add: strip_all.simps [of ws s])
qed

lemma trim_graphic: "list_all is_ascii_graphic s \<Longrightarrow> trim s = s"
proof -
  assume s: "list_all is_ascii_graphic s"
  have "list_all (\<lambda>w. w \<noteq> [] \<and> \<not> is_ascii_graphic (hd w)) white_space"
    "list_all (\<lambda>w. w \<noteq> [] \<and> \<not> is_ascii_graphic (hd w)) (map rev white_space)" by code_simp+
  with s show ?thesis by (simp add: trim_def trim_start_def trim_end_def strip_all_graphic)
qed

lemma graphic_visible: "list_all is_ascii_graphic s \<Longrightarrow> list_all visible_ascii s"
  by (auto simp: list_all_iff is_ascii_graphic_def visible_ascii_def)

text \<open>The token of a request that carries it as a bearer token.\<close>

abbreviation bearer_headers :: "string \<Rightarrow> headers" where
  "bearer_headers token \<equiv> [(''authorization'', ''Bearer '' @ token)]"

lemma bearer_header:
  assumes "list_all is_ascii_graphic token" "token \<noteq> []"
  shows "Option.bind (header_get (bearer_headers token) ''authorization'') bearer_value = Some token"
    and "gateway_token (bearer_headers token) ''authorization'' = Some token"
proof -
  have get: "header_get (bearer_headers token) ''authorization'' = Some (''Bearer '' @ token)"
  proof -
    have "list_all visible_ascii ''Bearer ''" by code_simp
    then show ?thesis using graphic_visible [OF assms(1)] by (simp add: header_get_def list_all_append)
  qed
  have "eq_ignore_ascii_case ''Bearer'' ''bearer''" by code_simp
  moreover have "split_once CHR '' '' (''Bearer'' @ CHR '' '' # token) = Some (''Bearer'', token)"
    by (rule split_once_append) simp
  ultimately have token: "bearer_value (''Bearer '' @ token) = Some token"
    using trim_graphic [OF assms(1)] assms(2) by (simp add: bearer_value_def)
  then show "Option.bind (header_get (bearer_headers token) ''authorization'') bearer_value = Some token"
    unfolding get by simp
  have "\<not> (''Bearer '' @ token = [])" by simp
  then show "gateway_token (bearer_headers token) ''authorization'' = Some token"
    unfolding gateway_token_def Let_def get using token by simp
qed

context issuer_codec
begin

lemma signed_graphic:
  assumes "jwt_sign (il_rsa lib) key payload = Inr token"
  shows "list_all is_ascii_graphic token" "token \<noteq> []"
proof -
  have "list_all is_ascii_graphic jwt_header" "is_ascii_graphic CHR ''.''" by code_simp+
  then show "list_all is_ascii_graphic token" "token \<noteq> []"
    using assms enc_graphic by (auto simp: jwt_sign_def Let_def list_all_append jwt_header_def)
qed

lemma authenticate_signed:
  assumes keys: "ts_public_key t = Some pem" "public_key_pem (il_rsa lib) key = Inr pem"
    and sign: "jwt_sign (il_rsa lib) key payload = Inr token" "payload \<noteq> []"
    and obj: "json_from_slice (il_tokens lib) payload = Some (JObject object)"
    and m: "map_of object = issued_claims (ts_config t) who a at now"
  shows "authenticate lib t now' token =
    (if ap_principal_id who = [] \<or> saturating_add now (as_secs (tk_ttl (ts_config t))) \<le> now' then Inl InvalidToken
     else map_err (\<lambda>_. InvalidToken) (from_verified_jwt (il_tokens lib) token))"
  using verify_sign [OF keys(2) sign]
  by (simp add: authenticate_def keys(1) obj m issued_claims_reserved parse_u64_print)

end

text \<open>A configured issuer holds both halves of its key.\<close>

lemma issuer_from_config_keys:
  assumes "issuer_from_config lib src config = Inr t" "ts_signing_key t = Some key"
  shows "\<exists>pem. ts_public_key t = Some pem \<and> public_key_pem (il_rsa lib) key = Inr pem"
  using assms by (auto simp: issuer_from_config_def Let_def result_simps split: if_splits)

lemma project_facts:
  assumes "distinct (map fst (ei_claims (res_external_identity a)))"
  shows "ap_trusted_claims (project_authorization_context who a) =
      map_of (projected_claims 0 (ei_claims (res_external_identity a)))"
    "ap_stable_group_ids (project_authorization_context who a) =
      projected_groups (map_of (ei_claims (res_external_identity a)) ''authguard_group_ids'')"
    "ap_principal_id (project_authorization_context who a) = ap_principal_id who"
    "ap_kind (project_authorization_context who a) = ap_kind who"
  by (simp_all add: project_authorization_context_def Let_def map_of_rev_distinct [OF projected_claims_distinct [OF assms]])

lemma projected_not_boundary: "n \<in> fst ` set (projected_claims b cs) \<Longrightarrow> \<not> is_boundary_claim n"
  using projected_claims_set reserved_boundary by fastforce

text \<open>What reading an issued token gives.\<close>

definition read_back :: "authentication_result \<Rightarrow> u64 \<Rightarrow> authenticated_principal_context \<Rightarrow> authenticated_principal_context" where
  "read_back a at projected = projected\<lparr>ap_trusted_claims := read_claims (ap_trusted_claims projected) at (res_amr a),
     ap_acr := res_acr a, ap_amr := res_amr a\<rparr>"

lemma issued_token_reads:
  assumes lib: "issuer_codec (pl_lib pl)" and t: "issuer_from_config (pl_lib pl) src config = Inr (pl_tokens pl)"
    and issued: "pipeline_issue pl now a who = Inr issued"
    and claims: "distinct (map fst (ei_claims (res_external_identity a)))"
  obtains at where "timestamp_u64 (res_authenticated_at a) = Some at"
    "ia_principal issued = project_authorization_context who a"
    "list_all is_ascii_graphic (ia_access_token issued)" "ia_access_token issued \<noteq> []"
    "from_verified_jwt (il_tokens (pl_lib pl)) (ia_access_token issued) =
      (if \<not> canonical_id (ap_principal_id who) then Inl MissingPrincipalId
       else if int (read_bytes (projected_claims 0 (ei_claims (res_external_identity a))) at) > 64 * 1024 then Inl TooLarge
       else Inr (read_back a at (ia_principal issued)))"
    "\<forall>now'. authenticate (pl_lib pl) (pl_tokens pl) now' (ia_access_token issued) =
      (if ap_principal_id who = [] \<or> saturating_add now (as_secs (tk_ttl (ts_config (pl_tokens pl)))) \<le> now' then Inl InvalidToken
       else map_err (\<lambda>_. InvalidToken) (from_verified_jwt (il_tokens (pl_lib pl)) (ia_access_token issued)))"
proof -
  let ?who = "project_authorization_context who a"
  note facts = project_facts [OF claims, of who]
  from issued have run: "issue (pl_lib pl) (pl_tokens pl) now ?who a = Inr (ia_access_token issued)"
    "ia_principal issued = ?who"
    by (auto simp: pipeline_issue_def Let_def result_simps)
  from lib run(1) obtain key at payload object where i: "ts_signing_key (pl_tokens pl) = Some key"
    "timestamp_u64 (res_authenticated_at a) = Some at"
    "jwt_sign (il_rsa (pl_lib pl)) key payload = Inr (ia_access_token issued)" "payload \<noteq> []"
    "json_from_slice (il_tokens (pl_lib pl)) payload = Some (JObject object)" "distinct (map fst object)"
    "map_of object = issued_claims (ts_config (pl_tokens pl)) ?who a at now"
    by (rule issuer_codec.issue_Inr)
  obtain pem where keys: "ts_public_key (pl_tokens pl) = Some pem" "public_key_pem (il_rsa (pl_lib pl)) key = Inr pem"
    using issuer_from_config_keys [OF t i(1)] by blast
  from issuer_codec.read_signed [OF lib i(3-7) facts(1) projected_claims_distinct [OF claims] projected_not_boundary facts(2)]
    issuer_codec.authenticate_signed [OF lib keys i(3-5,7)] issuer_codec.signed_graphic [OF lib i(3)]
  show thesis using that [OF i(2)] run(2) facts(3) by (simp add: read_back_def)
qed

subsection \<open>Accounts behind the pipeline\<close>

lemma pipeline_login_Inr:
  assumes "pipeline_login pl d now a kind random = (Inr issued, d')"
  obtains who where "resolve_login (pl_linking pl) d a kind random = (Inr who, d')"
    "ap_principal_id (ia_principal issued) = ap_principal_id who"
  using assms by (auto simp: pipeline_login_def pipeline_issue_def Let_def result_simps project_authorization_context_def
    split: prod.splits sum.splits)

lemma pipeline_link_Inr:
  assumes "pipeline_link pl d now n a = (Inr issued, d')"
  obtains who where "link_identity (pl_linking pl) d n a = (Inr who, d')" "ap_principal_id (ia_principal issued) = ap_principal_id who"
  using assms by (auto simp: pipeline_link_def pipeline_issue_def Let_def result_simps project_authorization_context_def
    split: prod.splits sum.splits)

text \<open>A login or a link that issues a token does so for the active principal that the identity is bound to afterwards.\<close>

context identity_bindings
begin

lemma pipeline_login_binds:
  assumes "ok d" "als_repository (pl_linking pl) = repo" "pipeline_login pl d now a kind random = (Inr issued, d')"
  shows "\<exists>k p. external_identity_key_of (res_external_identity a) = Inr k \<and> bound d' k = Some p \<and> pi_status p = Active \<and>
    ap_principal_id (ia_principal issued) = pi_id p"
proof -
  from assms(3) obtain who where w: "resolve_login (pl_linking pl) d a kind random = (Inr who, d')"
    "ap_principal_id (ia_principal issued) = ap_principal_id who" by (rule pipeline_login_Inr)
  from login_binds [OF assms(1,2) w(1)] w(2) show ?thesis by (auto dest: linking_context_Inr)
qed

lemma pipeline_link_binds:
  assumes "ok d" "als_repository (pl_linking pl) = repo" "pipeline_link pl d now n a = (Inr issued, d')"
  shows "\<exists>k p k' q. external_identity_key_of (res_external_identity a) = Inr k \<and> bound d' k = Some p \<and> pi_status p = Active \<and>
    ap_principal_id (ia_principal issued) = pi_id p \<and> pi_id p = n \<and> bound d k = None \<and> bound d k' = Some q \<and> pi_id q = n"
proof -
  from assms(3) obtain who where w: "link_identity (pl_linking pl) d n a = (Inr who, d')"
    "ap_principal_id (ia_principal issued) = ap_principal_id who" by (rule pipeline_link_Inr)
  have "d' \<noteq> d \<or> (\<exists>ctx. Inr who = (Inr ctx :: (account_linking_error, authenticated_principal_context) result))" by simp
  from link_identity_bind [OF assms(1,2) w(1) this] obtain k p k' q where
    "external_identity_key_of (res_external_identity a) = Inr k" "bound d k = None"
    "bound d' = (bound d)(k \<mapsto> p)" "pi_id p = n" "Inr who = linking_context p a" "bound d k' = Some q" "pi_id q = n"
    by metis
  with w(2) show ?thesis by (auto dest!: linking_context_Inr [OF sym])
qed

lemma pipeline_binds:
  assumes "ok d" "als_repository (pl_linking pl) = repo"
    and "(case link of Some n \<Rightarrow> pipeline_link pl d now n a | None \<Rightarrow> pipeline_login pl d now a kind random) = (Inr issued, d')"
  shows "\<exists>k p. external_identity_key_of (res_external_identity a) = Inr k \<and> bound d' k = Some p \<and> pi_status p = Active \<and>
    ap_principal_id (ia_principal issued) = pi_id p \<and>
    (\<forall>n. link = Some n \<longrightarrow> pi_id p = n \<and> bound d k = None \<and> (\<exists>k' q. bound d k' = Some q \<and> pi_id q = n))"
proof (cases link)
  case None
  with assms(3) pipeline_login_binds [OF assms(1,2)] show ?thesis by simp
next
  case (Some n)
  with assms(3) pipeline_link_binds [OF assms(1,2)] show ?thesis by simp
qed

end

subsection \<open>Challenges in the memory cache\<close>

lemma memory_challenge_ops:
  "put_json memory_challenges js now now' purpose i x ttl c =
     (case co_to_vec js x of None \<Rightarrow> (Inl InvalidState, c)
      | Some bytes \<Rightarrow> (if fst (put_if_absent now now' (challenge_key (co_sha256_hex js) purpose i) bytes ttl c) then Inr () else Inl ChallengeBackend,
          snd (put_if_absent now now' (challenge_key (co_sha256_hex js) purpose i) bytes ttl c)))"
  "consume_json memory_challenges js now purpose i c =
     (case fst (take_value now (challenge_key (co_sha256_hex js) purpose i) c) of
        None \<Rightarrow> Inr None
      | Some bytes \<Rightarrow> map_err (\<lambda>_. InvalidState) (and_then (ok_or () (co_from_slice js bytes)) (\<lambda>x. Inr (Some x))),
      snd (take_value now (challenge_key (co_sha256_hex js) purpose i) c))"
  by (auto simp: put_json_def consume_json_def memory_challenges_def split: option.splits)

lemma memory_stored:
  assumes "put_json memory_challenges js now now' purpose i x ttl c = (Inr (), c')"
  obtains bytes where "co_to_vec js x = Some bytes" "fst (put_if_absent now now' (challenge_key (co_sha256_hex js) purpose i) bytes ttl c)"
    "c' = snd (put_if_absent now now' (challenge_key (co_sha256_hex js) purpose i) bytes ttl c)"
  using assms by (auto simp: memory_challenge_ops split: option.splits if_splits)

lemma memory_once:
  assumes "distinct_values c" "put_json memory_challenges js now now' purpose i x ttl c = (Inr (), c')"
    and "\<And>bytes. co_to_vec js x = Some bytes \<Longrightarrow> co_from_slice js bytes = Some x"
    and "now \<le> t" "t < expires_at c now' ttl" "t \<le> t'"
  shows "\<exists>c''. consume_json memory_challenges js t purpose i c' = (Inr (Some x), c'') \<and>
    fst (consume_json memory_challenges js t' purpose i c'') = Inr None"
proof -
  let ?k = "challenge_key (co_sha256_hex js) purpose i"
  from assms(2) obtain bytes where bytes: "co_to_vec js x = Some bytes" "fst (put_if_absent now now' ?k bytes ttl c)"
    "c' = snd (put_if_absent now now' ?k bytes ttl c)" by (rule memory_stored)
  have ok: "distinct_values c'" unfolding bytes(3) by (rule memory.put_ok [OF assms(1)])
  have took: "fst (take_value t ?k c') = Some bytes"
    using memory.put_take [OF assms(1) bytes(2) assms(4)] assms(5) bytes(3) by simp
  have again: "fst (take_value t' ?k (snd (take_value t ?k c'))) = None" by (rule memory.take_twice [OF ok assms(6)])
  show ?thesis using took again assms(3) [OF bytes(1)] by (simp add: memory_challenge_ops)
qed

section \<open>A concrete issuer\<close>

text \<open>Hexadecimal text, texts as keys, and one serialized object.\<close>

definition claims_lib :: "(string \<times> json) list \<Rightarrow> (string, string) issuer_lib" where
  "claims_lib object = \<lparr>il_rsa = text_rsa,
     il_tokens = \<lparr>url_safe_no_pad_decode = hex_decode, url_safe_decode = (\<lambda>s. None),
       json_from_slice = (\<lambda>s. if s = ''claims'' then Some (JObject object) else None)\<rparr>,
     il_claims_to_vec = (\<lambda>m. if distinct (map fst object) \<and> m = map_of object then Some ''claims'' else None)\<rparr>"

lemma hex_graphic: "list_all is_ascii_graphic (hex_encode x)"
proof -
  have digit: "is_ascii_graphic (hex_digit n)" if "n < 16" for n
    using that by (simp add: is_ascii_graphic_def code_hex_digit)
  have "is_ascii_graphic (hex_digit (code c div 16)) \<and> is_ascii_graphic (hex_digit (code c mod 16))" for c
    using digit [of "code c div 16"] digit [of "code c mod 16"] code_hex_digits(3) [of c] by simp
  then show ?thesis by (auto simp: list_all_iff hex_encode_def)
qed

lemma claims_codec: "issuer_codec (claims_lib object)"
proof -
  have "rsa_scheme (il_rsa (claims_lib object))"
    by (simp add: claims_lib_def texts.rsa_scheme_axioms)
  then show ?thesis
    by (intro issuer_codec.intro issuer_codec_axioms.intro)
      (auto simp: claims_lib_def text_rsa_def hex_graphic split: if_splits)
qed

interpretation objects: issuer_codec "claims_lib object" for object
  by (rule claims_codec)

definition long_key :: string where
  "long_key = replicate 256 CHR ''k''"

definition sample_token_properties :: token_properties where
  "sample_token_properties = \<lparr>tk_issuer = ''authguard'', tk_audience = ''apps'', tk_ttl = from_secs 300,
     tk_private_key = long_key, tk_private_key_b64 = [], tk_private_key_file = []\<rparr>"

definition sample_authn :: authn_properties where
  "sample_authn = \<lparr>an_providers = [''corporate-dsp''], an_standalone_enabled = False, an_wallet_enabled = False,
     an_token = sample_token_properties\<rparr>"

definition corporate_object :: "(string \<times> json) list" where
  "corporate_object = [(''exp'', JNumber (u64_to_string 1300)), (''iat'', JNumber (u64_to_string 1000)),
     (''auth_time'', JNumber (u64_to_string 0)), (''amr'', JArray [JString ''test'']), (''authguard_group_ids'', JArray []),
     (''principal_kind'', JString ''USER''), (''principal_id'', JString ''P_r1''), (''sub'', JString ''P_r1''),
     (''aud'', JString ''apps''), (''iss'', JString ''authguard'')]"

definition corporate_pipeline :: "(database, string, string) authentication_pipeline" where
  "corporate_pipeline = \<lparr>pl_linking = sample_linking,
     pl_tokens = \<lparr>ts_config = sample_token_properties, ts_signing_key = Some long_key, ts_public_key = Some long_key\<rparr>,
     pl_lib = claims_lib corporate_object\<rparr>"

lemma corporate_issuer:
  "issuer_from_config (pl_lib corporate_pipeline) src sample_authn = Inr (pl_tokens corporate_pipeline)"
  "issuer_codec (pl_lib corporate_pipeline)" "pl_linking corporate_pipeline = sample_linking"
proof -
  have "length long_key = 256" "long_key \<noteq> []" by (simp_all add: long_key_def)
  then show "issuer_from_config (pl_lib corporate_pipeline) src sample_authn = Inr (pl_tokens corporate_pipeline)"
    by (simp add: issuer_from_config_def corporate_pipeline_def sample_authn_def sample_token_properties_def Let_def
      claims_lib_def load_signing_key_def public_key_pem_def text_rsa_def)
qed (simp_all add: corporate_pipeline_def claims_codec)

lemma corporate_projection: "project_authorization_context corporate_ctx corporate_login = corporate_ctx"
  by (simp add: project_authorization_context_def corporate_ctx_def corporate_login_def authentication_result_new_def
    projected_groups_def)

lemma corporate_issued:
  obtains issued where "pipeline_issue corporate_pipeline 1000 corporate_login corporate_ctx = Inr issued"
    "ia_principal issued = corporate_ctx"
proof -
  have amr: "res_amr corporate_login = [''test'']" "res_acr corporate_login = None" "res_authenticated_at corporate_login = 0"
    by code_simp+
  have "saturating_add 1000 300 = 1300" by code_simp
  then have m: "issued_claims sample_token_properties corporate_ctx corporate_login 0 1000 = map_of corporate_object"
    by (simp add: issued_claims_def corporate_object_def corporate_ctx_def sample_token_properties_def amr)
  have "distinct (map fst corporate_object)" by (simp add: corporate_object_def)
  with m obtain token where "issue (claims_lib corporate_object) (pl_tokens corporate_pipeline) 1000 corporate_ctx corporate_login = Inr token"
    by (simp add: issue_def corporate_pipeline_def claims_lib_def amr timestamp_u64_def jwt_sign_def Let_def)
  then show thesis
    using that by (simp add: pipeline_issue_def corporate_projection Let_def corporate_pipeline_def)
qed

lemma corporate_authenticates:
  obtains token ctx where "authenticate (claims_lib corporate_object) (pl_tokens corporate_pipeline) 1299 token = Inr ctx"
proof -
  obtain issued where i: "pipeline_issue corporate_pipeline 1000 corporate_login corporate_ctx = Inr issued"
    by (rule corporate_issued)
  have d: "distinct (map fst (ei_claims (res_external_identity corporate_login)))" by code_simp
  let ?bytes = "\<lambda>at. int (read_bytes (projected_claims 0 (ei_claims (res_external_identity corporate_login))) at)"
  from corporate_issuer(2,1) i d obtain at where at: "timestamp_u64 (res_authenticated_at corporate_login) = Some at"
    "ia_principal issued = project_authorization_context corporate_ctx corporate_login"
    "list_all is_ascii_graphic (ia_access_token issued)" "ia_access_token issued \<noteq> []"
    "from_verified_jwt (il_tokens (pl_lib corporate_pipeline)) (ia_access_token issued) =
      (if \<not> canonical_id (ap_principal_id corporate_ctx) then Inl MissingPrincipalId
       else if ?bytes at > 64 * 1024 then Inl TooLarge else Inr (read_back corporate_login at (ia_principal issued)))"
    "\<forall>now'. authenticate (pl_lib corporate_pipeline) (pl_tokens corporate_pipeline) now' (ia_access_token issued) =
      (if ap_principal_id corporate_ctx = [] \<or>
          saturating_add 1000 (as_secs (tk_ttl (ts_config (pl_tokens corporate_pipeline)))) \<le> now' then Inl InvalidToken
       else map_err (\<lambda>_. InvalidToken) (from_verified_jwt (il_tokens (pl_lib corporate_pipeline)) (ia_access_token issued)))"
    by (rule issued_token_reads)
  have "timestamp_u64 (res_authenticated_at corporate_login) = Some 0" by code_simp
  with at(1) have "at = 0" by simp
  moreover have "?bytes 0 \<le> 64 * 1024" "canonical_id (ap_principal_id corporate_ctx)"
    "saturating_add 1000 (as_secs (tk_ttl sample_token_properties)) = 1300" "ap_principal_id corporate_ctx \<noteq> []" by code_simp+
  moreover have "ts_config (pl_tokens corporate_pipeline) = sample_token_properties"
    "pl_lib corporate_pipeline = claims_lib corporate_object" by (simp_all add: corporate_pipeline_def)
  ultimately show thesis using that [of "ia_access_token issued"] at(5,6) by simp
qed

section \<open>Properties\<close>

text \<open>
  Claim C4. What the pipeline issues is what the system reads: presented as a bearer token it
  authenticates, until its expiry, as exactly the principal it was issued for, and the gateway reads from
  it the same principal, kind, groups, methods and projected claims. The only exceptions are the stated
  ones: an identifier that is not canonical, and a context that fills its 64 KiB so far that the
  claim \<open>auth_time\<close>, which the issuer adds, exceeds the limit of the reader.
\<close>

theorem issued_token_authenticates:
  assumes "issuer_codec (pl_lib pl)" "issuer_from_config (pl_lib pl) src config = Inr (pl_tokens pl)"
    and "pipeline_issue pl now a who = Inr issued" "distinct (map fst (ei_claims (res_external_identity a)))"
  shows "\<exists>at. timestamp_u64 (res_authenticated_at a) = Some at \<and>
    (let bytes = int (read_bytes (projected_claims 0 (ei_claims (res_external_identity a))) at);
         expiry = saturating_add now (as_secs (tk_ttl (ts_config (pl_tokens pl))))
     in authenticate_request_principal pl now' (bearer_headers (ia_access_token issued)) =
          (if canonical_id (ap_principal_id who) \<and> bytes \<le> 64 * 1024 \<and> now' < expiry
           then Inr (ap_principal_id who) else Inl InvalidToken) \<and>
        from_gateway_headers (il_tokens (pl_lib pl)) (bearer_headers (ia_access_token issued)) ''authorization''
            ''principal_id'' ''principal_kind'' ''authguard_group_ids'' =
          (if \<not> canonical_id (ap_principal_id who) then Inl MissingPrincipalId
           else if bytes > 64 * 1024 then Inl TooLarge
           else Inr (read_back a at (project_authorization_context who a))))"
proof -
  from assms obtain at where at: "timestamp_u64 (res_authenticated_at a) = Some at"
    "ia_principal issued = project_authorization_context who a"
    "list_all is_ascii_graphic (ia_access_token issued)" "ia_access_token issued \<noteq> []"
    "from_verified_jwt (il_tokens (pl_lib pl)) (ia_access_token issued) =
      (if \<not> canonical_id (ap_principal_id who) then Inl MissingPrincipalId
       else if int (read_bytes (projected_claims 0 (ei_claims (res_external_identity a))) at) > 64 * 1024 then Inl TooLarge
       else Inr (read_back a at (ia_principal issued)))"
    "\<forall>now'. authenticate (pl_lib pl) (pl_tokens pl) now' (ia_access_token issued) =
      (if ap_principal_id who = [] \<or> saturating_add now (as_secs (tk_ttl (ts_config (pl_tokens pl)))) \<le> now' then Inl InvalidToken
       else map_err (\<lambda>_. InvalidToken) (from_verified_jwt (il_tokens (pl_lib pl)) (ia_access_token issued)))"
    by (rule issued_token_reads)
  note bearer = bearer_header [OF at(3,4)]
  have "contains_header (bearer_headers t) ''authorization''" for t by (simp add: contains_header_def)
  then have "authenticate_request_principal pl now' (bearer_headers (ia_access_token issued)) =
      and_then (authenticate (pl_lib pl) (pl_tokens pl) now' (ia_access_token issued)) (\<lambda>ctx. Inr (ap_principal_id ctx))"
    unfolding authenticate_request_principal_def authenticate_token_def authenticate_bearer_def bearer by simp
  moreover have "ap_principal_id (read_back a at (ia_principal issued)) = ap_principal_id who"
    by (simp add: read_back_def at(2) project_authorization_context_def Let_def)
  moreover have "\<not> canonical_id []" by (simp add: canonical_id_def)
  ultimately show ?thesis
    using at(1) bearer(2)
    by (auto simp: at(2,5,6) Let_def from_gateway_headers_def from_verified_jwt_def [symmetric] not_le not_less)
qed

theorem issued_token_authenticates_witness:
  "\<exists>token. authenticate_request_principal corporate_pipeline 1299 (bearer_headers token) = Inr ''P_r1'' \<and>
     authenticate_request_principal corporate_pipeline 1300 (bearer_headers token) = Inl InvalidToken"
proof -
  obtain issued where i: "pipeline_issue corporate_pipeline 1000 corporate_login corporate_ctx = Inr issued"
    by (rule corporate_issued)
  have claims: "ei_claims (res_external_identity corporate_login) = []" by code_simp
  have "canonical_id ''P_r1''" "read_bytes [] 0 \<le> 10" "saturating_add 1000 (as_secs (tk_ttl sample_token_properties)) = 1300" by code_simp+
  moreover have "timestamp_u64 (res_authenticated_at corporate_login) = Some 0" by code_simp
  moreover have "ts_config (pl_tokens corporate_pipeline) = sample_token_properties" by (simp add: corporate_pipeline_def)
  ultimately show ?thesis
    using issued_token_authenticates [OF corporate_issuer(2) corporate_issuer(1) i, of 1299]
      issued_token_authenticates [OF corporate_issuer(2) corporate_issuer(1) i, of 1300]
    by (auto simp: claims corporate_ctx_def Let_def)
qed

text \<open>
  Claim C9. Only genuine tokens authenticate: a token that is accepted carries a signature that verifies
  under the public key of the issuer over its own payload, and that payload names this issuer, this
  audience, a later expiry and, as subject, the principal that the request is given.
\<close>

theorem accepted_token_is_genuine:
  assumes "issuer_codec lib" "authenticate lib t now token = Inr ctx"
  shows "\<exists>pem public payload sig parsed object exp. ts_public_key t = Some pem \<and> from_pkcs1_pem (il_rsa lib) pem = Some public \<and>
    token = jwt_header @ ''.'' @ jwt_b64_encode (il_rsa lib) payload @ ''.'' @ jwt_b64_encode (il_rsa lib) sig \<and>
    signature_try_from (il_rsa lib) sig = Some parsed \<and>
    rsa_verify (il_rsa lib) public (jwt_header @ ''.'' @ jwt_b64_encode (il_rsa lib) payload) parsed \<and>
    json_from_slice (il_tokens lib) payload = Some (JObject object) \<and>
    map_of object ''principal_id'' = Some (JString (ap_principal_id ctx)) \<and>
    map_of object ''sub'' = Some (JString (ap_principal_id ctx)) \<and>
    map_of object ''iss'' = Some (JString (tk_issuer (ts_config t))) \<and>
    audience_matches (map_of object ''aud'') (tk_audience (ts_config t)) \<and>
    Option.bind (map_of object ''exp'') json_as_u64 = Some exp \<and> now < exp"
proof -
  have str: "json_as_str v = Some x \<longleftrightarrow> v = JString x" for v x by (cases v) auto
  have obj: "json_as_object v = Some x \<longleftrightarrow> v = JObject x" for v x by (cases v) auto
  from assms(2) obtain pem payload object i exp where a: "ts_public_key t = Some pem"
    "jwt_verify (il_rsa lib) pem token = Inr payload" "json_from_slice (il_tokens lib) payload = Some (JObject object)"
    "map_of object ''principal_id'' = Some (JString i)" "map_of object ''sub'' = Some (JString i)"
    "map_of object ''iss'' = Some (JString (tk_issuer (ts_config t)))"
    "audience_matches (map_of object ''aud'') (tk_audience (ts_config t))"
    "Option.bind (map_of object ''exp'') json_as_u64 = Some exp" "now < exp"
    "from_verified_jwt (il_tokens lib) token = Inr ctx"
    unfolding authenticate_def and_then_eq_Inr ok_or_eq_Inr map_err_eq_Inr guard_Inr
    by (auto simp: bind_eq_Some_conv str obj result_simps not_le split: option.splits if_splits)
  have rsa: "rsa_scheme (il_rsa lib)" by (rule issuer_codec.axioms [OF assms(1)])
  from rsa_scheme.verify_authentic [OF rsa a(2)] obtain public sig parsed where v: "from_pkcs1_pem (il_rsa lib) pem = Some public"
    "token = jwt_header @ ''.'' @ jwt_b64_encode (il_rsa lib) payload @ ''.'' @ jwt_b64_encode (il_rsa lib) sig"
    "signature_try_from (il_rsa lib) sig = Some parsed"
    "rsa_verify (il_rsa lib) public (jwt_header @ ''.'' @ jwt_b64_encode (il_rsa lib) payload) parsed"
    by blast
  have "ap_principal_id ctx = i"
  proof -
    have "split_on CHR ''.'' token = [jwt_header, jwt_b64_encode (il_rsa lib) payload, jwt_b64_encode (il_rsa lib) sig]"
      using v(2) base64url.split_signed [OF rsa_scheme.axioms(1) [OF rsa] header_dotless(1)]
        base64url.enc_alphabet [OF rsa_scheme.axioms(1) [OF rsa]] by simp
    then show ?thesis
      using a(3,4,10) base64url.dec_enc [OF rsa_scheme.axioms(1) [OF rsa]]
      by (auto simp: from_verified_jwt_def from_verified_jwt_with_claims_def result_simps
        issuer_codec.same_engine [OF assms(1)] split: if_splits)
  qed
  then show ?thesis using a v by blast
qed

theorem accepted_token_is_genuine_witness:
  "\<exists>token sig. token = jwt_header @ ''.'' @ hex_encode ''claims'' @ ''.'' @ hex_encode sig \<and>
     (\<exists>ctx. authenticate (claims_lib corporate_object) (pl_tokens corporate_pipeline) 1299 token = Inr ctx)"
proof -
  obtain token ctx where a: "authenticate (claims_lib corporate_object) (pl_tokens corporate_pipeline) 1299 token = Inr ctx"
    by (rule corporate_authenticates)
  from accepted_token_is_genuine [OF claims_codec a] obtain payload sig where
    "token = jwt_header @ ''.'' @ hex_encode payload @ ''.'' @ hex_encode sig"
    "\<exists>object. json_from_slice (il_tokens (claims_lib corporate_object)) payload = Some (JObject object)"
    by (auto simp: claims_lib_def text_rsa_def)
  with a show ?thesis by (auto simp: claims_lib_def split: if_splits)
qed

text \<open>
  Only bounded, approved context enters a token: the projected groups are at most 128 canonical
  identifiers, sorted and without repetitions, the projected claims are scalar claims of the identity with
  canonical names, take at most 64 KiB, and never a profile field, a protocol credential or a name that the
  token itself reserves.
\<close>

theorem projected_context_is_bounded:
  assumes "distinct (map fst (ei_claims (res_external_identity a)))"
  shows "list_all canonical_id (ap_stable_group_ids (project_authorization_context who a)) \<and>
    length (ap_stable_group_ids (project_authorization_context who a)) \<le> 128 \<and>
    sorted (ap_stable_group_ids (project_authorization_context who a)) \<and>
    distinct (ap_stable_group_ids (project_authorization_context who a)) \<and>
    claim_bytes (projected_claims 0 (ei_claims (res_external_identity a))) \<le> 65536 \<and>
    dom (ap_trusted_claims (project_authorization_context who a)) =
      fst ` set (projected_claims 0 (ei_claims (res_external_identity a))) \<and>
    (\<forall>n s. ap_trusted_claims (project_authorization_context who a) n = Some s \<longrightarrow>
      \<not> is_private_or_reserved_claim n \<and> canonical_id n \<and>
      (\<exists>v. map_of (ei_claims (res_external_identity a)) n = Some v \<and> scalar_claim v = Some s))"
proof -
  let ?cs = "projected_claims 0 (ei_claims (res_external_identity a))"
  have "claim_bytes ?cs \<le> 65536" using projected_claims_bytes [of 0 "ei_claims (res_external_identity a)"] by linarith
  moreover have "\<not> is_private_or_reserved_claim n \<and> canonical_id n \<and>
      (\<exists>v. map_of (ei_claims (res_external_identity a)) n = Some v \<and> scalar_claim v = Some s)"
    if "map_of ?cs n = Some s" for n s
    using projected_claims_set [OF map_of_SomeD [OF that]] by (auto simp: map_of_eq_Some_iff [OF assms])
  moreover have "dom (map_of ?cs) = fst ` set ?cs" by (rule dom_map_of_conv_image_fst)
  ultimately show ?thesis
    unfolding project_facts [OF assms] using projected_groups_props by blast
qed

theorem projected_context_is_bounded_witness:
  "claim_bytes (projected_claims 0 [(''email'', JString ''a@b''), (''tenant_id'', JString ''acme'')]) \<le> 65536 \<and>
   projected_claims 0 [(''email'', JString ''a@b''), (''tenant_id'', JString ''acme'')] = [(''tenant_id'', ''acme'')]"
proof
  let ?a = "github_login\<lparr>res_external_identity := (res_external_identity github_login)
    \<lparr>ei_claims := [(''email'', JString ''a@b''), (''tenant_id'', JString ''acme'')]\<rparr>\<rparr>"
  show "claim_bytes (projected_claims 0 [(''email'', JString ''a@b''), (''tenant_id'', JString ''acme'')]) \<le> 65536"
    using projected_context_is_bounded [of ?a] by simp
  show "projected_claims 0 [(''email'', JString ''a@b''), (''tenant_id'', JString ''acme'')] = [(''tenant_id'', ''acme'')]"
    by code_simp
qed

text \<open>
  Step-up never changes the principal: it completes only when the fresh authentication resolves
  to the authenticated principal, and then issues a token for that principal, to which the identity of the
  step-up is bound.
\<close>

theorem step_up_keeps_principal:
  assumes "readable_db db" "als_repository (pl_linking pl) = sqlite_identity_repository"
    and "complete_step_up pl db now n a kind random = (Inr issued, db')"
  shows "ap_principal_id (ia_principal issued) = n \<and> verify_step_up pl db n a kind random = (Inr (), db') \<and>
    (\<exists>k p. external_identity_key_of (res_external_identity a) = Inr k \<and> sqlite_bound db' k = Some p \<and>
      pi_id p = n \<and> pi_status p = Active)"
proof -
  obtain r db1 where r: "resolve_login (pl_linking pl) db a kind random = (r, db1)" by fastforce
  with assms(3) obtain who where who: "r = Inr who" "ap_principal_id who = n" "db1 = db'"
    "pipeline_issue pl now a who = Inr issued"
    by (auto simp: complete_step_up_def resolve_step_up_def split: sum.splits if_splits)
  from sqlite_link.login_binds [OF assms(1,2) r [unfolded who(1,3)]] obtain k p where
    "external_identity_key_of (res_external_identity a) = Inr k" "sqlite_bound db' k = Some p" "linking_context p a = Inr who"
    by blast
  moreover from this have "pi_id p = n" "pi_status p = Active"
    using who(2) by (auto simp: linking_context_def split: if_splits)
  moreover have "ap_principal_id (ia_principal issued) = n"
    using who(2,4) by (auto simp: pipeline_issue_def Let_def result_simps project_authorization_context_def)
  ultimately show ?thesis using r who by (simp add: verify_step_up_def resolve_step_up_def)
qed

theorem step_up_keeps_principal_witness:
  "\<exists>issued. complete_step_up corporate_pipeline empty_db 1000 ''P_r1'' corporate_login User ''r1'' = (Inr issued, corporate_db) \<and>
     ap_principal_id (ia_principal issued) = ''P_r1''"
proof -
  obtain issued where "pipeline_issue corporate_pipeline 1000 corporate_login corporate_ctx = Inr issued"
    by (rule corporate_issued)
  then have s: "complete_step_up corporate_pipeline empty_db 1000 ''P_r1'' corporate_login User ''r1'' = (Inr issued, corporate_db)"
    by (simp add: complete_step_up_def resolve_step_up_def corporate_issuer(3) corporate_resolved corporate_ctx_def)
  have "als_repository (pl_linking corporate_pipeline) = sqlite_identity_repository"
    by (simp add: corporate_issuer(3) sample_linking_repository)
  from step_up_keeps_principal [OF empty_readable this s] s show ?thesis by blast
qed

text \<open>
  A challenge answers once: what was stored under a purpose and an identifier is returned to the
  first consumer before its deadline, unchanged, and no second consumer gets it.
\<close>

theorem challenge_is_consumed_once:
  assumes "distinct_values c" "put_json memory_challenges js now now' purpose i x ttl c = (Inr (), c')"
    and "\<And>bytes. co_to_vec js x = Some bytes \<Longrightarrow> co_from_slice js bytes = Some x"
    and "now \<le> t" "t < expires_at c now' ttl" "t \<le> t'"
  shows "\<exists>c''. consume_json memory_challenges js t purpose i c' = (Inr (Some x), c'') \<and>
    fst (consume_json memory_challenges js t' purpose i c'') = Inr None \<and>
    fst (put_json memory_challenges js t u purpose i y ttl' c') \<in> {Inl InvalidState, Inl ChallengeBackend}"
proof -
  let ?k = "challenge_key (co_sha256_hex js) purpose i"
  from assms(2) obtain bytes where bytes: "co_to_vec js x = Some bytes" "fst (put_if_absent now now' ?k bytes ttl c)"
    "c' = snd (put_if_absent now now' ?k bytes ttl c)" by (rule memory_stored)
  have "\<not> fst (put_if_absent t u ?k w ttl' c')" for w
    using memory.put_twice [OF assms(1) bytes(2) assms(4,5)] bytes(3) by simp
  then have "fst (put_json memory_challenges js t u purpose i y ttl' c') \<in> {Inl InvalidState, Inl ChallengeBackend}"
    by (simp add: memory_challenge_ops split: option.splits)
  with memory_once [OF assms] show ?thesis by blast
qed

theorem challenge_is_consumed_once_witness:
  "\<exists>c' c''. put_json memory_challenges \<lparr>co_to_vec = Some, co_from_slice = Some, co_sha256_hex = hex_encode\<rparr>
       5 5 ''wallet'' ''id'' ''nonce'' (from_secs 60) small_cache = (Inr (), c') \<and>
     consume_json memory_challenges \<lparr>co_to_vec = Some, co_from_slice = Some, co_sha256_hex = hex_encode\<rparr>
       6 ''wallet'' ''id'' c' = (Inr (Some ''nonce''), c'')"
proof -
  let ?js = "\<lparr>co_to_vec = Some, co_from_slice = Some, co_sha256_hex = hex_encode\<rparr>"
  have c: "distinct_values small_cache" by (simp add: small_cache_def distinct_values_def memory_cache_new_def)
  have "live_value small_cache 5 k = None" for k
    by (simp add: live_value_def small_cache_def memory_cache_new_def retain_values_def)
  then have "fst (put_json memory_challenges ?js 5 5 ''wallet'' ''id'' ''nonce'' (from_secs 60) small_cache) = Inr ()"
    using memory.put_result [OF c] by (simp add: memory_challenge_ops)
  then obtain c' where p: "put_json memory_challenges ?js 5 5 ''wallet'' ''id'' ''nonce'' (from_secs 60) small_cache = (Inr (), c')"
    by (metis prod.collapse)
  have "(6 :: u64) < expires_at small_cache 5 (from_secs 60)" by code_simp
  with challenge_is_consumed_once [OF c p, of 6 7 8 "''n''" "from_secs 1"] p show ?thesis by auto
qed

end
