(* ===== verification/Credentials.thy ===== *)
theory Credentials
  imports Account_Linking Memory_Cache Std_Text
begin

text \<open>
  Standalone credentials: the model (\<open>common/src/model/credential.rs\<close>), the table and its SQLite
  repository (\<open>common/src/storage/authn/credential_sqlite.rs\<close>), beside the tables of \<open>Storage\<close>. The
  foreign key of the table removes the credentials of an identity with it. The locale
  \<open>credential_storage\<close> is what the handlers rely on: a created credential is found under its key, a
  failed write changes nothing, and the counter of a one-time password only grows. The lemmas show that
  the SQLite repository keeps these laws and that both repositories of the service keep the schema.
\<close>

section \<open>Data\<close>

datatype standalone_credential_kind = PasswordKind | TotpKind | WebauthnKind

fun credential_kind_as_str :: "standalone_credential_kind \<Rightarrow> string" where
  "credential_kind_as_str PasswordKind = ''password''"
| "credential_kind_as_str TotpKind = ''totp''"
| "credential_kind_as_str WebauthnKind = ''webauthn''"

datatype credential_model_error = InvalidKind string

definition credential_kind_try_from :: "string \<Rightarrow> (credential_model_error, standalone_credential_kind) result" where
  "credential_kind_try_from v =
     (if v = ''password'' then Inr PasswordKind else if v = ''totp'' then Inr TotpKind
      else if v = ''webauthn'' then Inr WebauthnKind else Inl (InvalidKind v))"

record iam_standalone_credential =
  cr_id :: string
  cr_identity :: external_identity_key
  cr_kind :: standalone_credential_kind
  cr_credential_key :: "string option"
  cr_secret_data :: "string option"
  cr_credential_data :: "json option"

record standalone_credential_identity =
  sci_external_identity :: external_identity
  sci_credential :: iam_standalone_credential

datatype credential_repository_error = KeyConflict | CredentialBackend string

section \<open>Table\<close>

record credential_row =
  tc_id :: string
  tc_identity_provider :: string
  tc_identity_issuer :: string
  tc_identity_subject :: string
  tc_kind :: string
  tc_credential_key :: "string option"
  tc_secret_data :: "string option"
  tc_credential_data :: "json option"
  tc_created_at :: int
  tc_revoked :: bool

record authn_database =
  ad_tables :: database
  ad_credentials :: "credential_row list"

definition credential_identity_key :: "credential_row \<Rightarrow> external_identity_key" where
  "credential_identity_key r = \<lparr>ek_provider = tc_identity_provider r, ek_issuer = tc_identity_issuer r,
     ek_subject = tc_identity_subject r\<rparr>"

definition has_identity :: "database \<Rightarrow> credential_row \<Rightarrow> bool" where
  "has_identity db r = list_ex (row_has_key (credential_identity_key r)) (db_identities db)"

definition credential_checks :: "credential_row \<Rightarrow> bool" where
  "credential_checks r \<longleftrightarrow> sql_trim (tc_id r) \<noteq> [] \<and> tc_identity_provider r = ''standalone'' \<and>
     sql_trim (tc_identity_issuer r) \<noteq> [] \<and> sql_trim (tc_identity_subject r) \<noteq> [] \<and>
     tc_kind r \<in> {''password'', ''totp'', ''webauthn''} \<and>
     (tc_kind r \<in> {''password'', ''totp''} \<and> tc_secret_data r \<noteq> None \<or>
      tc_kind r = ''webauthn'' \<and> tc_credential_key r \<noteq> None \<and> tc_credential_data r \<noteq> None)"

text \<open>The partial unique index over the active credentials with a key.\<close>

definition key_clash :: "credential_row \<Rightarrow> credential_row \<Rightarrow> bool" where
  "key_clash r s \<longleftrightarrow> tc_kind r = tc_kind s \<and> tc_credential_key r = tc_credential_key s \<and>
     tc_credential_key r \<noteq> None \<and> \<not> tc_revoked r \<and> \<not> tc_revoked s"

definition sql_insert_credential :: "credential_row \<Rightarrow> authn_database \<Rightarrow> (sql_error, authn_database) result" where
  "sql_insert_credential r ad =
     (if \<not> credential_checks r then Inl CheckViolation
      else if tc_id r \<in> set (map tc_id (ad_credentials ad)) \<or> list_ex (key_clash r) (ad_credentials ad) then Inl UniqueViolation
      else if \<not> has_identity (ad_tables ad) r then Inl ForeignKeyViolation
      else Inr (ad\<lparr>ad_credentials := ad_credentials ad @ [r]\<rparr>))"

text \<open>A write to the other tables; the credentials of deleted identities go with them.\<close>

definition cascade :: "database \<Rightarrow> authn_database \<Rightarrow> authn_database" where
  "cascade db ad = ad\<lparr>ad_tables := db, ad_credentials := filter (has_identity db) (ad_credentials ad)\<rparr>"

section \<open>Repository\<close>

fun map_credential_error :: "sql_error \<Rightarrow> credential_repository_error" where
  "map_credential_error UniqueViolation = KeyConflict"
| "map_credential_error CheckViolation = CredentialBackend ''check''"
| "map_credential_error ForeignKeyViolation = CredentialBackend ''foreign key''"

definition decode_credential_with_identity ::
  "credential_row \<Rightarrow> external_identity_key \<Rightarrow> (credential_repository_error, iam_standalone_credential) result" where
  "decode_credential_with_identity r key =
     and_then (map_err (\<lambda>_. CredentialBackend ''kind'') (credential_kind_try_from (tc_kind r))) (\<lambda>kind.
       Inr \<lparr>cr_id = tc_id r, cr_identity = key, cr_kind = kind, cr_credential_key = tc_credential_key r,
            cr_secret_data = tc_secret_data r, cr_credential_data = tc_credential_data r\<rparr>)"

definition decode_credential :: "credential_row \<Rightarrow> (credential_repository_error, iam_standalone_credential) result" where
  "decode_credential r =
     and_then (map_err (\<lambda>_. CredentialBackend ''identity'')
       (external_identity_key_new (tc_identity_provider r) (tc_identity_issuer r) (tc_identity_subject r)))
       (decode_credential_with_identity r)"

definition decode_identity_credential ::
  "identity_row \<Rightarrow> credential_row \<Rightarrow> (credential_repository_error, standalone_credential_identity) result" where
  "decode_identity_credential i r =
     and_then (ok_or (CredentialBackend ''claims'') (json_as_object (ti_claims i))) (\<lambda>claims.
     let external = \<lparr>ei_provider = ti_provider i, ei_issuer = ti_issuer i, ei_subject = ti_subject i, ei_claims = claims\<rparr> in
     and_then (map_err (\<lambda>_. CredentialBackend ''identity'') (external_identity_key_of external)) (\<lambda>key.
     and_then (decode_credential_with_identity r key) (\<lambda>credential.
       Inr \<lparr>sci_external_identity = external, sci_credential = credential\<rparr>)))"

text \<open>The rows of the join, in the order of the two tables.\<close>

definition credential_join :: "authn_database \<Rightarrow> (credential_row \<Rightarrow> bool) \<Rightarrow> (identity_row \<times> credential_row) list" where
  "credential_join ad P =
     concat (map (\<lambda>c. map (\<lambda>i. (i, c)) (filter (row_has_key (credential_identity_key c)) (db_identities (ad_tables ad))))
       (filter P (ad_credentials ad)))"

definition credential_find_by_key ::
  "authn_database \<Rightarrow> string \<Rightarrow> standalone_credential_kind \<Rightarrow> string \<Rightarrow>
   (credential_repository_error, standalone_credential_identity option) result" where
  "credential_find_by_key ad issuer kind key =
     (case credential_join ad (\<lambda>c. tc_identity_provider c = ''standalone'' \<and> tc_identity_issuer c = issuer \<and>
         tc_kind c = credential_kind_as_str kind \<and> tc_credential_key c = Some key \<and> \<not> tc_revoked c) of
        [] \<Rightarrow> Inr None
      | (i, c) # _ \<Rightarrow> and_then (decode_identity_credential i c) (\<lambda>found. Inr (Some found)))"

definition credential_list_by_identity ::
  "authn_database \<Rightarrow> external_identity_key \<Rightarrow> standalone_credential_kind \<Rightarrow>
   (credential_repository_error, iam_standalone_credential list) result" where
  "credential_list_by_identity ad key kind =
     traverse decode_credential (sort_key (\<lambda>c. (tc_created_at c, tc_id c))
       (filter (\<lambda>c. credential_identity_key c = key \<and> tc_kind c = credential_kind_as_str kind \<and> \<not> tc_revoked c)
         (ad_credentials ad)))"

definition credential_row_of :: "int \<Rightarrow> iam_standalone_credential \<Rightarrow> credential_row" where
  "credential_row_of now c = \<lparr>tc_id = cr_id c, tc_identity_provider = ek_provider (cr_identity c),
     tc_identity_issuer = ek_issuer (cr_identity c), tc_identity_subject = ek_subject (cr_identity c),
     tc_kind = credential_kind_as_str (cr_kind c), tc_credential_key = cr_credential_key c,
     tc_secret_data = cr_secret_data c, tc_credential_data = cr_credential_data c, tc_created_at = now, tc_revoked = False\<rparr>"

definition create_credential ::
  "int \<Rightarrow> authn_database \<Rightarrow> iam_standalone_credential \<Rightarrow> (credential_repository_error, unit) result \<times> authn_database" where
  "create_credential now ad c =
     (case sql_insert_credential (credential_row_of now c) ad of
        Inl e \<Rightarrow> (Inl (map_credential_error e), ad)
      | Inr ad' \<Rightarrow> (Inr (), ad'))"

text \<open>An \<open>UPDATE\<close> with the number of rows it affects.\<close>

definition update_credentials ::
  "(credential_row \<Rightarrow> bool) \<Rightarrow> (credential_row \<Rightarrow> credential_row) \<Rightarrow> authn_database \<Rightarrow> nat \<times> authn_database" where
  "update_credentials P f ad =
     (length (filter P (ad_credentials ad)),
      ad\<lparr>ad_credentials := map (\<lambda>c. if P c then f c else c) (ad_credentials ad)\<rparr>)"

definition compare_and_swap_credential_data ::
  "authn_database \<Rightarrow> string \<Rightarrow> json \<Rightarrow> json \<Rightarrow> (credential_repository_error, bool) result \<times> authn_database" where
  "compare_and_swap_credential_data ad credential_id current data =
     (let (affected, ad') = update_credentials
        (\<lambda>c. tc_id c = credential_id \<and> \<not> tc_revoked c \<and> tc_credential_data c = Some current)
        (\<lambda>c. c\<lparr>tc_credential_data := Some data\<rparr>) ad
      in (Inr (affected = 1), ad'))"

text \<open>
  \<open>JSON_EXTRACT(data, '$.lastCounter')\<close> and \<open>JSON_SET(COALESCE(data, '{}'), '$.lastCounter', n)\<close>. The
  conversion of a JSON value to an integer by \<open>CAST\<close> is a parameter (\<open>None\<close> for \<open>NULL\<close>).
\<close>

definition last_counter :: "(json \<Rightarrow> int option) \<Rightarrow> json option \<Rightarrow> int" where
  "last_counter cast_integer data =
     (case Option.bind (Option.bind data json_as_object) (\<lambda>ms. Option.bind (map_of ms ''lastCounter'') cast_integer) of
        None \<Rightarrow> - 1 | Some n \<Rightarrow> n)"

definition set_last_counter :: "u64 \<Rightarrow> json option \<Rightarrow> json option" where
  "set_last_counter n data =
     (case (case data of None \<Rightarrow> JObject [] | Some d \<Rightarrow> d) of
        JObject ms \<Rightarrow> Some (JObject (insert_entry ''lastCounter'' (JNumber (u64_to_string n)) ms))
      | d \<Rightarrow> Some d)"

definition advance_totp_counter ::
  "(json \<Rightarrow> int option) \<Rightarrow> authn_database \<Rightarrow> string \<Rightarrow> u64 \<Rightarrow> (credential_repository_error, bool) result \<times> authn_database" where
  "advance_totp_counter cast_integer ad credential_id counter =
     (if uint counter \<ge> 2 ^ 63 then (Inl (CredentialBackend ''TOTP counter is out of range''), ad)
      else let (affected, ad') = update_credentials
          (\<lambda>c. tc_id c = credential_id \<and> tc_kind c = ''totp'' \<and> \<not> tc_revoked c \<and>
             last_counter cast_integer (tc_credential_data c) < uint counter)
          (\<lambda>c. c\<lparr>tc_credential_data := set_last_counter counter (tc_credential_data c)\<rparr>) ad
        in (Inr (affected = 1), ad'))"

section \<open>Identities beside credentials\<close>

definition lift_tables :: "(database \<Rightarrow> 'r \<times> database) \<Rightarrow> authn_database \<Rightarrow> 'r \<times> authn_database" where
  "lift_tables f ad = (let (r, db) = f (ad_tables ad) in (r, cascade db ad))"

definition authn_identity_repository :: "authn_database identity_binding_repository" where
  "authn_identity_repository =
     \<lparr>ib_find_principal_by_identity = (\<lambda>ad k. find_principal_by_identity (ad_tables ad) k),
      ib_create_principal_and_bind = (\<lambda>ad p i. lift_tables (\<lambda>db. create_principal_and_bind db p i) ad),
      ib_bind_identity = (\<lambda>ad n i. lift_tables (\<lambda>db. bind_identity db n i) ad),
      ib_principal_has_provider = (\<lambda>ad n provider. Inr (principal_has_provider (ad_tables ad) n provider)),
      ib_rollback_identity_binding = (\<lambda>ad n k. lift_tables (\<lambda>db. rollback_identity_binding db n k) ad)\<rparr>"

section \<open>Interface\<close>

text \<open>\<open>dyn StandaloneCredentialRepository\<close>; the time of a creation is an argument.\<close>

record 'd credential_repository =
  cp_find_by_key :: "'d \<Rightarrow> string \<Rightarrow> standalone_credential_kind \<Rightarrow> string \<Rightarrow>
    (credential_repository_error, standalone_credential_identity option) result"
  cp_list_by_identity :: "'d \<Rightarrow> external_identity_key \<Rightarrow> standalone_credential_kind \<Rightarrow>
    (credential_repository_error, iam_standalone_credential list) result"
  cp_create_credential :: "int \<Rightarrow> 'd \<Rightarrow> iam_standalone_credential \<Rightarrow> (credential_repository_error, unit) result \<times> 'd"
  cp_compare_and_swap :: "'d \<Rightarrow> string \<Rightarrow> json \<Rightarrow> json \<Rightarrow> (credential_repository_error, bool) result \<times> 'd"
  cp_advance_totp_counter :: "'d \<Rightarrow> string \<Rightarrow> u64 \<Rightarrow> (credential_repository_error, bool) result \<times> 'd"

definition sqlite_credential_repository :: "(json \<Rightarrow> int option) \<Rightarrow> authn_database credential_repository" where
  "sqlite_credential_repository cast_integer =
     \<lparr>cp_find_by_key = credential_find_by_key, cp_list_by_identity = credential_list_by_identity,
      cp_create_credential = create_credential, cp_compare_and_swap = compare_and_swap_credential_data,
      cp_advance_totp_counter = advance_totp_counter cast_integer\<rparr>"

text \<open>The counters that a sequence of attempts gets accepted for one credential.\<close>

fun accepted :: "'d credential_repository \<Rightarrow> 'd \<Rightarrow> string \<Rightarrow> (string \<times> u64) list \<Rightarrow> u64 list" where
  "accepted repo d i [] = []"
| "accepted repo d i ((j, n) # attempts) =
     (let (r, d') = cp_advance_totp_counter repo d j n
      in (if j = i \<and> r = Inr True then [n] else []) @ accepted repo d' i attempts)"

text \<open>JSON data that \<open>JSON_SET\<close> can extend, and keys that decode.\<close>

definition object_data :: "json option \<Rightarrow> bool" where
  "object_data d \<longleftrightarrow> (case d of None \<Rightarrow> True | Some (JObject ms) \<Rightarrow> True | Some _ \<Rightarrow> False)"

definition canonical_key :: "external_identity_key \<Rightarrow> bool" where
  "canonical_key k \<longleftrightarrow> canonical_id (ek_provider k) \<and> canonical_id (ek_issuer k) \<and> canonical_id (ek_subject k)"

text \<open>
  What the handlers rely on. \<open>active d i\<close> is the credential that is stored under an identifier and not
  revoked, \<open>counter d i\<close> the counter of a one-time password.
\<close>

locale credential_storage =
  fixes repo :: "'d credential_repository" and ok :: "'d \<Rightarrow> bool"
    and active :: "'d \<Rightarrow> string \<Rightarrow> iam_standalone_credential option"
    and counter :: "'d \<Rightarrow> string \<Rightarrow> int"
  assumes active_id: "active d i = Some c \<Longrightarrow> cr_id c = i"
    and active_key: "ok d \<Longrightarrow> active d i = Some c \<Longrightarrow> active d j = Some c' \<Longrightarrow> cr_kind c = cr_kind c' \<Longrightarrow>
      cr_credential_key c = cr_credential_key c' \<Longrightarrow> cr_credential_key c \<noteq> None \<Longrightarrow> i = j"
    and find_law: "ok d \<Longrightarrow> cp_find_by_key repo d issuer kind key = Inr (Some found) \<Longrightarrow>
      active d (cr_id (sci_credential found)) = Some (sci_credential found) \<and>
      cr_kind (sci_credential found) = kind \<and> cr_credential_key (sci_credential found) = Some key \<and>
      ek_issuer (cr_identity (sci_credential found)) = issuer \<and>
      external_identity_key_of (sci_external_identity found) = Inr (cr_identity (sci_credential found))"
    and find_total: "ok d \<Longrightarrow> active d i = Some c \<Longrightarrow> canonical_key (cr_identity c) \<Longrightarrow> cr_credential_key c = Some key \<Longrightarrow>
      \<exists>found. cp_find_by_key repo d (ek_issuer (cr_identity c)) (cr_kind c) key = Inr (Some found)"
    and list_law: "ok d \<Longrightarrow> canonical_key k \<Longrightarrow> \<exists>cs. cp_list_by_identity repo d k kind = Inr cs \<and>
      set cs = {c. \<exists>i. active d i = Some c \<and> cr_identity c = k \<and> cr_kind c = kind}"
    and create_law: "ok d \<Longrightarrow> cr_kind c = TotpKind \<longrightarrow> object_data (cr_credential_data c) \<Longrightarrow>
      cp_create_credential repo now d c = (written, d') \<Longrightarrow> ok d' \<and>
      (case written of Inl e \<Rightarrow> d' = d | Inr u \<Rightarrow> active d (cr_id c) = None \<and> active d' = (active d)(cr_id c \<mapsto> c))"
    and swap_law: "ok d \<Longrightarrow> object_data (Some data) \<Longrightarrow> cp_compare_and_swap repo d i current data = (swapped, d') \<Longrightarrow> ok d' \<and>
      (case swapped of Inl e \<Rightarrow> d' = d
       | Inr b \<Rightarrow> b = (\<exists>c. active d i = Some c \<and> cr_credential_data c = Some current) \<and>
           active d' = (if b then (active d)(i := map_option (\<lambda>c. c\<lparr>cr_credential_data := Some data\<rparr>) (active d i)) else active d))"
    and advance_law: "ok d \<Longrightarrow> cp_advance_totp_counter repo d i n = (swapped, d') \<Longrightarrow> ok d' \<and>
      (case swapped of Inl e \<Rightarrow> d' = d
       | Inr b \<Rightarrow> if b then counter d i < uint n \<and> counter d' = (counter d)(i := uint n) else d' = d)"
begin

text \<open>Under one key, at most one credential is found.\<close>

lemma find_unique:
  assumes "ok d" "active d i = Some c" "canonical_key (cr_identity c)" "cr_credential_key c = Some key"
  obtains found where "cp_find_by_key repo d (ek_issuer (cr_identity c)) (cr_kind c) key = Inr (Some found)"
    "sci_credential found = c"
proof -
  obtain found where f: "cp_find_by_key repo d (ek_issuer (cr_identity c)) (cr_kind c) key = Inr (Some found)"
    using find_total [OF assms] by blast
  note law = find_law [OF assms(1) f]
  have "i = cr_id (sci_credential found)" using active_key [OF assms(1,2), of "cr_id (sci_credential found)"] law assms(4) by simp
  then show thesis using that [OF f] law assms(2) by simp
qed

text \<open>Counters of accepted one-time passwords grow strictly along any sequence of attempts.\<close>

lemma accepted_increase:
  "ok d \<Longrightarrow> sorted_wrt (<) (accepted repo d i attempts) \<and> (\<forall>n \<in> set (accepted repo d i attempts). counter d i < uint n)"
proof (induction attempts arbitrary: d)
  case (Cons a attempts)
  obtain j n r d' where a: "a = (j, n)" and r: "cp_advance_totp_counter repo d j n = (r, d')" by (metis prod.collapse)
  note law = advance_law [OF Cons.prems r]
  then have IH: "sorted_wrt (<) (accepted repo d' i attempts)" "\<forall>m \<in> set (accepted repo d' i attempts). counter d' i < uint m"
    using Cons.IH [of d'] by auto
  have mono: "counter d i \<le> counter d' i" using law by (cases r) (auto split: if_splits)
  show ?case
  proof (cases "j = i \<and> r = Inr True")
    case True
    then have "\<forall>m \<in> set (accepted repo d' i attempts). n < m" using law IH(2) by (simp add: word_less_alt)
    then show ?thesis using True law IH r by (auto simp: a)
  qed (use IH r mono in \<open>force simp: a\<close>)
qed simp

end

section \<open>SQLite as a credential store\<close>

text \<open>The invariant of the authentication tables, and the two views of a credential.\<close>

definition indexed_keys :: "credential_row list \<Rightarrow> (string \<times> string option) list" where
  "indexed_keys rs = map (\<lambda>r. (tc_kind r, tc_credential_key r)) (filter (\<lambda>r. tc_credential_key r \<noteq> None \<and> \<not> tc_revoked r) rs)"

definition credential_rows_ok :: "database \<Rightarrow> credential_row list \<Rightarrow> bool" where
  "credential_rows_ok db rs \<longleftrightarrow> distinct (map tc_id rs) \<and> distinct (indexed_keys rs) \<and>
     (\<forall>r \<in> set rs. credential_checks r \<and> has_identity db r \<and> (tc_kind r = ''totp'' \<longrightarrow> object_data (tc_credential_data r)))"

definition authn_ok :: "authn_database \<Rightarrow> bool" where
  "authn_ok ad \<longleftrightarrow> readable_db (ad_tables ad) \<and> credential_rows_ok (ad_tables ad) (ad_credentials ad) \<and>
     (\<forall>i \<in> set (db_identities (ad_tables ad)). json_as_object (ti_claims i) \<noteq> None)"

definition credential_of_row :: "credential_row \<Rightarrow> iam_standalone_credential" where
  "credential_of_row r = \<lparr>cr_id = tc_id r, cr_identity = credential_identity_key r,
     cr_kind = projr (credential_kind_try_from (tc_kind r)), cr_credential_key = tc_credential_key r,
     cr_secret_data = tc_secret_data r, cr_credential_data = tc_credential_data r\<rparr>"

definition active_credential :: "authn_database \<Rightarrow> string \<Rightarrow> iam_standalone_credential option" where
  "active_credential ad i = map_option credential_of_row (find (\<lambda>r. tc_id r = i \<and> \<not> tc_revoked r) (ad_credentials ad))"

definition totp_counter :: "(json \<Rightarrow> int option) \<Rightarrow> authn_database \<Rightarrow> string \<Rightarrow> int" where
  "totp_counter cast_integer ad i =
     (case find (\<lambda>r. tc_id r = i) (ad_credentials ad) of
        None \<Rightarrow> - 1 | Some r \<Rightarrow> last_counter cast_integer (tc_credential_data r))"

lemma credential_kind_inverse: "credential_kind_try_from (credential_kind_as_str k) = Inr k"
  by (cases k) (simp_all add: credential_kind_try_from_def)

lemma credential_kind_try_from_Inr: "credential_kind_try_from s = Inr k \<longleftrightarrow> s = credential_kind_as_str k"
  by (cases k) (auto simp: credential_kind_try_from_def)

lemma checked_kind: "credential_checks r \<Longrightarrow> tc_kind r = credential_kind_as_str (cr_kind (credential_of_row r))"
proof -
  assume "credential_checks r"
  then have "tc_kind r \<in> {''password'', ''totp'', ''webauthn''}" by (simp only: credential_checks_def)
  then have "tc_kind r \<in> credential_kind_as_str ` {PasswordKind, TotpKind, WebauthnKind}" by simp
  then show ?thesis by (auto simp: credential_of_row_def credential_kind_inverse simp del: credential_kind_as_str.simps)
qed

lemma credential_of_row_fields [simp]:
  "cr_id (credential_of_row r) = tc_id r" "cr_identity (credential_of_row r) = credential_identity_key r"
  "cr_credential_key (credential_of_row r) = tc_credential_key r" "cr_secret_data (credential_of_row r) = tc_secret_data r"
  "cr_credential_data (credential_of_row r) = tc_credential_data r"
  by (simp_all add: credential_of_row_def)

lemma find_distinct:
  "distinct (map f rs) \<Longrightarrow> find (\<lambda>r. f r = i \<and> P r) rs = Some r \<longleftrightarrow> r \<in> set rs \<and> f r = i \<and> P r"
  by (induction rs) (auto simp: image_iff)

lemma active_credential_Some:
  assumes "distinct (map tc_id (ad_credentials ad))"
  shows "active_credential ad i = Some c \<longleftrightarrow>
    (\<exists>r \<in> set (ad_credentials ad). tc_id r = i \<and> \<not> tc_revoked r \<and> c = credential_of_row r)"
  unfolding active_credential_def map_option_eq_Some find_distinct [OF assms] by blast

lemma active_credential_id: "active_credential ad i = Some c \<Longrightarrow> cr_id c = i"
  by (auto simp: active_credential_def find_Some_iff)

lemma authn_ok_distinct: "authn_ok ad \<Longrightarrow> distinct (map tc_id (ad_credentials ad))"
  by (simp add: authn_ok_def credential_rows_ok_def)

lemma authn_ok_row:
  "authn_ok ad \<Longrightarrow> r \<in> set (ad_credentials ad) \<Longrightarrow> credential_checks r \<and> has_identity (ad_tables ad) r \<and>
     (tc_kind r = ''totp'' \<longrightarrow> object_data (tc_credential_data r))"
  by (simp add: authn_ok_def credential_rows_ok_def)

lemma decode_row:
  assumes "credential_checks r"
  shows "decode_credential_with_identity r (credential_identity_key r) = Inr (credential_of_row r)"
    and "canonical_key (credential_identity_key r) \<Longrightarrow> decode_credential r = Inr (credential_of_row r)"
proof -
  show d: "decode_credential_with_identity r (credential_identity_key r) = Inr (credential_of_row r)"
  proof -
    obtain k where "credential_kind_try_from (tc_kind r) = Inr k"
      using checked_kind [OF assms] credential_kind_inverse by metis
    then show ?thesis by (simp add: decode_credential_with_identity_def credential_of_row_def)
  qed
  assume "canonical_key (credential_identity_key r)"
  then have "external_identity_key_new (tc_identity_provider r) (tc_identity_issuer r) (tc_identity_subject r) =
      Inr (credential_identity_key r)"
    by (simp add: external_identity_key_new_Inr canonical_key_def credential_identity_key_def)
  with d show "decode_credential r = Inr (credential_of_row r)" by (simp add: decode_credential_def)
qed

lemma sqlite_list_credentials:
  assumes "authn_ok ad" "canonical_key k"
  shows "\<exists>cs. credential_list_by_identity ad k kind = Inr cs \<and>
    set cs = {c. \<exists>i. active_credential ad i = Some c \<and> cr_identity c = k \<and> cr_kind c = kind}"
proof -
  let ?P = "\<lambda>c. credential_identity_key c = k \<and> tc_kind c = credential_kind_as_str kind \<and> \<not> tc_revoked c"
  let ?rs = "sort_key (\<lambda>c. (tc_created_at c, tc_id c)) (filter ?P (ad_credentials ad))"
  have "traverse decode_credential ?rs = Inr (map credential_of_row ?rs)"
    by (rule traverse_map_Inr) (use assms authn_ok_row decode_row(2) in auto)
  moreover have "tc_kind r = credential_kind_as_str kind \<longleftrightarrow> cr_kind (credential_of_row r) = kind"
    if "r \<in> set (ad_credentials ad)" for r
    using checked_kind [of r] authn_ok_row [OF assms(1) that] credential_kind_inverse by (metis sum.inject(2))
  then have "set (map credential_of_row ?rs) = {c. \<exists>i. active_credential ad i = Some c \<and> cr_identity c = k \<and> cr_kind c = kind}"
    unfolding active_credential_Some [OF authn_ok_distinct [OF assms(1)]] by auto
  ultimately show ?thesis by (simp add: credential_list_by_identity_def)
qed

lemma sqlite_active_key:
  assumes "authn_ok ad" "active_credential ad i = Some c" "active_credential ad j = Some c'"
    and "cr_kind c = cr_kind c'" "cr_credential_key c = cr_credential_key c'" "cr_credential_key c \<noteq> None"
  shows "i = j"
proof -
  obtain r s where rs: "r \<in> set (ad_credentials ad)" "tc_id r = i" "\<not> tc_revoked r" "c = credential_of_row r"
    "s \<in> set (ad_credentials ad)" "tc_id s = j" "\<not> tc_revoked s" "c' = credential_of_row s"
    using assms(2,3) unfolding active_credential_Some [OF authn_ok_distinct [OF assms(1)]] by auto
  have "tc_kind r = tc_kind s" using checked_kind [of r] checked_kind [of s] authn_ok_row [OF assms(1)] rs assms(4) by metis
  moreover have "tc_credential_key r = tc_credential_key s" "tc_credential_key r \<noteq> None"
    using assms(5,6) rs(4,8) by simp_all
  moreover have "distinct (indexed_keys (ad_credentials ad))" using assms(1) by (simp add: authn_ok_def credential_rows_ok_def)
  ultimately have "r = s" using rs by (auto simp: indexed_keys_def distinct_map inj_on_def)
  then show ?thesis using rs by simp
qed

lemma credential_join_set:
  "(i, c) \<in> set (credential_join ad P) \<longleftrightarrow> c \<in> set (ad_credentials ad) \<and> P c \<and>
     i \<in> set (db_identities (ad_tables ad)) \<and> row_has_key (credential_identity_key c) i"
  by (auto simp: credential_join_def)

lemma decode_identity_row:
  assumes "row_has_key (credential_identity_key c) i" "credential_checks c"
  shows "decode_identity_credential i c = Inr found \<longleftrightarrow> sci_credential found = credential_of_row c \<and>
    (\<exists>claims. json_as_object (ti_claims i) = Some claims \<and> canonical_key (credential_identity_key c) \<and>
      sci_external_identity found = \<lparr>ei_provider = ti_provider i, ei_issuer = ti_issuer i, ei_subject = ti_subject i, ei_claims = claims\<rparr>)"
proof -
  have key: "external_identity_key_new (ti_provider i) (ti_issuer i) (ti_subject i) = Inr k \<longleftrightarrow>
      canonical_key (credential_identity_key c) \<and> k = credential_identity_key c" for k
    using assms(1) by (auto simp: external_identity_key_new_Inr canonical_key_def row_has_key_def credential_identity_key_def)
  show ?thesis
    by (cases found) (auto simp: decode_identity_credential_def Let_def result_simps external_identity_key_of_def key
      decode_row(1) [OF assms(2)])
qed

abbreviation keyed_row :: "string \<Rightarrow> standalone_credential_kind \<Rightarrow> string \<Rightarrow> credential_row \<Rightarrow> bool" where
  "keyed_row issuer kind key c \<equiv> tc_identity_provider c = ''standalone'' \<and> tc_identity_issuer c = issuer \<and>
     tc_kind c = credential_kind_as_str kind \<and> tc_credential_key c = Some key \<and> \<not> tc_revoked c"

lemma find_by_key_head:
  assumes "credential_find_by_key ad issuer kind key = Inr (Some found)"
  obtains i c where "c \<in> set (ad_credentials ad)" "keyed_row issuer kind key c" "row_has_key (credential_identity_key c) i"
    "i \<in> set (db_identities (ad_tables ad))" "decode_identity_credential i c = Inr found"
proof (cases "credential_join ad (keyed_row issuer kind key)")
  case (Cons x xs)
  obtain i c where x: "x = (i, c)" by fastforce
  then have "(i, c) \<in> set (credential_join ad (keyed_row issuer kind key))" using Cons by simp
  moreover have "decode_identity_credential i c = Inr found"
    using assms Cons x by (simp add: credential_find_by_key_def result_simps)
  ultimately show thesis using that unfolding credential_join_set by blast
qed (use assms in \<open>simp add: credential_find_by_key_def\<close>)

lemma sqlite_find_credential:
  assumes "authn_ok ad" "credential_find_by_key ad issuer kind key = Inr (Some found)"
  shows "active_credential ad (cr_id (sci_credential found)) = Some (sci_credential found) \<and>
    cr_kind (sci_credential found) = kind \<and> cr_credential_key (sci_credential found) = Some key \<and>
    ek_issuer (cr_identity (sci_credential found)) = issuer \<and>
    external_identity_key_of (sci_external_identity found) = Inr (cr_identity (sci_credential found))"
proof -
  obtain i c where c: "c \<in> set (ad_credentials ad)" "keyed_row issuer kind key c" "row_has_key (credential_identity_key c) i"
    "decode_identity_credential i c = Inr found"
    using find_by_key_head [OF assms(2)] by blast
  note checks = authn_ok_row [OF assms(1) c(1)]
  have found: "sci_credential found = credential_of_row c" "canonical_key (credential_identity_key c)"
    "external_identity_key_of (sci_external_identity found) = Inr (credential_identity_key c)"
    using c(3,4) checks by (auto simp: decode_identity_row external_identity_key_of_def external_identity_key_new_Inr
      canonical_key_def row_has_key_def credential_identity_key_def)
  have "cr_kind (credential_of_row c) = kind"
    using checked_kind [of c] checks c(2) credential_kind_inverse by (metis sum.inject(2))
  moreover have "active_credential ad (tc_id c) = Some (credential_of_row c)"
    unfolding active_credential_Some [OF authn_ok_distinct [OF assms(1)]] using c by blast
  ultimately show ?thesis using found c(2) by (simp add: credential_identity_key_def)
qed

lemma sqlite_find_total:
  assumes "authn_ok ad" "active_credential ad i = Some c" "canonical_key (cr_identity c)" "cr_credential_key c = Some key"
  shows "\<exists>found. credential_find_by_key ad (ek_issuer (cr_identity c)) (cr_kind c) key = Inr (Some found)"
proof -
  let ?P = "keyed_row (ek_issuer (cr_identity c)) (cr_kind c) key"
  obtain r where r: "r \<in> set (ad_credentials ad)" "tc_id r = i" "\<not> tc_revoked r" "c = credential_of_row r"
    using assms(2) unfolding active_credential_Some [OF authn_ok_distinct [OF assms(1)]] by blast
  note checks = authn_ok_row [OF assms(1) r(1)]
  have "tc_kind r = credential_kind_as_str (cr_kind c)" using checked_kind [of r] checks r(4) by blast
  moreover have "tc_identity_provider r = ''standalone''" using checks by (simp add: credential_checks_def)
  moreover have "tc_identity_issuer r = ek_issuer (cr_identity c)" "tc_credential_key r = Some key"
    using assms(4) r(4) by (simp_all add: credential_identity_key_def)
  ultimately have P: "?P r" using r(3) by blast
  obtain x where "x \<in> set (db_identities (ad_tables ad))" "row_has_key (credential_identity_key r) x"
    using checks by (auto simp: has_identity_def list_ex_iff)
  then have "(x, r) \<in> set (credential_join ad ?P)" using r P by (simp add: credential_join_set)
  then obtain i' c' rest where join: "credential_join ad ?P = (i', c') # rest" by (cases "credential_join ad ?P") auto
  then have c': "c' \<in> set (ad_credentials ad)" "?P c'" "i' \<in> set (db_identities (ad_tables ad))"
    "row_has_key (credential_identity_key c') i'"
    using credential_join_set [of i' c' ad ?P] by auto
  have "distinct (indexed_keys (ad_credentials ad))" using assms(1) by (simp add: authn_ok_def credential_rows_ok_def)
  then have "c' = r" using r(1) c'(1,2) P by (auto simp: indexed_keys_def distinct_map inj_on_def)
  moreover obtain claims where "json_as_object (ti_claims i') = Some claims"
    using assms(1) c'(3) by (auto simp: authn_ok_def)
  moreover have "canonical_key (credential_identity_key r)" using assms(3) r(4) by simp
  ultimately have "decode_identity_credential i' c' = Inr \<lparr>sci_external_identity = \<lparr>ei_provider = ti_provider i',
      ei_issuer = ti_issuer i', ei_subject = ti_subject i', ei_claims = claims\<rparr>, sci_credential = credential_of_row c'\<rparr>"
    using c'(4) checks by (subst decode_identity_row) auto
  then show ?thesis using join by (simp add: credential_find_by_key_def)
qed

subsection \<open>Writes\<close>

lemma credential_of_row_of: "credential_of_row (credential_row_of now c) = c"
  by (cases c) (simp add: credential_of_row_def credential_row_of_def credential_identity_key_def credential_kind_inverse)

lemma sqlite_create_credential:
  assumes "authn_ok ad" "cr_kind c = TotpKind \<longrightarrow> object_data (cr_credential_data c)" "create_credential now ad c = (r, ad')"
  shows "authn_ok ad' \<and> (case r of Inl e \<Rightarrow> ad' = ad
    | Inr u \<Rightarrow> active_credential ad (cr_id c) = None \<and> active_credential ad' = (active_credential ad)(cr_id c \<mapsto> c))"
proof (cases r)
  case (Inl e)
  then show ?thesis using assms by (auto simp: create_credential_def split: sum.splits)
next
  case (Inr u)
  let ?row = "credential_row_of now c"
  have ins: "credential_checks ?row" "cr_id c \<notin> tc_id ` set (ad_credentials ad)" "\<not> list_ex (key_clash ?row) (ad_credentials ad)"
    "has_identity (ad_tables ad) ?row" "ad' = ad\<lparr>ad_credentials := ad_credentials ad @ [?row]\<rparr>"
    using assms(3) Inr by (auto simp: create_credential_def sql_insert_credential_def credential_row_of_def split: sum.splits if_splits)
  have fields: "tc_id ?row = cr_id c" "tc_revoked ?row = False" by (simp_all add: credential_row_of_def)
  have totp: "object_data (tc_credential_data ?row)" if "tc_kind ?row = ''totp''"
    using that assms(2) by (cases "cr_kind c") (simp_all add: credential_row_of_def)
  have "distinct (indexed_keys (ad_credentials ad @ [?row]))"
    using assms(1) ins(3) by (auto simp: authn_ok_def credential_rows_ok_def indexed_keys_def list_ex_iff key_clash_def)
  then have ok: "authn_ok ad'"
    using assms(1) ins totp fields by (auto simp: authn_ok_def credential_rows_ok_def)
  have "active_credential ad' j = Some c' \<longleftrightarrow> ((active_credential ad)(cr_id c \<mapsto> c)) j = Some c'" for j c'
    using ins(2,5) fields credential_of_row_of [of now c]
    unfolding active_credential_Some [OF authn_ok_distinct [OF ok]]
    by (auto simp: active_credential_Some [OF authn_ok_distinct [OF assms(1)]] image_iff)
  then have "active_credential ad' = (active_credential ad)(cr_id c \<mapsto> c)" by (intro ext option_eqI_Some)
  moreover have "active_credential ad (cr_id c) = None"
    using ins(2) by (auto simp: active_credential_def find_None_iff image_iff)
  ultimately show ?thesis using ok Inr by simp
qed

text \<open>An update that keeps the identity, the kind and the key of every row.\<close>

definition data_update :: "(credential_row \<Rightarrow> json option) \<Rightarrow> credential_row \<Rightarrow> credential_row" where
  "data_update g r = r\<lparr>tc_credential_data := g r\<rparr>"

lemma update_ok:
  assumes "authn_ok ad"
    and "\<And>r. r \<in> set (ad_credentials ad) \<Longrightarrow> P r \<Longrightarrow> g r \<noteq> None \<and> (tc_kind r = ''totp'' \<longrightarrow> object_data (g r))"
  shows "authn_ok (snd (update_credentials P (data_update g) ad))"
proof -
  define upd where "upd c = (if P c then data_update g c else c)" for c
  have fields: "tc_id (upd c) = tc_id c" "tc_kind (upd c) = tc_kind c" "tc_credential_key (upd c) = tc_credential_key c"
    "tc_revoked (upd c) = tc_revoked c" "credential_identity_key (upd c) = credential_identity_key c" for c
    by (simp_all add: upd_def data_update_def credential_identity_key_def)
  have same: "map tc_id (map upd rs) = map tc_id rs" "indexed_keys (map upd rs) = indexed_keys rs" for rs
    by (simp_all add: indexed_keys_def filter_map comp_def fields)
  have rows: "credential_checks (upd r) \<and> has_identity (ad_tables ad) (upd r) \<and>
      (tc_kind (upd r) = ''totp'' \<longrightarrow> object_data (tc_credential_data (upd r)))" if "r \<in> set (ad_credentials ad)" for r
  proof -
    have "credential_checks (upd r)" "tc_kind r = ''totp'' \<longrightarrow> object_data (tc_credential_data (upd r))"
      using authn_ok_row [OF assms(1) that] assms(2) [OF that] by (auto simp: upd_def data_update_def credential_checks_def)
    then show ?thesis using authn_ok_row [OF assms(1) that] by (simp add: has_identity_def fields)
  qed
  have "snd (update_credentials P (data_update g) ad) = ad\<lparr>ad_credentials := map upd (ad_credentials ad)\<rparr>"
    by (simp add: update_credentials_def upd_def)
  moreover have "credential_rows_ok (ad_tables ad) (map upd (ad_credentials ad))"
    using assms(1) rows unfolding credential_rows_ok_def same by (simp add: authn_ok_def credential_rows_ok_def)
  ultimately show ?thesis using assms(1) by (simp add: authn_ok_def)
qed

lemma update_unchanged: "length (filter P rs) = 0 \<Longrightarrow> map (\<lambda>c. if P c then f c else c) rs = rs"
  by (induction rs) (auto split: if_splits)

lemma filter_one: "distinct (map f rs) \<Longrightarrow> length (filter (\<lambda>c. f c = i \<and> Q c) rs) \<le> 1"
proof (induction rs)
  case (Cons x rs)
  have "filter (\<lambda>c. f c = f x \<and> Q c) rs = []" using Cons.prems by (auto simp: filter_empty_conv) (metis imageI)
  then show ?case using Cons by auto
qed simp

lemma find_map: "(\<And>r. p (f r) = p r) \<Longrightarrow> find p (map f rs) = map_option f (find p rs)"
  by (induction rs) auto

lemma sqlite_swap_credential:
  assumes "authn_ok ad" "object_data (Some data)" "compare_and_swap_credential_data ad i current data = (r, ad')"
  shows "authn_ok ad' \<and> (case r of Inl e \<Rightarrow> ad' = ad
    | Inr b \<Rightarrow> b = (\<exists>c. active_credential ad i = Some c \<and> cr_credential_data c = Some current) \<and>
        active_credential ad' = (if b then (active_credential ad)(i := map_option (\<lambda>c. c\<lparr>cr_credential_data := Some data\<rparr>)
          (active_credential ad i)) else active_credential ad))"
proof -
  let ?Q = "\<lambda>c. \<not> tc_revoked c \<and> tc_credential_data c = Some current"
  let ?P = "\<lambda>c. tc_id c = i \<and> ?Q c"
  have upd: "compare_and_swap_credential_data ad i current data =
      (Inr (length (filter ?P (ad_credentials ad)) = 1), snd (update_credentials ?P (data_update (\<lambda>_. Some data)) ad))"
    by (simp add: compare_and_swap_credential_data_def update_credentials_def data_update_def Let_def)
  have r: "r = Inr (length (filter ?P (ad_credentials ad)) = 1)" "ad' = snd (update_credentials ?P (data_update (\<lambda>_. Some data)) ad)"
    using assms(3) unfolding upd by auto
  have ok: "authn_ok ad'" unfolding r(2) by (rule update_ok [OF assms(1)]) (use assms(2) in simp)
  note dist = authn_ok_distinct [OF assms(1)]
  have le: "length (filter ?P (ad_credentials ad)) \<le> 1" by (rule filter_one [OF dist])
  show ?thesis
  proof (cases "length (filter ?P (ad_credentials ad)) = 1")
    case True
    then obtain x where "filter ?P (ad_credentials ad) = [x]" by (auto simp: length_Suc_conv)
    then have "x \<in> set (filter ?P (ad_credentials ad))" by simp
    then have x: "x \<in> set (ad_credentials ad)" "?P x" by auto
    let ?f = "\<lambda>c. if ?P c then data_update (\<lambda>_. Some data) c else c"
    have at: "active_credential ad i = Some (credential_of_row x)"
      unfolding active_credential_Some [OF dist] using x by blast
    have "find (\<lambda>r. tc_id r = j \<and> \<not> tc_revoked r) (map ?f (ad_credentials ad)) =
        map_option ?f (find (\<lambda>r. tc_id r = j \<and> \<not> tc_revoked r) (ad_credentials ad))" for j
      by (rule find_map) (simp add: data_update_def)
    then have found: "active_credential ad' j = map_option (credential_of_row \<circ> ?f)
        (find (\<lambda>r. tc_id r = j \<and> \<not> tc_revoked r) (ad_credentials ad))" for j
      by (simp add: active_credential_def r(2) update_credentials_def option.map_comp)
    have here: "find (\<lambda>r. tc_id r = i \<and> \<not> tc_revoked r) (ad_credentials ad) = Some x"
      using x by (simp add: find_distinct [OF dist])
    have "credential_of_row (?f x) = (credential_of_row x)\<lparr>cr_credential_data := Some data\<rparr>"
      using x(2) by (simp add: data_update_def credential_of_row_def credential_identity_key_def)
    then have "active_credential ad' i = Some ((credential_of_row x)\<lparr>cr_credential_data := Some data\<rparr>)"
      by (simp only: found here option.map comp_apply)
    moreover have "active_credential ad' j = active_credential ad j" if "j \<noteq> i" for j
    proof (cases "find (\<lambda>r. tc_id r = j \<and> \<not> tc_revoked r) (ad_credentials ad)")
      case (Some y)
      then have "tc_id y = j" by (auto simp: find_Some_iff)
      then show ?thesis unfolding found [of j] active_credential_def [of ad j] using that Some by simp
    qed (simp add: found [of j] active_credential_def [of ad j])
    ultimately show ?thesis using True ok r(1) at x(2) by (auto simp: fun_eq_iff)
  next
    case False
    then have none: "filter ?P (ad_credentials ad) = []" using le by (cases "filter ?P (ad_credentials ad)") auto
    then have "ad' = ad" unfolding r(2) by (simp add: update_credentials_def update_unchanged)
    moreover have "\<not> (active_credential ad i = Some c \<and> cr_credential_data c = Some current)" for c
      unfolding active_credential_Some [OF dist] using none by (auto simp: filter_empty_conv)
    ultimately show ?thesis using False ok r(1) by auto
  qed
qed

lemma last_counter_set:
  assumes "\<And>n :: u64. uint n < 2 ^ 63 \<Longrightarrow> cast_integer (JNumber (u64_to_string n)) = Some (uint n)"
    and "object_data d" "uint n < 2 ^ 63"
  shows "last_counter cast_integer (set_last_counter n d) = uint n" "set_last_counter n d \<noteq> None" "object_data (set_last_counter n d)"
  using assms by (auto simp: last_counter_def set_last_counter_def object_data_def map_of_insert_entry split: option.splits json.splits)

lemma sqlite_advance_counter:
  assumes cast: "\<And>n :: u64. uint n < 2 ^ 63 \<Longrightarrow> cast_integer (JNumber (u64_to_string n)) = Some (uint n)"
    and "authn_ok ad" "advance_totp_counter cast_integer ad i n = (r, ad')"
  shows "authn_ok ad' \<and> (case r of Inl e \<Rightarrow> ad' = ad
    | Inr b \<Rightarrow> if b then totp_counter cast_integer ad i < uint n \<and>
        totp_counter cast_integer ad' = (totp_counter cast_integer ad)(i := uint n) else ad' = ad)"
proof (cases "uint n \<ge> 2 ^ 63")
  case True
  then show ?thesis using assms by (auto simp: advance_totp_counter_def)
next
  case False
  let ?Q = "\<lambda>c. tc_kind c = ''totp'' \<and> \<not> tc_revoked c \<and> last_counter cast_integer (tc_credential_data c) < uint n"
  let ?P = "\<lambda>c. tc_id c = i \<and> ?Q c"
  let ?g = "\<lambda>c. set_last_counter n (tc_credential_data c)"
  have "advance_totp_counter cast_integer ad i n =
      (Inr (length (filter ?P (ad_credentials ad)) = 1), snd (update_credentials ?P (data_update ?g) ad))"
    using False by (simp add: advance_totp_counter_def update_credentials_def data_update_def Let_def)
  then have r: "r = Inr (length (filter ?P (ad_credentials ad)) = 1)" "ad' = snd (update_credentials ?P (data_update ?g) ad)"
    using assms(3) by auto
  have small: "uint n < 2 ^ 63" using False by simp
  have totp: "object_data (tc_credential_data c)" if "c \<in> set (ad_credentials ad)" "?P c" for c
    using authn_ok_row [OF assms(2) that(1)] that(2) by blast
  have ok: "authn_ok ad'" unfolding r(2)
    by (rule update_ok [OF assms(2)]) (use last_counter_set(2,3) [OF cast totp small] in blast)
  note dist = authn_ok_distinct [OF assms(2)]
  have le: "length (filter ?P (ad_credentials ad)) \<le> 1" by (rule filter_one [OF dist])
  show ?thesis
  proof (cases "length (filter ?P (ad_credentials ad)) = 1")
    case True
    then obtain x where "filter ?P (ad_credentials ad) = [x]" by (auto simp: length_Suc_conv)
    then have "x \<in> set (filter ?P (ad_credentials ad))" by simp
    then have x: "x \<in> set (ad_credentials ad)" "?P x" by auto
    let ?f = "\<lambda>c. if ?P c then data_update ?g c else c"
    have "find (\<lambda>r. tc_id r = j) (map ?f (ad_credentials ad)) = map_option ?f (find (\<lambda>r. tc_id r = j) (ad_credentials ad))" for j
      by (rule find_map) (simp add: data_update_def)
    then have found: "find (\<lambda>r. tc_id r = j) (ad_credentials ad') = map_option ?f (find (\<lambda>r. tc_id r = j) (ad_credentials ad))" for j
      by (simp add: r(2) update_credentials_def)
    have row: "find (\<lambda>r. tc_id r = j) (ad_credentials ad) = Some y \<longleftrightarrow> y \<in> set (ad_credentials ad) \<and> tc_id y = j" for j y
      using find_distinct [OF dist, of j "\<lambda>_. True"] by simp
    have here: "find (\<lambda>r. tc_id r = i) (ad_credentials ad) = Some x" unfolding row using x by blast
    have "?f x = data_update ?g x" by (rule if_P [OF x(2)])
    moreover have "last_counter cast_integer (tc_credential_data (data_update ?g x)) = uint n"
      using last_counter_set(1) [OF cast totp [OF x] small] by (simp add: data_update_def)
    ultimately have "totp_counter cast_integer ad' i = uint n"
      by (simp only: totp_counter_def found here option.map option.case)
    moreover have "totp_counter cast_integer ad' j = totp_counter cast_integer ad j" if "j \<noteq> i" for j
    proof (cases "find (\<lambda>r. tc_id r = j) (ad_credentials ad)")
      case (Some y)
      then have "tc_id y = j" by (auto simp: find_Some_iff)
      then show ?thesis unfolding totp_counter_def found using that Some by simp
    qed (simp add: totp_counter_def found)
    moreover have "totp_counter cast_integer ad i < uint n" using x(2) by (simp add: totp_counter_def here)
    ultimately show ?thesis using True ok r(1) by (auto simp: fun_eq_iff)
  next
    case False
    then have "filter ?P (ad_credentials ad) = []" using le by (cases "filter ?P (ad_credentials ad)") auto
    then have "ad' = ad" unfolding r(2) by (simp add: update_credentials_def update_unchanged)
    then show ?thesis using False ok r(1) by simp
  qed
qed

text \<open>\<open>CAST\<close> of an integer written in decimal is that integer.\<close>

lemma sqlite_credential_storage:
  assumes "\<And>n :: u64. uint n < 2 ^ 63 \<Longrightarrow> cast_integer (JNumber (u64_to_string n)) = Some (uint n)"
  shows "credential_storage (sqlite_credential_repository cast_integer) authn_ok active_credential (totp_counter cast_integer)"
proof (unfold_locales, unfold sqlite_credential_repository_def credential_repository.simps, goal_cases)
  case 1 then show ?case by (rule active_credential_id)
next
  case 2 then show ?case by (rule sqlite_active_key)
next
  case 3 then show ?case by (rule sqlite_find_credential)
next
  case 4 then show ?case by (rule sqlite_find_total)
next
  case 5 then show ?case by (rule sqlite_list_credentials)
next
  case 6 then show ?case by (rule sqlite_create_credential)
next
  case 7 then show ?case by (rule sqlite_swap_credential)
next
  case 8 from assms 8 show ?case by (rule sqlite_advance_counter)
qed

text \<open>A conversion with this property, for the JSON values that the service stores.\<close>

fun integer_cast :: "json \<Rightarrow> int option" where
  "integer_cast JNull = None"
| "integer_cast (JBool b) = Some (if b then 1 else 0)"
| "integer_cast (JNumber s) = (if all_digits s then Some (digits_value s) else Some 0)"
| "integer_cast _ = Some 0"

lemma integer_cast_decimal: "integer_cast (JNumber (u64_to_string n)) = Some (uint n)"
  by (simp add: u64_to_string_def all_digits_decimal digits_value_decimal)

interpretation sqlite_cred: credential_storage "sqlite_credential_repository integer_cast" authn_ok active_credential
  "totp_counter integer_cast"
  by (rule sqlite_credential_storage) (rule integer_cast_decimal)

section \<open>Identities beside credentials keep the binding interface\<close>

definition identities_ok :: "database \<Rightarrow> bool" where
  "identities_ok db \<longleftrightarrow> (\<forall>i \<in> set (db_identities db). json_as_object (ti_claims i) \<noteq> None)"

lemma authn_ok_iff:
  "authn_ok ad \<longleftrightarrow> readable_db (ad_tables ad) \<and> credential_rows_ok (ad_tables ad) (ad_credentials ad) \<and> identities_ok (ad_tables ad)"
  by (simp add: authn_ok_def identities_ok_def)

lemma cascade_grow:
  assumes "authn_ok ad" "set (db_identities (ad_tables ad)) \<subseteq> set (db_identities db)"
  shows "cascade db ad = ad\<lparr>ad_tables := db\<rparr>"
proof -
  have "has_identity db r" if "r \<in> set (ad_credentials ad)" for r
    using authn_ok_row [OF assms(1) that] assms(2) unfolding has_identity_def list_ex_iff by blast
  then have "filter (has_identity db) (ad_credentials ad) = ad_credentials ad" by (simp add: filter_id_conv)
  then show ?thesis by (simp add: cascade_def)
qed

lemma cascade_same: "authn_ok ad \<Longrightarrow> cascade (ad_tables ad) ad = ad"
  by (simp add: cascade_grow)

lemma cascade_ok:
  assumes "authn_ok ad" "readable_db db" "identities_ok db"
  shows "authn_ok (cascade db ad)"
proof -
  have "distinct (indexed_keys (filter Q rs))" if "distinct (indexed_keys rs)" for Q rs
  proof -
    let ?R = "\<lambda>r. tc_credential_key r \<noteq> None \<and> \<not> tc_revoked r"
    have "filter ?R (filter Q rs) = filter Q (filter ?R rs)" by (simp add: conj_commute)
    then show ?thesis using that unfolding indexed_keys_def by (simp only: distinct_map_filter)
  qed
  then have "credential_rows_ok db (filter (has_identity db) (ad_credentials ad))"
    using assms(1) by (simp add: authn_ok_iff credential_rows_ok_def distinct_map_filter)
  then show ?thesis using assms(2,3) by (simp add: authn_ok_iff cascade_def)
qed

lemma identities_ok_writes:
  assumes "identities_ok db"
  shows "identities_ok (snd (create_principal_and_bind db p i))" "identities_ok (snd (bind_identity db n i))"
    "identities_ok (snd (rollback_identity_binding db n k))"
proof -
  show "identities_ok (snd (create_principal_and_bind db p i))"
    using assms by (cases rule: create_principal_and_bind_cases [of db p i])
      (auto simp: identities_ok_def identity_row_of_def result_simps)
  show "identities_ok (snd (bind_identity db n i))"
    using assms by (cases rule: bind_identity_cases [of db n i]) (auto simp: identities_ok_def identity_row_of_def result_simps)
  show "identities_ok (snd (rollback_identity_binding db n k))"
    using assms by (auto simp: rollback_identity_binding_def identity_transaction_def Let_def identities_ok_def
      sql_delete_principal_def result_simps split: sum.splits if_splits)
qed

lemma lift_tables_eq: "lift_tables f ad = (r, ad') \<longleftrightarrow> (\<exists>db. f (ad_tables ad) = (r, db) \<and> ad' = cascade db ad)"
  by (auto simp: lift_tables_def split: prod.splits)

lemma cascade_tables [simp]: "ad_tables (cascade db ad) = db"
  by (simp add: cascade_def)

lemma authn_write:
  assumes "authn_ok ad" "identities_ok db" "readable_db db \<and> (case r of Inl e \<Rightarrow> db = ad_tables ad | Inr x \<Rightarrow> Q x)"
  shows "authn_ok (cascade db ad) \<and> (case r of Inl e \<Rightarrow> cascade db ad = ad | Inr x \<Rightarrow> Q x)"
  using assms cascade_ok [OF assms(1), of db] cascade_same [OF assms(1)] by (auto split: sum.splits)

lemma authn_ok_tables: "authn_ok ad \<Longrightarrow> readable_db (ad_tables ad)" "authn_ok ad \<Longrightarrow> identities_ok (ad_tables ad)"
  by (simp_all add: authn_ok_iff)

interpretation authn_link: identity_bindings authn_identity_repository authn_ok "\<lambda>ad. sqlite_bound (ad_tables ad)"
proof (unfold_locales, unfold authn_identity_repository_def identity_binding_repository.simps lift_tables_eq, goal_cases)
  case 1
  then show ?case by (simp add: authn_ok_iff sqlite_find_bound)
next
  case (2 ad i k p r ad')
  then obtain db where db: "create_principal_and_bind (ad_tables ad) p i = (r, db)" "ad' = cascade db ad" by blast
  then have "identities_ok db" using identities_ok_writes(1) [OF authn_ok_tables(2) [OF 2(1)], of p i] by simp
  from authn_write [OF 2(1) this sqlite_create_bound [OF authn_ok_tables(1) [OF 2(1)] 2(2) db(1)]]
  show ?case unfolding db(2) cascade_tables .
next
  case (3 ad i k n r ad')
  then obtain db where db: "bind_identity (ad_tables ad) n i = (r, db)" "ad' = cascade db ad" by blast
  then have "identities_ok db" using identities_ok_writes(2) [OF authn_ok_tables(2) [OF 3(1)], of n i] by simp
  from authn_write [OF 3(1) this sqlite_bind_bound [OF authn_ok_tables(1) [OF 3(1)] 3(2) db(1)]]
  show ?case unfolding db(2) cascade_tables .
next
  case (4 ad n provider)
  then show ?case by (simp add: authn_ok_iff sqlite_has_provider)
next
  case (5 ad n k r ad')
  then obtain db where db: "rollback_identity_binding (ad_tables ad) n k = (r, db)" "ad' = cascade db ad" by blast
  then have "identities_ok db" using identities_ok_writes(3) [OF authn_ok_tables(2) [OF 5(1)], of n k] by simp
  from authn_write [OF 5(1) this sqlite_rollback_bound [OF authn_ok_tables(1) [OF 5(1)] db(1)]]
  show ?case unfolding db(2) cascade_tables .
qed

section \<open>Properties\<close>

definition enrolled_identity :: external_identity where
  "enrolled_identity = \<lparr>ei_provider = ''standalone'', ei_issuer = ''https://a'', ei_subject = ''s'', ei_claims = []\<rparr>"

definition enrolled_db :: authn_database where
  "enrolled_db = snd (create_credential 0
     (snd (ib_create_principal_and_bind authn_identity_repository \<lparr>ad_tables = empty_db, ad_credentials = []\<rparr>
        (new_principal (\<lambda>x. x) ''r'' enrolled_identity User) enrolled_identity))
     \<lparr>cr_id = ''totp_1'', cr_identity = \<lparr>ek_provider = ''standalone'', ek_issuer = ''https://a'', ek_subject = ''s''\<rparr>, cr_kind = TotpKind,
      cr_credential_key = None, cr_secret_data = Some ''x'', cr_credential_data = None\<rparr>)"

lemma enrolled_db_ok: "authn_ok enrolled_db"
proof -
  have empty: "authn_ok \<lparr>ad_tables = empty_db, ad_credentials = []\<rparr>"
    using empty_readable by (simp add: authn_ok_def credential_rows_ok_def indexed_keys_def empty_db_def)
  have "external_identity_key_of enrolled_identity = Inr \<lparr>ek_provider = ''standalone'', ek_issuer = ''https://a'', ek_subject = ''s''\<rparr>" by code_simp
  from authn_link.create_bound [OF empty this]
  have "authn_ok (snd (ib_create_principal_and_bind authn_identity_repository \<lparr>ad_tables = empty_db, ad_credentials = []\<rparr> p enrolled_identity))" for p
    by (metis prod.collapse)
  from sqlite_create_credential [OF this] show ?thesis
    unfolding enrolled_db_def
    by (metis iam_standalone_credential.select_convs(6) object_data_def option.simps(4) prod.collapse)
qed

text \<open>
  Claim C27. A one-time password is used once: along any sequence of attempts, for any credentials, the counters
  that the store accepts for one credential are strictly increasing and greater than the counter stored at
  the start, so no accepted code is accepted again.
\<close>

theorem accepted_counters_increase:
  assumes "\<And>n :: u64. uint n < 2 ^ 63 \<Longrightarrow> cast_integer (JNumber (u64_to_string n)) = Some (uint n)" "authn_ok ad"
  shows "sorted_wrt (<) (accepted (sqlite_credential_repository cast_integer) ad i attempts) \<and>
    (\<forall>n \<in> set (accepted (sqlite_credential_repository cast_integer) ad i attempts). totp_counter cast_integer ad i < uint n)"
  using sqlite_credential_storage [OF assms(1)] assms(2) by (rule credential_storage.accepted_increase)

theorem accepted_counters_increase_witness:
  "accepted (sqlite_credential_repository integer_cast) enrolled_db ''totp_1''
     [(''totp_1'', 7), (''totp_1'', 7), (''totp_1'', 5), (''totp_1'', 8)] = [7, 8] \<and> totp_counter integer_cast enrolled_db ''totp_1'' < 7"
proof
  show a: "accepted (sqlite_credential_repository integer_cast) enrolled_db ''totp_1''
     [(''totp_1'', 7), (''totp_1'', 7), (''totp_1'', 5), (''totp_1'', 8)] = [7, 8]" by code_simp
  from accepted_counters_increase [OF integer_cast_decimal enrolled_db_ok, of "''totp_1''"
      "[(''totp_1'', 7), (''totp_1'', 7), (''totp_1'', 5), (''totp_1'', 8)]"]
  show "totp_counter integer_cast enrolled_db ''totp_1'' < 7" unfolding a by simp
qed

end
