(* ===== verification/Hosted_Login.thy ===== *)
theory Hosted_Login
  imports Authentication Credentials
begin

text \<open>
  What the login handlers share: the errors of the HTTP interface (\<open>authn/src/handler/error.rs\<close>), the
  login response with its cookie (\<open>authn/src/handler/mod.rs\<close>), and the resolution of the hosted
  application with the validation of the destination after a login
  (\<open>authn/src/route/application.rs\<close>). The URL parser is a parameter; a parsed URL is the record of
  its components. The lemmas show which destinations are accepted, and that dot segments let one
  through that browsers read as another host.
\<close>

section \<open>Errors\<close>

datatype api_status = StatusBadRequest | StatusUnauthorized | StatusForbidden | StatusNotFound | StatusConflict
  | StatusNotImplemented | StatusServiceUnavailable | StatusInternalServerError

record api_error =
  ae_status :: api_status
  ae_code :: string
  ae_message :: string

definition bad_request :: "string \<Rightarrow> api_error" where
  "bad_request message = \<lparr>ae_status = StatusBadRequest, ae_code = ''invalid_request'', ae_message = message\<rparr>"

definition unauthorized :: "string \<Rightarrow> api_error" where
  "unauthorized message = \<lparr>ae_status = StatusUnauthorized, ae_code = ''authentication_failed'', ae_message = message\<rparr>"

definition not_found :: "string \<Rightarrow> api_error" where
  "not_found message = \<lparr>ae_status = StatusNotFound, ae_code = ''not_found'', ae_message = message\<rparr>"

definition conflict :: "string \<Rightarrow> api_error" where
  "conflict message = \<lparr>ae_status = StatusConflict, ae_code = ''conflict'', ae_message = message\<rparr>"

definition unavailable :: "string \<Rightarrow> api_error" where
  "unavailable message = \<lparr>ae_status = StatusServiceUnavailable, ae_code = ''service_unavailable'', ae_message = message\<rparr>"

definition not_implemented :: "string \<Rightarrow> string \<Rightarrow> api_error" where
  "not_implemented errcode message = \<lparr>ae_status = StatusNotImplemented, ae_code = errcode, ae_message = message\<rparr>"

definition internal :: "string \<Rightarrow> api_error" where
  "internal message = \<lparr>ae_status = StatusInternalServerError, ae_code = ''internal_error'', ae_message = message\<rparr>"

fun api_challenge :: "challenge_error \<Rightarrow> api_error" where
  "api_challenge InvalidState = bad_request ''invalid or expired challenge''"
| "api_challenge ChallengeBackend = unavailable ''authentication challenge service is unavailable''"

fun api_pipeline :: "authentication_pipeline_error \<Rightarrow> api_error" where
  "api_pipeline (Linking linking) =
     (case linking of
        LinkedToAnother \<Rightarrow> conflict ''external identity is already linked''
      | AuthoritativeLoginRequired _ \<Rightarrow> \<lparr>ae_status = StatusForbidden, ae_code = ''account_linking_rejected'',
          ae_message = ''account linking was rejected''\<rparr>
      | LinkNotAllowed _ \<Rightarrow> \<lparr>ae_status = StatusForbidden, ae_code = ''account_linking_rejected'',
          ae_message = ''account linking was rejected''\<rparr>
      | account_linking_error.PrincipalDisabled _ \<Rightarrow> \<lparr>ae_status = StatusForbidden, ae_code = ''account_linking_rejected'',
          ae_message = ''account linking was rejected''\<rparr>
      | _ \<Rightarrow> unavailable ''account linking is unavailable'')"
| "api_pipeline (TokenFailure _) = internal ''canonical token could not be issued''"
| "api_pipeline StepUpPrincipalMismatch = \<lparr>ae_status = StatusForbidden, ae_code = ''step_up_rejected'',
     ae_message = ''step-up authentication does not match the current Principal''\<rparr>"

fun api_token :: "token_error \<Rightarrow> api_error" where
  "api_token InvalidToken = unauthorized ''valid AuthGuard token required''"
| "api_token SigningUnavailable = internal ''canonical token verification is unavailable''"

fun api_credential :: "credential_repository_error \<Rightarrow> api_error" where
  "api_credential KeyConflict = conflict ''credential identifier is already registered''"
| "api_credential (CredentialBackend _) = unavailable ''credential storage is unavailable''"

definition metric_outcome :: "api_error \<Rightarrow> string" where
  "metric_outcome e =
     (case ae_status e of
        StatusBadRequest \<Rightarrow> ''invalid_request''
      | StatusNotFound \<Rightarrow> ''invalid_request''
      | StatusUnauthorized \<Rightarrow> ''rejected''
      | StatusForbidden \<Rightarrow> ''rejected''
      | StatusConflict \<Rightarrow> ''conflict''
      | StatusNotImplemented \<Rightarrow> ''unsupported''
      | StatusServiceUnavailable \<Rightarrow> ''unavailable''
      | _ \<Rightarrow> ''error'')"

section \<open>Login responses\<close>

record login_response =
  lr_access_token :: string
  lr_token_type :: string
  lr_expires_in :: u64
  lr_return_uri :: string
  lr_principal :: authenticated_principal_context

text \<open>A redirect or a JSON body, each with the session cookie and \<open>Cache-Control: no-store\<close>.\<close>

datatype login_reply = RedirectReply string string | JsonReply login_response string | ErrorReply api_error

definition login_response_new :: "issued_authentication \<Rightarrow> string \<Rightarrow> login_response" where
  "login_response_new issued return_uri = \<lparr>lr_access_token = ia_access_token issued, lr_token_type = ''Bearer'',
     lr_expires_in = ia_expires_in issued, lr_return_uri = return_uri, lr_principal = ia_principal issued\<rparr>"

definition session_cookie :: "(string \<Rightarrow> string option) \<Rightarrow> login_response \<Rightarrow> (api_error, string) result" where
  "session_cookie header_of r =
     ok_or (internal ''canonical token could not be issued'')
       (header_of (''authguard_token='' @ lr_access_token r @ ''; Path=/; Max-Age='' @ u64_to_string (lr_expires_in r)
          @ ''; HttpOnly; Secure; SameSite=Lax''))"

definition login_into_response :: "(string \<Rightarrow> string option) \<Rightarrow> login_response \<Rightarrow> login_reply" where
  "login_into_response header_of r =
     (case session_cookie header_of r of Inl e \<Rightarrow> ErrorReply e | Inr cookie \<Rightarrow> JsonReply r cookie)"

definition into_redirect :: "(string \<Rightarrow> string option) \<Rightarrow> login_response \<Rightarrow> (api_error, login_reply) result" where
  "into_redirect header_of r =
     (if lr_return_uri r = [] then Inr (login_into_response header_of r)
      else and_then (session_cookie header_of r) (\<lambda>cookie. Inr (RedirectReply (lr_return_uri r) cookie)))"

section \<open>Applications\<close>

record url =
  url_scheme :: string
  url_username :: string
  url_password :: "string option"
  url_host_str :: "string option"
  url_port_or_known_default :: "u32 option"
  url_path :: string
  url_query :: "string option"
  url_fragment :: "string option"

record application_theme_properties =
  th_id :: string
  th_stylesheet :: string

record application_properties =
  app_hosts :: "string list"
  app_display_name :: string
  app_logo :: string
  app_theme :: "application_theme_properties option"
  app_return_uris :: "string list"

record resolved_application =
  ra_id :: string
  ra_display_name :: string
  ra_logo :: string
  ra_theme :: "application_theme_properties option"
  ra_properties :: application_properties

text \<open>The configured applications in the order of their identifiers, the headers of the request and the parser.\<close>

record application_resolver =
  apr_applications :: "(string \<times> application_properties) list"
  apr_headers :: headers
  apr_parse :: "string \<Rightarrow> url option"

definition request_host :: "application_resolver \<Rightarrow> (api_error, string option) result" where
  "request_host a =
     (case map_of (map (\<lambda>(n, v). (to_ascii_lowercase n, v)) (apr_headers a)) ''host'' of
        None \<Rightarrow> Inr None
      | Some v \<Rightarrow>
          if \<not> list_all visible_ascii v then Inl (bad_request ''Host header is invalid'')
          else if v = [] \<or> CHR ''/'' \<in> set v \<or> CHR ''@'' \<in> set v \<or> CHR 0x5C \<in> set v then Inl (bad_request ''Host header is invalid'')
          else and_then (ok_or (bad_request ''Host header is invalid'') (apr_parse a (''https://'' @ v))) (\<lambda>parsed.
            if url_username parsed \<noteq> [] \<or> url_password parsed \<noteq> None \<or> url_path parsed \<noteq> ''/''
            then Inl (bad_request ''Host header is invalid'')
            else and_then (ok_or (bad_request ''Host header is invalid'') (map_option to_ascii_lowercase (url_host_str parsed)))
              (\<lambda>host. Inr (Some host))))"

fun find_application :: "string \<Rightarrow> (string \<times> application_properties) list \<Rightarrow> resolved_application option" where
  "find_application host [] = None"
| "find_application host ((i, p) # rest) =
     (if host \<in> set (app_hosts p)
      then Some \<lparr>ra_id = i, ra_display_name = app_display_name p, ra_logo = app_logo p, ra_theme = app_theme p, ra_properties = p\<rparr>
      else find_application host rest)"

definition resolve_application :: "application_resolver \<Rightarrow> (api_error, resolved_application option) result" where
  "resolve_application a =
     and_then (request_host a) (\<lambda>host. Inr (Option.bind host (\<lambda>h. find_application h (apr_applications a))))"

definition trim_end_slashes :: "string \<Rightarrow> string" where
  "trim_end_slashes s = rev (dropWhile (\<lambda>c. c = CHR ''/'') (rev s))"

text \<open>One entry of the allow-list, and the closure of \<open>any\<close> over all of them.\<close>

definition matches_configured :: "(string \<Rightarrow> url option) \<Rightarrow> url \<Rightarrow> string \<Rightarrow> bool" where
  "matches_configured parse candidate configured =
     (let wildcard = strip_suffix ''/**'' configured \<noteq> None;
          base = (case strip_suffix ''/**'' configured of Some b \<Rightarrow> b | None \<Rightarrow> configured)
      in case parse base of
           None \<Rightarrow> False
         | Some c \<Rightarrow>
             url_scheme candidate = url_scheme c \<and> url_host_str candidate = url_host_str c \<and>
             url_port_or_known_default candidate = url_port_or_known_default c \<and>
             (let path = trim_end_slashes (url_path c)
              in if wildcard then path = [] \<or> url_path candidate = path \<or> strip_prefix (path @ ''/'') (url_path candidate) \<noteq> None
                 else url_path candidate = url_path c))"

definition matches_return_uri :: "(string \<Rightarrow> url option) \<Rightarrow> application_properties \<Rightarrow> url \<Rightarrow> bool" where
  "matches_return_uri parse p candidate = list_ex (matches_configured parse candidate) (app_return_uris p)"

definition is_ascii_control :: "char \<Rightarrow> bool" where
  "is_ascii_control c \<longleftrightarrow> code c < 32 \<or> code c = 127"

text \<open>The URL to validate: a same-origin path, or an absolute URL on the current host.\<close>

definition destination_candidate ::
  "application_resolver \<Rightarrow> string \<Rightarrow> resolved_application option \<Rightarrow> string \<Rightarrow> (api_error, url) result" where
  "destination_candidate a host application destination =
     (if strip_prefix ''/'' destination \<noteq> None then
        if strip_prefix ''//'' destination \<noteq> None \<or> CHR 0x5C \<in> set destination \<or> list_ex is_ascii_control destination
        then Inl (bad_request ''return_to must be a same-origin path'')
        else ok_or (bad_request ''return_to is invalid'') (apr_parse a (''https://'' @ host @ destination))
      else
        and_then (ok_or (bad_request ''absolute return_to requires a configured application'') application) (\<lambda>app.
        and_then (ok_or (bad_request ''return_to is invalid'') (apr_parse a destination)) (\<lambda>parsed.
          if url_scheme parsed \<noteq> ''https'' \<or> url_host_str parsed \<noteq> Some host \<or> url_username parsed \<noteq> [] \<or>
             url_password parsed \<noteq> None \<or> url_fragment parsed \<noteq> None
          then Inl (bad_request ''return_to must target the current HTTPS host'')
          else if \<not> matches_return_uri (apr_parse a) (ra_properties app) parsed
          then Inl (bad_request ''return_to is not configured for this application'')
          else Inr parsed)))"

definition validate_destination :: "application_resolver \<Rightarrow> string \<Rightarrow> bool \<Rightarrow> (api_error, string) result" where
  "validate_destination a destination require_application =
     (if destination = [] then Inr []
      else
        and_then (and_then (request_host a) (ok_or (bad_request ''Host header is required''))) (\<lambda>host.
        and_then (resolve_application a) (\<lambda>application.
        if require_application \<and> application = None
        then Inl (bad_request ''return_to requires a configured application host'')
        else
          and_then (destination_candidate a host application destination) (\<lambda>candidate.
          if (case application of Some app \<Rightarrow> \<not> matches_return_uri (apr_parse a) (ra_properties app) candidate | None \<Rightarrow> False)
          then Inl (bad_request ''return_to is not configured for this application'')
          else Inr (url_path candidate @ (case url_query candidate of Some q \<Rightarrow> ''?'' @ q | None \<Rightarrow> []))))))"

definition validate_return_to :: "application_resolver \<Rightarrow> string \<Rightarrow> (api_error, string) result" where
  "validate_return_to a return_to = validate_destination a return_to True"

definition validate_response_return_uri :: "application_resolver \<Rightarrow> string \<Rightarrow> (api_error, string) result" where
  "validate_response_return_uri a return_uri = validate_destination a return_uri False"

section \<open>Lemmas\<close>

lemma find_application_SomeD:
  "find_application host apps = Some app \<Longrightarrow>
   host \<in> set (app_hosts (ra_properties app)) \<and> (ra_id app, ra_properties app) \<in> set apps"
  by (induction host apps rule: find_application.induct) (auto split: if_splits)

lemma resolve_application_Some:
  "resolve_application a = Inr (Some app) \<longleftrightarrow>
   (\<exists>host. request_host a = Inr (Some host) \<and> find_application host (apr_applications a) = Some app)"
  by (auto simp: resolve_application_def result_simps bind_eq_Some_conv)

text \<open>What an entry of the allow-list permits: its origin, and its path or, with a wildcard, the paths below it.\<close>

definition permits :: "(string \<Rightarrow> url option) \<Rightarrow> string \<Rightarrow> url \<Rightarrow> bool" where
  "permits parse configured u \<longleftrightarrow>
     (\<exists>wildcard base c. configured = (if wildcard then base @ ''/**'' else base) \<and> parse base = Some c \<and>
       url_scheme u = url_scheme c \<and> url_host_str u = url_host_str c \<and>
       url_port_or_known_default u = url_port_or_known_default c \<and>
       (if wildcard then trim_end_slashes (url_path c) = [] \<or> url_path u = trim_end_slashes (url_path c) \<or>
          (\<exists>rest. url_path u = trim_end_slashes (url_path c) @ ''/'' @ rest)
        else url_path u = url_path c))"

lemma matches_configured_permits: "matches_configured parse u configured \<Longrightarrow> permits parse configured u"
proof (cases "strip_suffix ''/**'' configured")
  case None
  assume "matches_configured parse u configured"
  with None show ?thesis unfolding permits_def
    by (intro exI [of _ False] exI [of _ configured]) (auto simp: matches_configured_def split: option.splits)
next
  case (Some base)
  then have "configured = base @ ''/**''" by (simp add: strip_suffix_Some)
  moreover assume "matches_configured parse u configured"
  ultimately show ?thesis using Some unfolding permits_def
    by (intro exI [of _ True] exI [of _ base]) (auto simp: matches_configured_def Let_def strip_prefix_Some split: option.splits)
qed

lemma matches_permits: "matches_return_uri parse p u \<Longrightarrow> \<exists>configured \<in> set (app_return_uris p). permits parse configured u"
  using matches_configured_permits by (auto simp: matches_return_uri_def list_ex_iff)

text \<open>The two shapes of a destination.\<close>

definition targets :: "application_resolver \<Rightarrow> string \<Rightarrow> string \<Rightarrow> url \<Rightarrow> bool" where
  "targets a host destination u \<longleftrightarrow>
     apr_parse a destination = Some u \<and> url_scheme u = ''https'' \<and> url_host_str u = Some host \<or>
     apr_parse a (''https://'' @ host @ destination) = Some u \<and> (\<exists>rest. destination = ''/'' @ rest) \<and>
       \<not> (\<exists>rest. destination = ''//'' @ rest) \<and> CHR 0x5C \<notin> set destination"

lemma destination_candidate_Inr: "destination_candidate a host app destination = Inr u \<Longrightarrow> targets a host destination u"
proof (cases "strip_prefix ''/'' destination")
  case None
  assume "destination_candidate a host app destination = Inr u"
  with None show ?thesis
    by (auto simp: destination_candidate_def targets_def and_then_eq_Inr ok_or_eq_Inr guard_Inr)
next
  case (Some rest)
  then have "\<exists>rest. destination = ''/'' @ rest" by (auto simp: strip_prefix_Some)
  moreover assume "destination_candidate a host app destination = Inr u"
  moreover have "(\<exists>r. destination = ''//'' @ r) \<longleftrightarrow> strip_prefix ''//'' destination \<noteq> None"
    by (metis not_Some_eq strip_prefix_Some)
  ultimately show ?thesis
    using Some by (simp add: destination_candidate_def targets_def ok_or_eq_Inr guard_Inr)
qed

lemma validate_destination_Inr:
  assumes "validate_destination a destination required = Inr path" "destination \<noteq> []"
  obtains host app u where "request_host a = Inr (Some host)" "resolve_application a = Inr app" "required \<longrightarrow> app \<noteq> None"
    "path = url_path u @ (case url_query u of Some q \<Rightarrow> ''?'' @ q | None \<Rightarrow> [])"
    "\<forall>r. app = Some r \<longrightarrow> matches_return_uri (apr_parse a) (ra_properties r) u" "targets a host destination u"
proof -
  from assms obtain host app u where "request_host a = Inr (Some host)" "resolve_application a = Inr app"
    "\<not> (required \<and> app = None)" "destination_candidate a host app destination = Inr u"
    "\<not> (case app of Some app \<Rightarrow> \<not> matches_return_uri (apr_parse a) (ra_properties app) u | None \<Rightarrow> False)"
    "path = url_path u @ (case url_query u of Some q \<Rightarrow> ''?'' @ q | None \<Rightarrow> [])"
    unfolding validate_destination_def
    by (simp only: if_False and_then_eq_Inr ok_or_eq_Inr guard_Inr) (elim exE conjE, simp)
  then show thesis using that [of host app u] destination_candidate_Inr by (cases app) auto
qed

section \<open>An example application\<close>

definition app_url :: "string \<Rightarrow> url" where
  "app_url path = \<lparr>url_scheme = ''https'', url_username = [], url_password = None, url_host_str = Some ''app.example.com'',
     url_port_or_known_default = Some 443, url_path = path, url_query = None, url_fragment = None\<rparr>"

text \<open>A parser for the URLs of the example, with the dot segment removed as the URL standard asks.\<close>

definition app_parse :: "string \<Rightarrow> url option" where
  "app_parse = map_of [(''https://app.example.com'', app_url ''/''),
     (''https://app.example.com/workflows'', app_url ''/workflows''),
     (''https://app.example.com/.//evil.example'', app_url ''//evil.example'')]"

definition example_resolver :: application_resolver where
  "example_resolver = \<lparr>apr_applications = [(''example-app'', \<lparr>app_hosts = [''app.example.com''], app_display_name = ''Example App'',
       app_logo = [], app_theme = None, app_return_uris = [''https://app.example.com/**'']\<rparr>)],
     apr_headers = [(''host'', ''app.example.com'')], apr_parse = app_parse\<rparr>"

section \<open>Properties\<close>

text \<open>
  Claim C30. A return destination is accepted only under the request's own application: the \<open>Host\<close> header
  names a host of a configured application, the URL that was validated has the origin of one of its
  return URIs and its path, or a path below it, and only the path and the query of that URL are kept.
\<close>

theorem return_destination_is_configured:
  assumes "validate_return_to a destination = Inr path" "destination \<noteq> []"
  shows "\<exists>host (app :: resolved_application) u. request_host a = Inr (Some host) \<and> host \<in> set (app_hosts (ra_properties app)) \<and>
    (ra_id app, ra_properties app) \<in> set (apr_applications a) \<and>
    (\<exists>configured \<in> set (app_return_uris (ra_properties app)). permits (apr_parse a) configured u) \<and>
    path = url_path u @ (case url_query u of Some q \<Rightarrow> ''?'' @ q | None \<Rightarrow> []) \<and>
    targets a host destination u"
proof -
  from assms obtain host app u where v: "request_host a = Inr (Some host)" "resolve_application a = Inr app" "app \<noteq> None"
    "path = url_path u @ (case url_query u of Some q \<Rightarrow> ''?'' @ q | None \<Rightarrow> [])"
    "\<forall>r. app = Some r \<longrightarrow> matches_return_uri (apr_parse a) (ra_properties r) u" "targets a host destination u"
    unfolding validate_return_to_def by (rule validate_destination_Inr) blast
  then obtain r where r: "app = Some r" by blast
  from v(1,2) r have "find_application host (apr_applications a) = Some r" by (auto simp: resolve_application_Some)
  moreover have "\<exists>configured \<in> set (app_return_uris (ra_properties r)). permits (apr_parse a) configured u"
    by (rule matches_permits) (use v(5) r in blast)
  ultimately show ?thesis
    using v(1,4,6) by (intro exI [of _ host] exI [of _ r] exI [of _ u]) (simp add: find_application_SomeD)
qed

theorem return_destination_is_configured_witness:
  "validate_return_to example_resolver ''/workflows'' = Inr ''/workflows'' \<and>
   (\<exists>u. apr_parse example_resolver ''https://app.example.com/workflows'' = Some u \<and> url_path u = ''/workflows'' \<and>
     permits (apr_parse example_resolver) ''https://app.example.com/**'' u)"
proof -
  have v: "validate_return_to example_resolver ''/workflows'' = Inr ''/workflows''"
    "request_host example_resolver = Inr (Some ''app.example.com'')"
    "apr_parse example_resolver ''/workflows'' = None"
    "apr_parse example_resolver ''https://app.example.com/workflows'' = Some (app_url ''/workflows'')"
    "url_path (app_url ''/workflows'') = ''/workflows''" "''/workflows'' \<noteq> []" by code_simp+
  have uris: "(i, p) \<in> set (apr_applications example_resolver) \<Longrightarrow> app_return_uris p = [''https://app.example.com/**'']" for i p
    by (simp add: example_resolver_def)
  from return_destination_is_configured [OF v(1,6)] obtain host u and app :: resolved_application
    where u: "(ra_id app, ra_properties app) \<in> set (apr_applications example_resolver)"
    "\<exists>configured \<in> set (app_return_uris (ra_properties app)). permits (apr_parse example_resolver) configured u"
    "targets example_resolver host ''/workflows'' u" "request_host example_resolver = Inr (Some host)"
    by (elim exE conjE)
  then have "u = app_url ''/workflows''" "permits (apr_parse example_resolver) ''https://app.example.com/**'' u"
    using v(2-4) u uris [OF u(1)] by (auto simp: targets_def)
  then show ?thesis using v by simp
qed

text \<open>
  Claim C35. The returned path can name another host: where the application allows every path of its origin,
  a destination whose leading dot segment the URL parser removes, \<open>/.//evil.example\<close>, passes every check and
  comes back as \<open>//evil.example\<close>, and the login redirects there, which a browser reads as a host.
\<close>

theorem dot_segment_redirects_off_host:
  assumes "request_host a = Inr (Some host)" "resolve_application a = Inr (Some app)"
    and "apr_parse a (''https://'' @ host @ ''/.//evil.example'') = Some u"
    and "url_path u = ''//evil.example''" "url_query u = None" "matches_return_uri (apr_parse a) (ra_properties app) u"
    and "session_cookie header_of (login_response_new issued ''//evil.example'') = Inr cookie"
  shows "validate_return_to a ''/.//evil.example'' = Inr ''//evil.example'' \<and>
    into_redirect header_of (login_response_new issued ''//evil.example'') = Inr (RedirectReply ''//evil.example'' cookie)"
proof
  have "\<not> list_ex is_ascii_control ''/.//evil.example''" by code_simp
  then show "validate_return_to a ''/.//evil.example'' = Inr ''//evil.example''"
    using assms by (simp add: validate_return_to_def validate_destination_def destination_candidate_def)
  show "into_redirect header_of (login_response_new issued ''//evil.example'') = Inr (RedirectReply ''//evil.example'' cookie)"
    using assms(7) by (simp add: into_redirect_def login_response_new_def)
qed

theorem dot_segment_redirects_off_host_witness:
  "validate_return_to example_resolver ''/.//evil.example'' = Inr ''//evil.example''"
proof -
  obtain app where app: "resolve_application example_resolver = Inr (Some app)"
    "matches_return_uri (apr_parse example_resolver) (ra_properties app) (app_url ''//evil.example'')"
  proof
    show "resolve_application example_resolver = Inr (Some \<lparr>ra_id = ''example-app'', ra_display_name = ''Example App'', ra_logo = [],
        ra_theme = None, ra_properties = snd (hd (apr_applications example_resolver))\<rparr>)" by code_simp
    show "matches_return_uri (apr_parse example_resolver) (ra_properties \<lparr>ra_id = ''example-app'', ra_display_name = ''Example App'',
        ra_logo = [], ra_theme = None, ra_properties = snd (hd (apr_applications example_resolver))\<rparr>) (app_url ''//evil.example'')"
      by code_simp
  qed
  have "request_host example_resolver = Inr (Some ''app.example.com'')"
    "apr_parse example_resolver (''https://'' @ ''app.example.com'' @ ''/.//evil.example'') = Some (app_url ''//evil.example'')"
    "url_path (app_url ''//evil.example'') = ''//evil.example''" "url_query (app_url ''//evil.example'') = None" by code_simp+
  moreover obtain cookie issued where "session_cookie Some (login_response_new issued ''//evil.example'') = Inr cookie"
    by (simp add: session_cookie_def)
  ultimately show ?thesis using dot_segment_redirects_off_host [OF _ app(1) _ _ _ app(2)] by blast
qed

end
