(* ===== verification/Standalone.thy ===== *)
theory Standalone
  imports Hosted_Login
begin

text \<open>
  Passwords and one-time passwords: the verifier of passwords and the service of time-based codes
  (\<open>authn/src/provider/standalone/password.rs\<close>, \<open>totp.rs\<close>) and the handlers of registration, login and
  enrollment (\<open>authn/src/handler/standalone.rs\<close>) over the interfaces of \<open>Credentials\<close>,
  \<open>Authentication\<close> and \<open>Hosted_Login\<close>. Argon2, AES-GCM, the TOTP crate and Unicode lower case are
  parameters. The lemmas show which proofs a login needs, that a registration that fails leaves no
  trace, and that a registered account logs in as the principal it was registered for.
\<close>

section \<open>Configuration\<close>

record password_authn_properties =
  pp_min_length :: nat

record totp_authn_properties =
  tp_enabled :: bool
  tp_issuer :: string
  tp_digits :: u8
  tp_step_seconds :: u64
  tp_skew :: "16 word"

record webauthn_properties =
  wp_enabled :: bool
  wp_rp_id :: string
  wp_rp_origin :: string
  wp_rp_name :: string

record standalone_authn_properties =
  sa_enabled :: bool
  sa_issuer :: string
  sa_credential_encryption_key :: string
  sa_password :: password_authn_properties
  sa_totp :: totp_authn_properties
  sa_webauthn :: webauthn_properties

section \<open>Passwords\<close>

text \<open>Argon2id with its default parameters: hashing with a salt, parsing of a PHC string, verification.\<close>

record argon2_lib =
  a2_hash_password :: "string \<Rightarrow> string \<Rightarrow> string option"
  a2_parse :: "string \<Rightarrow> string option"
  a2_verify_password :: "string \<Rightarrow> string \<Rightarrow> bool"

record password_verifier =
  pv_minimum_length :: nat
  pv_dummy_hash :: string

definition hash_sync :: "argon2_lib \<Rightarrow> string \<Rightarrow> string \<Rightarrow> string option" where
  "hash_sync lib salt password = a2_hash_password lib salt password"

definition verify_sync :: "argon2_lib \<Rightarrow> string \<Rightarrow> string \<Rightarrow> bool" where
  "verify_sync lib password encoded_hash =
     (case a2_parse lib encoded_hash of None \<Rightarrow> False | Some hash \<Rightarrow> a2_verify_password lib password hash)"

definition password_verifier_new :: "argon2_lib \<Rightarrow> string \<Rightarrow> nat \<Rightarrow> password_verifier option" where
  "password_verifier_new lib salt minimum_length =
     map_option (\<lambda>hash. \<lparr>pv_minimum_length = minimum_length, pv_dummy_hash = hash\<rparr>)
       (hash_sync lib salt ''authguard-constant-time-placeholder'')"

definition validate_new :: "password_verifier \<Rightarrow> string \<Rightarrow> bool" where
  "validate_new v password \<longleftrightarrow> length password \<ge> pv_minimum_length v \<and> length password \<le> 1024"

text \<open>The blocking task of an asynchronous verification runs to its end.\<close>

definition password_verify :: "argon2_lib \<Rightarrow> password_verifier \<Rightarrow> string \<Rightarrow> string option \<Rightarrow> bool" where
  "password_verify lib v password encoded_hash =
     verify_sync lib password (case encoded_hash of Some hash \<Rightarrow> hash | None \<Rightarrow> pv_dummy_hash v)"

section \<open>One-time passwords\<close>

text \<open>What the builder of a \<open>Totp\<close> is given.\<close>

record totp_settings =
  ot_algorithm :: string
  ot_digits :: u8
  ot_skew :: "16 word"
  ot_step_duration :: u64
  ot_secret :: string
  ot_issuer :: "string option"
  ot_account_name :: string

text \<open>The crates: base64, AES-256-GCM (key, nonce, message, associated data), UTF-8, and \<open>totp_rs\<close>.\<close>

record totp_lib =
  tl_standard_decode :: "string \<Rightarrow> string option"
  tl_url_safe_encode :: "string \<Rightarrow> string"
  tl_url_safe_decode :: "string \<Rightarrow> string option"
  tl_new_from_slice :: "string \<Rightarrow> string option"
  tl_encrypt :: "string \<Rightarrow> string \<Rightarrow> string \<Rightarrow> string \<Rightarrow> string option"
  tl_decrypt :: "string \<Rightarrow> string \<Rightarrow> string \<Rightarrow> string \<Rightarrow> string option"
  tl_from_utf8 :: "string \<Rightarrow> string option"
  tl_to_base32 :: "string \<Rightarrow> string"
  tl_try_from_base32 :: "string \<Rightarrow> string option"
  tl_build :: "totp_settings \<Rightarrow> totp_settings option"
  tl_to_url :: "totp_settings \<Rightarrow> string option"
  tl_check_current :: "totp_settings \<Rightarrow> u64 \<Rightarrow> string \<Rightarrow> u64 option"

record totp_service =
  to_config :: totp_authn_properties
  to_cipher :: string

definition totp_service_new :: "totp_lib \<Rightarrow> totp_authn_properties \<Rightarrow> string \<Rightarrow> totp_service option" where
  "totp_service_new lib config encryption_key =
     (case (case tl_standard_decode lib encryption_key of Some k \<Rightarrow> Some k | None \<Rightarrow> tl_url_safe_decode lib encryption_key) of
        None \<Rightarrow> None
      | Some key \<Rightarrow>
          if length key \<noteq> 32 then None
          else map_option (\<lambda>cipher. \<lparr>to_config = config, to_cipher = cipher\<rparr>) (tl_new_from_slice lib key))"

definition totp_build :: "totp_lib \<Rightarrow> totp_service \<Rightarrow> string \<Rightarrow> string \<Rightarrow> totp_settings option" where
  "totp_build lib s secret account_name =
     tl_build lib \<lparr>ot_algorithm = ''SHA1'', ot_digits = tp_digits (to_config s), ot_skew = tp_skew (to_config s),
       ot_step_duration = tp_step_seconds (to_config s), ot_secret = secret, ot_issuer = Some (tp_issuer (to_config s)),
       ot_account_name = account_name\<rparr>"

definition totp_generate :: "totp_lib \<Rightarrow> totp_service \<Rightarrow> string \<Rightarrow> string \<Rightarrow> (string \<times> string) option" where
  "totp_generate lib s random account_name =
     Option.bind (totp_build lib s random account_name) (\<lambda>t. map_option (Pair (tl_to_base32 lib random)) (tl_to_url lib t))"

definition totp_check :: "totp_lib \<Rightarrow> totp_service \<Rightarrow> u64 \<Rightarrow> string \<Rightarrow> string \<Rightarrow> string \<Rightarrow> u64 option option" where
  "totp_check lib s now secret_base32 account_name one_time =
     Option.bind (tl_try_from_base32 lib secret_base32) (\<lambda>secret.
       map_option (\<lambda>t. tl_check_current lib t now one_time) (totp_build lib s secret account_name))"

definition totp_encrypt :: "totp_lib \<Rightarrow> totp_service \<Rightarrow> string \<Rightarrow> string \<Rightarrow> string \<Rightarrow> string option" where
  "totp_encrypt lib s nonce plaintext credential_id =
     map_option (\<lambda>ciphertext. ''v1:'' @ tl_url_safe_encode lib (nonce @ ciphertext))
       (tl_encrypt lib (to_cipher s) nonce plaintext credential_id)"

definition totp_decrypt :: "totp_lib \<Rightarrow> totp_service \<Rightarrow> string \<Rightarrow> string \<Rightarrow> string option" where
  "totp_decrypt lib s encoded credential_id =
     Option.bind (strip_prefix ''v1:'' encoded) (\<lambda>payload.
     Option.bind (tl_url_safe_decode lib payload) (\<lambda>bytes.
       if length bytes \<le> 12 then None
       else Option.bind (tl_decrypt lib (to_cipher s) (List.take 12 bytes) (drop 12 bytes) credential_id) (tl_from_utf8 lib)))"

section \<open>Handler\<close>

record registration_request =
  rr_login :: string
  rr_password :: string
  rr_display_name :: string

record login_request =
  lq_login :: string
  lq_password :: string
  lq_totp :: "string option"
  lq_return_to :: string

record totp_enrollment_verify_request =
  ev_challenge_id :: string
  ev_code :: string

record totp_enrollment_response =
  er_challenge_id :: string
  er_secret :: string
  er_otpauth_uri :: string

record totp_enrollment_challenge =
  ec_external_identity :: external_identity
  ec_credential_id :: string
  ec_encrypted_secret :: string

record standalone_lib =
  sl_argon2 :: argon2_lib
  sl_totp :: totp_lib
  sl_to_lowercase :: "string \<Rightarrow> string"
  sl_random_id :: "string \<Rightarrow> string"
  sl_enrollment :: "totp_enrollment_challenge challenge_codec"

record ('d, 'c, 'k, 'p, 'w) standalone_handler =
  sh_config :: standalone_authn_properties
  sh_credentials :: "'d credential_repository"
  sh_challenges :: "'c challenge_cache option"
  sh_pipeline :: "('d, 'k, 'p) authentication_pipeline"
  sh_password :: password_verifier
  sh_totp :: "totp_service option"
  sh_webauthn :: "'w option"
  sh_challenge_ttl :: duration
  sh_lib :: standalone_lib

text \<open>
  What a request reads from outside: the clocks (\<open>Utc::now\<close>, the token clock, the creation time of a row and the
  two readings of the cache clock) and the random bytes of the identifiers, salts and nonces it draws.
\<close>

record request_env =
  rq_at :: int
  rq_now :: u64
  rq_created :: int
  rq_cache_now :: u64
  rq_cache_later :: u64
  rq_subject :: string
  rq_principal :: string
  rq_salt :: string
  rq_credential :: string
  rq_challenge :: string
  rq_secret :: string
  rq_nonce :: string

datatype standalone_open_error = ChallengeCacheRequired | TotpRejected | WebauthnRejected | PasswordVerifierFailed

definition standalone_open ::
  "standalone_lib \<Rightarrow> (webauthn_properties \<Rightarrow> 'w option) \<Rightarrow> string \<Rightarrow> standalone_authn_properties \<Rightarrow> duration \<Rightarrow>
   'd credential_repository \<Rightarrow> 'c challenge_cache option \<Rightarrow> ('d, 'k, 'p) authentication_pipeline \<Rightarrow>
   (standalone_open_error, ('d, 'c, 'k, 'p, 'w) standalone_handler option) result" where
  "standalone_open lib webauthn_new salt config ttl credentials challenges pipeline =
     (if \<not> sa_enabled config then Inr None
      else if (tp_enabled (sa_totp config) \<or> wp_enabled (sa_webauthn config)) \<and> challenges = None then Inl ChallengeCacheRequired
      else
        and_then (if tp_enabled (sa_totp config)
          then and_then (ok_or TotpRejected (totp_service_new (sl_totp lib) (sa_totp config) (sa_credential_encryption_key config))) (Inr \<circ> Some)
          else Inr None) (\<lambda>totp.
        and_then (if wp_enabled (sa_webauthn config)
          then and_then (ok_or WebauthnRejected (webauthn_new (sa_webauthn config))) (Inr \<circ> Some) else Inr None) (\<lambda>webauthn.
        and_then (ok_or PasswordVerifierFailed
          (password_verifier_new (sl_argon2 lib) salt (pp_min_length (sa_password config)))) (\<lambda>password.
          Inr (Some \<lparr>sh_config = config, sh_credentials = credentials, sh_challenges = challenges, sh_pipeline = pipeline,
            sh_password = password, sh_totp = totp, sh_webauthn = webauthn, sh_challenge_ttl = ttl, sh_lib = lib\<rparr>)))))"

definition normalize_login :: "standalone_lib \<Rightarrow> string \<Rightarrow> (api_error, string) result" where
  "normalize_login lib login =
     (let lowered = sl_to_lowercase lib (trim login)
      in if lowered = [] \<or> length lowered > 320 then Inl (bad_request ''login must be between 1 and 320 bytes'')
         else Inr lowered)"

text \<open>The loop over the credentials of an identity; the first code that matches decides.\<close>

fun verify_totp_codes ::
  "totp_lib \<Rightarrow> totp_service \<Rightarrow> 'd credential_repository \<Rightarrow> u64 \<Rightarrow> string \<Rightarrow> string \<Rightarrow> 'd \<Rightarrow> iam_standalone_credential list \<Rightarrow>
   (api_error, bool) result \<times> 'd" where
  "verify_totp_codes lib s repo now subject one_time d [] = (Inr False, d)"
| "verify_totp_codes lib s repo now subject one_time d (credential # rest) =
     (case cr_secret_data credential of
        None \<Rightarrow> verify_totp_codes lib s repo now subject one_time d rest
      | Some encrypted \<Rightarrow>
          (case totp_decrypt lib s encrypted (cr_id credential) of
             None \<Rightarrow> (Inl (internal ''TOTP credential could not be verified''), d)
           | Some secret \<Rightarrow>
               (case totp_check lib s now secret subject one_time of
                  None \<Rightarrow> (Inl (unauthorized ''invalid credentials''), d)
                | Some None \<Rightarrow> verify_totp_codes lib s repo now subject one_time d rest
                | Some (Some n) \<Rightarrow>
                    (case cp_advance_totp_counter repo d (cr_id credential) n of
                       (Inl e, d') \<Rightarrow> (Inl (api_credential e), d')
                     | (Inr advanced, d') \<Rightarrow> (Inr advanced, d')))))"

definition verify_totp ::
  "('d, 'c, 'k, 'p, 'w) standalone_handler \<Rightarrow> u64 \<Rightarrow> 'd \<Rightarrow> standalone_credential_identity \<Rightarrow>
   iam_standalone_credential list \<Rightarrow> string \<Rightarrow> (api_error, bool) result \<times> 'd" where
  "verify_totp h now d identity credentials one_time =
     (case sh_totp h of
        None \<Rightarrow> (Inl (internal ''TOTP verifier is not configured''), d)
      | Some s \<Rightarrow> verify_totp_codes (sl_totp (sh_lib h)) s (sh_credentials h) now
          (ei_subject (sci_external_identity identity)) one_time d credentials)"

definition authenticate_credentials ::
  "('d, 'c, 'k, 'p, 'w) standalone_handler \<Rightarrow> request_env \<Rightarrow> 'd \<Rightarrow> login_request \<Rightarrow>
   (api_error, authentication_result) result \<times> 'd" where
  "authenticate_credentials h e d request =
     (case normalize_login (sh_lib h) (lq_login request) of
        Inl err \<Rightarrow> (Inl err, d)
      | Inr login \<Rightarrow>
     (case cp_find_by_key (sh_credentials h) d (sa_issuer (sh_config h)) PasswordKind login of
        Inl err \<Rightarrow> (Inl (api_credential err), d)
      | Inr found \<Rightarrow>
          if \<not> password_verify (sl_argon2 (sh_lib h)) (sh_password h) (lq_password request)
              (Option.bind found (\<lambda>entry. cr_secret_data (sci_credential entry)))
          then (Inl (unauthorized ''invalid credentials''), d)
          else
     (case found of
        None \<Rightarrow> (Inl (unauthorized ''invalid credentials''), d)
      | Some entry \<Rightarrow>
     (case cp_list_by_identity (sh_credentials h) d (cr_identity (sci_credential entry)) TotpKind of
        Inl err \<Rightarrow> (Inl (api_credential err), d)
      | Inr totps \<Rightarrow>
          if totps = []
          then (Inr (authentication_result_new (sci_external_identity entry) [''pwd''] None (rq_at e)), d)
          else
     (case lq_totp request of
        None \<Rightarrow> (Inl (unauthorized ''TOTP is required''), d)
      | Some one_time \<Rightarrow>
     (case verify_totp h (rq_now e) d entry totps one_time of
        (Inl err, d') \<Rightarrow> (Inl err, d')
      | (Inr verified, d') \<Rightarrow>
          if \<not> verified then (Inl (unauthorized ''invalid credentials''), d')
          else (Inr (authentication_result_new (sci_external_identity entry) [''pwd'', ''otp''] None (rq_at e)), d')))))))"

definition challenge_store :: "('d, 'c, 'k, 'p, 'w) standalone_handler \<Rightarrow> (api_error, 'c challenge_cache) result" where
  "challenge_store h = ok_or (not_found ''interactive standalone authentication is disabled'') (sh_challenges h)"

definition standalone_identity :: "('d, 'c, 'k, 'p, 'w) standalone_handler \<Rightarrow> request_env \<Rightarrow> registration_request \<Rightarrow> external_identity" where
  "standalone_identity h e request = \<lparr>ei_provider = ''standalone'', ei_issuer = sa_issuer (sh_config h),
     ei_subject = ''local_'' @ sl_random_id (sh_lib h) (rq_subject e),
     ei_claims = [(''display_name'', JString (trim (rr_display_name request)))]\<rparr>"

text \<open>The last step of a registration: the credential, or the rollback of the binding.\<close>

definition store_password ::
  "('d, 'c, 'k, 'p, 'w) standalone_handler \<Rightarrow> request_env \<Rightarrow> 'd \<Rightarrow> external_identity_key \<Rightarrow> string \<Rightarrow> string \<Rightarrow>
   issued_authentication \<Rightarrow> (api_error, login_response) result \<times> 'd" where
  "store_password h e d ikey login password_hash issued =
     (case cp_create_credential (sh_credentials h) (rq_created e) d
         \<lparr>cr_id = ''pwd_'' @ sl_random_id (sh_lib h) (rq_credential e), cr_identity = ikey, cr_kind = PasswordKind,
          cr_credential_key = Some login, cr_secret_data = Some password_hash, cr_credential_data = None\<rparr> of
        (Inr _, d') \<Rightarrow> (Inr (login_response_new issued []), d')
      | (Inl err, d') \<Rightarrow>
          (case pipeline_rollback (sh_pipeline h) d' (ap_principal_id (ia_principal issued)) ikey of
             (Inl _, d'') \<Rightarrow> (Inl (internal ''standalone registration rollback failed''), d'')
           | (Inr _, d'') \<Rightarrow> (Inl (api_credential err), d'')))"

definition register ::
  "('d, 'c, 'k, 'p, 'w) standalone_handler \<Rightarrow> request_env \<Rightarrow> 'd \<Rightarrow> headers \<Rightarrow> registration_request \<Rightarrow>
   (api_error, login_response) result \<times> 'd" where
  "register h e d hs request =
     (case normalize_login (sh_lib h) (rr_login request) of
        Inl err \<Rightarrow> (Inl err, d)
      | Inr login \<Rightarrow>
          if \<not> validate_new (sh_password h) (rr_password request)
          then (Inl (bad_request ''password does not meet the configured policy''), d)
          else if trim (rr_display_name request) = [] \<or> length (rr_display_name request) > 256
          then (Inl (bad_request ''displayName is required''), d)
          else
     (case cp_find_by_key (sh_credentials h) d (sa_issuer (sh_config h)) PasswordKind login of
        Inl err \<Rightarrow> (Inl (api_credential err), d)
      | Inr (Some _) \<Rightarrow> (Inl (conflict ''credential identifier is already registered''), d)
      | Inr None \<Rightarrow>
     (case hash_sync (sl_argon2 (sh_lib h)) (rq_salt e) (rr_password request) of
        None \<Rightarrow> (Inl (internal ''password credential could not be created''), d)
      | Some password_hash \<Rightarrow>
          let identity = standalone_identity h e request;
              authentication = authentication_result_new identity [''pwd''] None (rq_at e)
          in
     (case external_identity_key_of identity of
        Inl _ \<Rightarrow> (Inl (internal ''standalone identity is invalid''), d)
      | Inr ikey \<Rightarrow>
     (case (if contains_header hs ''authorization'' then
              (case authenticate_token (sh_pipeline h) (rq_now e) hs of
                 Inl err \<Rightarrow> (Inl (api_token err), d)
               | Inr principal_id \<Rightarrow> apfst (map_err api_pipeline) (pipeline_link (sh_pipeline h) d (rq_now e) principal_id authentication))
            else apfst (map_err api_pipeline) (pipeline_login (sh_pipeline h) d (rq_now e) authentication User (rq_principal e))) of
        (Inl err, d') \<Rightarrow> (Inl err, d')
      | (Inr issued, d') \<Rightarrow> store_password h e d' ikey login password_hash issued)))))"

definition standalone_login ::
  "('d, 'c, 'k, 'p, 'w) standalone_handler \<Rightarrow> application_resolver \<Rightarrow> request_env \<Rightarrow> 'd \<Rightarrow> login_request \<Rightarrow>
   (api_error, login_response) result \<times> 'd" where
  "standalone_login h a e d request =
     (case validate_return_to a (lq_return_to request) of
        Inl err \<Rightarrow> (Inl err, d)
      | Inr return_to \<Rightarrow>
     (case authenticate_credentials h e d request of
        (Inl err, d') \<Rightarrow> (Inl err, d')
      | (Inr authentication, d') \<Rightarrow>
     (case pipeline_login (sh_pipeline h) d' (rq_now e) authentication User (rq_principal e) of
        (Inl err, d'') \<Rightarrow> (Inl (api_pipeline err), d'')
      | (Inr issued, d'') \<Rightarrow> (Inr (login_response_new issued return_to), d''))))"

definition enrollment_purpose :: string where
  "enrollment_purpose = ''standalone-totp-enrollment''"

definition totp_enrollment_start ::
  "('d, 'c, 'k, 'p, 'w) standalone_handler \<Rightarrow> request_env \<Rightarrow> 'd \<Rightarrow> 'c \<Rightarrow> login_request \<Rightarrow>
   (api_error, totp_enrollment_response) result \<times> 'd \<times> 'c" where
  "totp_enrollment_start h e d c request =
     (case authenticate_credentials h e d request of
        (Inl err, d') \<Rightarrow> (Inl err, d', c)
      | (Inr authentication, d') \<Rightarrow>
     (case sh_totp h of
        None \<Rightarrow> (Inl (not_found ''TOTP is not enabled''), d', c)
      | Some s \<Rightarrow>
          let credential_id = ''totp_'' @ sl_random_id (sh_lib h) (rq_credential e);
              identity = res_external_identity authentication
          in
     (case totp_generate (sl_totp (sh_lib h)) s (rq_secret e) (ei_subject identity) of
        None \<Rightarrow> (Inl (internal ''TOTP enrollment could not be started''), d', c)
      | Some (secret, otpauth_uri) \<Rightarrow>
     (case totp_encrypt (sl_totp (sh_lib h)) s (rq_nonce e) secret credential_id of
        None \<Rightarrow> (Inl (internal ''TOTP enrollment could not be started''), d', c)
      | Some encrypted_secret \<Rightarrow>
     (case challenge_store h of
        Inl err \<Rightarrow> (Inl err, d', c)
      | Inr cache \<Rightarrow>
          let challenge_id = sl_random_id (sh_lib h) (rq_challenge e)
          in
     (case put_json cache (sl_enrollment (sh_lib h)) (rq_cache_now e) (rq_cache_later e) enrollment_purpose challenge_id
         \<lparr>ec_external_identity = identity, ec_credential_id = credential_id, ec_encrypted_secret = encrypted_secret\<rparr>
         (sh_challenge_ttl h) c of
        (Inl err, c') \<Rightarrow> (Inl (api_challenge err), d', c')
      | (Inr _, c') \<Rightarrow>
          (Inr \<lparr>er_challenge_id = challenge_id, er_secret = secret, er_otpauth_uri = otpauth_uri\<rparr>, d', c')))))))"

definition totp_enrollment_verify ::
  "('d, 'c, 'k, 'p, 'w) standalone_handler \<Rightarrow> request_env \<Rightarrow> 'd \<Rightarrow> 'c \<Rightarrow> totp_enrollment_verify_request \<Rightarrow>
   (api_error, login_response) result \<times> 'd \<times> 'c" where
  "totp_enrollment_verify h e d c request =
     (case sh_totp h of
        None \<Rightarrow> (Inl (not_found ''TOTP is not enabled''), d, c)
      | Some s \<Rightarrow>
     (case challenge_store h of
        Inl err \<Rightarrow> (Inl err, d, c)
      | Inr cache \<Rightarrow>
     (case consume_json cache (sl_enrollment (sh_lib h)) (rq_cache_now e) enrollment_purpose (ev_challenge_id request) c of
        (Inl err, c') \<Rightarrow> (Inl (api_challenge err), d, c')
      | (Inr None, c') \<Rightarrow> (Inl (bad_request ''invalid or expired TOTP enrollment''), d, c')
      | (Inr (Some challenge), c') \<Rightarrow>
     (case totp_decrypt (sl_totp (sh_lib h)) s (ec_encrypted_secret challenge) (ec_credential_id challenge) of
        None \<Rightarrow> (Inl (bad_request ''invalid or expired TOTP enrollment''), d, c')
      | Some secret \<Rightarrow>
     (case totp_check (sl_totp (sh_lib h)) s (rq_now e) secret (ei_subject (ec_external_identity challenge)) (ev_code request) of
        None \<Rightarrow> (Inl (unauthorized ''invalid TOTP code''), d, c')
      | Some None \<Rightarrow> (Inl (unauthorized ''invalid TOTP code''), d, c')
      | Some (Some n) \<Rightarrow>
     (case external_identity_key_of (ec_external_identity challenge) of
        Inl _ \<Rightarrow> (Inl (bad_request ''invalid standalone identity''), d, c')
      | Inr ikey \<Rightarrow>
     (case cp_create_credential (sh_credentials h) (rq_created e) d
         \<lparr>cr_id = ec_credential_id challenge, cr_identity = ikey, cr_kind = TotpKind, cr_credential_key = None,
          cr_secret_data = Some (ec_encrypted_secret challenge),
          cr_credential_data = Some (JObject [(''lastCounter'', JNumber (u64_to_string n))])\<rparr> of
        (Inl err, d') \<Rightarrow> (Inl (api_credential err), d', c')
      | (Inr _, d') \<Rightarrow>
     (case pipeline_login (sh_pipeline h) d' (rq_now e)
         (authentication_result_new (ec_external_identity challenge) [''pwd'', ''otp''] None (rq_at e)) User (rq_principal e) of
        (Inl err, d'') \<Rightarrow> (Inl (api_pipeline err), d'', c')
      | (Inr issued, d'') \<Rightarrow> (Inr (login_response_new issued []), d'', c')))))))))"

text \<open>The states that requests to the handlers lead to, whatever they return.\<close>

inductive standalone_run :: "('d, 'c, 'k, 'p, 'w) standalone_handler \<Rightarrow> 'd \<times> 'c \<Rightarrow> 'd \<times> 'c \<Rightarrow> bool" for h where
  run_start: "standalone_run h x x"
| run_register: "standalone_run h x (d, c) \<Longrightarrow> standalone_run h x (snd (register h e d hs rr), c)"
| run_login: "standalone_run h x (d, c) \<Longrightarrow> standalone_run h x (snd (standalone_login h a e d lq), c)"
| run_enroll: "standalone_run h x (d, c) \<Longrightarrow> standalone_run h x (snd (totp_enrollment_start h e d c lq))"
| run_verify: "standalone_run h x (d, c) \<Longrightarrow> standalone_run h x (snd (totp_enrollment_verify h e d c ev))"

section \<open>One store for identities and credentials\<close>

text \<open>
  The two repositories over one store: a password or a one-time secret is never stored without its secret, a
  credential belongs to a bound identity, writes of credentials keep the bindings, new bindings keep the
  credentials, and a rollback undoes a creation.
\<close>

locale standalone_store = identity_bindings repo ok bound + credential_storage creds ok active counter
  for repo :: "'d identity_binding_repository" and ok bound creds active counter +
  assumes active_secret: "ok d \<Longrightarrow> active d i = Some c \<Longrightarrow> cr_kind c \<in> {PasswordKind, TotpKind} \<Longrightarrow> cr_secret_data c \<noteq> None"
    and active_bound: "ok d \<Longrightarrow> active d i = Some c \<Longrightarrow> bound d (cr_identity c) \<noteq> None"
    and create_counter: "ok d \<Longrightarrow> cp_create_credential creds now d c = (Inr u, d') \<Longrightarrow>
      cr_credential_data c = Some (JObject [(''lastCounter'', JNumber (u64_to_string n))]) \<Longrightarrow> uint n < 2 ^ 63 \<Longrightarrow>
      counter d' (cr_id c) = uint n"
    and credential_keeps: "cp_create_credential creds now d c = (written, d') \<Longrightarrow> bound d' = bound d"
      "cp_advance_totp_counter creds d i n = (advanced, d') \<Longrightarrow> bound d' = bound d"
      "cp_compare_and_swap creds d i current data = (swapped, d') \<Longrightarrow> bound d' = bound d"
    and binding_keeps: "ok d \<Longrightarrow> ib_create_principal_and_bind repo d p e = (r, d') \<Longrightarrow> active d' = active d \<and> counter d' = counter d"
    and undo: "ok d \<Longrightarrow> external_identity_key_of e = Inr k \<Longrightarrow> ib_create_principal_and_bind repo d p e = (Inr q, d') \<Longrightarrow>
      ib_rollback_identity_binding repo d' (pi_id p) k = (Inr (), d)"
begin

lemma key_canonical: "external_identity_key_of e = Inr k \<Longrightarrow> canonical_key k"
  by (auto simp: external_identity_key_of_def external_identity_key_new_Inr canonical_key_def)

lemma found_canonical: "ok d \<Longrightarrow> cp_find_by_key creds d issuer kind key = Inr (Some entry) \<Longrightarrow> canonical_key (cr_identity (sci_credential entry))"
  using find_law key_canonical by blast

end

text \<open>What a one-time password proves: it is a code of the decrypted secret, for one counter.\<close>

definition totp_proof ::
  "('d, 'c, 'k, 'p, 'w) standalone_handler \<Rightarrow> u64 \<Rightarrow> string \<Rightarrow> string \<Rightarrow> iam_standalone_credential \<Rightarrow> u64 \<Rightarrow> bool" where
  "totp_proof h now subject one_time t n \<longleftrightarrow>
     (\<exists>s encrypted secret. sh_totp h = Some s \<and> cr_secret_data t = Some encrypted \<and>
        totp_decrypt (sl_totp (sh_lib h)) s encrypted (cr_id t) = Some secret \<and>
        totp_check (sl_totp (sh_lib h)) s now secret subject one_time = Some (Some n))"

lemma verify_totp_codes_True:
  "verify_totp_codes lib s repo now subject one_time d cs = (Inr True, d') \<Longrightarrow>
   \<exists>c \<in> set cs. \<exists>encrypted secret n. cr_secret_data c = Some encrypted \<and> totp_decrypt lib s encrypted (cr_id c) = Some secret \<and>
     totp_check lib s now secret subject one_time = Some (Some n) \<and> cp_advance_totp_counter repo d (cr_id c) n = (Inr True, d')"
  by (induction cs) (auto split: option.splits prod.splits sum.splits)

lemma verify_totp_True:
  assumes "verify_totp h now d entry cs one_time = (Inr True, d')"
  obtains c n where "c \<in> set cs" "totp_proof h now (ei_subject (sci_external_identity entry)) one_time c n"
    "cp_advance_totp_counter (sh_credentials h) d (cr_id c) n = (Inr True, d')"
  using assms by (auto simp: verify_totp_def totp_proof_def split: option.splits dest!: verify_totp_codes_True)

text \<open>The branches of a successful authentication.\<close>

lemma authenticate_credentials_Inr:
  assumes "authenticate_credentials h e d request = (Inr res, d')"
  obtains login entry totps where "normalize_login (sh_lib h) (lq_login request) = Inr login"
    "cp_find_by_key (sh_credentials h) d (sa_issuer (sh_config h)) PasswordKind login = Inr (Some entry)"
    "password_verify (sl_argon2 (sh_lib h)) (sh_password h) (lq_password request) (cr_secret_data (sci_credential entry))"
    "cp_list_by_identity (sh_credentials h) d (cr_identity (sci_credential entry)) TotpKind = Inr totps"
    "res_external_identity res = sci_external_identity entry"
    "totps = [] \<and> d' = d \<and> res_amr res = [''pwd''] \<or>
     totps \<noteq> [] \<and> res_amr res = [''pwd'', ''otp''] \<and>
       (\<exists>one_time. lq_totp request = Some one_time \<and> verify_totp h (rq_now e) d entry totps one_time = (Inr True, d'))"
proof -
  from assms obtain login where 1: "normalize_login (sh_lib h) (lq_login request) = Inr login"
    by (auto simp: authenticate_credentials_def split: sum.splits)
  with assms obtain found where 2: "cp_find_by_key (sh_credentials h) d (sa_issuer (sh_config h)) PasswordKind login = Inr found"
    by (auto simp: authenticate_credentials_def split: sum.splits)
  with assms 1 obtain entry where 3: "found = Some entry"
    "password_verify (sl_argon2 (sh_lib h)) (sh_password h) (lq_password request) (cr_secret_data (sci_credential entry))"
    by (auto simp: authenticate_credentials_def split: option.splits if_splits)
  with assms 1 2 obtain totps where 4: "cp_list_by_identity (sh_credentials h) d (cr_identity (sci_credential entry)) TotpKind = Inr totps"
    by (auto simp: authenticate_credentials_def split: sum.splits)
  show thesis
  proof (rule that [OF 1 _ 3(2) 4])
    show "cp_find_by_key (sh_credentials h) d (sa_issuer (sh_config h)) PasswordKind login = Inr (Some entry)" using 2 3 by simp
    from assms 1 2 3 4 show "res_external_identity res = sci_external_identity entry"
      by (auto simp: authenticate_credentials_def authentication_result_new_def split: if_splits option.splits prod.splits sum.splits)
    from assms 1 2 3 4 show "totps = [] \<and> d' = d \<and> res_amr res = [''pwd''] \<or>
     totps \<noteq> [] \<and> res_amr res = [''pwd'', ''otp''] \<and>
       (\<exists>one_time. lq_totp request = Some one_time \<and> verify_totp h (rq_now e) d entry totps one_time = (Inr True, d'))"
      by (auto simp: authenticate_credentials_def authentication_result_new_def split: if_splits option.splits prod.splits sum.splits)
  qed
qed

text \<open>The branches of a registration without a bearer token.\<close>

abbreviation password_credential ::
  "('d, 'c, 'k, 'p, 'w) standalone_handler \<Rightarrow> request_env \<Rightarrow> external_identity_key \<Rightarrow> string \<Rightarrow> string \<Rightarrow> iam_standalone_credential" where
  "password_credential h e k login hash \<equiv>
     \<lparr>cr_id = ''pwd_'' @ sl_random_id (sh_lib h) (rq_credential e), cr_identity = k, cr_kind = PasswordKind,
      cr_credential_key = Some login, cr_secret_data = Some hash, cr_credential_data = None\<rparr>"

abbreviation registration_proof ::
  "('d, 'c, 'k, 'p, 'w) standalone_handler \<Rightarrow> request_env \<Rightarrow> registration_request \<Rightarrow> authentication_result" where
  "registration_proof h e request \<equiv> authentication_result_new (standalone_identity h e request) [''pwd''] None (rq_at e)"

lemma register_branches:
  assumes "register h e d hs request = (r, d')" "\<not> contains_header hs ''authorization''"
  obtains (refused) err where "r = Inl err" "d' = d"
  | (login_failed) err where
      "pipeline_login (sh_pipeline h) d (rq_now e) (registration_proof h e request) User (rq_principal e) = (Inl err, d')"
      "r = Inl (api_pipeline err)"
  | (stored) login hash k issued d1 where "normalize_login (sh_lib h) (rr_login request) = Inr login"
      "hash_sync (sl_argon2 (sh_lib h)) (rq_salt e) (rr_password request) = Some hash"
      "external_identity_key_of (standalone_identity h e request) = Inr k"
      "pipeline_login (sh_pipeline h) d (rq_now e) (registration_proof h e request) User (rq_principal e) = (Inr issued, d1)"
      "store_password h e d1 k login hash issued = (r, d')"
proof -
  define pl where "pl = pipeline_login (sh_pipeline h) d (rq_now e) (registration_proof h e request) User (rq_principal e)"
  have "(\<exists>err. r = Inl err \<and> d' = d) \<or> (\<exists>err. pl = (Inl err, d') \<and> r = Inl (api_pipeline err)) \<or>
      (\<exists>login hash k issued d1. normalize_login (sh_lib h) (rr_login request) = Inr login \<and>
        hash_sync (sl_argon2 (sh_lib h)) (rq_salt e) (rr_password request) = Some hash \<and>
        external_identity_key_of (standalone_identity h e request) = Inr k \<and> pl = (Inr issued, d1) \<and>
        store_password h e d1 k login hash issued = (r, d'))"
    using assms unfolding register_def Let_def pl_def [symmetric]
    by (cases pl; cases "fst pl") (auto split: sum.splits option.splits if_splits)
  then show thesis using that unfolding pl_def by blast
qed

lemma pipeline_login_Inl:
  assumes "pipeline_login pl d now a kind random = (Inl err, d')"
  obtains (linking) e where "resolve_login (pl_linking pl) d a kind random = (Inl e, d')"
  | (token) t where "err = TokenFailure t"
proof (cases "fst (resolve_login (pl_linking pl) d a kind random)")
  case (Inl e)
  then show thesis using assms linking by (auto simp: pipeline_login_def split: prod.splits)
next
  case (Inr who)
  have "\<exists>t. pipeline_issue pl now a who = Inl (TokenFailure t)" if "pipeline_issue pl now a who = Inl err"
    using that by (auto simp: pipeline_issue_def Let_def result_simps)
  with Inr show thesis using assms token by (auto simp: pipeline_login_def split: prod.splits)
qed

text \<open>The state that each operation leaves.\<close>

lemma authenticate_state:
  "snd (authenticate_credentials h e d request) = d \<or>
   (\<exists>i n. snd (authenticate_credentials h e d request) = snd (cp_advance_totp_counter (sh_credentials h) d i n))"
proof -
  have codes: "snd (verify_totp_codes lib s repo now subject one_time d cs) = d \<or>
      (\<exists>i n. snd (verify_totp_codes lib s repo now subject one_time d cs) = snd (cp_advance_totp_counter repo d i n))"
    for lib s and repo :: "'a credential_repository" and now subject one_time d cs
  proof (induction cs)
    case (Cons t cs)
    then show ?case by (auto split: option.splits prod.splits sum.splits) (metis snd_conv)+
  qed simp
  have totp: "snd (verify_totp h now d entry cs one_time) = d \<or>
      (\<exists>i n. snd (verify_totp h now d entry cs one_time) = snd (cp_advance_totp_counter (sh_credentials h) d i n))" for now entry cs one_time
    using codes [of _ _ "sh_credentials h"] by (simp add: verify_totp_def split: option.split)
  have "snd (authenticate_credentials h e d request) = d \<or> (\<exists>now entry cs one_time.
      snd (authenticate_credentials h e d request) = snd (verify_totp h now d entry cs one_time))"
    unfolding authenticate_credentials_def by (auto split: sum.splits option.splits prod.splits) (metis snd_conv)+
  then show ?thesis using totp by metis
qed

lemma register_state:
  "snd (register h e d hs request) = d \<or>
   (\<exists>a random. snd (register h e d hs request) = snd (pipeline_login (sh_pipeline h) d (rq_now e) a User random)) \<or>
   (\<exists>n a. snd (register h e d hs request) = snd (pipeline_link (sh_pipeline h) d (rq_now e) n a)) \<or>
   (\<exists>a random k login hash issued. snd (register h e d hs request) =
      snd (store_password h e (snd (pipeline_login (sh_pipeline h) d (rq_now e) a User random)) k login hash issued)) \<or>
   (\<exists>n a k login hash issued. snd (register h e d hs request) =
      snd (store_password h e (snd (pipeline_link (sh_pipeline h) d (rq_now e) n a)) k login hash issued))"
proof (cases "contains_header hs ''authorization''")
  case True
  then show ?thesis unfolding register_def Let_def
    by (auto split: sum.splits option.splits prod.splits) (metis snd_apfst snd_conv)+
next
  case False
  then show ?thesis unfolding register_def Let_def
    by (auto split: sum.splits option.splits prod.splits) (metis snd_apfst snd_conv)+
qed

lemma login_state:
  "snd (standalone_login h a e d request) = d \<or>
   snd (standalone_login h a e d request) = snd (authenticate_credentials h e d request) \<or>
   (\<exists>b. snd (standalone_login h a e d request) =
      snd (pipeline_login (sh_pipeline h) (snd (authenticate_credentials h e d request)) (rq_now e) b User (rq_principal e)))"
  by (auto simp: standalone_login_def split: sum.splits prod.splits) (metis snd_conv)+

lemma enrollment_start_state:
  "fst (snd (totp_enrollment_start h e d c request)) = snd (authenticate_credentials h e d request)"
  by (auto simp: totp_enrollment_start_def Let_def split: sum.splits option.splits prod.splits)

lemma enrollment_verify_state:
  "fst (snd (totp_enrollment_verify h e d c request)) = d \<or>
   (\<exists>i k s ms. fst (snd (totp_enrollment_verify h e d c request)) = snd (cp_create_credential (sh_credentials h) (rq_created e) d
      \<lparr>cr_id = i, cr_identity = k, cr_kind = TotpKind, cr_credential_key = None, cr_secret_data = s, cr_credential_data = Some (JObject ms)\<rparr>)) \<or>
   (\<exists>i k s ms a. fst (snd (totp_enrollment_verify h e d c request)) = snd (pipeline_login (sh_pipeline h)
      (snd (cp_create_credential (sh_credentials h) (rq_created e) d
        \<lparr>cr_id = i, cr_identity = k, cr_kind = TotpKind, cr_credential_key = None, cr_secret_data = s, cr_credential_data = Some (JObject ms)\<rparr>))
      (rq_now e) a User (rq_principal e)))"
  unfolding totp_enrollment_verify_def
  by (auto split: sum.splits option.splits prod.splits) (metis snd_conv)+

context standalone_store
begin

text \<open>A login needs the stored password and, where one-time secrets are stored, a code with a fresh counter.\<close>

lemma login_factors:
  assumes d: "ok d" and h: "sh_credentials h = creds"
    and a: "authenticate_credentials h e d request = (Inr res, d')"
  shows "\<exists>login c hash. normalize_login (sh_lib h) (lq_login request) = Inr login \<and> active d (cr_id c) = Some c \<and>
    cr_kind c = PasswordKind \<and> cr_credential_key c = Some login \<and> ek_issuer (cr_identity c) = sa_issuer (sh_config h) \<and>
    cr_secret_data c = Some hash \<and> verify_sync (sl_argon2 (sh_lib h)) (lq_password request) hash \<and>
    external_identity_key_of (res_external_identity res) = Inr (cr_identity c) \<and>
    (if \<exists>i t. active d i = Some t \<and> cr_identity t = cr_identity c \<and> cr_kind t = TotpKind
     then \<exists>t one_time n. active d (cr_id t) = Some t \<and> cr_identity t = cr_identity c \<and> cr_kind t = TotpKind \<and>
       lq_totp request = Some one_time \<and> totp_proof h (rq_now e) (ei_subject (res_external_identity res)) one_time t n \<and>
       counter d (cr_id t) < uint n \<and> counter d' = (counter d)(cr_id t := uint n) \<and> res_amr res = [''pwd'', ''otp'']
     else d' = d \<and> res_amr res = [''pwd''])"
proof -
  from a obtain login entry totps where b: "normalize_login (sh_lib h) (lq_login request) = Inr login"
    "cp_find_by_key creds d (sa_issuer (sh_config h)) PasswordKind login = Inr (Some entry)"
    "password_verify (sl_argon2 (sh_lib h)) (sh_password h) (lq_password request) (cr_secret_data (sci_credential entry))"
    "cp_list_by_identity creds d (cr_identity (sci_credential entry)) TotpKind = Inr totps"
    "res_external_identity res = sci_external_identity entry"
    "totps = [] \<and> d' = d \<and> res_amr res = [''pwd''] \<or>
     totps \<noteq> [] \<and> res_amr res = [''pwd'', ''otp''] \<and>
       (\<exists>one_time. lq_totp request = Some one_time \<and> verify_totp h (rq_now e) d entry totps one_time = (Inr True, d'))"
    unfolding h [symmetric] by (rule authenticate_credentials_Inr)
  let ?c = "sci_credential entry"
  note found = find_law [OF d b(2)]
  obtain hash where hash: "cr_secret_data ?c = Some hash" using active_secret [OF d, of "cr_id ?c" ?c] found by auto
  have totps: "set totps = {t. \<exists>i. active d i = Some t \<and> cr_identity t = cr_identity ?c \<and> cr_kind t = TotpKind}"
    using list_law [OF d found_canonical [OF d b(2)], of TotpKind] b(4) by auto
  have "if \<exists>i t. active d i = Some t \<and> cr_identity t = cr_identity ?c \<and> cr_kind t = TotpKind
     then \<exists>t one_time n. active d (cr_id t) = Some t \<and> cr_identity t = cr_identity ?c \<and> cr_kind t = TotpKind \<and>
       lq_totp request = Some one_time \<and> totp_proof h (rq_now e) (ei_subject (res_external_identity res)) one_time t n \<and>
       counter d (cr_id t) < uint n \<and> counter d' = (counter d)(cr_id t := uint n) \<and> res_amr res = [''pwd'', ''otp'']
     else d' = d \<and> res_amr res = [''pwd'']"
  proof (cases "totps = []")
    case True
    then have "\<nexists>i t. active d i = Some t \<and> cr_identity t = cr_identity ?c \<and> cr_kind t = TotpKind" using totps by auto
    then show ?thesis using True b(6) by auto
  next
    case False
    then obtain one_time where o: "lq_totp request = Some one_time" "res_amr res = [''pwd'', ''otp'']"
      "verify_totp h (rq_now e) d entry totps one_time = (Inr True, d')" using b(6) by blast
    from o(3) obtain t n where t: "t \<in> set totps" "totp_proof h (rq_now e) (ei_subject (sci_external_identity entry)) one_time t n"
      "cp_advance_totp_counter creds d (cr_id t) n = (Inr True, d')" unfolding h [symmetric] by (rule verify_totp_True)
    from t(1) totps obtain i where i: "active d i = Some t" "cr_identity t = cr_identity ?c" "cr_kind t = TotpKind" by auto
    with t o advance_law [OF d t(3)] active_id [OF i(1)] b(5)
    show ?thesis by (subst if_P) (blast, intro exI [of _ t] exI [of _ one_time] exI [of _ n], simp)
  qed
  then show ?thesis
    using b(1,3,5) found hash by (intro exI [of _ login] exI [of _ ?c] exI [of _ hash]) (simp add: password_verify_def)
qed

text \<open>A registration that fails, other than in signing its token, leaves the store as it was.\<close>

lemma register_failed:
  assumes d: "ok d" and h: "sh_credentials h = creds" "als_repository (pl_linking (sh_pipeline h)) = repo"
    and r: "register h e d hs request = (Inl err, d')" "\<not> contains_header hs ''authorization''"
    and fresh: "\<And>k. external_identity_key_of (standalone_identity h e request) = Inr k \<Longrightarrow> bound d k = None"
    and signed: "err \<noteq> internal ''canonical token could not be issued''"
  shows "d' = d"
  using r
proof (cases rule: register_branches)
  case (login_failed lerr)
  from login_failed(1) show ?thesis
  proof (cases rule: pipeline_login_Inl)
    case (linking x)
    then show ?thesis by (rule resolve_login_Inl [OF d h(2)])
  qed (use login_failed(2) signed in simp)
next
  case (stored login hash k issued d1)
  from stored(4) obtain who where who: "resolve_login (pl_linking (sh_pipeline h)) d (registration_proof h e request) User (rq_principal e) = (Inr who, d1)"
    "ap_principal_id (ia_principal issued) = ap_principal_id who" by (rule pipeline_login_Inr)
  have proof_identity: "res_external_identity (registration_proof h e request) = standalone_identity h e request"
    by (simp add: authentication_result_new_def)
  let ?p = "new_principal (als_b64_encode (pl_linking (sh_pipeline h))) (rq_principal e) (standalone_identity h e request) User"
  have created: "ib_create_principal_and_bind repo d ?p (standalone_identity h e request) = (Inr ?p, d1)"
    "ap_principal_id who = pi_id ?p" "ok d1"
  proof -
    obtain q d2 where q: "ib_create_principal_and_bind repo d ?p (standalone_identity h e request) = (q, d2)" by fastforce
    note law = create_bound [OF d stored(3) q]
    from who(1) find_bound [OF d, of k] fresh [OF stored(3)] q h(2)
    have run: "(case q of Inl x \<Rightarrow> (Inl (linking_error_from x), d2) | Inr p \<Rightarrow> (linking_context p (registration_proof h e request), d2)) = (Inr who, d1)"
      unfolding resolve_login_def Let_def proof_identity stored(3) by (auto split: if_splits)
    then obtain p where "q = Inr p" "linking_context p (registration_proof h e request) = Inr who" "d2 = d1" by (auto split: sum.splits)
    with q law show "ib_create_principal_and_bind repo d ?p (standalone_identity h e request) = (Inr ?p, d1)"
      "ap_principal_id who = pi_id ?p" "ok d1" by (auto simp: linking_context_def split: if_splits)
  qed
  obtain w d2 where w: "cp_create_credential creds (rq_created e) d1 (password_credential h e k login hash) = (w, d2)" by fastforce
  obtain x where x: "w = Inl x" using stored(5) w h(1) by (cases w) (auto simp: store_password_def)
  have "d2 = d1" using create_law [OF created(3) _ w] x by simp
  with w x have w': "cp_create_credential creds (rq_created e) d1 (password_credential h e k login hash) = (Inl x, d1)" by simp
  have "linking_rollback (pl_linking (sh_pipeline h)) d1 (ap_principal_id who) k = (Inr (), d)"
    using undo [OF d stored(3) created(1)] created(2) h(2) by (simp add: linking_rollback_def)
  then show ?thesis using stored(5) w' h(1) who(2) by (simp add: store_password_def pipeline_rollback_def)
qed simp

text \<open>The principal of a resolved login, and the credentials after it.\<close>

lemma resolve_keeps:
  assumes d: "ok d" and s: "als_repository s = repo" and r: "resolve_login s d a kind random = (Inr who, d')"
  shows "active d' = active d" "counter d' = counter d"
proof -
  let ?p = "new_principal (als_b64_encode s) random (res_external_identity a) kind"
  obtain q d2 where q: "ib_create_principal_and_bind repo d ?p (res_external_identity a) = (q, d2)" by fastforce
  have "d' = d \<or> d' = d2" using r s q
    by (auto simp: resolve_login_def Let_def split: sum.splits option.splits if_splits)
  then show "active d' = active d" "counter d' = counter d" using binding_keeps [OF d q] by auto
qed

text \<open>A stored password whose identity has no one-time secret authenticates.\<close>

lemma password_only:
  assumes d: "ok d" and h: "sh_credentials h = creds"
    and c: "active d i = Some c" "cr_kind c = PasswordKind" "cr_credential_key c = Some login" "cr_secret_data c = Some hash"
      "canonical_key (cr_identity c)" "ek_issuer (cr_identity c) = sa_issuer (sh_config h)"
    and none: "\<nexists>i t. active d i = Some t \<and> cr_identity t = cr_identity c \<and> cr_kind t = TotpKind"
    and q: "normalize_login (sh_lib h) (lq_login request) = Inr login"
      "verify_sync (sl_argon2 (sh_lib h)) (lq_password request) hash"
  shows "\<exists>res. authenticate_credentials h e d request = (Inr res, d) \<and> res_amr res = [''pwd''] \<and>
    external_identity_key_of (res_external_identity res) = Inr (cr_identity c)"
proof -
  obtain entry where f: "cp_find_by_key creds d (ek_issuer (cr_identity c)) (cr_kind c) login = Inr (Some entry)"
    and entry: "sci_credential entry = c" using find_unique [OF d c(1,5,3)] by blast
  have l: "cp_list_by_identity creds d (cr_identity c) TotpKind = Inr []"
  proof -
    obtain cs where cs: "cp_list_by_identity creds d (cr_identity c) TotpKind = Inr cs"
      "set cs = {t. \<exists>i. active d i = Some t \<and> cr_identity t = cr_identity c \<and> cr_kind t = TotpKind}"
      using list_law [OF d c(5)] by blast
    moreover have "set cs = {}" unfolding cs(2) using none by blast
    ultimately show ?thesis by simp
  qed
  have "password_verify (sl_argon2 (sh_lib h)) (sh_password h) (lq_password request) (Some hash)"
    using q(2) by (simp add: password_verify_def)
  then have "authenticate_credentials h e d request =
      (Inr (authentication_result_new (sci_external_identity entry) [''pwd''] None (rq_at e)), d)"
    using q(1) f l entry c(2,4,6) h by (simp add: authenticate_credentials_def)
  then show ?thesis using find_law [OF d f] entry by (simp add: authentication_result_new_def)
qed

text \<open>A registered account authenticates with its password as the principal of the registration.\<close>

lemma registered_resolves:
  assumes d: "ok d" and h: "sh_credentials h = creds" "als_repository (pl_linking (sh_pipeline h)) = repo"
    and r: "register h e d hs request = (Inr response, d')" "\<not> contains_header hs ''authorization''"
    and fresh: "\<And>k. external_identity_key_of (standalone_identity h e request) = Inr k \<Longrightarrow> bound d k = None"
    and argon2: "\<And>salt password hash. hash_sync (sl_argon2 (sh_lib h)) salt password = Some hash \<Longrightarrow>
      verify_sync (sl_argon2 (sh_lib h)) password hash"
    and q: "normalize_login (sh_lib h) (lq_login again) = normalize_login (sh_lib h) (rr_login request)"
      "lq_password again = rr_password request"
  shows "\<exists>res who. authenticate_credentials h e' d' again = (Inr res, d') \<and> res_amr res = [''pwd''] \<and>
    resolve_login (pl_linking (sh_pipeline h)) d' res User random = (Inr who, d') \<and>
    ap_principal_id who = ap_principal_id (lr_principal response)"
  using r
proof (cases rule: register_branches)
  case (stored login hash k issued d1)
  from stored(4) obtain who where who: "resolve_login (pl_linking (sh_pipeline h)) d (registration_proof h e request) User (rq_principal e) = (Inr who, d1)"
    "ap_principal_id (ia_principal issued) = ap_principal_id who" by (rule pipeline_login_Inr)
  let ?c = "password_credential h e k login hash"
  have w: "cp_create_credential creds (rq_created e) d1 ?c = (Inr (), d')" "response = login_response_new issued []"
    using stored(5) h(1) by (auto simp: store_password_def split: prod.splits sum.splits)
  from login_binds [OF d h(2) who(1)] stored(3) obtain p where d1: "ok d1" "bound d1 k = Some p"
    "linking_context p (registration_proof h e request) = Inr who"
    by (auto simp: authentication_result_new_def)
  have d': "ok d'" "active d' = (active d)(cr_id ?c \<mapsto> ?c)" "bound d' k = Some p"
    using create_law [OF d1(1) _ w(1)] resolve_keeps(1) [OF d h(2) who(1)] credential_keeps(1) [OF w(1)] d1(2) by simp_all
  have k: "canonical_key k" "ek_issuer k = sa_issuer (sh_config h)"
    using key_canonical [OF stored(3)] stored(3)
    by (auto simp: external_identity_key_of_def external_identity_key_new_Inr standalone_identity_def)
  have none: "\<nexists>i t. active d' i = Some t \<and> cr_identity t = k \<and> cr_kind t = TotpKind"
  proof (intro notI, elim exE conjE)
    fix i t
    assume t: "active d' i = Some t" "cr_identity t = k" "cr_kind t = TotpKind"
    then have "active d i = Some t" unfolding d'(2) by (cases "i = cr_id ?c") auto
    then show False using active_bound [OF d] t(2) fresh [OF stored(3)] by blast
  qed
  have "\<exists>res. authenticate_credentials h e' d' again = (Inr res, d') \<and> res_amr res = [''pwd''] \<and>
      external_identity_key_of (res_external_identity res) = Inr (cr_identity ?c)"
    by (rule password_only [OF d'(1) h(1), of "cr_id ?c" _ login hash]) (use d'(2) k none q argon2 stored(1,2) in simp_all)
  then obtain res where res: "authenticate_credentials h e' d' again = (Inr res, d')" "res_amr res = [''pwd'']"
    "external_identity_key_of (res_external_identity res) = Inr k" by auto
  have "resolve_login (pl_linking (sh_pipeline h)) d' res User random = (linking_context p res, d')"
    by (rule login_again [OF d'(1) h(2) d'(3) res(3)])
  moreover obtain who' where "linking_context p res = Inr who'" "ap_principal_id who' = ap_principal_id who"
    using d1(3) by (auto simp: linking_context_def split: if_splits)
  ultimately show ?thesis using res(1,2) who(2) w(2) by (auto simp: login_response_new_def)
qed auto

text \<open>After an enrollment the identity has a one-time secret, whose counter is that of the enrolled code.\<close>

lemma enrolled:
  assumes d: "ok d" and h: "sh_credentials h = creds" "als_repository (pl_linking (sh_pipeline h)) = repo"
      "sh_challenges h = Some cache"
    and r: "totp_enrollment_verify h e d c request = (Inr response, d', c')"
  obtains challenge t n k where
    "consume_json cache (sl_enrollment (sh_lib h)) (rq_cache_now e) enrollment_purpose (ev_challenge_id request) c = (Inr (Some challenge), c')"
    "external_identity_key_of (ec_external_identity challenge) = Inr k" "ok d'" "active d' (ec_credential_id challenge) = Some t"
    "cr_identity t = k" "cr_kind t = TotpKind"
    "totp_proof h (rq_now e) (ei_subject (ec_external_identity challenge)) (ev_code request) t n"
    "uint n < 2 ^ 63 \<longrightarrow> counter d' (ec_credential_id challenge) = uint n"
proof -
  obtain s where s: "sh_totp h = Some s" using r by (auto simp: totp_enrollment_verify_def split: option.splits)
  obtain challenge where ch: "consume_json cache (sl_enrollment (sh_lib h)) (rq_cache_now e) enrollment_purpose (ev_challenge_id request) c =
      (Inr (Some challenge), c')"
    using r s h(3) unfolding totp_enrollment_verify_def challenge_store_def
    by (auto split: option.splits prod.splits sum.splits)
  obtain secret where secret: "totp_decrypt (sl_totp (sh_lib h)) s (ec_encrypted_secret challenge) (ec_credential_id challenge) = Some secret"
    using r s h(3) ch unfolding totp_enrollment_verify_def challenge_store_def by (auto split: option.splits)
  obtain n where n: "totp_check (sl_totp (sh_lib h)) s (rq_now e) secret (ei_subject (ec_external_identity challenge)) (ev_code request) = Some (Some n)"
    using r s h(3) ch secret unfolding totp_enrollment_verify_def challenge_store_def by (auto split: option.splits)
  obtain k where k: "external_identity_key_of (ec_external_identity challenge) = Inr k"
    using r s h(3) ch secret n unfolding totp_enrollment_verify_def challenge_store_def by (auto split: sum.splits)
  let ?t = "\<lparr>cr_id = ec_credential_id challenge, cr_identity = k, cr_kind = TotpKind, cr_credential_key = None,
    cr_secret_data = Some (ec_encrypted_secret challenge),
    cr_credential_data = Some (JObject [(''lastCounter'', JNumber (u64_to_string n))])\<rparr>"
  let ?a = "authentication_result_new (ec_external_identity challenge) [''pwd'', ''otp''] None (rq_at e)"
  obtain u d1 issued where w: "cp_create_credential creds (rq_created e) d ?t = (Inr u, d1)"
    and l: "pipeline_login (sh_pipeline h) d1 (rq_now e) ?a User (rq_principal e) = (Inr issued, d')"
    using r s h(1,3) ch secret n k unfolding totp_enrollment_verify_def challenge_store_def
    by (auto split: prod.splits sum.splits)
  from l obtain who where who: "resolve_login (pl_linking (sh_pipeline h)) d1 ?a User (rq_principal e) = (Inr who, d')"
    by (rule pipeline_login_Inr)
  have d1: "ok d1" "active d1 = (active d)(cr_id ?t \<mapsto> ?t)"
    using create_law [OF d _ w] by (simp_all add: object_data_def)
  have d': "ok d'" using login_binds [OF d1(1) h(2) who] by blast
  have keep: "active d' = active d1" "counter d' = counter d1" using resolve_keeps [OF d1(1) h(2) who] by blast+
  have "uint n < 2 ^ 63 \<longrightarrow> counter d' (ec_credential_id challenge) = uint n"
    using create_counter [OF d w, of n] keep(2) by simp
  moreover have "totp_proof h (rq_now e) (ei_subject (ec_external_identity challenge)) (ev_code request) ?t n"
    using s secret n by (simp add: totp_proof_def)
  ultimately show thesis using that [OF ch k d', of ?t n] keep(1) d1(2) by simp
qed

text \<open>Every request keeps the store well-formed.\<close>

lemma writes_ok:
  assumes "ok d"
  shows "ok (snd (cp_advance_totp_counter creds d i n))" "ok (snd (ib_rollback_identity_binding repo d m k))"
    "cr_kind c = TotpKind \<longrightarrow> object_data (cr_credential_data c) \<Longrightarrow> ok (snd (cp_create_credential creds now d c))"
  using advance_law [OF assms, of i n] rollback_bound [OF assms, of m k] create_law [OF assms, of c now] by (metis prod.collapse)+

lemma authenticate_ok:
  assumes "ok d" "sh_credentials h = creds"
  shows "ok (snd (authenticate_credentials h e d request))"
  using authenticate_state [of h e d request] writes_ok(1) [OF assms(1)] assms by auto

lemma pipeline_ok:
  assumes "ok d" "als_repository (pl_linking pl) = repo"
  shows "ok (snd (pipeline_login pl d now a kind random))" "ok (snd (pipeline_link pl d now n a))"
proof -
  have "snd (pipeline_login pl d now a kind random) = snd (resolve_login (pl_linking pl) d a kind random)"
    "snd (pipeline_link pl d now n a) = snd (link_identity (pl_linking pl) d n a)"
    by (simp_all add: pipeline_login_def pipeline_link_def split: prod.splits sum.splits)
  then show "ok (snd (pipeline_login pl d now a kind random))" "ok (snd (pipeline_link pl d now n a))"
    using login_grows [OF assms] link_grows [OF assms] by simp_all
qed

lemma store_password_ok:
  assumes "ok d" "sh_credentials h = creds" "als_repository (pl_linking (sh_pipeline h)) = repo"
  shows "ok (snd (store_password h e d k login hash issued))"
proof -
  let ?d1 = "snd (cp_create_credential creds (rq_created e) d (password_credential h e k login hash))"
  have d1: "ok ?d1" by (rule writes_ok(3) [OF assms(1)]) simp
  have "snd (store_password h e d k login hash issued) = ?d1 \<or>
      snd (store_password h e d k login hash issued) = snd (ib_rollback_identity_binding repo ?d1 (ap_principal_id (ia_principal issued)) k)"
    using assms(2,3) by (auto simp: store_password_def pipeline_rollback_def linking_rollback_def split: sum.splits prod.splits)
  then show ?thesis using d1 writes_ok(2) [OF d1] by auto
qed

lemma register_ok:
  assumes "ok d" "sh_credentials h = creds" "als_repository (pl_linking (sh_pipeline h)) = repo"
  shows "ok (snd (register h e d hs request))"
proof -
  note pipeline = pipeline_ok [OF assms(1,3)]
  show ?thesis
    using register_state [of h e d hs request] assms(1) pipeline store_password_ok [OF pipeline(1) assms(2,3)]
      store_password_ok [OF pipeline(2) assms(2,3)] by (elim disjE exE) simp_all
qed

lemma enrollment_ok:
  assumes "ok d" "sh_credentials h = creds" "als_repository (pl_linking (sh_pipeline h)) = repo"
  shows "ok (fst (snd (totp_enrollment_start h e d c lq)))" "ok (fst (snd (totp_enrollment_verify h e d c ev)))"
proof -
  show "ok (fst (snd (totp_enrollment_start h e d c lq)))"
    using authenticate_ok [OF assms(1,2), of e lq] by (simp add: enrollment_start_state)
  have created: "ok (snd (cp_create_credential creds now d \<lparr>cr_id = i, cr_identity = k, cr_kind = TotpKind, cr_credential_key = None,
      cr_secret_data = s, cr_credential_data = Some (JObject ms)\<rparr>))" for now i k s ms
    by (rule writes_ok(3) [OF assms(1)]) (simp add: object_data_def)
  from enrollment_verify_state [of h e d c ev] show "ok (fst (snd (totp_enrollment_verify h e d c ev)))"
    unfolding assms(2) using assms(1) created pipeline_ok(1) [OF created assms(3)] by (elim disjE exE) simp_all
qed

lemma run_ok:
  assumes "standalone_run h x y" "ok (fst x)" "sh_credentials h = creds" "als_repository (pl_linking (sh_pipeline h)) = repo"
  shows "ok (fst y)"
  using assms
proof (induction rule: standalone_run.induct)
  case (run_login x d c a e lq)
  then have d: "ok d" by simp
  note auth = authenticate_ok [OF d run_login.prems(2), of e lq]
  from login_state [of h a e d lq] d auth pipeline_ok(1) [OF auth run_login.prems(3)] show ?case
    by (elim disjE exE) simp_all
qed (auto simp: register_ok enrollment_ok)

end

section \<open>SQLite as the store\<close>

lemma active_row:
  assumes "authn_ok ad" "active_credential ad i = Some c"
  obtains r where "r \<in> set (ad_credentials ad)" "c = credential_of_row r" "credential_checks r" "has_identity (ad_tables ad) r"
  using assms authn_ok_row [OF assms(1)] unfolding active_credential_Some [OF authn_ok_distinct [OF assms(1)]] by blast

lemma sqlite_active_secret:
  assumes "authn_ok ad" "active_credential ad i = Some c" "cr_kind c \<in> {PasswordKind, TotpKind}"
  shows "cr_secret_data c \<noteq> None"
proof -
  obtain r where r: "c = credential_of_row r" "credential_checks r" by (rule active_row [OF assms(1,2)])
  have "tc_kind r \<noteq> ''webauthn''" using checked_kind [OF r(2)] assms(3) r(1) by auto
  then show ?thesis using r by (auto simp: credential_checks_def)
qed

lemma sqlite_active_bound:
  assumes "authn_ok ad" "active_credential ad i = Some c"
  shows "sqlite_bound (ad_tables ad) (cr_identity c) \<noteq> None"
proof -
  obtain r where r: "c = credential_of_row r" "has_identity (ad_tables ad) r" by (rule active_row [OF assms])
  show ?thesis
  proof
    assume "sqlite_bound (ad_tables ad) (cr_identity c) = None"
    then have "identity_owner (ad_tables ad) (credential_identity_key r) = None"
      using authn_ok_tables(1) [OF assms(1)] r(1) by (simp add: sqlite_bound_None)
    then show False using r(2)
      by (auto simp: identity_owner_map_of map_of_eq_None_iff has_identity_def list_ex_iff row_has_key_iff image_iff)
  qed
qed

lemma create_credential_tables: "create_credential now ad c = (written, ad') \<Longrightarrow> ad_tables ad' = ad_tables ad"
  by (auto simp: create_credential_def sql_insert_credential_def split: sum.splits if_splits)

lemma advance_counter_tables: "advance_totp_counter cast_integer ad i n = (advanced, ad') \<Longrightarrow> ad_tables ad' = ad_tables ad"
  by (auto simp: advance_totp_counter_def update_credentials_def split: if_splits)

lemma swap_data_tables: "compare_and_swap_credential_data ad i current data = (swapped, ad') \<Longrightarrow> ad_tables ad' = ad_tables ad"
  by (auto simp: compare_and_swap_credential_data_def update_credentials_def)

lemma sqlite_create_counter:
  assumes cast: "\<And>n :: u64. uint n < 2 ^ 63 \<Longrightarrow> cast_integer (JNumber (u64_to_string n)) = Some (uint n)"
    and "create_credential now ad c = (Inr u, ad')"
    and "cr_credential_data c = Some (JObject [(''lastCounter'', JNumber (u64_to_string n))])" "uint n < 2 ^ 63"
  shows "totp_counter cast_integer ad' (cr_id c) = uint n"
proof -
  have "cr_id c \<notin> tc_id ` set (ad_credentials ad)" "ad_credentials ad' = ad_credentials ad @ [credential_row_of now c]"
    using assms(2) by (auto simp: create_credential_def sql_insert_credential_def credential_row_of_def split: sum.splits if_splits)
  moreover have "find P (xs @ [x]) = (case find P xs of None \<Rightarrow> if P x then Some x else None | Some y \<Rightarrow> Some y)" for P xs and x :: credential_row
    by (induction xs) auto
  moreover have "find (\<lambda>r. tc_id r = cr_id c) (ad_credentials ad) = None"
    using calculation(1) by (auto simp: find_None_iff image_iff)
  ultimately have "find (\<lambda>r. tc_id r = cr_id c) (ad_credentials ad') = Some (credential_row_of now c)"
    by (simp add: credential_row_of_def)
  then show ?thesis
    using cast [OF assms(4)] assms(3) by (simp add: totp_counter_def last_counter_def credential_row_of_def)
qed

lemma sqlite_binding_keeps:
  assumes "authn_ok ad" "lift_tables (\<lambda>db. create_principal_and_bind db p e) ad = (r, ad')"
  shows "ad_credentials ad' = ad_credentials ad"
proof -
  obtain db where db: "create_principal_and_bind (ad_tables ad) p e = (r, db)" "ad' = cascade db ad"
    using assms(2) by (auto simp: lift_tables_eq)
  have "set (db_identities (ad_tables ad)) \<subseteq> set (db_identities db)"
    using db(1) by (cases rule: create_principal_and_bind_cases [of "ad_tables ad" p e])
      (auto simp: sql_insert_principal_def sql_insert_identity_def split: if_splits)
  then show ?thesis using cascade_grow [OF assms(1)] db(2) by simp
qed

lemma sqlite_undo:
  assumes "authn_ok ad" "external_identity_key_of e = Inr k" "lift_tables (\<lambda>db. create_principal_and_bind db p e) ad = (Inr q, ad')"
  shows "lift_tables (\<lambda>db. rollback_identity_binding db (pi_id p) k) ad' = (Inr (), ad)"
proof -
  have c: "create_principal_and_bind (ad_tables ad) p e = (Inr q, ad_tables ad')" using assms(3) by (auto simp: lift_tables_eq)
  have "valid_db (ad_tables ad)" using authn_ok_tables(1) [OF assms(1)] by (simp add: readable_db_def)
  from rollback_undoes_creation [OF this c assms(2)]
  have "lift_tables (\<lambda>db. rollback_identity_binding db (pi_id p) k) ad' = (Inr (), cascade (ad_tables ad) ad')"
    by (simp add: lift_tables_def)
  moreover have "cascade (ad_tables ad) ad' = cascade (ad_tables ad) ad"
    using sqlite_binding_keeps [OF assms(1,3)] by (simp add: cascade_def)
  ultimately show ?thesis using cascade_same [OF assms(1)] by simp
qed

abbreviation sqlite_store :: "(json \<Rightarrow> int option) \<Rightarrow> bool" where
  "sqlite_store cast_integer \<equiv> standalone_store authn_identity_repository authn_ok (\<lambda>ad. sqlite_bound (ad_tables ad))
     (sqlite_credential_repository cast_integer) active_credential (totp_counter cast_integer)"

lemma sqlite_standalone_store:
  assumes cast: "\<And>n :: u64. uint n < 2 ^ 63 \<Longrightarrow> cast_integer (JNumber (u64_to_string n)) = Some (uint n)"
  shows "sqlite_store cast_integer"
proof (rule standalone_store.intro [OF authn_link.identity_bindings_axioms sqlite_credential_storage [OF cast]],
    goal_cases)
  case 2
  show ?case
    unfolding authn_identity_repository_def identity_binding_repository.simps sqlite_credential_repository_def credential_repository.simps
    by unfold_locales
      (use sqlite_active_secret sqlite_active_bound sqlite_undo sqlite_binding_keeps sqlite_create_counter [OF cast]
        create_credential_tables advance_counter_tables swap_data_tables in
        \<open>(blast | simp add: active_credential_def totp_counter_def fun_eq_iff)+\<close>)
qed simp

interpretation sqlite_standalone: standalone_store authn_identity_repository authn_ok "\<lambda>ad. sqlite_bound (ad_tables ad)"
  "sqlite_credential_repository integer_cast" active_credential "totp_counter integer_cast"
  by (rule sqlite_standalone_store) (rule integer_cast_decimal)

section \<open>An example service\<close>

definition plain_argon2 :: argon2_lib where
  "plain_argon2 = \<lparr>a2_hash_password = (\<lambda>salt password. Some (''argon2:'' @ password)), a2_parse = Some,
     a2_verify_password = (\<lambda>password hash. hash = ''argon2:'' @ password)\<rparr>"

definition plain_totp :: totp_lib where
  "plain_totp = \<lparr>tl_standard_decode = Some, tl_url_safe_encode = (\<lambda>x. x), tl_url_safe_decode = Some, tl_new_from_slice = Some,
     tl_encrypt = (\<lambda>k n m aad. Some (rev m)), tl_decrypt = (\<lambda>k n m aad. Some (rev m)), tl_from_utf8 = Some,
     tl_to_base32 = (\<lambda>x. x), tl_try_from_base32 = Some, tl_build = Some, tl_to_url = (\<lambda>t. Some ''otpauth://totp''),
     tl_check_current = (\<lambda>t now one_time. if one_time = ot_secret t then Some now else None)\<rparr>"

definition plain_lib :: standalone_lib where
  "plain_lib = \<lparr>sl_argon2 = plain_argon2, sl_totp = plain_totp, sl_to_lowercase = to_ascii_lowercase, sl_random_id = (\<lambda>x. x),
     sl_enrollment = \<lparr>co_to_vec = (\<lambda>c. Some (ec_credential_id c)),
       co_from_slice = (\<lambda>i. Some \<lparr>ec_external_identity = \<lparr>ei_provider = ''standalone'', ei_issuer = ''https://a'', ei_subject = ''local_s1'', ei_claims = []\<rparr>,
         ec_credential_id = i, ec_encrypted_secret = ''v1:123456789012terces''\<rparr>), co_sha256_hex = (\<lambda>x. x)\<rparr>\<rparr>"

definition plain_pipeline :: "(authn_database, string, string) authentication_pipeline" where
  "plain_pipeline = \<lparr>pl_linking = \<lparr>als_policy = \<lparr>al_strategy = FirstLogin, al_authoritative_providers = [], al_allow_link = []\<rparr>,
       als_repository = authn_identity_repository, als_b64_encode = (\<lambda>x. x)\<rparr>,
     pl_tokens = \<lparr>ts_config = sample_token_properties, ts_signing_key = Some ''k'', ts_public_key = Some ''k''\<rparr>,
     pl_lib = \<lparr>il_rsa = text_rsa\<lparr>rsa_sign := (\<lambda>k m. ''s''), jwt_b64_encode := (\<lambda>x. x)\<rparr>, il_tokens = \<lparr>url_safe_no_pad_decode = hex_decode, url_safe_decode = (\<lambda>s. None), json_from_slice = (\<lambda>s. None)\<rparr>,
       il_claims_to_vec = (\<lambda>m. Some ''c'')\<rparr>\<rparr>"

definition plain_handler :: "string \<Rightarrow> (authn_database, memory_cache, string, string, unit) standalone_handler" where
  "plain_handler issuer = \<lparr>sh_config = \<lparr>sa_enabled = True, sa_issuer = issuer, sa_credential_encryption_key = [],
       sa_password = \<lparr>pp_min_length = 4\<rparr>, sa_totp = \<lparr>tp_enabled = True, tp_issuer = ''ag'', tp_digits = 6, tp_step_seconds = 30, tp_skew = 1\<rparr>,
       sa_webauthn = \<lparr>wp_enabled = False, wp_rp_id = [], wp_rp_origin = [], wp_rp_name = []\<rparr>\<rparr>,
     sh_credentials = sqlite_credential_repository integer_cast, sh_challenges = Some memory_challenges, sh_pipeline = plain_pipeline,
     sh_password = \<lparr>pv_minimum_length = 4, pv_dummy_hash = ''argon2:dummy''\<rparr>,
     sh_totp = Some \<lparr>to_config = \<lparr>tp_enabled = True, tp_issuer = ''ag'', tp_digits = 6, tp_step_seconds = 30, tp_skew = 1\<rparr>, to_cipher = []\<rparr>,
     sh_webauthn = None, sh_challenge_ttl = from_secs 300, sh_lib = plain_lib\<rparr>"

definition plain_env :: "string \<Rightarrow> request_env" where
  "plain_env n = \<lparr>rq_at = 0, rq_now = 1000, rq_created = 0, rq_cache_now = 5, rq_cache_later = 5, rq_subject = ''s'' @ n, rq_principal = ''p'' @ n,
     rq_salt = [], rq_credential = ''c'' @ n, rq_challenge = ''h'' @ n, rq_secret = ''secret'', rq_nonce = ''123456789012''\<rparr>"

definition empty_authn :: authn_database where
  "empty_authn = \<lparr>ad_tables = empty_db, ad_credentials = []\<rparr>"

definition ann :: registration_request where
  "ann = \<lparr>rr_login = ''Ann'', rr_password = ''open'', rr_display_name = ''Ann A.''\<rparr>"

definition ann_registered :: authn_database where
  "ann_registered = \<lparr>ad_tables = \<lparr>db_principals = [\<lparr>tp_id = ''P_p1'', tp_kind = ''USER'', tp_display_name = ''Ann A.'',
         tp_status = ''ACTIVE'', tp_authorization_state = JObject []\<rparr>],
       db_identities = [\<lparr>ti_principal_id = ''P_p1'', ti_provider = ''standalone'', ti_issuer = ''https://a'', ti_subject = ''local_s1'',
         ti_claims = JObject [(''display_name'', JString ''Ann A.'')]\<rparr>],
       db_actions = [], db_roles = [], db_role_actions = [], db_role_bindings = []\<rparr>,
     ad_credentials = [\<lparr>tc_id = ''pwd_c1'', tc_identity_provider = ''standalone'', tc_identity_issuer = ''https://a'',
       tc_identity_subject = ''local_s1'', tc_kind = ''password'', tc_credential_key = Some ''ann'',
       tc_secret_data = Some ''argon2:open'', tc_credential_data = None, tc_created_at = 0, tc_revoked = False\<rparr>]\<rparr>"

text \<open>The same with an enrolled one-time password.\<close>

definition ann_enrolled :: authn_database where
  "ann_enrolled = ann_registered\<lparr>ad_credentials := ad_credentials ann_registered @
     [\<lparr>tc_id = ''totp_c2'', tc_identity_provider = ''standalone'', tc_identity_issuer = ''https://a'',
       tc_identity_subject = ''local_s1'', tc_kind = ''totp'', tc_credential_key = None,
       tc_secret_data = Some ''v1:123456789012terces'',
       tc_credential_data = Some (JObject [(''lastCounter'', JNumber ''1000'')]), tc_created_at = 0, tc_revoked = False\<rparr>]\<rparr>"

lemma plain_fields:
  "sh_credentials (plain_handler issuer) = sqlite_credential_repository integer_cast"
  "als_repository (pl_linking (sh_pipeline (plain_handler issuer))) = authn_identity_repository"
  "sl_argon2 (sh_lib (plain_handler issuer)) = plain_argon2"
  "sh_challenges (plain_handler issuer) = Some memory_challenges"
  by (simp_all add: plain_handler_def plain_pipeline_def plain_lib_def)

lemma empty_authn_ok: "authn_ok empty_authn"
  using empty_readable by (simp add: empty_authn_def authn_ok_def credential_rows_ok_def indexed_keys_def empty_db_def)

lemma ann_registers: "\<exists>response. register (plain_handler ''https://a'') (plain_env ''1'') empty_authn [] ann = (Inr response, ann_registered)"
proof -
  have "case register (plain_handler ''https://a'') (plain_env ''1'') empty_authn [] ann of
      (Inl _, _) \<Rightarrow> False | (Inr _, ad) \<Rightarrow> ad = ann_registered" by code_simp
  then show ?thesis by (simp split: prod.splits sum.splits)
qed

lemma ann_ok: "authn_ok ann_registered"
  using sqlite_standalone.register_ok [OF empty_authn_ok plain_fields(1,2), of "''https://a''" "plain_env ''1''" "[]" ann] ann_registers by auto

definition ann_again :: "string option \<Rightarrow> login_request" where
  "ann_again one_time = \<lparr>lq_login = ''ANN '', lq_password = ''open'', lq_totp = one_time, lq_return_to = []\<rparr>"

lemma ann_normalized:
  "normalize_login (sh_lib (plain_handler issuer)) (lq_login (ann_again one_time)) = Inr ''ann''"
  "normalize_login (sh_lib (plain_handler issuer)) (rr_login ann) = Inr ''ann''"
proof -
  have "normalize_login plain_lib ''ANN '' = Inr ''ann''" "normalize_login plain_lib ''Ann'' = Inr ''ann''" by code_simp+
  then show "normalize_login (sh_lib (plain_handler issuer)) (lq_login (ann_again one_time)) = Inr ''ann''"
    "normalize_login (sh_lib (plain_handler issuer)) (rr_login ann) = Inr ''ann''"
    by (simp_all add: plain_handler_def ann_again_def ann_def)
qed

lemma ann_fresh: "sqlite_bound (ad_tables empty_authn) k = None"
  by (simp add: empty_authn_def sqlite_bound_def identity_owner_def empty_db_def)

text \<open>Ann's enrollment of a one-time password, from a pending challenge.\<close>

definition ann_challenges :: memory_cache where
  "ann_challenges = snd (put_json memory_challenges (sl_enrollment plain_lib) 5 5 enrollment_purpose ''h1''
     \<lparr>ec_external_identity = \<lparr>ei_provider = ''standalone'', ei_issuer = ''https://a'', ei_subject = ''local_s1'', ei_claims = []\<rparr>,
      ec_credential_id = ''totp_c2'', ec_encrypted_secret = ''v1:123456789012terces''\<rparr> (from_secs 300) small_cache)"

definition ann_enrolls :: "(api_error, login_response) result \<times> authn_database \<times> memory_cache" where
  "ann_enrolls = totp_enrollment_verify (plain_handler ''https://a'') (plain_env ''2'') ann_registered ann_challenges
     \<lparr>ev_challenge_id = ''h1'', ev_code = ''secret''\<rparr>"

section \<open>Properties\<close>

text \<open>
  Claim C3. A login needs every factor that is enrolled: credentials authenticate only with a password that
  verifies against the hash stored under the normalized login, never against the placeholder hash, and where
  the identity has a one-time secret, only with a code of such a secret whose counter is greater than
  the last one accepted, which is stored before the login returns.
\<close>

theorem login_needs_every_factor:
  assumes "\<And>n :: u64. uint n < 2 ^ 63 \<Longrightarrow> cast_integer (JNumber (u64_to_string n)) = Some (uint n)"
    and "authn_ok ad" "sh_credentials h = sqlite_credential_repository cast_integer"
    and "authenticate_credentials h e ad request = (Inr res, ad')"
  shows "\<exists>login c hash. normalize_login (sh_lib h) (lq_login request) = Inr login \<and>
    active_credential ad (cr_id c) = Some c \<and> cr_kind c = PasswordKind \<and> cr_credential_key c = Some login \<and>
    ek_issuer (cr_identity c) = sa_issuer (sh_config h) \<and> cr_secret_data c = Some hash \<and>
    verify_sync (sl_argon2 (sh_lib h)) (lq_password request) hash \<and>
    external_identity_key_of (res_external_identity res) = Inr (cr_identity c) \<and>
    (if \<exists>i t. active_credential ad i = Some t \<and> cr_identity t = cr_identity c \<and> cr_kind t = TotpKind
     then \<exists>t one_time n. active_credential ad (cr_id t) = Some t \<and> cr_identity t = cr_identity c \<and> cr_kind t = TotpKind \<and>
       lq_totp request = Some one_time \<and> totp_proof h (rq_now e) (ei_subject (res_external_identity res)) one_time t n \<and>
       totp_counter cast_integer ad (cr_id t) < uint n \<and>
       totp_counter cast_integer ad' = (totp_counter cast_integer ad)(cr_id t := uint n) \<and> res_amr res = [''pwd'', ''otp'']
     else ad' = ad \<and> res_amr res = [''pwd''])"
  using sqlite_standalone_store [OF assms(1)] assms(2-4) by (rule standalone_store.login_factors)

theorem login_needs_every_factor_witness:
  "\<exists>res ad' c. authenticate_credentials (plain_handler ''https://a'') (plain_env ''3'') ann_registered (ann_again None) = (Inr res, ad') \<and>
     cr_credential_key c = Some ''ann'' \<and> active_credential ann_registered (cr_id c) = Some c"
proof -
  have "case authenticate_credentials (plain_handler ''https://a'') (plain_env ''3'') ann_registered (ann_again None) of
      (Inl _, _) \<Rightarrow> False | (Inr _, _) \<Rightarrow> True" by code_simp
  then obtain res ad' where r: "authenticate_credentials (plain_handler ''https://a'') (plain_env ''3'') ann_registered (ann_again None) = (Inr res, ad')"
    by (simp split: prod.splits sum.splits)
  note n = ann_normalized(1)
  from login_needs_every_factor [OF integer_cast_decimal ann_ok plain_fields(1) r] obtain login c where
    "normalize_login (sh_lib (plain_handler ''https://a'')) (lq_login (ann_again None)) = Inr login"
    "active_credential ann_registered (cr_id c) = Some c" "cr_credential_key c = Some login" by blast
  then show ?thesis using r n by auto
qed

text \<open>
  Claim C28. Registration and login agree: the account that a registration without a bearer token created, for a
  fresh subject, is authenticated by the same password and any spelling of the login that normalizes alike, without a
  write, and the login answers as the principal that the registration returned with the validated destination; the one
  failure left is that the token of the login cannot be issued.
\<close>

theorem registered_account_logs_in:
  assumes "\<And>n :: u64. uint n < 2 ^ 63 \<Longrightarrow> cast_integer (JNumber (u64_to_string n)) = Some (uint n)"
    and "authn_ok ad" "sh_credentials h = sqlite_credential_repository cast_integer"
    and "als_repository (pl_linking (sh_pipeline h)) = authn_identity_repository"
    and "register h e ad hs request = (Inr response, ad')" "\<not> contains_header hs ''authorization''"
    and "\<And>k. external_identity_key_of (standalone_identity h e request) = Inr k \<Longrightarrow> sqlite_bound (ad_tables ad) k = None"
    and "\<And>salt password hash. hash_sync (sl_argon2 (sh_lib h)) salt password = Some hash \<Longrightarrow>
      verify_sync (sl_argon2 (sh_lib h)) password hash"
    and "normalize_login (sh_lib h) (lq_login again) = normalize_login (sh_lib h) (rr_login request)"
    and "lq_password again = rr_password request" "validate_return_to a (lq_return_to again) = Inr path"
  shows "\<exists>r. standalone_login h a e' ad' again = (r, ad') \<and>
    (case r of Inl err \<Rightarrow> err = internal ''canonical token could not be issued''
     | Inr response' \<Rightarrow> ap_principal_id (lr_principal response') = ap_principal_id (lr_principal response) \<and> lr_return_uri response' = path)"
proof -
  have store: "sqlite_store cast_integer" by (rule sqlite_standalone_store) (rule assms(1))
  have "\<exists>res who. authenticate_credentials h e' ad' again = (Inr res, ad') \<and> res_amr res = [''pwd''] \<and>
      resolve_login (pl_linking (sh_pipeline h)) ad' res User (rq_principal e') = (Inr who, ad') \<and>
      ap_principal_id who = ap_principal_id (lr_principal response)"
    by (rule standalone_store.registered_resolves [OF store assms(2-6)]) (rule assms(7), assumption, rule assms(8), assumption, rule assms, rule assms)
  then obtain res who where r: "authenticate_credentials h e' ad' again = (Inr res, ad')"
    "resolve_login (pl_linking (sh_pipeline h)) ad' res User (rq_principal e') = (Inr who, ad')"
    "ap_principal_id who = ap_principal_id (lr_principal response)" by blast
  have issued: "case pipeline_issue (sh_pipeline h) (rq_now e') res who of Inl err \<Rightarrow> api_pipeline err = internal ''canonical token could not be issued''
      | Inr issued \<Rightarrow> ap_principal_id (ia_principal issued) = ap_principal_id who"
    by (cases "pipeline_issue (sh_pipeline h) (rq_now e') res who")
      (auto simp: pipeline_issue_def Let_def result_simps project_authorization_context_def)
  have "standalone_login h a e' ad' again = (case pipeline_issue (sh_pipeline h) (rq_now e') res who of
      Inl err \<Rightarrow> Inl (api_pipeline err) | Inr issued \<Rightarrow> Inr (login_response_new issued path), ad')"
    using r(1,2) assms(11) by (simp add: standalone_login_def pipeline_login_def split: sum.split)
  with issued r(3) show ?thesis by (cases "pipeline_issue (sh_pipeline h) (rq_now e') res who") (auto simp: login_response_new_def)
qed

theorem registered_account_logs_in_witness:
  "\<exists>response response'. register (plain_handler ''https://a'') (plain_env ''1'') empty_authn [] ann = (Inr response, ann_registered) \<and>
     standalone_login (plain_handler ''https://a'') example_resolver (plain_env ''3'') ann_registered (ann_again None) = (Inr response', ann_registered) \<and>
     ap_principal_id (lr_principal response') = ap_principal_id (lr_principal response)"
proof -
  let ?login = "standalone_login (plain_handler ''https://a'') example_resolver (plain_env ''3'') ann_registered (ann_again None)"
  have "case ?login of (Inl _, _) \<Rightarrow> False | (Inr _, _) \<Rightarrow> True" by code_simp
  then obtain response' ad' where login: "?login = (Inr response', ad')" by (cases ?login; cases "fst ?login") auto
  obtain response where r: "register (plain_handler ''https://a'') (plain_env ''1'') empty_authn [] ann = (Inr response, ann_registered)"
    using ann_registers by blast
  have "verify_sync (sl_argon2 (sh_lib (plain_handler ''https://a''))) password hash"
    if "hash_sync (sl_argon2 (sh_lib (plain_handler ''https://a''))) salt password = Some hash" for salt password hash
    using that by (auto simp: plain_fields plain_argon2_def hash_sync_def verify_sync_def)
  moreover have "normalize_login (sh_lib (plain_handler ''https://a'')) (lq_login (ann_again None)) =
      normalize_login (sh_lib (plain_handler ''https://a'')) (rr_login ann)"
    "lq_password (ann_again None) = rr_password ann" by (simp_all only: ann_normalized) (simp add: ann_again_def ann_def)
  moreover have "validate_return_to example_resolver (lq_return_to (ann_again None)) = Inr []"
    by (simp add: ann_again_def validate_return_to_def validate_destination_def)
  ultimately have "\<exists>r. ?login = (r, ann_registered) \<and> (case r of Inl err \<Rightarrow> err = internal ''canonical token could not be issued''
      | Inr x \<Rightarrow> ap_principal_id (lr_principal x) = ap_principal_id (lr_principal response) \<and> lr_return_uri x = [])"
    by (intro registered_account_logs_in [OF integer_cast_decimal empty_authn_ok plain_fields(1,2) r _ ann_fresh]) (auto simp: contains_header_def)
  with login r show ?thesis by auto
qed

text \<open>
  Claim C11. A registration that fails leaves no trace: unless its token could not be signed, a failed registration
  without a bearer token for a fresh subject, whether it was refused, met a conflict or could not store the
  credential, leaves the database exactly as it was, with the new principal and its binding rolled back.
\<close>

theorem failed_registration_leaves_no_trace:
  assumes "\<And>n :: u64. uint n < 2 ^ 63 \<Longrightarrow> cast_integer (JNumber (u64_to_string n)) = Some (uint n)"
    and "authn_ok ad" "sh_credentials h = sqlite_credential_repository cast_integer"
    and "als_repository (pl_linking (sh_pipeline h)) = authn_identity_repository"
    and "register h e ad hs request = (Inl err, ad')" "\<not> contains_header hs ''authorization''"
    and "\<And>k. external_identity_key_of (standalone_identity h e request) = Inr k \<Longrightarrow> sqlite_bound (ad_tables ad) k = None"
    and "err \<noteq> internal ''canonical token could not be issued''"
  shows "ad' = ad"
  using sqlite_standalone_store [OF assms(1)] assms(2-8) by (rule standalone_store.register_failed)

theorem failed_registration_leaves_no_trace_witness:
  "\<exists>err. register (plain_handler ''https://b'') (plain_env ''2'') ann_registered [] ann = (Inl err, ann_registered) \<and> ae_code err = ''conflict''"
proof -
  let ?h = "plain_handler ''https://b''"
  obtain r ad' where r: "register ?h (plain_env ''2'') ann_registered [] ann = (r, ad')" by fastforce
  have "case register ?h (plain_env ''2'') ann_registered [] ann of (Inl err, _) \<Rightarrow> ae_code err = ''conflict'' | (Inr _, _) \<Rightarrow> False" by code_simp
  with r obtain err where e: "r = Inl err" "ae_code err = ''conflict''" by (cases r) auto
  have "list_all (\<lambda>i. ti_issuer i = ''https://a'') (db_identities (ad_tables ann_registered))" by (simp add: ann_registered_def)
  then have "sqlite_bound (ad_tables ann_registered) k = None" if "ek_issuer k = ''https://b''" for k
    using that authn_ok_tables(1) [OF ann_ok]
    by (auto simp: sqlite_bound_None identity_owner_def find_None_iff list_all_iff row_has_key_def)
  moreover have "ek_issuer k = ''https://b''" if "external_identity_key_of (standalone_identity ?h (plain_env ''2'') ann) = Inr k" for k
    using that by (auto simp: external_identity_key_of_def external_identity_key_new_Inr standalone_identity_def plain_handler_def)
  moreover have "err \<noteq> internal ''canonical token could not be issued''" using e(2) by (auto simp: internal_def)
  ultimately have "ad' = ann_registered"
    using failed_registration_leaves_no_trace [OF integer_cast_decimal ann_ok plain_fields(1,2) r [unfolded e(1)]]
    by (auto simp: contains_header_def)
  then show ?thesis using r e by simp
qed

text \<open>
  Enrollment protects the account: once a one-time password is enrolled, every later login with that
  identity presents a code, and where it is a code of the enrolled secret, one with a greater counter than
  the code that completed the enrollment.
\<close>

theorem enrollment_protects_login:
  assumes "\<And>n :: u64. uint n < 2 ^ 63 \<Longrightarrow> cast_integer (JNumber (u64_to_string n)) = Some (uint n)"
    and "authn_ok ad" "sh_credentials h = sqlite_credential_repository cast_integer"
    and "als_repository (pl_linking (sh_pipeline h)) = authn_identity_repository" "sh_challenges h = Some cache"
    and "totp_enrollment_verify h e ad c ev = (Inr response, ad', c')"
    and "consume_json cache (sl_enrollment (sh_lib h)) (rq_cache_now e) enrollment_purpose (ev_challenge_id ev) c = (Inr (Some challenge), c1)"
    and "authenticate_credentials h e' ad' request = (Inr res, ad'')"
    and "external_identity_key_of (res_external_identity res) = external_identity_key_of (ec_external_identity challenge)"
  shows "res_amr res = [''pwd'', ''otp''] \<and> (\<exists>one_time t n n'. lq_totp request = Some one_time \<and>
    cr_kind t = TotpKind \<and> totp_proof h (rq_now e') (ei_subject (res_external_identity res)) one_time t n \<and>
    (\<exists>enrolled. active_credential ad' (ec_credential_id challenge) = Some enrolled \<and>
      totp_proof h (rq_now e) (ei_subject (ec_external_identity challenge)) (ev_code ev) enrolled n') \<and>
    (cr_id t = ec_credential_id challenge \<and> uint n' < 2 ^ 63 \<longrightarrow> n' < n))"
proof -
  have store: "sqlite_store cast_integer" by (rule sqlite_standalone_store) (rule assms(1))
  obtain challenge' t n' k where
    "consume_json cache (sl_enrollment (sh_lib h)) (rq_cache_now e) enrollment_purpose (ev_challenge_id ev) c = (Inr (Some challenge'), c')"
    "external_identity_key_of (ec_external_identity challenge') = Inr k" "authn_ok ad'"
    "active_credential ad' (ec_credential_id challenge') = Some t" "cr_identity t = k" "cr_kind t = TotpKind"
    "totp_proof h (rq_now e) (ei_subject (ec_external_identity challenge')) (ev_code ev) t n'"
    "uint n' < 2 ^ 63 \<longrightarrow> totp_counter cast_integer ad' (ec_credential_id challenge') = uint n'"
    by (rule standalone_store.enrolled [OF store assms(2-6)])
  with assms(7) have en: "external_identity_key_of (ec_external_identity challenge) = Inr k" "authn_ok ad'"
    "active_credential ad' (ec_credential_id challenge) = Some t" "cr_identity t = k" "cr_kind t = TotpKind"
    "totp_proof h (rq_now e) (ei_subject (ec_external_identity challenge)) (ev_code ev) t n'"
    "uint n' < 2 ^ 63 \<longrightarrow> totp_counter cast_integer ad' (ec_credential_id challenge) = uint n'" by auto
  from standalone_store.login_factors [OF store en(2) assms(3,8)] obtain pw :: iam_standalone_credential where
    pw: "external_identity_key_of (res_external_identity res) = Inr (cr_identity pw)" and
    f: "if \<exists>i t. active_credential ad' i = Some t \<and> cr_identity t = cr_identity pw \<and> cr_kind t = TotpKind
     then \<exists>t one_time n. active_credential ad' (cr_id t) = Some t \<and> cr_identity t = cr_identity pw \<and> cr_kind t = TotpKind \<and>
       lq_totp request = Some one_time \<and> totp_proof h (rq_now e') (ei_subject (res_external_identity res)) one_time t n \<and>
       totp_counter cast_integer ad' (cr_id t) < uint n \<and>
       totp_counter cast_integer ad'' = (totp_counter cast_integer ad')(cr_id t := uint n) \<and> res_amr res = [''pwd'', ''otp'']
     else ad'' = ad' \<and> res_amr res = [''pwd'']" by blast
  have "\<exists>i t. active_credential ad' i = Some t \<and> cr_identity t = cr_identity pw \<and> cr_kind t = TotpKind"
    using pw assms(9) en(1,3-5) by auto
  from f [unfolded if_P [OF this]] obtain t2 one_time n where
    "cr_kind t2 = TotpKind" "lq_totp request = Some one_time"
    "totp_proof h (rq_now e') (ei_subject (res_external_identity res)) one_time t2 n"
    "totp_counter cast_integer ad' (cr_id t2) < uint n" "res_amr res = [''pwd'', ''otp'']" by blast
  moreover from this en(7) have "cr_id t2 = ec_credential_id challenge \<and> uint n' < 2 ^ 63 \<longrightarrow> n' < n"
    by (auto simp: word_less_alt)
  ultimately show ?thesis using en(3,6) by blast
qed

theorem enrollment_protects_login_witness:
  "\<exists>res ad''. authenticate_credentials (plain_handler ''https://a'') (plain_env ''3''\<lparr>rq_now := 1001\<rparr>) ann_enrolled (ann_again (Some ''secret'')) = (Inr res, ad'') \<and>
     res_amr res = [''pwd'', ''otp'']"
proof -
  let ?h = "plain_handler ''https://a''"
  let ?e = "plain_env ''3''\<lparr>rq_now := 1001\<rparr>"
  have "case ann_enrolls of (Inl _, _) \<Rightarrow> False | (Inr _, ad, _) \<Rightarrow> ad = ann_enrolled" by code_simp
  then obtain response c' where en: "ann_enrolls = (Inr response, ann_enrolled, c')" by (simp split: prod.splits sum.splits)
  have "case authenticate_credentials ?h ?e ann_enrolled (ann_again (Some ''secret'')) of (Inl _, _) \<Rightarrow> False
     | (Inr res, _) \<Rightarrow> external_identity_key_of (res_external_identity res) =
         Inr \<lparr>ek_provider = ''standalone'', ek_issuer = ''https://a'', ek_subject = ''local_s1''\<rparr>" by code_simp
  then obtain res ad'' where res: "authenticate_credentials ?h ?e ann_enrolled (ann_again (Some ''secret'')) = (Inr res, ad'')"
    and key: "external_identity_key_of (res_external_identity res) =
      Inr \<lparr>ek_provider = ''standalone'', ek_issuer = ''https://a'', ek_subject = ''local_s1''\<rparr>"
    by (simp split: prod.splits sum.splits)
  obtain challenge c1 where ch: "consume_json memory_challenges (sl_enrollment (sh_lib ?h)) (rq_cache_now (plain_env ''2'')) enrollment_purpose
      (ev_challenge_id \<lparr>ev_challenge_id = ''h1'', ev_code = ''secret''\<rparr>) ann_challenges = (Inr (Some challenge), c1)"
    by (rule sqlite_standalone.enrolled [OF ann_ok plain_fields(1,2,4) en [unfolded ann_enrolls_def]])
  have "external_identity_key_of (ec_external_identity challenge) = Inr \<lparr>ek_provider = ''standalone'', ek_issuer = ''https://a'', ek_subject = ''local_s1''\<rparr>"
  proof -
    have "\<exists>i. co_from_slice (sl_enrollment (sh_lib ?h)) i = Some challenge"
      using ch by (auto simp: memory_challenge_ops result_simps split: option.splits)
    then have "ec_external_identity challenge = \<lparr>ei_provider = ''standalone'', ei_issuer = ''https://a'', ei_subject = ''local_s1'', ei_claims = []\<rparr>"
      by (auto simp: plain_handler_def plain_lib_def)
    moreover have "external_identity_key_of \<lparr>ei_provider = ''standalone'', ei_issuer = ''https://a'', ei_subject = ''local_s1'', ei_claims = []\<rparr> =
      Inr \<lparr>ek_provider = ''standalone'', ek_issuer = ''https://a'', ek_subject = ''local_s1''\<rparr>" by code_simp
    ultimately show ?thesis by simp
  qed
  then have "external_identity_key_of (res_external_identity res) = external_identity_key_of (ec_external_identity challenge)"
    by (simp only: key)
  from enrollment_protects_login [OF integer_cast_decimal ann_ok plain_fields(1,2,4) en [unfolded ann_enrolls_def] ch res this]
  have "res_amr res = [''pwd'', ''otp'']" by blast
  then show ?thesis using res by blast
qed

text \<open>
  No request breaks the tables: from a well-formed database, every sequence of registrations, logins and
  enrollments, successful or not, leads to one with unique identifiers, unique active keys, checked rows
  and an identity behind every credential.
\<close>

theorem requests_keep_the_schema:
  assumes "\<And>n :: u64. uint n < 2 ^ 63 \<Longrightarrow> cast_integer (JNumber (u64_to_string n)) = Some (uint n)"
    and "authn_ok ad" "sh_credentials h = sqlite_credential_repository cast_integer"
    and "als_repository (pl_linking (sh_pipeline h)) = authn_identity_repository" "standalone_run h (ad, c) (ad', c')"
  shows "authn_ok ad'"
  using standalone_store.run_ok [OF sqlite_standalone_store [OF assms(1)] assms(5) _ assms(3,4)] assms(2) by simp

theorem requests_keep_the_schema_witness: "authn_ok ann_registered"
  using requests_keep_the_schema [OF integer_cast_decimal empty_authn_ok plain_fields(1,2) run_register [OF run_start], of _ "plain_env ''1''" "[]" ann]
    ann_registers by (metis snd_conv)

end
