(* ===== verification/Webauthn.thy ===== *)
theory Webauthn
  imports Standalone
begin

text \<open>
  Passkeys: the adapter of the \<open>webauthn-rs\<close> crate (\<open>authn/src/provider/standalone/webauthn.rs\<close>) and the four
  ceremony handlers (\<open>authn/src/handler/webauthn.rs\<close>). The crate is a parameter: its states, options and
  browser responses are the JSON values they are serialized as, passkeys and verification results are opaque.
  The lemmas show whose account a passkey is added to and what a passkey login needs.
\<close>

section \<open>Provider\<close>

text \<open>
  A configured server of the crate with the codecs around it: \<open>Uuid::new_v5\<close> in the URL namespace, \<open>serde_json\<close> on
  passkeys, and base64. \<open>update_credential\<close> answers with the flag and the updated passkey.
\<close>

record ('q, 'v) webauthn_lib =
  wl_start_passkey_registration :: "string \<Rightarrow> string \<Rightarrow> string \<Rightarrow> string list option \<Rightarrow> (json \<times> json) option"
  wl_finish_passkey_registration :: "json \<Rightarrow> json \<Rightarrow> 'q option"
  wl_start_passkey_authentication :: "'q list \<Rightarrow> (json \<times> json) option"
  wl_finish_passkey_authentication :: "json \<Rightarrow> json \<Rightarrow> 'v option"
  wl_user_verified :: "'v \<Rightarrow> bool"
  wl_needs_update :: "'v \<Rightarrow> bool"
  wl_update_credential :: "'q \<Rightarrow> 'v \<Rightarrow> (bool \<times> 'q) option"
  wl_cred_id :: "'q \<Rightarrow> string"
  wl_to_value :: "'q \<Rightarrow> json option"
  wl_from_value :: "json \<Rightarrow> 'q option"
  wl_uuid_v5 :: "string \<Rightarrow> string"
  wl_url_safe_encode :: "string \<Rightarrow> string"

datatype webauthn_provider_error = Ceremony | UserVerificationRequired | InvalidCredentialData | CredentialNotMatched

definition webauthn_provider_new ::
  "(string \<Rightarrow> 'u option) \<Rightarrow> (string \<Rightarrow> 'u \<Rightarrow> string \<Rightarrow> 'w option) \<Rightarrow> webauthn_properties \<Rightarrow> 'w option" where
  "webauthn_provider_new parse_url build configuration =
     Option.bind (parse_url (wp_rp_origin configuration)) (\<lambda>origin. build (wp_rp_id configuration) origin (wp_rp_name configuration))"

definition parse_passkey ::
  "('q, 'v) webauthn_lib \<Rightarrow> iam_standalone_credential \<Rightarrow> (webauthn_provider_error, 'q) result" where
  "parse_passkey lib credential =
     and_then (ok_or InvalidCredentialData (cr_credential_data credential)) (\<lambda>v.
       ok_or InvalidCredentialData (wl_from_value lib v))"

definition start_registration ::
  "('q, 'v) webauthn_lib \<Rightarrow> external_identity_key \<Rightarrow> string \<Rightarrow> iam_standalone_credential list \<Rightarrow>
   (webauthn_provider_error, json \<times> json) result" where
  "start_registration lib identity display_name credentials =
     and_then (traverse (parse_passkey lib) credentials) (\<lambda>passkeys.
       let exclude = map (wl_cred_id lib) passkeys;
           user_id = wl_uuid_v5 lib (ek_issuer identity @ '':'' @ ek_subject identity)
       in ok_or Ceremony (wl_start_passkey_registration lib user_id (ek_subject identity) display_name
            (if exclude = [] then None else Some exclude)))"

definition finish_registration ::
  "('q, 'v) webauthn_lib \<Rightarrow> json \<Rightarrow> json \<Rightarrow> (webauthn_provider_error, string \<times> json) result" where
  "finish_registration lib credential state =
     and_then (ok_or Ceremony (wl_finish_passkey_registration lib credential state)) (\<lambda>passkey.
     and_then (ok_or InvalidCredentialData (wl_to_value lib passkey)) (\<lambda>v.
       Inr (wl_url_safe_encode lib (wl_cred_id lib passkey), v)))"

definition start_authentication ::
  "('q, 'v) webauthn_lib \<Rightarrow> iam_standalone_credential list \<Rightarrow> (webauthn_provider_error, json \<times> json) result" where
  "start_authentication lib credentials =
     and_then (traverse (parse_passkey lib) credentials) (\<lambda>passkeys.
       if passkeys = [] then Inl CredentialNotMatched
       else ok_or Ceremony (wl_start_passkey_authentication lib passkeys))"

text \<open>The loop over the stored passkeys: the first that the result belongs to decides.\<close>

fun match_passkey ::
  "('q, 'v) webauthn_lib \<Rightarrow> 'v \<Rightarrow> iam_standalone_credential list \<Rightarrow>
   (webauthn_provider_error, string \<times> json option) result" where
  "match_passkey lib verified [] = Inl CredentialNotMatched"
| "match_passkey lib verified (credential # rest) =
     and_then (parse_passkey lib credential) (\<lambda>passkey.
       case wl_update_credential lib passkey verified of
         None \<Rightarrow> match_passkey lib verified rest
       | Some (changed, updated) \<Rightarrow>
           if wl_needs_update lib verified \<and> \<not> changed then Inl CredentialNotMatched
           else if changed then
             and_then (ok_or InvalidCredentialData (wl_to_value lib updated)) (\<lambda>v. Inr (cr_id credential, Some v))
           else Inr (cr_id credential, None))"

definition finish_authentication ::
  "('q, 'v) webauthn_lib \<Rightarrow> json \<Rightarrow> json \<Rightarrow> iam_standalone_credential list \<Rightarrow>
   (webauthn_provider_error, string \<times> json option) result" where
  "finish_authentication lib credential state credentials =
     and_then (ok_or Ceremony (wl_finish_passkey_authentication lib credential state)) (\<lambda>verified.
       if \<not> wl_user_verified lib verified then Inl UserVerificationRequired
       else match_passkey lib verified credentials)"

section \<open>Handlers\<close>

record registration_challenge_request =
  rc_login :: string
  rc_password :: string
  rc_totp :: "string option"
  rc_display_name :: "string option"

record ceremony_response =
  cx_challenge_id :: string
  cx_options :: json

record ceremony_verify_request =
  cv_challenge_id :: string
  cv_credential :: json
  cv_return_to :: string

record registration_challenge =
  rg_principal_id :: string
  rg_external_identity :: external_identity
  rg_amr :: "string list"
  rg_state :: json

record authentication_challenge =
  ac_external_identity :: external_identity
  ac_state :: json

record webauthn_codecs =
  wc_registration :: "registration_challenge challenge_codec"
  wc_authentication :: "authentication_challenge challenge_codec"

fun webauthn_error :: "webauthn_provider_error \<Rightarrow> api_error" where
  "webauthn_error InvalidCredentialData = internal ''WebAuthn credential data is invalid''"
| "webauthn_error UserVerificationRequired = unauthorized ''WebAuthn user verification is required''"
| "webauthn_error Ceremony = unauthorized ''WebAuthn authentication failed''"
| "webauthn_error CredentialNotMatched = unauthorized ''WebAuthn authentication failed''"

definition registration_purpose :: string where
  "registration_purpose = ''standalone-webauthn-registration''"

definition authentication_purpose :: string where
  "authentication_purpose = ''standalone-webauthn-authentication''"

definition webauthn_registration_challenge ::
  "('d, 'c, 'k, 'p, ('q, 'v) webauthn_lib) standalone_handler \<Rightarrow> webauthn_codecs \<Rightarrow> request_env \<Rightarrow> 'd \<Rightarrow> 'c \<Rightarrow> headers \<Rightarrow>
   registration_challenge_request \<Rightarrow> (api_error, ceremony_response) result \<times> 'd \<times> 'c" where
  "webauthn_registration_challenge h cs e d c hs request =
     (case sh_webauthn h of
        None \<Rightarrow> (Inl (not_found ''WebAuthn is not enabled''), d, c)
      | Some webauthn \<Rightarrow>
     (case authenticate_request_principal (sh_pipeline h) (rq_now e) hs of
        Inl err \<Rightarrow> (Inl (api_token err), d, c)
      | Inr principal_id \<Rightarrow>
     (case authenticate_credentials h e d \<lparr>lq_login = rc_login request, lq_password = rc_password request,
         lq_totp = rc_totp request, lq_return_to = []\<rparr> of
        (Inl err, d1) \<Rightarrow> (Inl err, d1, c)
      | (Inr authentication, d1) \<Rightarrow>
     (case verify_step_up (sh_pipeline h) d1 principal_id authentication User (rq_principal e) of
        (Inl err, d2) \<Rightarrow> (Inl (api_pipeline err), d2, c)
      | (Inr _, d2) \<Rightarrow>
     (case external_identity_key_of (res_external_identity authentication) of
        Inl _ \<Rightarrow> (Inl (internal ''standalone identity is invalid''), d2, c)
      | Inr ikey \<Rightarrow>
     (case cp_list_by_identity (sh_credentials h) d2 ikey WebauthnKind of
        Inl err \<Rightarrow> (Inl (api_credential err), d2, c)
      | Inr existing \<Rightarrow>
          let display_name =
            (case rc_display_name request of
               Some n \<Rightarrow> n
             | None \<Rightarrow> (case Option.bind (map_of (ei_claims (res_external_identity authentication)) ''display_name'') json_as_str of
                 Some n \<Rightarrow> n | None \<Rightarrow> ''AuthGuard user''))
          in
     (case start_registration webauthn ikey display_name existing of
        Inl err \<Rightarrow> (Inl (webauthn_error err), d2, c)
      | Inr (options, registration) \<Rightarrow>
     (case challenge_store h of
        Inl err \<Rightarrow> (Inl err, d2, c)
      | Inr cache \<Rightarrow>
          let challenge_id = sl_random_id (sh_lib h) (rq_challenge e)
          in
     (case put_json cache (wc_registration cs) (rq_cache_now e) (rq_cache_later e) registration_purpose challenge_id
         \<lparr>rg_principal_id = principal_id, rg_external_identity = res_external_identity authentication,
          rg_amr = res_amr authentication, rg_state = registration\<rparr> (sh_challenge_ttl h) c of
        (Inl err, c') \<Rightarrow> (Inl (api_challenge err), d2, c')
      | (Inr _, c') \<Rightarrow> (Inr \<lparr>cx_challenge_id = challenge_id, cx_options = options\<rparr>, d2, c'))))))))))"

definition webauthn_registration_verify ::
  "('d, 'c, 'k, 'p, ('q, 'v) webauthn_lib) standalone_handler \<Rightarrow> application_resolver \<Rightarrow> webauthn_codecs \<Rightarrow> request_env \<Rightarrow> 'd \<Rightarrow> 'c \<Rightarrow>
   headers \<Rightarrow> ceremony_verify_request \<Rightarrow> (api_error, login_response) result \<times> 'd \<times> 'c" where
  "webauthn_registration_verify h a cs e d c hs request =
     (case validate_return_to a (cv_return_to request) of
        Inl err \<Rightarrow> (Inl err, d, c)
      | Inr return_to \<Rightarrow>
     (case sh_webauthn h of
        None \<Rightarrow> (Inl (not_found ''WebAuthn is not enabled''), d, c)
      | Some webauthn \<Rightarrow>
     (case authenticate_request_principal (sh_pipeline h) (rq_now e) hs of
        Inl err \<Rightarrow> (Inl (api_token err), d, c)
      | Inr principal_id \<Rightarrow>
     (case challenge_store h of
        Inl err \<Rightarrow> (Inl err, d, c)
      | Inr cache \<Rightarrow>
     (case consume_json cache (wc_registration cs) (rq_cache_now e) registration_purpose (cv_challenge_id request) c of
        (Inl err, c') \<Rightarrow> (Inl (api_challenge err), d, c')
      | (Inr None, c') \<Rightarrow> (Inl (bad_request ''invalid or expired WebAuthn challenge''), d, c')
      | (Inr (Some challenge), c') \<Rightarrow>
          if rg_principal_id challenge \<noteq> principal_id
          then (Inl (unauthorized ''WebAuthn registration belongs to another Principal''), d, c')
          else
     (case finish_registration webauthn (cv_credential request) (rg_state challenge) of
        Inl err \<Rightarrow> (Inl (webauthn_error err), d, c')
      | Inr (credential_key, credential_data) \<Rightarrow>
     (case external_identity_key_of (rg_external_identity challenge) of
        Inl _ \<Rightarrow> (Inl (bad_request ''invalid standalone identity''), d, c')
      | Inr ikey \<Rightarrow>
     (case complete_step_up (sh_pipeline h) d (rq_now e) principal_id
         (authentication_result_new (rg_external_identity challenge) (rg_amr challenge @ [''webauthn''])
            (Some ''urn:authguard:acr:webauthn:uv'') (rq_at e)) User (rq_principal e) of
        (Inl err, d1) \<Rightarrow> (Inl (api_pipeline err), d1, c')
      | (Inr issued, d1) \<Rightarrow>
     (case cp_create_credential (sh_credentials h) (rq_created e) d1
         \<lparr>cr_id = ''webauthn_'' @ sl_random_id (sh_lib h) (rq_credential e), cr_identity = ikey, cr_kind = WebauthnKind,
          cr_credential_key = Some credential_key, cr_secret_data = None, cr_credential_data = Some credential_data\<rparr> of
        (Inl err, d2) \<Rightarrow> (Inl (api_credential err), d2, c')
      | (Inr _, d2) \<Rightarrow> (Inr (login_response_new issued return_to), d2, c'))))))))))"

definition webauthn_authentication_challenge ::
  "('d, 'c, 'k, 'p, ('q, 'v) webauthn_lib) standalone_handler \<Rightarrow> webauthn_codecs \<Rightarrow> request_env \<Rightarrow> 'd \<Rightarrow> 'c \<Rightarrow> string \<Rightarrow>
   (api_error, ceremony_response) result \<times> 'd \<times> 'c" where
  "webauthn_authentication_challenge h cs e d c request_login =
     (case sh_webauthn h of
        None \<Rightarrow> (Inl (not_found ''WebAuthn is not enabled''), d, c)
      | Some webauthn \<Rightarrow>
     (case normalize_login (sh_lib h) request_login of
        Inl err \<Rightarrow> (Inl err, d, c)
      | Inr login \<Rightarrow>
     (case cp_find_by_key (sh_credentials h) d (sa_issuer (sh_config h)) PasswordKind login of
        Inl err \<Rightarrow> (Inl (api_credential err), d, c)
      | Inr None \<Rightarrow> (Inl (unauthorized ''WebAuthn authentication failed''), d, c)
      | Inr (Some identity) \<Rightarrow>
     (case cp_list_by_identity (sh_credentials h) d (cr_identity (sci_credential identity)) WebauthnKind of
        Inl err \<Rightarrow> (Inl (api_credential err), d, c)
      | Inr credentials \<Rightarrow>
     (case start_authentication webauthn credentials of
        Inl err \<Rightarrow> (Inl (webauthn_error err), d, c)
      | Inr (options, authentication) \<Rightarrow>
     (case challenge_store h of
        Inl err \<Rightarrow> (Inl err, d, c)
      | Inr cache \<Rightarrow>
          let challenge_id = sl_random_id (sh_lib h) (rq_challenge e)
          in
     (case put_json cache (wc_authentication cs) (rq_cache_now e) (rq_cache_later e) authentication_purpose challenge_id
         \<lparr>ac_external_identity = sci_external_identity identity, ac_state = authentication\<rparr> (sh_challenge_ttl h) c of
        (Inl err, c') \<Rightarrow> (Inl (api_challenge err), d, c')
      | (Inr _, c') \<Rightarrow> (Inr \<lparr>cx_challenge_id = challenge_id, cx_options = options\<rparr>, d, c'))))))))"

text \<open>The update of a passkey whose signature counter moved, against the data that was read.\<close>

definition swap_passkey_data ::
  "'d credential_repository \<Rightarrow> 'd \<Rightarrow> iam_standalone_credential list \<Rightarrow> string \<Rightarrow> json option \<Rightarrow> (api_error, unit) result \<times> 'd" where
  "swap_passkey_data repo d credentials credential_id changed =
     (case changed of
        None \<Rightarrow> (Inr (), d)
      | Some data \<Rightarrow>
          (case Option.bind (find (\<lambda>credential. cr_id credential = credential_id) credentials) cr_credential_data of
             None \<Rightarrow> (Inl (unauthorized ''WebAuthn authentication failed''), d)
           | Some current_data \<Rightarrow>
               (case cp_compare_and_swap repo d credential_id current_data data of
                  (Inl err, d') \<Rightarrow> (Inl (api_credential err), d')
                | (Inr swapped, d') \<Rightarrow>
                    if \<not> swapped then (Inl (unauthorized ''WebAuthn authentication failed''), d') else (Inr (), d'))))"

definition webauthn_authentication_verify ::
  "('d, 'c, 'k, 'p, ('q, 'v) webauthn_lib) standalone_handler \<Rightarrow> application_resolver \<Rightarrow> webauthn_codecs \<Rightarrow> request_env \<Rightarrow> 'd \<Rightarrow> 'c \<Rightarrow>
   ceremony_verify_request \<Rightarrow> (api_error, login_response) result \<times> 'd \<times> 'c" where
  "webauthn_authentication_verify h a cs e d c request =
     (case validate_return_to a (cv_return_to request) of
        Inl err \<Rightarrow> (Inl err, d, c)
      | Inr return_to \<Rightarrow>
     (case sh_webauthn h of
        None \<Rightarrow> (Inl (not_found ''WebAuthn is not enabled''), d, c)
      | Some webauthn \<Rightarrow>
     (case challenge_store h of
        Inl err \<Rightarrow> (Inl err, d, c)
      | Inr cache \<Rightarrow>
     (case consume_json cache (wc_authentication cs) (rq_cache_now e) authentication_purpose (cv_challenge_id request) c of
        (Inl err, c') \<Rightarrow> (Inl (api_challenge err), d, c')
      | (Inr None, c') \<Rightarrow> (Inl (bad_request ''invalid or expired WebAuthn challenge''), d, c')
      | (Inr (Some challenge), c') \<Rightarrow>
     (case external_identity_key_of (ac_external_identity challenge) of
        Inl _ \<Rightarrow> (Inl (bad_request ''invalid standalone identity''), d, c')
      | Inr ikey \<Rightarrow>
     (case cp_list_by_identity (sh_credentials h) d ikey WebauthnKind of
        Inl err \<Rightarrow> (Inl (api_credential err), d, c')
      | Inr credentials \<Rightarrow>
     (case finish_authentication webauthn (cv_credential request) (ac_state challenge) credentials of
        Inl err \<Rightarrow> (Inl (webauthn_error err), d, c')
      | Inr (credential_id, changed) \<Rightarrow>
     (case swap_passkey_data (sh_credentials h) d credentials credential_id changed of
        (Inl err, d1) \<Rightarrow> (Inl err, d1, c')
      | (Inr _, d1) \<Rightarrow>
     (case pipeline_login (sh_pipeline h) d1 (rq_now e)
         (authentication_result_new (ac_external_identity challenge) [''webauthn''] (Some ''urn:authguard:acr:webauthn:uv'') (rq_at e))
         User (rq_principal e) of
        (Inl err, d2) \<Rightarrow> (Inl (api_pipeline err), d2, c')
      | (Inr issued, d2) \<Rightarrow> (Inr (login_response_new issued return_to), d2, c'))))))))))"

section \<open>Lemmas\<close>

lemma match_passkey_Inr:
  assumes "match_passkey lib verified cs = Inr (i, data)"
  obtains t passkey changed updated where "t \<in> set cs" "cr_id t = i" "parse_passkey lib t = Inr passkey"
    "wl_update_credential lib passkey verified = Some (changed, updated)" "wl_needs_update lib verified \<longrightarrow> changed"
    "if changed then data \<noteq> None \<and> data = wl_to_value lib updated else data = None"
  using assms
proof (induction cs arbitrary: thesis)
  case (Cons t cs)
  from Cons.prems(2) obtain passkey where passkey: "parse_passkey lib t = Inr passkey"
    by (auto simp: result_simps)
  show ?case
  proof (cases "wl_update_credential lib passkey verified")
    case None
    then have "match_passkey lib verified cs = Inr (i, data)" using Cons.prems(2) passkey by simp
    from Cons.IH [OF _ this] Cons.prems(1) show ?thesis by (metis list.set_intros(2))
  next
    case (Some u)
    obtain changed updated where u: "u = (changed, updated)" by fastforce
    from Cons.prems(2) passkey Some u have "cr_id t = i" "wl_needs_update lib verified \<longrightarrow> changed"
      "if changed then data \<noteq> None \<and> data = wl_to_value lib updated else data = None"
      by (auto simp: result_simps split: if_splits)
    then show ?thesis using Cons.prems(1) [of t passkey changed updated] passkey Some u by simp
  qed
qed simp

lemma parse_passkey_Inr: "parse_passkey lib t = Inr passkey \<longleftrightarrow> (\<exists>v. cr_credential_data t = Some v \<and> wl_from_value lib v = Some passkey)"
  by (auto simp: parse_passkey_def result_simps)

lemma complete_step_up_Inr:
  assumes "complete_step_up pl d now n a kind random = (Inr issued, d')"
  obtains who where "resolve_login (pl_linking pl) d a kind random = (Inr who, d')" "ap_principal_id who = n"
    "ap_principal_id (ia_principal issued) = n"
  using assms by (auto simp: complete_step_up_def resolve_step_up_def pipeline_issue_def Let_def result_simps
    project_authorization_context_def split: prod.splits sum.splits if_splits)

text \<open>The branches of a completed registration.\<close>

lemma registration_verify_Inr:
  assumes "webauthn_registration_verify h a cs e d c hs request = (Inr response, d', c')"
  obtains webauthn n cache challenge key data k issued d1 u where "sh_webauthn h = Some webauthn"
    "authenticate_request_principal (sh_pipeline h) (rq_now e) hs = Inr n" "sh_challenges h = Some cache"
    "consume_json cache (wc_registration cs) (rq_cache_now e) registration_purpose (cv_challenge_id request) c = (Inr (Some challenge), c')"
    "rg_principal_id challenge = n" "finish_registration webauthn (cv_credential request) (rg_state challenge) = Inr (key, data)"
    "external_identity_key_of (rg_external_identity challenge) = Inr k"
    "complete_step_up (sh_pipeline h) d (rq_now e) n (authentication_result_new (rg_external_identity challenge)
       (rg_amr challenge @ [''webauthn'']) (Some ''urn:authguard:acr:webauthn:uv'') (rq_at e)) User (rq_principal e) = (Inr issued, d1)"
    "cp_create_credential (sh_credentials h) (rq_created e) d1 \<lparr>cr_id = ''webauthn_'' @ sl_random_id (sh_lib h) (rq_credential e),
       cr_identity = k, cr_kind = WebauthnKind, cr_credential_key = Some key, cr_secret_data = None, cr_credential_data = Some data\<rparr> = (Inr u, d')"
    "lr_principal response = ia_principal issued"
proof -
  obtain path where 1: "validate_return_to a (cv_return_to request) = Inr path"
    using assms by (auto simp: webauthn_registration_verify_def split: sum.splits)
  obtain webauthn where 2: "sh_webauthn h = Some webauthn"
    using assms 1 by (auto simp: webauthn_registration_verify_def split: option.splits)
  obtain n where 3: "authenticate_request_principal (sh_pipeline h) (rq_now e) hs = Inr n"
    using assms 1 2 by (auto simp: webauthn_registration_verify_def split: sum.splits)
  obtain cache where 4: "sh_challenges h = Some cache"
    using assms 1 2 3 by (cases "sh_challenges h") (auto simp: webauthn_registration_verify_def challenge_store_def)
  obtain challenge where 5: "consume_json cache (wc_registration cs) (rq_cache_now e) registration_purpose (cv_challenge_id request) c =
      (Inr (Some challenge), c')" "rg_principal_id challenge = n"
    using assms 1 2 3 4 by (auto simp: webauthn_registration_verify_def challenge_store_def
      split: prod.splits sum.splits option.splits if_splits)
  obtain key data where 6: "finish_registration webauthn (cv_credential request) (rg_state challenge) = Inr (key, data)"
    using assms 1 2 3 4 5 by (auto simp: webauthn_registration_verify_def challenge_store_def split: sum.splits)
  obtain k where 7: "external_identity_key_of (rg_external_identity challenge) = Inr k"
    using assms 1 2 3 4 5 6 by (auto simp: webauthn_registration_verify_def challenge_store_def split: sum.splits)
  obtain issued d1 where 8: "complete_step_up (sh_pipeline h) d (rq_now e) n (authentication_result_new (rg_external_identity challenge)
       (rg_amr challenge @ [''webauthn'']) (Some ''urn:authguard:acr:webauthn:uv'') (rq_at e)) User (rq_principal e) = (Inr issued, d1)"
    using assms 1 2 3 4 5 6 7 by (auto simp: webauthn_registration_verify_def challenge_store_def split: prod.splits sum.splits)
  have "\<exists>u. cp_create_credential (sh_credentials h) (rq_created e) d1 \<lparr>cr_id = ''webauthn_'' @ sl_random_id (sh_lib h) (rq_credential e),
       cr_identity = k, cr_kind = WebauthnKind, cr_credential_key = Some key, cr_secret_data = None, cr_credential_data = Some data\<rparr> = (Inr u, d') \<and>
     lr_principal response = ia_principal issued"
    using assms 1 2 3 4 5 6 7 8
    by (auto simp: webauthn_registration_verify_def challenge_store_def login_response_new_def split: prod.splits sum.splits)
  then show thesis using that 2 3 4 5 6 7 8 by blast
qed

lemma authentication_verify_Inr:
  assumes "webauthn_authentication_verify h a cs e d c request = (Inr response, d', c')"
  obtains webauthn cache challenge k ts i data d1 issued where "sh_webauthn h = Some webauthn" "sh_challenges h = Some cache"
    "consume_json cache (wc_authentication cs) (rq_cache_now e) authentication_purpose (cv_challenge_id request) c = (Inr (Some challenge), c')"
    "external_identity_key_of (ac_external_identity challenge) = Inr k"
    "cp_list_by_identity (sh_credentials h) d k WebauthnKind = Inr ts"
    "finish_authentication webauthn (cv_credential request) (ac_state challenge) ts = Inr (i, data)"
    "swap_passkey_data (sh_credentials h) d ts i data = (Inr (), d1)"
    "pipeline_login (sh_pipeline h) d1 (rq_now e) (authentication_result_new (ac_external_identity challenge) [''webauthn'']
       (Some ''urn:authguard:acr:webauthn:uv'') (rq_at e)) User (rq_principal e) = (Inr issued, d')"
    "lr_principal response = ia_principal issued"
proof -
  obtain path where 1: "validate_return_to a (cv_return_to request) = Inr path"
    using assms by (auto simp: webauthn_authentication_verify_def split: sum.splits)
  obtain webauthn where 2: "sh_webauthn h = Some webauthn"
    using assms 1 by (auto simp: webauthn_authentication_verify_def split: option.splits)
  obtain cache where 3: "sh_challenges h = Some cache"
    using assms 1 2 by (cases "sh_challenges h") (auto simp: webauthn_authentication_verify_def challenge_store_def)
  obtain challenge where 4: "consume_json cache (wc_authentication cs) (rq_cache_now e) authentication_purpose (cv_challenge_id request) c =
      (Inr (Some challenge), c')"
    using assms 1 2 3 by (auto simp: webauthn_authentication_verify_def challenge_store_def
      split: prod.splits sum.splits option.splits if_splits)
  obtain k where 5: "external_identity_key_of (ac_external_identity challenge) = Inr k"
    using assms 1 2 3 4 by (auto simp: webauthn_authentication_verify_def challenge_store_def split: sum.splits)
  obtain ts where 6: "cp_list_by_identity (sh_credentials h) d k WebauthnKind = Inr ts"
    using assms 1 2 3 4 5 by (auto simp: webauthn_authentication_verify_def challenge_store_def split: sum.splits)
  obtain i data where 7: "finish_authentication webauthn (cv_credential request) (ac_state challenge) ts = Inr (i, data)"
    using assms 1 2 3 4 5 6 by (auto simp: webauthn_authentication_verify_def challenge_store_def split: sum.splits)
  obtain d1 where 8: "swap_passkey_data (sh_credentials h) d ts i data = (Inr (), d1)"
    using assms 1 2 3 4 5 6 7 by (auto simp: webauthn_authentication_verify_def challenge_store_def split: prod.splits sum.splits)
  have "\<exists>issued. pipeline_login (sh_pipeline h) d1 (rq_now e) (authentication_result_new (ac_external_identity challenge) [''webauthn'']
       (Some ''urn:authguard:acr:webauthn:uv'') (rq_at e)) User (rq_principal e) = (Inr issued, d') \<and> lr_principal response = ia_principal issued"
    using assms 1 2 3 4 5 6 7 8
    by (auto simp: webauthn_authentication_verify_def challenge_store_def login_response_new_def split: prod.splits sum.splits)
  then show thesis using that 2 3 4 5 6 7 8 by blast
qed

context standalone_store
begin

text \<open>A new passkey belongs to an identity that is bound to the authenticated principal.\<close>

lemma passkey_registered:
  assumes d: "ok d" and h: "sh_credentials h = creds" "als_repository (pl_linking (sh_pipeline h)) = repo"
    and r: "webauthn_registration_verify h a cs e d c hs request = (Inr response, d', c')"
  shows "\<exists>n t p. authenticate_request_principal (sh_pipeline h) (rq_now e) hs = Inr n \<and>
    ap_principal_id (lr_principal response) = n \<and> active d (cr_id t) = None \<and> active d' = (active d)(cr_id t \<mapsto> t) \<and>
    cr_kind t = WebauthnKind \<and> bound d' (cr_identity t) = Some p \<and> pi_id p = n \<and> pi_status p = Active"
  using r
proof (rule registration_verify_Inr, goal_cases)
  case (1 webauthn n cache challenge key data k issued d1 u)
  let ?t = "\<lparr>cr_id = ''webauthn_'' @ sl_random_id (sh_lib h) (rq_credential e), cr_identity = k, cr_kind = WebauthnKind,
    cr_credential_key = Some key, cr_secret_data = None, cr_credential_data = Some data\<rparr>"
  note w = 1(9) [unfolded h(1)]
  from 1(8) obtain who where who: "resolve_login (pl_linking (sh_pipeline h)) d (authentication_result_new (rg_external_identity challenge)
       (rg_amr challenge @ [''webauthn'']) (Some ''urn:authguard:acr:webauthn:uv'') (rq_at e)) User (rq_principal e) = (Inr who, d1)"
    "ap_principal_id who = n" "ap_principal_id (ia_principal issued) = n"
    by (rule complete_step_up_Inr)
  from login_binds [OF d h(2) who(1)] 1(7) obtain p b where p: "ok d1" "bound d1 k = Some p" "linking_context p b = Inr who"
    by (auto simp: authentication_result_new_def)
  have "active d (cr_id ?t) = None" "active d' = (active d)(cr_id ?t \<mapsto> ?t)" "bound d' k = Some p"
    using create_law [OF p(1) _ w] resolve_keeps(1) [OF d h(2) who(1)] credential_keeps(1) [OF w] p(2) by simp_all
  then show ?case
    using 1(2,10) who linking_context_Inr [OF p(3)] by (intro exI [of _ n] exI [of _ ?t] exI [of _ p]) simp
qed

lemma passkey_registered_ok:
  assumes d: "ok d" and h: "sh_credentials h = creds" "als_repository (pl_linking (sh_pipeline h)) = repo"
    and r: "webauthn_registration_verify h a cs e d c hs request = (Inr response, d', c')"
  shows "ok d'"
  using r
proof (rule registration_verify_Inr, goal_cases)
  case (1 webauthn n cache challenge key data k issued d1 u)
  from 1(8) obtain who where "resolve_login (pl_linking (sh_pipeline h)) d (authentication_result_new (rg_external_identity challenge)
       (rg_amr challenge @ [''webauthn'']) (Some ''urn:authguard:acr:webauthn:uv'') (rq_at e)) User (rq_principal e) = (Inr who, d1)"
    by (rule complete_step_up_Inr)
  then have "ok d1" using login_binds [OF d h(2)] by blast
  then show ?case using create_law [OF _ _ 1(9) [unfolded h(1)]] by simp
qed

text \<open>A passkey login needs a stored passkey, user verification and, for a moved counter, an undisturbed update.\<close>

lemma passkey_login:
  assumes d: "ok d" and h: "sh_credentials h = creds" "als_repository (pl_linking (sh_pipeline h)) = repo" "sh_webauthn h = Some w"
    and value_object: "\<And>q v. wl_to_value w q = Some v \<Longrightarrow> object_data (Some v)"
    and r: "webauthn_authentication_verify h a cs e d c request = (Inr response, d', c')"
  shows "\<exists>challenge t verified v passkey changed updated p.
    (\<exists>cache. sh_challenges h = Some cache \<and> consume_json cache (wc_authentication cs) (rq_cache_now e) authentication_purpose
       (cv_challenge_id request) c = (Inr (Some challenge), c')) \<and>
    external_identity_key_of (ac_external_identity challenge) = Inr (cr_identity t) \<and>
    active d (cr_id t) = Some t \<and> cr_kind t = WebauthnKind \<and> cr_credential_data t = Some v \<and> wl_from_value w v = Some passkey \<and>
    wl_finish_passkey_authentication w (cv_credential request) (ac_state challenge) = Some verified \<and> wl_user_verified w verified \<and>
    wl_update_credential w passkey verified = Some (changed, updated) \<and> (wl_needs_update w verified \<longrightarrow> changed) \<and>
    active d' = (if changed then (active d)(cr_id t \<mapsto> t\<lparr>cr_credential_data := wl_to_value w updated\<rparr>) else active d) \<and>
    bound d' (cr_identity t) = Some p \<and> pi_id p = ap_principal_id (lr_principal response) \<and> pi_status p = Active"
  using r
proof (rule authentication_verify_Inr, goal_cases)
  case (1 webauthn cache challenge k ts i data d1 issued)
  have w: "webauthn = w" using 1(1) h(3) by simp
  from 1(6) obtain verified where v: "wl_finish_passkey_authentication w (cv_credential request) (ac_state challenge) = Some verified"
    "wl_user_verified w verified" "match_passkey w verified ts = Inr (i, data)"
    by (auto simp: finish_authentication_def result_simps w split: if_splits)
  from v(3) obtain t passkey changed updated where t: "t \<in> set ts" "cr_id t = i" "parse_passkey w t = Inr passkey"
    "wl_update_credential w passkey verified = Some (changed, updated)" "wl_needs_update w verified \<longrightarrow> changed"
    "if changed then data \<noteq> None \<and> data = wl_to_value w updated else data = None"
    by (rule match_passkey_Inr)
  have ts: "set ts = {c. \<exists>i. active d i = Some c \<and> cr_identity c = k \<and> cr_kind c = WebauthnKind}"
    using list_law [OF d key_canonical [OF 1(4)], of WebauthnKind] 1(5) h(1) by auto
  with t(1,2) active_id have at: "active d i = Some t" "cr_identity t = k" "cr_kind t = WebauthnKind" by auto
  obtain v where data: "cr_credential_data t = Some v" "wl_from_value w v = Some passkey" using t(3) by (auto simp: parse_passkey_Inr)
  have d1: "ok d1 \<and> bound d1 = bound d \<and>
      active d1 = (if changed then (active d)(i \<mapsto> t\<lparr>cr_credential_data := wl_to_value w updated\<rparr>) else active d)"
  proof (cases data)
    case None
    then have "d1 = d" "\<not> changed" using 1(7) t(6) by (auto simp: swap_passkey_data_def)
    then show ?thesis using d by simp
  next
    case (Some x)
    then have x: "changed" "wl_to_value w updated = Some x" using t(6) by (auto split: if_splits)
    obtain current where sw: "cp_compare_and_swap creds d i current x = (Inr True, d1)"
      using 1(7) Some h(1) by (auto simp: swap_passkey_data_def split: option.splits prod.splits sum.splits if_splits)
    show ?thesis using swap_law [OF d value_object [OF x(2)] sw] credential_keeps(3) [OF sw] x at(1) by simp
  qed
  from 1(8) obtain who where who: "resolve_login (pl_linking (sh_pipeline h)) d1 (authentication_result_new (ac_external_identity challenge)
       [''webauthn''] (Some ''urn:authguard:acr:webauthn:uv'') (rq_at e)) User (rq_principal e) = (Inr who, d')"
    "ap_principal_id (ia_principal issued) = ap_principal_id who" by (rule pipeline_login_Inr)
  from login_binds [OF conjunct1 [OF d1] h(2) who(1)] 1(4) obtain p b where p: "bound d' k = Some p" "linking_context p b = Inr who"
    by (auto simp: authentication_result_new_def)
  have active': "active d' = active d1" using resolve_keeps(1) [OF conjunct1 [OF d1] h(2) who(1)] .
  show ?case
    using 1(2-4,9) v(1,2) t(2,4,5) at data d1 active' p(1) who(2) linking_context_Inr [OF p(2)]
    by (intro exI [of _ challenge] exI [of _ t] exI [of _ verified] exI [of _ v] exI [of _ passkey] exI [of _ changed]
      exI [of _ updated] exI [of _ p]) simp
qed

end

section \<open>An example ceremony\<close>

text \<open>A cell for one challenge, a token that always reads as Ann's, and passkeys as texts.\<close>

definition cell_cache :: "string option challenge_cache" where
  "cell_cache = \<lparr>cc_put_if_absent = (\<lambda>t t' k v ttl c. (Inr (c = None), if c = None then Some v else c)),
     cc_take = (\<lambda>t k c. (Inr c, None))\<rparr>"

definition ann_identity :: external_identity where
  "ann_identity = \<lparr>ei_provider = ''standalone'', ei_issuer = ''https://a'', ei_subject = ''local_s1'', ei_claims = []\<rparr>"

definition ann_codecs :: webauthn_codecs where
  "ann_codecs = \<lparr>wc_registration = \<lparr>co_to_vec = (\<lambda>c. Some []), co_from_slice = (\<lambda>s. Some \<lparr>rg_principal_id = ''P_p1'',
       rg_external_identity = ann_identity, rg_amr = [''pwd''], rg_state = JNull\<rparr>), co_sha256_hex = (\<lambda>x. x)\<rparr>,
     wc_authentication = \<lparr>co_to_vec = (\<lambda>c. Some []), co_from_slice = (\<lambda>s. Some \<lparr>ac_external_identity = ann_identity, ac_state = JNull\<rparr>),
       co_sha256_hex = (\<lambda>x. x)\<rparr>\<rparr>"

definition text_passkeys :: "(string, string) webauthn_lib" where
  "text_passkeys = \<lparr>wl_start_passkey_registration = (\<lambda>u s n ex. Some (JNull, JNull)),
     wl_finish_passkey_registration = (\<lambda>c st. json_as_str c), wl_start_passkey_authentication = (\<lambda>ps. Some (JNull, JNull)),
     wl_finish_passkey_authentication = (\<lambda>c st. json_as_str c), wl_user_verified = (\<lambda>v. True), wl_needs_update = (\<lambda>v. True),
     wl_update_credential = (\<lambda>q v. if q = v then Some (True, q @ ''+'') else None), wl_cred_id = (\<lambda>q. q),
     wl_to_value = (\<lambda>q. Some (JObject [(''cred'', JString q)])),
     wl_from_value = (\<lambda>v. Option.bind (json_as_object v) (\<lambda>ms. Option.bind (map_of ms ''cred'') json_as_str)),
     wl_uuid_v5 = (\<lambda>x. x), wl_url_safe_encode = (\<lambda>x. x)\<rparr>"

definition ann_claims :: "(string \<times> json) list" where
  "ann_claims = [(''principal_id'', JString ''P_p1''), (''sub'', JString ''P_p1''), (''iss'', JString ''authguard''),
     (''aud'', JString ''apps''), (''exp'', JNumber ''2000''), (''principal_kind'', JString ''USER'')]"

definition passkey_handler :: "(authn_database, string option, string, string, (string, string) webauthn_lib) standalone_handler" where
  "passkey_handler = \<lparr>sh_config = sh_config (plain_handler ''https://a''), sh_credentials = sqlite_credential_repository integer_cast,
     sh_challenges = Some cell_cache,
     sh_pipeline = plain_pipeline\<lparr>pl_lib := \<lparr>il_rsa = text_rsa\<lparr>rsa_sign := (\<lambda>k m. ''s''), rsa_verify := (\<lambda>p m s. True), jwt_b64_encode := (\<lambda>x. x), jwt_b64_decode := Some\<rparr>,
       il_tokens = \<lparr>url_safe_no_pad_decode = Some, url_safe_decode = (\<lambda>s. None), json_from_slice = (\<lambda>s. Some (JObject ann_claims))\<rparr>,
       il_claims_to_vec = (\<lambda>m. Some ''c'')\<rparr>\<rparr>,
     sh_password = \<lparr>pv_minimum_length = 4, pv_dummy_hash = []\<rparr>, sh_totp = None, sh_webauthn = Some text_passkeys,
     sh_challenge_ttl = from_secs 300, sh_lib = plain_lib\<rparr>"

definition ann_passkey :: authn_database where
  "ann_passkey = ann_registered\<lparr>ad_credentials := ad_credentials ann_registered @
     [\<lparr>tc_id = ''webauthn_c4'', tc_identity_provider = ''standalone'', tc_identity_issuer = ''https://a'',
       tc_identity_subject = ''local_s1'', tc_kind = ''webauthn'', tc_credential_key = Some ''k'', tc_secret_data = None,
       tc_credential_data = Some (JObject [(''cred'', JString ''k'')]), tc_created_at = 0, tc_revoked = False\<rparr>]\<rparr>"

lemma passkey_fields:
  "sh_credentials passkey_handler = sqlite_credential_repository integer_cast"
  "als_repository (pl_linking (sh_pipeline passkey_handler)) = authn_identity_repository"
  "sh_webauthn passkey_handler = Some text_passkeys"
  by (simp_all add: passkey_handler_def plain_pipeline_def)

lemma ann_adds_passkey:
  "\<exists>response. webauthn_registration_verify passkey_handler example_resolver ann_codecs (plain_env ''4'') ann_registered (Some [])
     (bearer_headers (jwt_header @ ''.c.s'')) \<lparr>cv_challenge_id = ''x'', cv_credential = JString ''k'', cv_return_to = []\<rparr> = (Inr response, ann_passkey, None)"
proof -
  have "case webauthn_registration_verify passkey_handler example_resolver ann_codecs (plain_env ''4'') ann_registered (Some [])
     (bearer_headers (jwt_header @ ''.c.s'')) \<lparr>cv_challenge_id = ''x'', cv_credential = JString ''k'', cv_return_to = []\<rparr> of
       (Inl _, _) \<Rightarrow> False | (Inr _, ad, c) \<Rightarrow> ad = ann_passkey \<and> c = None" by code_simp
  then show ?thesis by (simp split: prod.splits sum.splits)
qed

section \<open>Properties\<close>

text \<open>
  A passkey joins the account of its caller only: a registration that completes stores one new passkey, under
  an identity that is bound to the very principal that the bearer token or cookie of the request
  authenticates, which is active, and the response is for that principal.
\<close>

theorem passkey_joins_callers_account:
  assumes "\<And>n :: u64. uint n < 2 ^ 63 \<Longrightarrow> cast_integer (JNumber (u64_to_string n)) = Some (uint n)"
    and "authn_ok ad" "sh_credentials h = sqlite_credential_repository cast_integer"
    and "als_repository (pl_linking (sh_pipeline h)) = authn_identity_repository"
    and "webauthn_registration_verify h a cs e ad c hs request = (Inr response, ad', c')"
  shows "\<exists>n t p. authenticate_request_principal (sh_pipeline h) (rq_now e) hs = Inr n \<and>
    ap_principal_id (lr_principal response) = n \<and> active_credential ad (cr_id t) = None \<and>
    active_credential ad' = (active_credential ad)(cr_id t \<mapsto> t) \<and> cr_kind t = WebauthnKind \<and>
    sqlite_bound (ad_tables ad') (cr_identity t) = Some p \<and> pi_id p = n \<and> pi_status p = Active"
  using sqlite_standalone_store [OF assms(1)] assms(2-5) by (rule standalone_store.passkey_registered)

theorem passkey_joins_callers_account_witness:
  "\<exists>n t p. active_credential ann_passkey (cr_id t) = Some t \<and> cr_kind t = WebauthnKind \<and>
     sqlite_bound (ad_tables ann_passkey) (cr_identity t) = Some p \<and> pi_id p = n"
proof -
  obtain response where r: "webauthn_registration_verify passkey_handler example_resolver ann_codecs (plain_env ''4'') ann_registered (Some [])
     (bearer_headers (jwt_header @ ''.c.s'')) \<lparr>cv_challenge_id = ''x'', cv_credential = JString ''k'', cv_return_to = []\<rparr> = (Inr response, ann_passkey, None)"
    using ann_adds_passkey by blast
  from passkey_joins_callers_account [OF integer_cast_decimal ann_ok passkey_fields(1,2) r] show ?thesis by (metis fun_upd_same)
qed

text \<open>
  Claim C12. A passkey login is backed by a stored passkey: it succeeds only for a challenge that was pending, with an
  assertion that verifies with user verification against a passkey stored, active, for the identity of the
  challenge; when the signature counter of the passkey moved, the new state replaced exactly the state that
  was read; and the token is for the active principal that the identity is bound to.
\<close>

theorem passkey_login_is_verified:
  assumes "\<And>n :: u64. uint n < 2 ^ 63 \<Longrightarrow> cast_integer (JNumber (u64_to_string n)) = Some (uint n)"
    and "authn_ok ad" "sh_credentials h = sqlite_credential_repository cast_integer"
    and "als_repository (pl_linking (sh_pipeline h)) = authn_identity_repository" "sh_webauthn h = Some w"
    and "\<forall>q v. wl_to_value w q = Some v \<longrightarrow> object_data (Some v)"
    and "webauthn_authentication_verify h a cs e ad c request = (Inr response, ad', c')"
  shows "\<exists>challenge t verified v passkey changed updated p.
    (\<exists>cache. sh_challenges h = Some cache \<and> consume_json cache (wc_authentication cs) (rq_cache_now e) authentication_purpose
       (cv_challenge_id request) c = (Inr (Some challenge), c')) \<and>
    external_identity_key_of (ac_external_identity challenge) = Inr (cr_identity t) \<and>
    active_credential ad (cr_id t) = Some t \<and> cr_kind t = WebauthnKind \<and> cr_credential_data t = Some v \<and> wl_from_value w v = Some passkey \<and>
    wl_finish_passkey_authentication w (cv_credential request) (ac_state challenge) = Some verified \<and> wl_user_verified w verified \<and>
    wl_update_credential w passkey verified = Some (changed, updated) \<and> (wl_needs_update w verified \<longrightarrow> changed) \<and>
    active_credential ad' = (if changed then (active_credential ad)(cr_id t \<mapsto> t\<lparr>cr_credential_data := wl_to_value w updated\<rparr>)
      else active_credential ad) \<and>
    sqlite_bound (ad_tables ad') (cr_identity t) = Some p \<and> pi_id p = ap_principal_id (lr_principal response) \<and> pi_status p = Active"
proof -
  have store: "sqlite_store cast_integer" by (rule sqlite_standalone_store) (rule assms(1))
  show ?thesis by (rule standalone_store.passkey_login [OF store assms(2-5) _ assms(7)]) (use assms(6) in blast)
qed

theorem passkey_login_is_verified_witness:
  "\<exists>response ad' t. fst (webauthn_authentication_verify passkey_handler example_resolver ann_codecs (plain_env ''5'') ann_passkey (Some [])
     \<lparr>cv_challenge_id = ''x'', cv_credential = JString ''k'', cv_return_to = []\<rparr>) = Inr response \<and>
     active_credential ad' (cr_id t) = Some (t\<lparr>cr_credential_data := Some (JObject [(''cred'', JString ''k+'')])\<rparr>)"
proof -
  let ?v = "webauthn_authentication_verify passkey_handler example_resolver ann_codecs (plain_env ''5'') ann_passkey (Some [])
     \<lparr>cv_challenge_id = ''x'', cv_credential = JString ''k'', cv_return_to = []\<rparr>"
  have "case ?v of (Inl _, _) \<Rightarrow> False | (Inr _, _) \<Rightarrow> True" by code_simp
  then obtain response ad' c' where r: "?v = (Inr response, ad', c')"
    by (cases ?v; cases "fst ?v"; cases "snd ?v") auto
  obtain registered where reg: "webauthn_registration_verify passkey_handler example_resolver ann_codecs (plain_env ''4'') ann_registered (Some [])
     (bearer_headers (jwt_header @ ''.c.s'')) \<lparr>cv_challenge_id = ''x'', cv_credential = JString ''k'', cv_return_to = []\<rparr> = (Inr registered, ann_passkey, None)"
    using ann_adds_passkey by blast
  have ok: "authn_ok ann_passkey" by (rule sqlite_standalone.passkey_registered_ok [OF ann_ok passkey_fields(1,2) reg])
  have objects: "\<forall>q v. wl_to_value text_passkeys q = Some v \<longrightarrow> object_data (Some v)"
    by (auto simp: text_passkeys_def object_data_def)
  from passkey_login_is_verified [OF integer_cast_decimal ok passkey_fields objects r]
  obtain verified passkey changed updated and challenge :: authentication_challenge and t :: iam_standalone_credential where
    t: "wl_finish_passkey_authentication text_passkeys
      (cv_credential \<lparr>cv_challenge_id = ''x'', cv_credential = JString ''k'', cv_return_to = []\<rparr>) (ac_state challenge) = Some verified"
    "wl_update_credential text_passkeys passkey verified = Some (changed, updated)" "wl_needs_update text_passkeys verified \<longrightarrow> changed"
    "active_credential ad' = (if changed then (active_credential ann_passkey)(cr_id t \<mapsto> t\<lparr>cr_credential_data := wl_to_value text_passkeys updated\<rparr>)
      else active_credential ann_passkey)"
    by blast
  then have "active_credential ad' (cr_id t) = Some (t\<lparr>cr_credential_data := Some (JObject [(''cred'', JString ''k+'')])\<rparr>)"
    by (auto simp: text_passkeys_def split: if_splits)
  then show ?thesis using r by auto
qed

end
