(* ===== verification/Providers.thy ===== *)
theory Providers
  imports Hosted_Login
begin

text \<open>
  External identity providers: the configuration-driven OAuth adapter and the normalization of identities
  (\<open>authn/src/provider/base/\<close>), its GitHub, Google, QQ and WeChat variants, the OpenID Connect adapter
  (\<open>authn/src/provider/oidc.rs\<close>) and the HTTP transport (\<open>authn/src/provider/transport.rs\<close>). URLs, HTTP and
  the \<open>openidconnect\<close> crate are parameters. The locale \<open>identity_provider\<close> states what every adapter
  promises; the lemmas show where an identity and its claims come from, and that the authorization code
  of a callback is expanded as a template.
\<close>

section \<open>Configuration\<close>

record authorization_endpoint_properties =
  azp_endpoint :: string
  azp_scopes :: "string list"
  azp_query :: "(string \<times> string) list"

datatype http_method = GetMethod | PostMethod

datatype client_credential_placement = BodyPlacement | QueryPlacement | BasicPlacement | NonePlacement

record token_endpoint_properties =
  tep_endpoint :: string
  tep_method :: http_method
  tep_client_credentials :: client_credential_placement
  tep_headers :: "(string \<times> string) list"
  tep_query :: "(string \<times> string) list"
  tep_body :: "(string \<times> string) list"
  tep_access_token :: string

record identity_mapping_properties =
  im_endpoint :: "string option"
  im_subject :: string
  im_fallback_subject :: "string option"
  im_username :: "string option"
  im_email :: "string option"
  im_trusted_claims :: "(string \<times> string) list"

record oauth_provider_properties =
  op_issuer :: string
  op_client_id :: string
  op_client_secret :: string
  op_callback_url :: string
  op_authorization :: authorization_endpoint_properties
  op_token :: token_endpoint_properties
  op_identity :: identity_mapping_properties

record token_introspection_properties =
  tip_endpoint :: string
  tip_accepted_audiences :: "string list"

record oidc_provider_properties =
  ocp_issuer :: string
  ocp_client_id :: string
  ocp_client_secret :: string
  ocp_callback_url :: string
  ocp_scopes :: "string list"
  ocp_userinfo :: bool
  ocp_token_introspection :: "token_introspection_properties option"
  ocp_identity :: identity_mapping_properties

section \<open>Provider interface\<close>

datatype provider_error =
    InvalidConfiguration string
  | MissingAccessToken
  | MissingSubject
  | InvalidIdentityToken
  | UnsupportedFlow
  | ProviderTransport string
  | ProviderRejected nat

fun provider_error_category :: "provider_error \<Rightarrow> string" where
  "provider_error_category (InvalidConfiguration _) = ''invalid_configuration''"
| "provider_error_category MissingAccessToken = ''missing_access_token''"
| "provider_error_category MissingSubject = ''missing_subject''"
| "provider_error_category InvalidIdentityToken = ''invalid_identity_token''"
| "provider_error_category UnsupportedFlow = ''unsupported_flow''"
| "provider_error_category (ProviderTransport _) = ''transport''"
| "provider_error_category (ProviderRejected _) = ''provider_rejected''"

record oauth_like_callback =
  cb_authorization_code :: string
  cb_redirect_uri :: string
  cb_client_id :: string
  cb_client_secret :: string
  cb_nonce :: "string option"
  cb_pkce_verifier :: "string option"

record provider_authorization =
  pz_url :: url
  pz_nonce :: "string option"
  pz_pkce_verifier :: "string option"

text \<open>The randomness of one authorization: the nonce and the PKCE verifier of an OpenID Connect flow.\<close>

record flow_seed =
  fs_nonce :: string
  fs_pkce_verifier :: string

record provider_adapter =
  pa_provider_id :: string
  pa_authorize :: "flow_seed \<Rightarrow> string \<Rightarrow> string \<Rightarrow> string \<Rightarrow> (provider_error, provider_authorization) result"
  pa_authenticate :: "oauth_like_callback \<Rightarrow> (provider_error, external_identity) result"
  pa_authenticate_bearer :: "string \<Rightarrow> principal_kind \<Rightarrow> (provider_error, external_identity) result"

text \<open>The methods of the trait that have a body.\<close>

definition default_authorize ::
  "(string \<Rightarrow> string \<Rightarrow> string \<Rightarrow> (provider_error, url) result) \<Rightarrow> flow_seed \<Rightarrow> string \<Rightarrow> string \<Rightarrow> string \<Rightarrow>
   (provider_error, provider_authorization) result" where
  "default_authorize authorization_url seed client_id redirect_uri state =
     and_then (authorization_url client_id redirect_uri state) (\<lambda>url.
       Inr \<lparr>pz_url = url, pz_nonce = None, pz_pkce_verifier = None\<rparr>)"

definition default_authenticate_bearer :: "string \<Rightarrow> principal_kind \<Rightarrow> (provider_error, external_identity) result" where
  "default_authenticate_bearer access_token kind = Inl UnsupportedFlow"

section \<open>Transport\<close>

record token_exchange_request =
  tx_endpoint :: string
  tx_method :: http_method
  tx_headers :: "(string \<times> string) list"
  tx_query :: "(string \<times> string) list"
  tx_body :: "(string \<times> string) list"

record identity_lookup_request =
  lk_endpoint :: string
  lk_access_token :: string
  lk_access_token_query :: "string option"

record provider_transport =
  tr_exchange_token :: "token_exchange_request \<Rightarrow> (provider_error, json) result"
  tr_lookup_identity :: "identity_lookup_request \<Rightarrow> (provider_error, json) result"

text \<open>What the HTTP client is asked to send, and what it answers: a status, and the body read as JSON.\<close>

record http_request =
  hq_method :: http_method
  hq_url :: string
  hq_query :: "(string \<times> string) list"
  hq_headers :: "(string \<times> string) list"
  hq_form :: "(string \<times> string) list option"
  hq_bearer_auth :: "string option"
  hq_basic_auth :: "(string \<times> string) option"

record http_response =
  hr_status :: nat
  hr_json :: "(string, json) result"

type_synonym http_client = "http_request \<Rightarrow> (string, http_response) result"

definition is_success :: "nat \<Rightarrow> bool" where
  "is_success status \<longleftrightarrow> 200 \<le> status \<and> status < 300"

definition json_response :: "(string, http_response) result \<Rightarrow> (provider_error, json) result" where
  "json_response outcome =
     and_then (map_err ProviderTransport outcome) (\<lambda>response.
       if \<not> is_success (hr_status response) then Inl (ProviderRejected (hr_status response))
       else map_err ProviderTransport (hr_json response))"

definition exchange_token :: "http_client \<Rightarrow> token_exchange_request \<Rightarrow> (provider_error, json) result" where
  "exchange_token client request =
     json_response (client \<lparr>hq_method = tx_method request, hq_url = tx_endpoint request, hq_query = tx_query request,
       hq_headers = tx_headers request,
       hq_form = (if tx_method request = PostMethod then Some (tx_body request) else None),
       hq_bearer_auth = None, hq_basic_auth = None\<rparr>)"

definition lookup_identity :: "http_client \<Rightarrow> identity_lookup_request \<Rightarrow> (provider_error, json) result" where
  "lookup_identity client request =
     json_response (client \<lparr>hq_method = GetMethod, hq_url = lk_endpoint request,
       hq_query = (case lk_access_token_query request of Some parameter \<Rightarrow> [(parameter, lk_access_token request)] | None \<Rightarrow> []),
       hq_headers = [(''accept'', ''application/json'')], hq_form = None,
       hq_bearer_auth = (case lk_access_token_query request of Some _ \<Rightarrow> None | None \<Rightarrow> Some (lk_access_token request)),
       hq_basic_auth = None\<rparr>)"

definition reqwest_transport :: "http_client \<Rightarrow> provider_transport" where
  "reqwest_transport client = \<lparr>tr_exchange_token = exchange_token client, tr_lookup_identity = lookup_identity client\<rparr>"

section \<open>Normalization\<close>

definition require_canonical :: "string \<Rightarrow> string \<Rightarrow> (provider_error, unit) result" where
  "require_canonical name input =
     (if input = [] \<or> trim input \<noteq> input \<or> length input > 512 then Inl (InvalidConfiguration name) else Inr ())"

definition parse_http_url :: "(string \<Rightarrow> url option) \<Rightarrow> string \<Rightarrow> string \<Rightarrow> (provider_error, unit) result" where
  "parse_http_url parse name input =
     and_then (ok_or (InvalidConfiguration name) (parse input)) (\<lambda>url.
       if url_scheme url \<notin> {''https'', ''http''} \<or> url_host_str url = None then Inl (InvalidConfiguration name) else Inr ())"

definition valid_path_segment :: "string \<Rightarrow> bool" where
  "valid_path_segment segment \<longleftrightarrow>
     segment \<noteq> [] \<and> list_all (\<lambda>c. is_ascii_alphanumeric c \<or> c = CHR ''_'' \<or> c = CHR ''-'') segment"

definition validate_json_path :: "string \<Rightarrow> (provider_error, unit) result" where
  "validate_json_path path =
     (if path = ''$'' \<or> (case strip_prefix ''$.'' path of
           Some tail \<Rightarrow> tail \<noteq> [] \<and> list_all valid_path_segment (split_on CHR ''.'' tail) | None \<Rightarrow> False)
      then Inr ()
      else Inl (InvalidConfiguration ''identity mappings support only simple JSON paths like $.data.user.id''))"

definition option_list :: "'a option \<Rightarrow> 'a list" where
  "option_list x = (case x of Some a \<Rightarrow> [a] | None \<Rightarrow> [])"

definition validate_provider ::
  "(string \<Rightarrow> url option) \<Rightarrow> string \<Rightarrow> oauth_provider_properties \<Rightarrow> (provider_error, unit) result" where
  "validate_provider parse provider_id config =
     and_then (require_canonical ''provider id'' provider_id) (\<lambda>_.
     and_then (require_canonical ''issuer'' (op_issuer config)) (\<lambda>_.
     and_then (parse_http_url parse ''authorization endpoint'' (azp_endpoint (op_authorization config))) (\<lambda>_.
     and_then (parse_http_url parse ''token endpoint'' (tep_endpoint (op_token config))) (\<lambda>_.
     and_then (case im_endpoint (op_identity config) of
         Some endpoint \<Rightarrow> parse_http_url parse ''identity endpoint'' endpoint | None \<Rightarrow> Inr ()) (\<lambda>_.
     and_then (validate_json_path (tep_access_token (op_token config))) (\<lambda>_.
     and_then (validate_json_path (im_subject (op_identity config))) (\<lambda>_.
       for_each validate_json_path
         (option_list (im_fallback_subject (op_identity config)) @ option_list (im_username (op_identity config)) @
          option_list (im_email (op_identity config)) @ map snd (im_trusted_claims (op_identity config))))))))))"

text \<open>The fold over the keys of a path.\<close>

fun walk_path :: "json \<Rightarrow> string list \<Rightarrow> json option" where
  "walk_path current [] = Some current"
| "walk_path current (key # keys) =
     Option.bind (Option.bind (json_as_object current) (\<lambda>object. map_of object key)) (\<lambda>v. walk_path v keys)"

definition value_at :: "json \<Rightarrow> string \<Rightarrow> json option" where
  "value_at v path =
     (if path = ''$'' then Some v
      else Option.bind (strip_prefix ''$.'' path) (\<lambda>tail. walk_path v (split_on CHR ''.'' tail)))"

definition string_at :: "json \<Rightarrow> string \<Rightarrow> string option" where
  "string_at v path =
     (case value_at v path of
        Some (JString s) \<Rightarrow> Some s
      | Some (JNumber n) \<Rightarrow> Some n
      | _ \<Rightarrow> None)"

definition insert_claim :: "json \<Rightarrow> string \<times> string \<Rightarrow> (string \<times> json) list \<Rightarrow> (string \<times> json) list" where
  "insert_claim source entry claims =
     (case value_at source (snd entry) of
        Some v \<Rightarrow> if v = JNull then claims else btree_insert (fst entry) v claims
      | None \<Rightarrow> claims)"

text \<open>The claims a mapping names, in the order in which they are inserted.\<close>

definition mapped_claims :: "identity_mapping_properties \<Rightarrow> (string \<times> string) list" where
  "mapped_claims mapping = im_trusted_claims mapping @ map (Pair ''username'') (option_list (im_username mapping)) @
     map (Pair ''email'') (option_list (im_email mapping))"

definition normalize_identity ::
  "string \<Rightarrow> string \<Rightarrow> identity_mapping_properties \<Rightarrow> json \<Rightarrow> json option \<Rightarrow> (provider_error, external_identity) result" where
  "normalize_identity provider issuer mapping token_response identity_response =
     (let source = (case identity_response of Some r \<Rightarrow> r | None \<Rightarrow> token_response) in
      and_then (ok_or MissingSubject
          (case string_at source (im_subject mapping) of
             Some s \<Rightarrow> Some s
           | None \<Rightarrow> Option.bind (im_fallback_subject mapping) (string_at source))) (\<lambda>subject.
      and_then (require_canonical ''subject'' subject) (\<lambda>_.
        Inr \<lparr>ei_provider = provider, ei_issuer = issuer, ei_subject = subject,
             ei_claims = fold (insert_claim source) (mapped_claims mapping) []\<rparr>)))"

section \<open>OAuth adapters\<close>

text \<open>The URL library: \<open>Url::parse\<close>, and \<open>append_pair\<close> of a query.\<close>

record url_lib =
  ul_parse :: "string \<Rightarrow> url option"
  ul_append_pair :: "url \<Rightarrow> string \<Rightarrow> string \<Rightarrow> url"
  ul_standard_encode :: "string \<Rightarrow> string"

record oauth_like_provider =
  olp_provider_id :: string
  olp_config :: oauth_provider_properties
  olp_transport :: provider_transport

definition oauth_like_new ::
  "url_lib \<Rightarrow> string \<Rightarrow> oauth_provider_properties \<Rightarrow> provider_transport \<Rightarrow> (provider_error, oauth_like_provider) result" where
  "oauth_like_new lib provider_id config transport =
     and_then (validate_provider (ul_parse lib) provider_id config) (\<lambda>_.
       Inr \<lparr>olp_provider_id = provider_id, olp_config = config, olp_transport = transport\<rparr>)"

definition authorization_pairs ::
  "authorization_endpoint_properties \<Rightarrow> string \<Rightarrow> string \<Rightarrow> string \<Rightarrow> string \<Rightarrow> string \<Rightarrow> (string \<times> string) list" where
  "authorization_pairs config client_id redirect_uri state client_id_parameter scope_separator =
     [(''response_type'', ''code''), (client_id_parameter, client_id), (''redirect_uri'', redirect_uri), (''state'', state)] @
     (if azp_scopes config = [] then [] else [(''scope'', join scope_separator (azp_scopes config))]) @
     azp_query config"

definition authorization_url_with_parameters ::
  "url_lib \<Rightarrow> oauth_like_provider \<Rightarrow> string \<Rightarrow> string \<Rightarrow> string \<Rightarrow> string \<Rightarrow> string \<Rightarrow> (provider_error, url) result" where
  "authorization_url_with_parameters lib p client_id redirect_uri state client_id_parameter scope_separator =
     and_then (ok_or (InvalidConfiguration ''invalid authorization endpoint'')
         (ul_parse lib (azp_endpoint (op_authorization (olp_config p))))) (\<lambda>url.
       Inr (fold (\<lambda>(name, v) u. ul_append_pair lib u name v)
         (authorization_pairs (op_authorization (olp_config p)) client_id redirect_uri state client_id_parameter scope_separator) url))"

definition authorization_url_with_client_id_parameter ::
  "url_lib \<Rightarrow> oauth_like_provider \<Rightarrow> string \<Rightarrow> string \<Rightarrow> string \<Rightarrow> string \<Rightarrow> (provider_error, url) result" where
  "authorization_url_with_client_id_parameter lib p client_id redirect_uri state client_id_parameter =
     authorization_url_with_parameters lib p client_id redirect_uri state client_id_parameter '' ''"

definition authorization_url ::
  "url_lib \<Rightarrow> oauth_like_provider \<Rightarrow> string \<Rightarrow> string \<Rightarrow> string \<Rightarrow> (provider_error, url) result" where
  "authorization_url lib p client_id redirect_uri state =
     authorization_url_with_client_id_parameter lib p client_id redirect_uri state ''client_id''"

text \<open>\<open>str::contains\<close> and \<open>str::replace\<close> of a pattern that is not empty.\<close>

fun str_contains :: "string \<Rightarrow> string \<Rightarrow> bool" where
  "str_contains p [] = (p = [])"
| "str_contains p (c # s) = (strip_prefix p (c # s) \<noteq> None \<or> str_contains p s)"

function str_replace :: "string \<Rightarrow> string \<Rightarrow> string \<Rightarrow> string" where
  "str_replace p r [] = []"
| "str_replace p r (c # s) =
     (if p = [] then c # s
      else case strip_prefix p (c # s) of
        Some rest \<Rightarrow> r @ str_replace p r rest
      | None \<Rightarrow> c # str_replace p r s)"
  by pat_completeness auto

lemma strip_prefix_length: "strip_prefix p s = Some r \<Longrightarrow> length s = length p + length r"
  by (simp add: strip_prefix_Some)

termination str_replace
  by (relation "measure (\<lambda>(p, r, s). length s)") (auto dest!: strip_prefix_length)

definition has_explicit_client_credentials :: "token_endpoint_properties \<Rightarrow> bool" where
  "has_explicit_client_credentials config =
     list_ex (\<lambda>v. str_contains ''${clientId}'' v \<or> str_contains ''${clientSecret}'' v)
       (map snd (tep_headers config) @ map snd (tep_query config) @ map snd (tep_body config))"

text \<open>One template; the variables come in the order of their names.\<close>

definition render_template :: "(string \<times> string) list \<Rightarrow> string \<Rightarrow> string" where
  "render_template variables template =
     fold (\<lambda>(variable, replacement) v. str_replace (''${'' @ variable @ ''}'') replacement v) variables template"

definition render_map :: "(string \<times> string) list \<Rightarrow> (string \<times> string) list \<Rightarrow> (string \<times> string) list" where
  "render_map vals variables = map (\<lambda>(name, template). (name, render_template variables template)) vals"

definition template_variables :: "oauth_like_callback \<Rightarrow> (string \<times> string) list" where
  "template_variables callback = [(''authorizationCode'', cb_authorization_code callback), (''clientId'', cb_client_id callback),
     (''clientSecret'', cb_client_secret callback), (''redirectUri'', cb_redirect_uri callback)]"

definition token_request ::
  "url_lib \<Rightarrow> oauth_like_provider \<Rightarrow> oauth_like_callback \<Rightarrow> string \<Rightarrow> string \<Rightarrow> token_exchange_request" where
  "token_request lib p callback client_id_parameter client_secret_parameter =
     (let config = op_token (olp_config p);
          variables = template_variables callback;
          headers = render_map (tep_headers config) variables;
          query = render_map (tep_query config) variables;
          body0 = render_map (tep_body config) variables;
          body = (if tep_query config = [] \<and> tep_body config = []
            then fold (\<lambda>(n, v). btree_insert n v) [(''grant_type'', ''authorization_code''), (''code'', cb_authorization_code callback),
                   (''redirect_uri'', cb_redirect_uri callback)] body0
            else body0);
          credentials = fold (\<lambda>(n, v). btree_insert n v)
            [(client_id_parameter, cb_client_id callback), (client_secret_parameter, cb_client_secret callback)];
          placement = (if has_explicit_client_credentials config then NonePlacement else tep_client_credentials config)
      in \<lparr>tx_endpoint = tep_endpoint config, tx_method = tep_method config,
          tx_headers = (if placement = BasicPlacement
            then btree_insert ''authorization'' (''Basic '' @ ul_standard_encode lib (cb_client_id callback @ '':'' @ cb_client_secret callback)) headers
            else headers),
          tx_query = (if placement = QueryPlacement then credentials query else query),
          tx_body = (if placement = BodyPlacement then credentials body else body)\<rparr>)"

definition authenticate_with_parameters ::
  "url_lib \<Rightarrow> oauth_like_provider \<Rightarrow> oauth_like_callback \<Rightarrow> string \<Rightarrow> string \<Rightarrow> string option \<Rightarrow>
   (provider_error, external_identity) result" where
  "authenticate_with_parameters lib p callback client_id_parameter client_secret_parameter identity_access_token_query =
     and_then (tr_exchange_token (olp_transport p) (token_request lib p callback client_id_parameter client_secret_parameter)) (\<lambda>token_response.
     and_then (ok_or MissingAccessToken (string_at token_response (tep_access_token (op_token (olp_config p))))) (\<lambda>access_token.
     and_then (case im_endpoint (op_identity (olp_config p)) of
         Some endpoint \<Rightarrow>
           and_then (tr_lookup_identity (olp_transport p) \<lparr>lk_endpoint = endpoint, lk_access_token = access_token,
             lk_access_token_query = identity_access_token_query\<rparr>) (\<lambda>response. Inr (Some response))
       | None \<Rightarrow> Inr None) (\<lambda>identity_response.
       normalize_identity (olp_provider_id p) (op_issuer (olp_config p)) (op_identity (olp_config p)) token_response identity_response)))"

definition authenticate_with_client_credentials ::
  "url_lib \<Rightarrow> oauth_like_provider \<Rightarrow> oauth_like_callback \<Rightarrow> string \<Rightarrow> string \<Rightarrow> (provider_error, external_identity) result" where
  "authenticate_with_client_credentials lib p callback client_id_parameter client_secret_parameter =
     authenticate_with_parameters lib p callback client_id_parameter client_secret_parameter None"

definition oauth_like_adapter :: "url_lib \<Rightarrow> oauth_like_provider \<Rightarrow> provider_adapter" where
  "oauth_like_adapter lib p = \<lparr>pa_provider_id = olp_provider_id p,
     pa_authorize = default_authorize (authorization_url lib p),
     pa_authenticate = (\<lambda>callback. authenticate_with_client_credentials lib p callback ''client_id'' ''client_secret''),
     pa_authenticate_bearer = default_authenticate_bearer\<rparr>"

definition github_new ::
  "url_lib \<Rightarrow> oauth_provider_properties \<Rightarrow> provider_transport \<Rightarrow> (provider_error, oauth_like_provider) result" where
  "github_new lib config transport = oauth_like_new lib ''github'' config transport"

definition google_new ::
  "url_lib \<Rightarrow> oauth_provider_properties \<Rightarrow> provider_transport \<Rightarrow> (provider_error, oauth_like_provider) result" where
  "google_new lib config transport = oauth_like_new lib ''google'' config transport"

definition qq_new ::
  "url_lib \<Rightarrow> oauth_provider_properties \<Rightarrow> provider_transport \<Rightarrow> (provider_error, oauth_like_provider) result" where
  "qq_new lib config transport = oauth_like_new lib ''qq'' config transport"

definition wechat_new ::
  "url_lib \<Rightarrow> oauth_provider_properties \<Rightarrow> provider_transport \<Rightarrow> (provider_error, oauth_like_provider) result" where
  "wechat_new lib config transport = oauth_like_new lib ''wechat'' config transport"

definition github_adapter :: "url_lib \<Rightarrow> oauth_like_provider \<Rightarrow> provider_adapter" where
  "github_adapter lib p = \<lparr>pa_provider_id = pa_provider_id (oauth_like_adapter lib p),
     pa_authorize = default_authorize (authorization_url lib p),
     pa_authenticate = pa_authenticate (oauth_like_adapter lib p),
     pa_authenticate_bearer = default_authenticate_bearer\<rparr>"

definition google_adapter :: "url_lib \<Rightarrow> oauth_like_provider \<Rightarrow> provider_adapter" where
  "google_adapter lib p = \<lparr>pa_provider_id = pa_provider_id (oauth_like_adapter lib p),
     pa_authorize = default_authorize (authorization_url lib p),
     pa_authenticate = pa_authenticate (oauth_like_adapter lib p),
     pa_authenticate_bearer = default_authenticate_bearer\<rparr>"

definition qq_adapter :: "url_lib \<Rightarrow> oauth_like_provider \<Rightarrow> provider_adapter" where
  "qq_adapter lib p = \<lparr>pa_provider_id = olp_provider_id p,
     pa_authorize = default_authorize (\<lambda>client_id redirect_uri state.
       authorization_url_with_parameters lib p client_id redirect_uri state ''client_id'' '',''),
     pa_authenticate = (\<lambda>callback. authenticate_with_parameters lib p callback ''client_id'' ''client_secret'' (Some ''access_token'')),
     pa_authenticate_bearer = default_authenticate_bearer\<rparr>"

definition wechat_authorization_url ::
  "url_lib \<Rightarrow> oauth_like_provider \<Rightarrow> string \<Rightarrow> string \<Rightarrow> string \<Rightarrow> (provider_error, url) result" where
  "wechat_authorization_url lib p client_id redirect_uri state =
     and_then (authorization_url_with_client_id_parameter lib p client_id redirect_uri state ''appid'') (\<lambda>url.
       Inr (url\<lparr>url_fragment := Some ''wechat_redirect''\<rparr>))"

definition wechat_adapter :: "url_lib \<Rightarrow> oauth_like_provider \<Rightarrow> provider_adapter" where
  "wechat_adapter lib p = \<lparr>pa_provider_id = olp_provider_id p,
     pa_authorize = default_authorize (wechat_authorization_url lib p),
     pa_authenticate = (\<lambda>callback. authenticate_with_client_credentials lib p callback ''appid'' ''secret''),
     pa_authenticate_bearer = default_authenticate_bearer\<rparr>"


section \<open>OpenID Connect\<close>

text \<open>
  A client of the crate \<open>openidconnect\<close> with the metadata and keys of its issuer: the authorization URL for a
  state, a nonce, a PKCE challenge and scopes; the exchange of a code with its verifier for an access token
  and an ID token; the claims of an ID token that verifies against a nonce, as subject and serialized value;
  and the UserInfo endpoint, asked for an expected subject.
\<close>

record oidc_client =
  oc_pkce_challenge :: "string \<Rightarrow> string"
  oc_authorize_url :: "string \<Rightarrow> string \<Rightarrow> string \<Rightarrow> string list \<Rightarrow> url"
  oc_token_endpoint :: bool
  oc_exchange_code :: "string \<Rightarrow> string \<Rightarrow> (string, string \<times> string option) result"
  oc_verified_claims :: "string \<Rightarrow> string \<Rightarrow> (string \<times> json option) option"
  oc_userinfo_endpoint :: bool
  oc_user_info :: "string \<Rightarrow> string option \<Rightarrow> (string, json option) result"

record oidc_provider =
  oi_provider_id :: string
  oi_config :: oidc_provider_properties
  oi_client :: oidc_client
  oi_http :: http_client

text \<open>Discovery: issuer and redirect URL as the crate accepts them, the HTTP client, and the fetched metadata.\<close>

record oidc_discovery =
  od_parse_url :: "string \<Rightarrow> url option"
  od_issuer_url :: "string \<Rightarrow> bool"
  od_redirect_url :: "string \<Rightarrow> bool"
  od_http :: "(string, http_client) result"
  od_discover :: "string \<Rightarrow> http_client \<Rightarrow> (string, string \<Rightarrow> string option \<Rightarrow> string \<Rightarrow> oidc_client) result"

definition oidc_discover ::
  "oidc_discovery \<Rightarrow> string \<Rightarrow> oidc_provider_properties \<Rightarrow> (provider_error, oidc_provider) result" where
  "oidc_discover lib provider_id config =
     and_then (case ocp_token_introspection config of
         Some introspection \<Rightarrow>
           if ocp_client_secret config = [] \<or> tip_accepted_audiences introspection = [] \<or> od_parse_url lib (tip_endpoint introspection) = None
           then Inl (InvalidConfiguration ''OIDC token introspection requires an endpoint, client secret, and accepted audience'')
           else Inr ()
       | None \<Rightarrow> Inr ()) (\<lambda>_.
     and_then (if od_issuer_url lib (ocp_issuer config) then Inr () else Inl (InvalidConfiguration ''invalid OIDC issuer'')) (\<lambda>_.
     and_then (if od_redirect_url lib (ocp_callback_url config) then Inr () else Inl (InvalidConfiguration ''invalid OIDC callback URL'')) (\<lambda>_.
     and_then (map_err ProviderTransport (od_http lib)) (\<lambda>http.
     and_then (map_err ProviderTransport (od_discover lib (ocp_issuer config) http)) (\<lambda>client.
       Inr \<lparr>oi_provider_id = provider_id, oi_config = config,
            oi_client = client (ocp_client_id config) (if ocp_client_secret config \<noteq> [] then Some (ocp_client_secret config) else None)
              (ocp_callback_url config),
            oi_http = http\<rparr>)))))"

definition oidc_authorization :: "oidc_provider \<Rightarrow> flow_seed \<Rightarrow> string \<Rightarrow> provider_authorization" where
  "oidc_authorization p seed state =
     \<lparr>pz_url = oc_authorize_url (oi_client p) state (fs_nonce seed) (oc_pkce_challenge (oi_client p) (fs_pkce_verifier seed))
        (filter (\<lambda>scope. scope \<noteq> ''openid'') (ocp_scopes (oi_config p))),
      pz_nonce = Some (fs_nonce seed), pz_pkce_verifier = Some (fs_pkce_verifier seed)\<rparr>"

definition oidc_normalize :: "oidc_provider \<Rightarrow> json \<Rightarrow> (provider_error, external_identity) result" where
  "oidc_normalize p claims =
     normalize_identity (oi_provider_id p) (ocp_issuer (oi_config p)) (ocp_identity (oi_config p)) claims None"

definition userinfo_identity ::
  "oidc_provider \<Rightarrow> string \<Rightarrow> string option \<Rightarrow> (provider_error, external_identity) result" where
  "userinfo_identity p access_token expected_subject =
     (if \<not> oc_userinfo_endpoint (oi_client p) then Inl (InvalidConfiguration ''OIDC UserInfo endpoint is missing'')
      else and_then (map_err ProviderTransport (oc_user_info (oi_client p) access_token expected_subject)) (\<lambda>claims.
        and_then (ok_or InvalidIdentityToken claims) (oidc_normalize p)))"

text \<open>\<open>Value::get\<close> of a key.\<close>

definition json_get :: "json \<Rightarrow> string \<Rightarrow> json option" where
  "json_get v key = Option.bind (json_as_object v) (\<lambda>object. map_of object key)"

definition has_accepted_audience :: "json \<Rightarrow> string list \<Rightarrow> bool" where
  "has_accepted_audience claims audiences =
     (case json_get claims ''aud'' of
        Some (JString v) \<Rightarrow> v \<in> set audiences
      | Some (JArray vs) \<Rightarrow> list_ex (\<lambda>v. case json_as_str v of Some s \<Rightarrow> s \<in> set audiences | None \<Rightarrow> False) vs
      | _ \<Rightarrow> False)"

definition introspection_identity :: "oidc_provider \<Rightarrow> string \<Rightarrow> (provider_error, external_identity) result" where
  "introspection_identity p access_token =
     and_then (ok_or UnsupportedFlow (ocp_token_introspection (oi_config p))) (\<lambda>introspection.
     and_then (map_err ProviderTransport (oi_http p \<lparr>hq_method = PostMethod, hq_url = tip_endpoint introspection, hq_query = [],
         hq_headers = [], hq_form = Some [(''token'', access_token), (''token_type_hint'', ''access_token'')],
         hq_bearer_auth = None, hq_basic_auth = Some (ocp_client_id (oi_config p), ocp_client_secret (oi_config p))\<rparr>)) (\<lambda>response.
       if \<not> is_success (hr_status response) then Inl (ProviderRejected (hr_status response))
       else and_then (map_err (\<lambda>_. InvalidIdentityToken) (hr_json response)) (\<lambda>claims.
         if json_get claims ''active'' \<noteq> Some (JBool True) \<or>
            Option.bind (json_get claims ''iss'') json_as_str \<noteq> Some (ocp_issuer (oi_config p)) \<or>
            \<not> has_accepted_audience claims (tip_accepted_audiences introspection)
         then Inl InvalidIdentityToken
         else oidc_normalize p claims)))"

definition oidc_authenticate :: "oidc_provider \<Rightarrow> oauth_like_callback \<Rightarrow> (provider_error, external_identity) result" where
  "oidc_authenticate p callback =
     and_then (ok_or InvalidIdentityToken (cb_nonce callback)) (\<lambda>nonce.
     and_then (ok_or InvalidIdentityToken (cb_pkce_verifier callback)) (\<lambda>verifier.
     and_then (if oc_token_endpoint (oi_client p) then Inr () else Inl (InvalidConfiguration ''OIDC token endpoint is missing'')) (\<lambda>_.
     and_then (map_err ProviderTransport (oc_exchange_code (oi_client p) (cb_authorization_code callback) verifier)) (\<lambda>response.
     and_then (ok_or InvalidIdentityToken (snd response)) (\<lambda>id_token.
     and_then (ok_or InvalidIdentityToken (oc_verified_claims (oi_client p) id_token nonce)) (\<lambda>claims.
       if ocp_userinfo (oi_config p) then userinfo_identity p (fst response) (Some (fst claims))
       else and_then (ok_or InvalidIdentityToken (snd claims)) (oidc_normalize p)))))))"

definition oidc_authenticate_bearer ::
  "oidc_provider \<Rightarrow> string \<Rightarrow> principal_kind \<Rightarrow> (provider_error, external_identity) result" where
  "oidc_authenticate_bearer p access_token kind =
     (if ocp_token_introspection (oi_config p) \<noteq> None then introspection_identity p access_token
      else if kind = User then userinfo_identity p access_token None
      else Inl UnsupportedFlow)"

definition oidc_adapter :: "oidc_provider \<Rightarrow> provider_adapter" where
  "oidc_adapter p = \<lparr>pa_provider_id = oi_provider_id p,
     pa_authorize = (\<lambda>seed _ _ state. Inr (oidc_authorization p seed state)),
     pa_authenticate = oidc_authenticate p, pa_authenticate_bearer = oidc_authenticate_bearer p\<rparr>"

section \<open>Interface\<close>

text \<open>
  What the login handlers rely on: whatever an adapter authenticates is an identity of its own provider and
  issuer, with a subject that is not empty, not padded and of at most 512 bytes.
\<close>

definition stable_subject :: "string \<Rightarrow> bool" where
  "stable_subject s \<longleftrightarrow> s \<noteq> [] \<and> trim s = s \<and> length s \<le> 512"

definition identity_of :: "string \<Rightarrow> string \<Rightarrow> external_identity \<Rightarrow> bool" where
  "identity_of provider issuer e \<longleftrightarrow> ei_provider e = provider \<and> ei_issuer e = issuer \<and> stable_subject (ei_subject e) \<and> btree (ei_claims e)"

locale identity_provider =
  fixes adapter :: provider_adapter and provider issuer :: string
  assumes adapter_id: "pa_provider_id adapter = provider"
    and callback_identity: "pa_authenticate adapter callback = Inr e \<Longrightarrow> identity_of provider issuer e"
    and bearer_identity: "pa_authenticate_bearer adapter token kind = Inr e \<Longrightarrow> identity_of provider issuer e"
begin

lemma callback_key:
  assumes "pa_authenticate adapter callback = Inr e" "external_identity_key_of e = Inr k"
  shows "ek_provider k = provider \<and> ek_issuer k = issuer \<and> ek_subject k = ei_subject e"
  using callback_identity [OF assms(1)] assms(2)
  by (auto simp: identity_of_def external_identity_key_of_def external_identity_key_new_def result_simps)

lemma bearer_key:
  assumes "pa_authenticate_bearer adapter token kind = Inr e" "external_identity_key_of e = Inr k"
  shows "ek_provider k = provider \<and> ek_issuer k = issuer \<and> ek_subject k = ei_subject e"
  using bearer_identity [OF assms(1)] assms(2)
  by (auto simp: identity_of_def external_identity_key_of_def external_identity_key_new_def result_simps)

end

section \<open>Lemmas\<close>

lemma require_canonical_Inr [result_simps]: "require_canonical name s = Inr u \<longleftrightarrow> stable_subject s"
  by (auto simp: require_canonical_def stable_subject_def)

subsection \<open>Claims\<close>

text \<open>The claims that a mapping finds in a document, in the order of the mapping.\<close>

definition found_claims :: "json \<Rightarrow> (string \<times> string) list \<Rightarrow> (string \<times> json) list" where
  "found_claims source entries =
     concat (map (\<lambda>(name, path). case value_at source path of Some v \<Rightarrow> if v = JNull then [] else [(name, v)] | None \<Rightarrow> []) entries)"

lemma insert_claim_found:
  "btree m \<Longrightarrow> btree (insert_claim source entry m) \<and>
   map_of (insert_claim source entry m) = map_of m ++ map_of (found_claims source [entry])"
  by (cases entry) (auto simp: insert_claim_def found_claims_def btree_insert_btree map_of_btree_insert split: option.splits)

lemma fold_insert_claim:
  "btree m \<Longrightarrow> btree (fold (insert_claim source) entries m) \<and>
   map_of (fold (insert_claim source) entries m) = map_of m ++ map_of (rev (found_claims source entries))"
proof (induction entries arbitrary: m)
  case (Cons entry entries)
  have split: "found_claims source (entry # entries) = found_claims source [entry] @ found_claims source entries"
    by (simp add: found_claims_def)
  have one: "rev (found_claims source [entry]) = found_claims source [entry]"
    by (cases entry) (auto simp: found_claims_def split: option.splits)
  show ?case
    using Cons.IH [of "insert_claim source entry m"] insert_claim_found [OF Cons.prems, of source entry]
    by (simp add: split one map_add_assoc)
qed (simp add: found_claims_def)

lemma normalize_identity_Inr:
  assumes "normalize_identity provider issuer mapping token_response identity_response = Inr e"
  defines "source \<equiv> case identity_response of Some r \<Rightarrow> r | None \<Rightarrow> token_response"
  shows "identity_of provider issuer e \<and>
    (string_at source (im_subject mapping) = Some (ei_subject e) \<or>
     string_at source (im_subject mapping) = None \<and>
       (\<exists>path. im_fallback_subject mapping = Some path \<and> string_at source path = Some (ei_subject e))) \<and>
    map_of (ei_claims e) = map_of (rev (found_claims source (mapped_claims mapping)))"
  using assms(1) fold_insert_claim [of "[]" source "mapped_claims mapping"]
  by (auto simp: normalize_identity_def source_def Let_def identity_of_def result_simps bind_eq_Some_conv split: option.splits)

lemmas normalized_identity_of = normalize_identity_Inr [THEN conjunct1]

subsection \<open>Adapters\<close>

lemma parameters_identity:
  "authenticate_with_parameters lib p callback i s q = Inr e \<Longrightarrow> identity_of (olp_provider_id p) (op_issuer (olp_config p)) e"
  by (auto simp: authenticate_with_parameters_def result_simps normalized_identity_of)

lemma no_bearer: "default_authenticate_bearer token kind \<noteq> Inr e"
  by (simp add: default_authenticate_bearer_def)

lemmas adapter_defs = oauth_like_adapter_def github_adapter_def google_adapter_def qq_adapter_def wechat_adapter_def
  authenticate_with_client_credentials_def

interpretation oauth_like: identity_provider "oauth_like_adapter lib p" "olp_provider_id p" "op_issuer (olp_config p)" for lib p
  by unfold_locales (auto simp: adapter_defs no_bearer parameters_identity)

interpretation github: identity_provider "github_adapter lib p" "olp_provider_id p" "op_issuer (olp_config p)" for lib p
  by unfold_locales (auto simp: adapter_defs no_bearer parameters_identity)

interpretation google: identity_provider "google_adapter lib p" "olp_provider_id p" "op_issuer (olp_config p)" for lib p
  by unfold_locales (auto simp: adapter_defs no_bearer parameters_identity)

interpretation qq: identity_provider "qq_adapter lib p" "olp_provider_id p" "op_issuer (olp_config p)" for lib p
  by unfold_locales (auto simp: adapter_defs no_bearer parameters_identity)

interpretation wechat: identity_provider "wechat_adapter lib p" "olp_provider_id p" "op_issuer (olp_config p)" for lib p
  by unfold_locales (auto simp: adapter_defs no_bearer parameters_identity)

lemma oidc_normalize_identity: "oidc_normalize p claims = Inr e \<Longrightarrow> identity_of (oi_provider_id p) (ocp_issuer (oi_config p)) e"
  unfolding oidc_normalize_def by (rule normalized_identity_of)

lemma userinfo_identity_Inr:
  "userinfo_identity p token expected = Inr e \<longleftrightarrow> oc_userinfo_endpoint (oi_client p) \<and>
   (\<exists>claims. oc_user_info (oi_client p) token expected = Inr (Some claims) \<and> oidc_normalize p claims = Inr e)"
  by (auto simp: userinfo_identity_def result_simps)

lemma introspection_identity_Inr:
  "introspection_identity p token = Inr e \<Longrightarrow> \<exists>introspection response claims. ocp_token_introspection (oi_config p) = Some introspection \<and>
   oi_http p \<lparr>hq_method = PostMethod, hq_url = tip_endpoint introspection, hq_query = [], hq_headers = [],
     hq_form = Some [(''token'', token), (''token_type_hint'', ''access_token'')], hq_bearer_auth = None,
     hq_basic_auth = Some (ocp_client_id (oi_config p), ocp_client_secret (oi_config p))\<rparr> = Inr response \<and>
   is_success (hr_status response) \<and> hr_json response = Inr claims \<and> json_get claims ''active'' = Some (JBool True) \<and>
   Option.bind (json_get claims ''iss'') json_as_str = Some (ocp_issuer (oi_config p)) \<and>
   has_accepted_audience claims (tip_accepted_audiences introspection) \<and> oidc_normalize p claims = Inr e"
  unfolding introspection_identity_def and_then_eq_Inr ok_or_eq_Inr map_err_eq_Inr guard_Inr by blast

lemma oidc_authenticate_Inr:
  assumes "oidc_authenticate p callback = Inr e"
  obtains nonce verifier access_token id_token subject claims where "cb_nonce callback = Some nonce" "cb_pkce_verifier callback = Some verifier"
    "oc_exchange_code (oi_client p) (cb_authorization_code callback) verifier = Inr (access_token, Some id_token)"
    "oc_verified_claims (oi_client p) id_token nonce = Some (subject, claims)"
    "if ocp_userinfo (oi_config p) then userinfo_identity p access_token (Some subject) = Inr e
     else \<exists>v. claims = Some v \<and> oidc_normalize p v = Inr e"
  using assms by (auto simp: oidc_authenticate_def result_simps split: if_splits)

lemma oidc_authenticate_identity:
  "oidc_authenticate p callback = Inr e \<Longrightarrow> identity_of (oi_provider_id p) (ocp_issuer (oi_config p)) e"
  by (erule oidc_authenticate_Inr) (auto simp: userinfo_identity_Inr oidc_normalize_identity split: if_splits)

lemma oidc_bearer_identity:
  "oidc_authenticate_bearer p token kind = Inr e \<Longrightarrow> identity_of (oi_provider_id p) (ocp_issuer (oi_config p)) e"
  by (auto simp: oidc_authenticate_bearer_def userinfo_identity_Inr oidc_normalize_identity dest!: introspection_identity_Inr split: if_splits)

interpretation oidc: identity_provider "oidc_adapter p" "oi_provider_id p" "ocp_issuer (oi_config p)" for p
  by unfold_locales (auto simp: oidc_adapter_def oidc_authenticate_identity oidc_bearer_identity)

subsection \<open>Templates\<close>

lemma str_replace_absent: "p \<noteq> [] \<Longrightarrow> hd p \<notin> set s \<Longrightarrow> str_replace p r s = s"
proof (induction s)
  case (Cons c s)
  then have "strip_prefix p (c # s) = None" by (cases p) auto
  with Cons show ?case by simp
qed simp

lemma render_map_entry:
  "(name, template) \<in> set vals \<Longrightarrow> (name, render_template variables template) \<in> set (render_map vals variables)"
  by (force simp: render_map_def)

lemma render_map_Nil [simp]: "render_map [] variables = []"
  by (simp add: render_map_def)

lemma render_map_btree: "btree (render_map vals variables) \<longleftrightarrow> btree vals"
  by (simp add: render_map_def btree_def comp_def case_prod_unfold)

lemma fold_btree_insert:
  "btree m \<Longrightarrow> btree (fold (\<lambda>(n, v). btree_insert n v) es m) \<and>
   map_of (fold (\<lambda>(n, v). btree_insert n v) es m) = map_of m ++ map_of (rev es)"
proof (induction es arbitrary: m)
  case (Cons e es)
  then show ?case by (cases e) (auto simp: btree_insert_btree map_of_btree_insert simp flip: fun_upd_def)
qed simp

lemma rendered_code:
  assumes "cb_authorization_code callback = ''${clientSecret}''" "CHR ''$'' \<notin> set (cb_client_secret callback)"
  shows "render_template (template_variables callback) ''${authorizationCode}'' = cb_client_secret callback"
proof -
  have "str_replace ''${redirectUri}'' r (cb_client_secret callback) = cb_client_secret callback" for r
    by (rule str_replace_absent) (use assms(2) in auto)
  then show ?thesis using assms(1) by (simp add: render_template_def template_variables_def)
qed

section \<open>Example providers\<close>

text \<open>A forge that answers with a numeric identifier, and an issuer whose ID tokens carry the nonce.\<close>

definition forge_config :: oauth_provider_properties where
  "forge_config = \<lparr>op_issuer = ''https://forge'', op_client_id = ''app'', op_client_secret = ''s3cret'', op_callback_url = ''https://a/cb'',
     op_authorization = \<lparr>azp_endpoint = ''https://forge/authorize'', azp_scopes = [], azp_query = []\<rparr>,
     op_token = \<lparr>tep_endpoint = ''https://forge/token'', tep_method = GetMethod, tep_client_credentials = BodyPlacement, tep_headers = [],
       tep_query = [(''code'', ''${authorizationCode}'')], tep_body = [], tep_access_token = ''$.access_token''\<rparr>,
     op_identity = \<lparr>im_endpoint = Some ''https://forge/user'', im_subject = ''$.id'', im_fallback_subject = None,
       im_username = Some ''$.login'', im_email = Some ''$.email'', im_trusted_claims = []\<rparr>\<rparr>"

definition forge :: oauth_like_provider where
  "forge = \<lparr>olp_provider_id = ''forge'', olp_config = forge_config,
     olp_transport = \<lparr>tr_exchange_token = (\<lambda>r. Inr (JObject [(''access_token'', JString ''t'')])),
       tr_lookup_identity = (\<lambda>r. Inr (JObject [(''id'', JNumber ''7''), (''login'', JString ''ann''), (''email'', JNull)]))\<rparr>\<rparr>"

definition plain_urls :: url_lib where
  "plain_urls = \<lparr>ul_parse = app_parse, ul_append_pair = (\<lambda>u n v. u), ul_standard_encode = (\<lambda>x. x)\<rparr>"

definition forge_callback :: "string \<Rightarrow> oauth_like_callback" where
  "forge_callback authorization_code = \<lparr>cb_authorization_code = authorization_code, cb_redirect_uri = ''https://a/cb'', cb_client_id = ''app'',
     cb_client_secret = ''s3cret'', cb_nonce = Some ''n'', cb_pkce_verifier = Some ''v''\<rparr>"

definition corporate_oidc :: oidc_provider where
  "corporate_oidc = \<lparr>oi_provider_id = ''corporate'',
     oi_config = \<lparr>ocp_issuer = ''https://id'', ocp_client_id = ''app'', ocp_client_secret = ''s'', ocp_callback_url = ''https://a/cb'', ocp_scopes = [],
       ocp_userinfo = False, ocp_token_introspection = Some \<lparr>tip_endpoint = ''https://id/introspect'', tip_accepted_audiences = [''app'']\<rparr>,
       ocp_identity = \<lparr>im_endpoint = None, im_subject = ''$.sub'', im_fallback_subject = None, im_username = None, im_email = None,
         im_trusted_claims = []\<rparr>\<rparr>,
     oi_client = \<lparr>oc_pkce_challenge = (\<lambda>v. v), oc_authorize_url = (\<lambda>s n c ss. app_url ''/''), oc_token_endpoint = True,
       oc_exchange_code = (\<lambda>code v. Inr (''t'', Some v)),
       oc_verified_claims = (\<lambda>t n. if t = ''v'' \<and> n = ''n'' then Some (''u1'', Some (JObject [(''sub'', JString ''u1'')])) else None),
       oc_userinfo_endpoint = False, oc_user_info = (\<lambda>t s. Inl [])\<rparr>,
     oi_http = (\<lambda>r. Inr \<lparr>hr_status = 200, hr_json = Inr (JObject [(''active'', JBool True), (''iss'', JString ''https://id''),
       (''aud'', JString ''app''), (''sub'', JString ''w1'')])\<rparr>)\<rparr>"

section \<open>Properties\<close>

text \<open>
  An identity comes from the configured places only: a completed OAuth callback sent the code to the token
  endpoint, read the access token at the configured path of its answer and, where an identity endpoint is
  configured, asked that endpoint with that token; the identity is of the configured provider and issuer, its
  subject is the text at the configured path, or at the fallback where there is none, and its claims are
  exactly the values that the mapping finds there, null values left out and later entries first.
\<close>

theorem identity_follows_mapping:
  assumes "authenticate_with_parameters lib p callback i s q = Inr e"
  shows "\<exists>token_response access_token source. let mapping = op_identity (olp_config p) in
    tr_exchange_token (olp_transport p) (token_request lib p callback i s) = Inr token_response \<and>
    string_at token_response (tep_access_token (op_token (olp_config p))) = Some access_token \<and>
    (case im_endpoint mapping of
       None \<Rightarrow> source = token_response
     | Some endpoint \<Rightarrow> tr_lookup_identity (olp_transport p)
         \<lparr>lk_endpoint = endpoint, lk_access_token = access_token, lk_access_token_query = q\<rparr> = Inr source) \<and>
    identity_of (olp_provider_id p) (op_issuer (olp_config p)) e \<and>
    (case string_at source (im_subject mapping) of
       Some subject \<Rightarrow> ei_subject e = subject
     | None \<Rightarrow> (\<exists>path. im_fallback_subject mapping = Some path \<and> string_at source path = Some (ei_subject e))) \<and>
    map_of (ei_claims e) = map_of (rev (found_claims source (mapped_claims mapping)))"
proof -
  from assms obtain token_response access_token identity_response where
    t: "tr_exchange_token (olp_transport p) (token_request lib p callback i s) = Inr token_response"
      "string_at token_response (tep_access_token (op_token (olp_config p))) = Some access_token" and
    r: "(case im_endpoint (op_identity (olp_config p)) of
         Some endpoint \<Rightarrow> and_then (tr_lookup_identity (olp_transport p) \<lparr>lk_endpoint = endpoint, lk_access_token = access_token,
             lk_access_token_query = q\<rparr>) (\<lambda>response. Inr (Some response))
       | None \<Rightarrow> Inr None) = Inr identity_response" and
    n: "normalize_identity (olp_provider_id p) (op_issuer (olp_config p)) (op_identity (olp_config p)) token_response identity_response = Inr e"
    unfolding authenticate_with_parameters_def and_then_eq_Inr ok_or_eq_Inr by blast
  show ?thesis
    using t r normalize_identity_Inr [OF n]
    by (intro exI [of _ token_response] exI [of _ access_token]
        exI [of _ "case identity_response of Some r \<Rightarrow> r | None \<Rightarrow> token_response"])
      (auto simp: Let_def result_simps split: option.splits)
qed

theorem identity_follows_mapping_witness:
  "\<exists>e. authenticate_with_parameters plain_urls forge (forge_callback ''c1'') ''client_id'' ''client_secret'' None = Inr e \<and>
     ei_subject e = ''7'' \<and> ei_provider e = ''forge'' \<and> map_of (ei_claims e) ''username'' = Some (JString ''ann'') \<and>
     map_of (ei_claims e) ''email'' = None"
proof -
  have "case authenticate_with_parameters plain_urls forge (forge_callback ''c1'') ''client_id'' ''client_secret'' None of
      Inl _ \<Rightarrow> False | Inr e \<Rightarrow> ei_subject e = ''7''" by code_simp
  then obtain e where e: "authenticate_with_parameters plain_urls forge (forge_callback ''c1'') ''client_id'' ''client_secret'' None = Inr e"
    "ei_subject e = ''7''" by (auto split: sum.splits)
  from identity_follows_mapping [OF e(1)] obtain source where
    "source = JObject [(''id'', JNumber ''7''), (''login'', JString ''ann''), (''email'', JNull)]"
    "map_of (ei_claims e) = map_of (rev (found_claims source (mapped_claims (op_identity forge_config))))"
    "identity_of ''forge'' ''https://forge'' e"
    by (auto simp: forge_def forge_config_def Let_def)
  moreover have "map_of (rev (found_claims (JObject [(''id'', JNumber ''7''), (''login'', JString ''ann''), (''email'', JNull)])
      (mapped_claims (op_identity forge_config)))) ''username'' = Some (JString ''ann'')"
    "map_of (rev (found_claims (JObject [(''id'', JNumber ''7''), (''login'', JString ''ann''), (''email'', JNull)])
      (mapped_claims (op_identity forge_config)))) ''email'' = None" by code_simp+
  ultimately show ?thesis using e by (auto simp: identity_of_def)
qed

text \<open>
  The client secret goes where the configuration places it: unless a template names the client credentials
  itself, the token request carries them in the body, in the query or in a Basic authorization header, as
  configured, and with the placement \<open>None\<close> the request is the rendered configuration alone.
\<close>

theorem client_secret_is_placed:
  assumes "\<not> has_explicit_client_credentials (op_token (olp_config p))"
    and "btree (tep_headers (op_token (olp_config p)))" "btree (tep_query (op_token (olp_config p)))" "btree (tep_body (op_token (olp_config p)))"
  shows "let request = token_request lib p callback client_id_parameter client_secret_parameter;
      rendered = (\<lambda>m. map_of (render_map m (template_variables callback)));
      credentials = [client_id_parameter \<mapsto> cb_client_id callback, client_secret_parameter \<mapsto> cb_client_secret callback];
      grant = (if tep_query (op_token (olp_config p)) = [] \<and> tep_body (op_token (olp_config p)) = []
        then [''grant_type'' \<mapsto> ''authorization_code'', ''code'' \<mapsto> cb_authorization_code callback,
              ''redirect_uri'' \<mapsto> cb_redirect_uri callback] else Map.empty)
    in map_of (tx_headers request) = rendered (tep_headers (op_token (olp_config p))) ++
         (if tep_client_credentials (op_token (olp_config p)) = BasicPlacement
          then [''authorization'' \<mapsto> ''Basic '' @ ul_standard_encode lib (cb_client_id callback @ '':'' @ cb_client_secret callback)] else Map.empty) \<and>
       map_of (tx_query request) = rendered (tep_query (op_token (olp_config p))) ++
         (if tep_client_credentials (op_token (olp_config p)) = QueryPlacement then credentials else Map.empty) \<and>
       map_of (tx_body request) = rendered (tep_body (op_token (olp_config p))) ++ grant ++
         (if tep_client_credentials (op_token (olp_config p)) = BodyPlacement then credentials else Map.empty)"
proof -
  let ?config = "op_token (olp_config p)" and ?render = "\<lambda>m. render_map m (template_variables callback)"
  let ?put = "fold (\<lambda>(n, v). btree_insert n v)"
  let ?credentials = "[(client_id_parameter, cb_client_id callback), (client_secret_parameter, cb_client_secret callback)]"
  let ?grant = "[(''grant_type'', ''authorization_code''), (''code'', cb_authorization_code callback), (''redirect_uri'', cb_redirect_uri callback)]"
  define granted where "granted = (if tep_query ?config = [] \<and> tep_body ?config = [] then ?put ?grant (?render (tep_body ?config)) else ?render (tep_body ?config))"
  have request: "token_request lib p callback client_id_parameter client_secret_parameter =
      \<lparr>tx_endpoint = tep_endpoint ?config, tx_method = tep_method ?config,
       tx_headers = (if tep_client_credentials ?config = BasicPlacement
         then btree_insert ''authorization'' (''Basic '' @ ul_standard_encode lib (cb_client_id callback @ '':'' @ cb_client_secret callback)) (?render (tep_headers ?config))
         else ?render (tep_headers ?config)),
       tx_query = (if tep_client_credentials ?config = QueryPlacement then ?put ?credentials (?render (tep_query ?config)) else ?render (tep_query ?config)),
       tx_body = (if tep_client_credentials ?config = BodyPlacement then ?put ?credentials granted else granted)\<rparr>"
    using assms(1) by (simp only: token_request_def Let_def granted_def if_False)
  have order: "map_of (rev ?grant) = [''grant_type'' \<mapsto> ''authorization_code'', ''code'' \<mapsto> cb_authorization_code callback,
      ''redirect_uri'' \<mapsto> cb_redirect_uri callback]"
    "map_of (rev ?credentials) = [client_id_parameter \<mapsto> cb_client_id callback, client_secret_parameter \<mapsto> cb_client_secret callback]"
    by (simp_all only: rev.simps append.simps map_of.simps fst_conv snd_conv)
  have one: "m(k \<mapsto> v) = m ++ [k \<mapsto> v]" for m :: "string \<rightharpoonup> string" and k v by simp
  have put: "map_of (?put es m) = map_of m ++ map_of (rev es)" if "btree m" for es m using fold_btree_insert [OF that] by blast
  have tree: "btree (?render (tep_headers ?config))" "btree (?render (tep_query ?config))" "btree (?render (tep_body ?config))"
    using assms(2-4) by (simp_all only: render_map_btree)
  have g: "btree granted" "map_of granted = map_of (?render (tep_body ?config)) ++
      (if tep_query ?config = [] \<and> tep_body ?config = [] then map_of (rev ?grant) else Map.empty)"
  proof (atomize (full), cases "tep_query ?config = [] \<and> tep_body ?config = []")
    case True
    show "btree granted \<and> map_of granted = map_of (?render (tep_body ?config)) ++
        (if tep_query ?config = [] \<and> tep_body ?config = [] then map_of (rev ?grant) else Map.empty)"
      unfolding granted_def if_P [OF True] by (rule fold_btree_insert [OF tree(3)])
  next
    case False
    show "btree granted \<and> map_of granted = map_of (?render (tep_body ?config)) ++
        (if tep_query ?config = [] \<and> tep_body ?config = [] then map_of (rev ?grant) else Map.empty)"
      unfolding granted_def if_not_P [OF False] using tree(3) by (simp only: map_add_empty simp_thms)
  qed
  show ?thesis
    unfolding request Let_def token_exchange_request.select_convs
    by (intro conjI; cases "tep_client_credentials ?config")
      (simp_all only: g(2) put [OF tree(2)] put [OF g(1)] map_of_btree_insert [OF tree(1)] order one [of "map_of (?render (tep_headers ?config))"]
        map_add_empty client_credential_placement.distinct if_True if_False simp_thms)
qed

theorem client_secret_is_placed_witness:
  "map_of (tx_body (token_request plain_urls forge (forge_callback ''c1'') ''client_id'' ''client_secret'')) ''client_secret'' = Some ''s3cret''"
  using client_secret_is_placed [of forge plain_urls "forge_callback ''c1''" "''client_id''" "''client_secret''"]
  by (simp add: forge_def forge_config_def forge_callback_def Let_def has_explicit_client_credentials_def render_map_def btree_def)

text \<open>
  An OpenID Connect login is verified end to end: it succeeds only with the nonce and the PKCE verifier of
  the flow, when the issuer exchanged the code with that verifier for an ID token, the ID token verified
  against that nonce, and the identity is made of its claims or of the UserInfo answer for its subject.
\<close>

theorem oidc_login_is_verified:
  assumes "pa_authenticate (oidc_adapter p) callback = Inr e"
  shows "\<exists>nonce verifier access_token id_token subject claims source.
    cb_nonce callback = Some nonce \<and> cb_pkce_verifier callback = Some verifier \<and>
    oc_exchange_code (oi_client p) (cb_authorization_code callback) verifier = Inr (access_token, Some id_token) \<and>
    oc_verified_claims (oi_client p) id_token nonce = Some (subject, claims) \<and>
    (if ocp_userinfo (oi_config p) then oc_user_info (oi_client p) access_token (Some subject) = Inr (Some source) else claims = Some source) \<and>
    oidc_normalize p source = Inr e \<and> identity_of (oi_provider_id p) (ocp_issuer (oi_config p)) e"
proof -
  from assms have a: "oidc_authenticate p callback = Inr e" by (simp add: oidc_adapter_def)
  from a obtain nonce verifier access_token id_token subject claims where v: "cb_nonce callback = Some nonce" "cb_pkce_verifier callback = Some verifier"
    "oc_exchange_code (oi_client p) (cb_authorization_code callback) verifier = Inr (access_token, Some id_token)"
    "oc_verified_claims (oi_client p) id_token nonce = Some (subject, claims)"
    "if ocp_userinfo (oi_config p) then userinfo_identity p access_token (Some subject) = Inr e
     else \<exists>v. claims = Some v \<and> oidc_normalize p v = Inr e" by (rule oidc_authenticate_Inr)
  from v(5) obtain source where "if ocp_userinfo (oi_config p) then oc_user_info (oi_client p) access_token (Some subject) = Inr (Some source)
      else claims = Some source" "oidc_normalize p source = Inr e"
    by (cases "ocp_userinfo (oi_config p)") (auto simp: userinfo_identity_Inr)
  with v(1-4) oidc.callback_identity [OF assms] show ?thesis by blast
qed

theorem oidc_login_is_verified_witness:
  "\<exists>e nonce id_token claims. pa_authenticate (oidc_adapter corporate_oidc) (forge_callback ''c1'') = Inr e \<and> ei_subject e = ''u1'' \<and>
     oc_verified_claims (oi_client corporate_oidc) id_token nonce = Some claims \<and> cb_nonce (forge_callback ''c1'') = Some nonce"
proof -
  have "case pa_authenticate (oidc_adapter corporate_oidc) (forge_callback ''c1'') of Inl _ \<Rightarrow> False | Inr e \<Rightarrow> ei_subject e = ''u1''" by code_simp
  then obtain e where "pa_authenticate (oidc_adapter corporate_oidc) (forge_callback ''c1'') = Inr e" "ei_subject e = ''u1''"
    by (auto split: sum.splits)
  with oidc_login_is_verified [OF this(1)] show ?thesis by blast
qed

text \<open>
  Claim C15. A bearer token is exchanged only while its issuer vouches for it: a principal other than a user needs
  token introspection, and where introspection is configured the issuer answered, with success, that the token is active,
  issued by it and meant for one of the accepted audiences, and the identity is made of that answer.
  The OAuth adapters exchange no bearer token.
\<close>

theorem bearer_token_is_vouched_for:
  assumes "pa_authenticate_bearer (oidc_adapter p) token kind = Inr e"
  shows "(case ocp_token_introspection (oi_config p) of
      None \<Rightarrow> kind = User \<and> (\<exists>claims. oc_user_info (oi_client p) token None = Inr (Some claims) \<and> oidc_normalize p claims = Inr e)
    | Some introspection \<Rightarrow> \<exists>request response object.
        hq_url request = tip_endpoint introspection \<and> hq_form request = Some [(''token'', token), (''token_type_hint'', ''access_token'')] \<and>
        oi_http p request = Inr response \<and> is_success (hr_status response) \<and> hr_json response = Inr (JObject object) \<and>
        map_of object ''active'' = Some (JBool True) \<and> map_of object ''iss'' = Some (JString (ocp_issuer (oi_config p))) \<and>
        (\<exists>audience \<in> set (tip_accepted_audiences introspection). map_of object ''aud'' = Some (JString audience) \<or>
           (\<exists>vs. map_of object ''aud'' = Some (JArray vs) \<and> JString audience \<in> set vs)) \<and>
        oidc_normalize p (JObject object) = Inr e) \<and>
    (\<forall>lib q. pa_authenticate_bearer (oauth_like_adapter lib q) token kind = Inl UnsupportedFlow)"
proof -
  have str: "json_as_str v = Some s \<longleftrightarrow> v = JString s" for v s by (cases v) auto
  have obj: "json_as_object v = Some ms \<longleftrightarrow> v = JObject ms" for v ms by (cases v) auto
  have aud: "has_accepted_audience (JObject object) audiences \<Longrightarrow> \<exists>audience \<in> set audiences. map_of object ''aud'' = Some (JString audience) \<or>
      (\<exists>vs. map_of object ''aud'' = Some (JArray vs) \<and> JString audience \<in> set vs)" for object audiences
    by (auto simp: has_accepted_audience_def json_get_def list_ex_iff str split: option.splits json.splits)
  have b: "oidc_authenticate_bearer p token kind = Inr e" using assms by (simp add: oidc_adapter_def)
  have "\<forall>lib q. pa_authenticate_bearer (oauth_like_adapter lib q) token kind = Inl UnsupportedFlow"
    by (simp add: oauth_like_adapter_def default_authenticate_bearer_def)
  moreover note b
  ultimately show ?thesis
  proof (cases "ocp_token_introspection (oi_config p)")
    case (Some introspection)
    with b introspection_identity_Inr [of p token e] obtain response claims where
      h: "oi_http p \<lparr>hq_method = PostMethod, hq_url = tip_endpoint introspection, hq_query = [], hq_headers = [],
        hq_form = Some [(''token'', token), (''token_type_hint'', ''access_token'')], hq_bearer_auth = None,
        hq_basic_auth = Some (ocp_client_id (oi_config p), ocp_client_secret (oi_config p))\<rparr> = Inr response" and
      r: "is_success (hr_status response)" "hr_json response = Inr claims" "json_get claims ''active'' = Some (JBool True)"
        "Option.bind (json_get claims ''iss'') json_as_str = Some (ocp_issuer (oi_config p))"
        "has_accepted_audience claims (tip_accepted_audiences introspection)" "oidc_normalize p claims = Inr e"
      by (auto simp: oidc_authenticate_bearer_def)
    from r(3) obtain object where "claims = JObject object" by (auto simp: json_get_def bind_eq_Some_conv obj)
    then show ?thesis
      using \<open>\<forall>lib q. _\<close> Some h r aud [of object]
      by (simp add: json_get_def bind_eq_Some_conv str)
        (rule exI, rule conjI [rotated], rule conjI [rotated], rule exI, rule conjI, rule h, auto)
  qed (auto simp: oidc_authenticate_bearer_def userinfo_identity_Inr split: if_splits)
qed

theorem bearer_token_is_vouched_for_witness:
  "\<exists>e (response :: http_response). pa_authenticate_bearer (oidc_adapter corporate_oidc) ''t'' Workload = Inr e \<and> ei_subject e = ''w1'' \<and>
     hr_status response = 200 \<and> (\<exists>object. hr_json response = Inr (JObject object) \<and> map_of object ''active'' = Some (JBool True))"
proof -
  have "case pa_authenticate_bearer (oidc_adapter corporate_oidc) ''t'' Workload of Inl _ \<Rightarrow> False | Inr e \<Rightarrow> ei_subject e = ''w1''" by code_simp
  then obtain e where e: "pa_authenticate_bearer (oidc_adapter corporate_oidc) ''t'' Workload = Inr e" "ei_subject e = ''w1''"
    by (auto split: sum.splits)
  from bearer_token_is_vouched_for [OF e(1)] obtain request response object where
    r: "oi_http corporate_oidc request = Inr response" "hr_json response = Inr (JObject object)" "map_of object ''active'' = Some (JBool True)"
    by (auto simp: corporate_oidc_def)
  from r(1) have "hr_status response = 200" by (auto simp: corporate_oidc_def)
  with e r(2,3) show ?thesis by blast
qed

text \<open>
  Claim C36. The authorization code of a callback is expanded as a template: the variables are replaced one after the
  other in the text that the earlier ones produced, the code first, so a callback that presents
  \<open>${clientSecret}\<close> as its code makes the service send its client secret as the code.
\<close>

theorem authorization_code_is_expanded:
  assumes "cb_authorization_code callback = ''${clientSecret}''" "CHR ''$'' \<notin> set (cb_client_secret callback)"
    and "(name, ''${authorizationCode}'') \<in> set (tep_query (op_token (olp_config p)))" "tep_client_credentials (op_token (olp_config p)) \<noteq> QueryPlacement"
  shows "(name, cb_client_secret callback) \<in> set (tx_query (token_request lib p callback client_id_parameter client_secret_parameter))"
  using render_map_entry [OF assms(3), of "template_variables callback"] rendered_code [OF assms(1,2)] assms(4)
  by (simp add: token_request_def Let_def)

theorem authorization_code_is_expanded_witness:
  "tx_method (token_request plain_urls forge (forge_callback ''${clientSecret}'') ''client_id'' ''client_secret'') = GetMethod \<and>
   (''code'', ''s3cret'') \<in> set (tx_query (token_request plain_urls forge (forge_callback ''${clientSecret}'') ''client_id'' ''client_secret''))"
  using authorization_code_is_expanded [of "forge_callback ''${clientSecret}''" "''code''" forge plain_urls "''client_id''" "''client_secret''"]
  by (simp add: forge_def forge_config_def forge_callback_def token_request_def Let_def)

end
