(* ===== verification/Federated_Login.thy ===== *)
theory Federated_Login
  imports Providers Standalone
begin

text \<open>
  Logins through external identity providers (\<open>authn/src/handler/oauth2.rs\<close>): the flows that are started
  with a one-time state, the callback that completes a login or a link, and the exchange of a bearer token
  for a canonical one. The adapters come from \<open>Providers\<close>; the lemmas show that a completed callback belongs
  to a flow that was started for the same provider, whose principal is the one the identity is bound to.
\<close>

section \<open>State\<close>

datatype provider_protocol = OAuth2Protocol | OidcProtocol

record provider_runtime =
  prt_adapter :: provider_adapter
  prt_client_id :: string
  prt_client_secret :: string
  prt_callback_url :: string
  prt_protocol :: provider_protocol

record authorize_query =
  aq_return_uri :: string
  aq_return_to :: string

record callback_query =
  cq_code :: string
  cq_state :: string

record bearer_exchange_request =
  bx_subject_token :: string
  bx_kind :: principal_kind

record oauth_challenge =
  och_provider :: string
  och_return_uri :: string
  och_redirect_after_login :: bool
  och_nonce :: "string option"
  och_pkce_verifier :: "string option"
  och_link_principal_id :: "string option"

text \<open>The codec of the challenges and the source of random identifiers stand beside the fields of the handler.\<close>

record ('d, 'c, 'k, 'p) oauth2_handler =
  oh_providers :: "(string \<times> provider_runtime) list"
  oh_challenges :: "'c challenge_cache"
  oh_pipeline :: "('d, 'k, 'p) authentication_pipeline"
  oh_challenge_ttl :: duration
  oh_codec :: "oauth_challenge challenge_codec"
  oh_random_id :: "string \<Rightarrow> string"

definition oauth_challenge_purpose :: string where
  "oauth_challenge_purpose = ''oauth''"

section \<open>Providers\<close>

record custom_provider_properties =
  cp_adapter :: string
  cp_issuer :: string
  cp_settings :: "(string \<times> string) list"

datatype provider_properties =
    OidcProperties oidc_provider_properties
  | OAuth2Properties oauth_provider_properties
  | OAuth2LikeProperties oauth_provider_properties
  | CustomProperties custom_provider_properties

datatype provider_setup_error =
    CredentialsRequired string
  | OidcSettingsRequired string
  | AdapterRejected provider_error
  | CustomAdapterRequired string
  | OAuthCacheRequired

text \<open>The libraries of the adapters, and the HTTP client of the transport where it can be built.\<close>

record provider_libs =
  pb_urls :: url_lib
  pb_discovery :: oidc_discovery
  pb_http :: "(string, http_client) result"

definition validate_provider_credentials :: "string \<Rightarrow> string \<Rightarrow> string \<Rightarrow> string \<Rightarrow> (provider_setup_error, unit) result" where
  "validate_provider_credentials provider client_id client_secret callback_url =
     (if client_id = [] \<or> client_secret = [] \<or> callback_url = [] then Inl (CredentialsRequired provider) else Inr ())"

definition validate_oidc_provider :: "string \<Rightarrow> string \<Rightarrow> string \<Rightarrow> string \<Rightarrow> (provider_setup_error, unit) result" where
  "validate_oidc_provider provider issuer client_id callback_url =
     (if issuer = [] \<or> client_id = [] \<or> callback_url = [] then Inl (OidcSettingsRequired provider) else Inr ())"

definition oauth_adapter ::
  "url_lib \<Rightarrow> provider_transport \<Rightarrow> string \<Rightarrow> oauth_provider_properties \<Rightarrow> (provider_error, provider_adapter) result" where
  "oauth_adapter urls transport provider oauth =
     (if provider = ''github'' then and_then (github_new urls oauth transport) (\<lambda>p. Inr (github_adapter urls p))
      else if provider = ''google'' then and_then (google_new urls oauth transport) (\<lambda>p. Inr (google_adapter urls p))
      else if provider = ''qq'' then and_then (qq_new urls oauth transport) (\<lambda>p. Inr (qq_adapter urls p))
      else if provider = ''wechat'' then and_then (wechat_new urls oauth transport) (\<lambda>p. Inr (wechat_adapter urls p))
      else and_then (oauth_like_new urls provider oauth transport) (\<lambda>p. Inr (oauth_like_adapter urls p)))"

definition oauth_runtime ::
  "provider_libs \<Rightarrow> provider_transport \<Rightarrow> string \<Rightarrow> oauth_provider_properties \<Rightarrow> (provider_setup_error, provider_runtime) result" where
  "oauth_runtime libs transport provider oauth =
     and_then (validate_provider_credentials provider (op_client_id oauth) (op_client_secret oauth) (op_callback_url oauth)) (\<lambda>_.
     and_then (map_err AdapterRejected (oauth_adapter (pb_urls libs) transport provider oauth)) (\<lambda>adapter.
       Inr \<lparr>prt_adapter = adapter, prt_client_id = op_client_id oauth, prt_client_secret = op_client_secret oauth,
            prt_callback_url = op_callback_url oauth, prt_protocol = OAuth2Protocol\<rparr>))"

fun provider_runtime_of ::
  "provider_libs \<Rightarrow> provider_transport \<Rightarrow> string \<Rightarrow> provider_properties \<Rightarrow> (provider_setup_error, provider_runtime) result" where
  "provider_runtime_of libs transport provider (OidcProperties oidc) =
     and_then (validate_oidc_provider provider (ocp_issuer oidc) (ocp_client_id oidc) (ocp_callback_url oidc)) (\<lambda>_.
     and_then (map_err AdapterRejected (oidc_discover (pb_discovery libs) provider oidc)) (\<lambda>p.
       Inr \<lparr>prt_adapter = oidc_adapter p, prt_client_id = ocp_client_id oidc, prt_client_secret = ocp_client_secret oidc,
            prt_callback_url = ocp_callback_url oidc, prt_protocol = OidcProtocol\<rparr>))"
| "provider_runtime_of libs transport provider (OAuth2Properties oauth) = oauth_runtime libs transport provider oauth"
| "provider_runtime_of libs transport provider (OAuth2LikeProperties oauth) = oauth_runtime libs transport provider oauth"
| "provider_runtime_of libs transport provider (CustomProperties _) = Inl (CustomAdapterRequired provider)"

definition build_providers ::
  "provider_libs \<Rightarrow> (string \<times> provider_properties) list \<Rightarrow> (provider_setup_error, (string \<times> provider_runtime) list) result" where
  "build_providers libs config =
     and_then (map_err (\<lambda>e. AdapterRejected (ProviderTransport e)) (pb_http libs)) (\<lambda>client.
       traverse (\<lambda>(provider, properties).
         and_then (provider_runtime_of libs (reqwest_transport client) provider properties) (\<lambda>runtime. Inr (provider, runtime))) config)"

definition oauth2_open ::
  "provider_libs \<Rightarrow> (string \<times> provider_properties) list \<Rightarrow> duration \<Rightarrow> 'c challenge_cache option \<Rightarrow> ('d, 'k, 'p) authentication_pipeline \<Rightarrow>
   oauth_challenge challenge_codec \<Rightarrow> (string \<Rightarrow> string) \<Rightarrow> (provider_setup_error, ('d, 'c, 'k, 'p) oauth2_handler option) result" where
  "oauth2_open libs config challenge_ttl challenges pipeline codec_of random =
     and_then (build_providers libs config) (\<lambda>providers.
       if providers = [] then Inr None
       else and_then (ok_or OAuthCacheRequired challenges) (\<lambda>cache.
         Inr (Some \<lparr>oh_providers = providers, oh_challenges = cache, oh_pipeline = pipeline, oh_challenge_ttl = challenge_ttl,
                    oh_codec = codec_of, oh_random_id = random\<rparr>)))"

section \<open>Handlers\<close>

definition return_destination :: "authorize_query \<Rightarrow> (api_error, string \<times> bool) result" where
  "return_destination q =
     (if aq_return_uri q \<noteq> [] \<and> aq_return_to q \<noteq> [] \<and> aq_return_uri q \<noteq> aq_return_to q
      then Inl (bad_request ''return_uri and return_to must match when both are set'')
      else if aq_return_to q = [] then Inr (aq_return_uri q, False)
      else Inr (aq_return_to q, True))"

definition federated_error :: "provider_error \<Rightarrow> api_error" where
  "federated_error e = unavailable ''external identity provider authentication failed''"

definition prepare_authorization ::
  "('d, 'c, 'k, 'p) oauth2_handler \<Rightarrow> application_resolver \<Rightarrow> request_env \<Rightarrow> flow_seed \<Rightarrow> 'c \<Rightarrow> string \<Rightarrow> string \<Rightarrow> bool \<Rightarrow>
   string option \<Rightarrow> (api_error, url) result \<times> 'c" where
  "prepare_authorization h a e seed c provider return_uri redirect_after_login link_principal_id =
     (case (if redirect_after_login then validate_return_to a return_uri else validate_response_return_uri a return_uri) of
        Inl err \<Rightarrow> (Inl err, c)
      | Inr destination \<Rightarrow>
     (case map_of (oh_providers h) provider of
        None \<Rightarrow> (Inl (not_found ''authentication provider is not configured''), c)
      | Some runtime \<Rightarrow>
          let state = oh_random_id h (rq_challenge e)
          in
     (case pa_authorize (prt_adapter runtime) seed (prt_client_id runtime) (prt_callback_url runtime) state of
        Inl err \<Rightarrow> (Inl (federated_error err), c)
      | Inr authorization \<Rightarrow>
     (case put_json (oh_challenges h) (oh_codec h) (rq_cache_now e) (rq_cache_later e) oauth_challenge_purpose state
         \<lparr>och_provider = provider, och_return_uri = destination, och_redirect_after_login = redirect_after_login,
          och_nonce = pz_nonce authorization, och_pkce_verifier = pz_pkce_verifier authorization,
          och_link_principal_id = link_principal_id\<rparr> (oh_challenge_ttl h) c of
        (Inl err, c') \<Rightarrow> (Inl (api_challenge err), c')
      | (Inr _, c') \<Rightarrow> (Inr (pz_url authorization), c')))))"

definition oauth_authorize ::
  "('d, 'c, 'k, 'p) oauth2_handler \<Rightarrow> application_resolver \<Rightarrow> request_env \<Rightarrow> flow_seed \<Rightarrow> 'c \<Rightarrow> string \<Rightarrow> authorize_query \<Rightarrow>
   (api_error, url) result \<times> 'c" where
  "oauth_authorize h a e seed c provider query =
     (case return_destination query of
        Inl err \<Rightarrow> (Inl err, c)
      | Inr (return_uri, redirect_after_login) \<Rightarrow> prepare_authorization h a e seed c provider return_uri redirect_after_login None)"

definition link_authorize ::
  "('d, 'c, 'k, 'p) oauth2_handler \<Rightarrow> application_resolver \<Rightarrow> request_env \<Rightarrow> flow_seed \<Rightarrow> 'c \<Rightarrow> headers \<Rightarrow> string \<Rightarrow> authorize_query \<Rightarrow>
   (api_error, url) result \<times> 'c" where
  "link_authorize h a e seed c hs provider query =
     (case authenticate_token (oh_pipeline h) (rq_now e) hs of
        Inl err \<Rightarrow> (Inl (api_token err), c)
      | Inr principal_id \<Rightarrow>
     (case return_destination query of
        Inl err \<Rightarrow> (Inl err, c)
      | Inr (return_uri, redirect_after_login) \<Rightarrow>
          prepare_authorization h a e seed c provider return_uri redirect_after_login (Some principal_id)))"

text \<open>The methods and the assurance that an OpenID Connect provider states, as far as they are usable.\<close>

definition stated_methods :: "json option \<Rightarrow> string list" where
  "stated_methods method_claim =
     (case method_claim of
        Some (JArray vs) \<Rightarrow>
          let methods = List.take 16 (filter (\<lambda>m. m \<noteq> [] \<and> length m \<le> 64) (List.map_filter json_as_str vs))
          in if methods = [] then [''oidc''] else methods
      | _ \<Rightarrow> [''oidc''])"

definition stated_assurance :: "json option \<Rightarrow> string option" where
  "stated_assurance assurance_claim =
     (case Option.bind assurance_claim json_as_str of
        Some v \<Rightarrow> if v \<noteq> [] \<and> length v \<le> 512 then Some v else None
      | None \<Rightarrow> None)"

definition remove_claim :: "string \<Rightarrow> (string \<times> json) list \<Rightarrow> (string \<times> json) list" where
  "remove_claim name claims = filter (\<lambda>(n, _). n \<noteq> name) claims"

definition provider_authentication :: "external_identity \<Rightarrow> provider_protocol \<Rightarrow> int \<Rightarrow> authentication_result" where
  "provider_authentication identity protocol now =
     (let method_claim = map_of (ei_claims identity) ''amr'';
          assurance_claim = map_of (ei_claims identity) ''acr'';
          stripped = identity\<lparr>ei_claims := remove_claim ''acr'' (remove_claim ''amr'' (ei_claims identity))\<rparr>
      in case protocol of
           OAuth2Protocol \<Rightarrow> authentication_result_new stripped [''oauth2''] None now
         | OidcProtocol \<Rightarrow> authentication_result_new stripped (stated_methods method_claim) (stated_assurance assurance_claim) now)"

definition oauth_callback ::
  "('d, 'c, 'k, 'p) oauth2_handler \<Rightarrow> (string \<Rightarrow> string option) \<Rightarrow> request_env \<Rightarrow> 'd \<Rightarrow> 'c \<Rightarrow> string \<Rightarrow> callback_query \<Rightarrow>
   (api_error, login_reply) result \<times> 'd \<times> 'c" where
  "oauth_callback h header_of e d c provider query =
     (case consume_json (oh_challenges h) (oh_codec h) (rq_cache_now e) oauth_challenge_purpose (cq_state query) c of
        (Inl err, c') \<Rightarrow> (Inl (api_challenge err), d, c')
      | (Inr None, c') \<Rightarrow> (Inl (bad_request ''invalid or expired OAuth state''), d, c')
      | (Inr (Some flow), c') \<Rightarrow>
          if och_provider flow \<noteq> provider then (Inl (bad_request ''invalid or expired OAuth state''), d, c')
          else
     (case map_of (oh_providers h) provider of
        None \<Rightarrow> (Inl (not_found ''authentication provider is not configured''), d, c')
      | Some runtime \<Rightarrow>
     (case pa_authenticate (prt_adapter runtime) \<lparr>cb_authorization_code = cq_code query, cb_redirect_uri = prt_callback_url runtime,
         cb_client_id = prt_client_id runtime, cb_client_secret = prt_client_secret runtime, cb_nonce = och_nonce flow,
         cb_pkce_verifier = och_pkce_verifier flow\<rparr> of
        Inl err \<Rightarrow> (Inl (federated_error err), d, c')
      | Inr identity \<Rightarrow>
          let authentication = provider_authentication identity (prt_protocol runtime) (rq_at e)
          in
     (case (case och_link_principal_id flow of
          Some principal_id \<Rightarrow> pipeline_link (oh_pipeline h) d (rq_now e) principal_id authentication
        | None \<Rightarrow> pipeline_login (oh_pipeline h) d (rq_now e) authentication User (rq_principal e)) of
        (Inl err, d') \<Rightarrow> (Inl (api_pipeline err), d', c')
      | (Inr issued, d') \<Rightarrow>
          let response = login_response_new issued (och_return_uri flow)
          in (if och_redirect_after_login flow then into_redirect header_of response else Inr (login_into_response header_of response), d', c')))))"

definition token_exchange ::
  "('d, 'c, 'k, 'p) oauth2_handler \<Rightarrow> request_env \<Rightarrow> 'd \<Rightarrow> string \<Rightarrow> bearer_exchange_request \<Rightarrow> (api_error, login_response) result \<times> 'd" where
  "token_exchange h e d provider request =
     (if bx_subject_token request = [] then (Inl (bad_request ''subjectToken is required''), d)
      else if bx_kind request = Group then (Inl (bad_request ''GROUP principals cannot authenticate with bearer tokens''), d)
      else
     (case map_of (oh_providers h) provider of
        None \<Rightarrow> (Inl (not_found ''authentication provider is not configured''), d)
      | Some runtime \<Rightarrow>
     (case pa_authenticate_bearer (prt_adapter runtime) (bx_subject_token request) (bx_kind request) of
        Inl err \<Rightarrow> (Inl (federated_error err), d)
      | Inr identity \<Rightarrow>
     (case pipeline_login (oh_pipeline h) d (rq_now e) (provider_authentication identity (prt_protocol runtime) (rq_at e))
         (bx_kind request) (rq_principal e) of
        (Inl err, d') \<Rightarrow> (Inl (api_pipeline err), d')
      | (Inr issued, d') \<Rightarrow> (Inr (login_response_new issued []), d')))))"

section \<open>Lemmas\<close>

subsection \<open>Configured adapters\<close>

fun configured_issuer :: "provider_properties \<Rightarrow> string" where
  "configured_issuer (OidcProperties oidc) = ocp_issuer oidc"
| "configured_issuer (OAuth2Properties oauth) = op_issuer oauth"
| "configured_issuer (OAuth2LikeProperties oauth) = op_issuer oauth"
| "configured_issuer (CustomProperties custom) = cp_issuer custom"

lemma oauth_like_new_Inr:
  "oauth_like_new lib name config transport = Inr p \<Longrightarrow> olp_provider_id p = name \<and> op_issuer (olp_config p) = op_issuer config"
  by (auto simp: oauth_like_new_def result_simps)

lemma oauth_adapter_provider:
  assumes "oauth_adapter urls transport provider oauth = Inr adapter"
  shows "identity_provider adapter provider (op_issuer oauth)"
proof -
  consider (github) p where "github_new urls oauth transport = Inr p" "provider = ''github''" "adapter = github_adapter urls p"
    | (google) p where "google_new urls oauth transport = Inr p" "provider = ''google''" "adapter = google_adapter urls p"
    | (qq) p where "qq_new urls oauth transport = Inr p" "provider = ''qq''" "adapter = qq_adapter urls p"
    | (wechat) p where "wechat_new urls oauth transport = Inr p" "provider = ''wechat''" "adapter = wechat_adapter urls p"
    | (other) p where "oauth_like_new urls provider oauth transport = Inr p" "adapter = oauth_like_adapter urls p"
    using assms by (auto simp: oauth_adapter_def result_simps split: if_splits)
  then show ?thesis
  proof cases
    case github
    then show ?thesis using github.identity_provider_axioms [of urls p] by (auto simp: github_new_def dest!: oauth_like_new_Inr)
  next
    case google
    then show ?thesis using google.identity_provider_axioms [of urls p] by (auto simp: google_new_def dest!: oauth_like_new_Inr)
  next
    case qq
    then show ?thesis using qq.identity_provider_axioms [of urls p] by (auto simp: qq_new_def dest!: oauth_like_new_Inr)
  next
    case wechat
    then show ?thesis using wechat.identity_provider_axioms [of urls p] by (auto simp: wechat_new_def dest!: oauth_like_new_Inr)
  next
    case other
    then show ?thesis using oauth_like.identity_provider_axioms [of urls p] by (auto dest!: oauth_like_new_Inr)
  qed
qed

lemma oidc_discover_Inr: "oidc_discover lib name config = Inr p \<Longrightarrow> oi_provider_id p = name \<and> oi_config p = config"
  by (auto simp: oidc_discover_def result_simps)

lemma oauth_runtime_provider:
  "oauth_runtime libs transport provider oauth = Inr runtime \<Longrightarrow> identity_provider (prt_adapter runtime) provider (op_issuer oauth)"
  by (auto simp: oauth_runtime_def result_simps dest: oauth_adapter_provider)

lemma runtime_provider:
  "provider_runtime_of libs transport provider properties = Inr runtime \<Longrightarrow>
   identity_provider (prt_adapter runtime) provider (configured_issuer properties)"
proof (induction libs transport provider properties rule: provider_runtime_of.induct)
  case (1 libs transport provider oidc)
  then obtain p where p: "oidc_discover (pb_discovery libs) provider oidc = Inr p" "prt_adapter runtime = oidc_adapter p"
    by (auto simp: result_simps)
  with oidc.identity_provider_axioms [of p] oidc_discover_Inr [OF p(1)] show ?case by simp
qed (auto dest: oauth_runtime_provider)

lemma map_of_aligned:
  "list_all2 (\<lambda>(n, x) (m, y). n = m \<and> R n x y) xs ys \<Longrightarrow> map_of ys k = Some y \<Longrightarrow> \<exists>x. map_of xs k = Some x \<and> R k x y"
  by (induction rule: list_all2_induct) (auto split: if_splits)

lemma built_provider:
  assumes "build_providers libs config = Inr providers" "map_of providers provider = Some runtime"
  shows "\<exists>properties. map_of config provider = Some properties \<and>
    identity_provider (prt_adapter runtime) provider (configured_issuer properties)"
proof -
  from assms(1) obtain client where "list_all2 (\<lambda>entry built. (case entry of (provider, properties) \<Rightarrow>
      and_then (provider_runtime_of libs (reqwest_transport client) provider properties) (\<lambda>runtime. Inr (provider, runtime))) = Inr built) config providers"
    by (auto simp: build_providers_def result_simps traverse_eq_Inr)
  then have
    "list_all2 (\<lambda>(n, properties) (m, runtime). n = m \<and>
       provider_runtime_of libs (reqwest_transport client) n properties = Inr runtime) config providers"
    by (rule list_all2_mono) (auto simp: and_then_eq_Inr)
  from map_of_aligned [OF this assms(2)] show ?thesis by (auto dest: runtime_provider)
qed

subsection \<open>Evidence\<close>

lemma remove_claim_lookup: "map_of (remove_claim name claims) n = (if n = name then None else map_of claims n)"
  by (induction claims) (auto simp: remove_claim_def)

lemma provider_authentication_identity:
  "external_identity_key_of (res_external_identity (provider_authentication identity protocol now)) = external_identity_key_of identity"
  by (cases protocol) (simp_all add: provider_authentication_def Let_def authentication_result_new_def external_identity_key_of_def)

lemma push_methods_length: "length (push_methods amr ms) \<le> length amr + length ms"
proof (induction ms arbitrary: amr)
  case (Cons m ms)
  have "length (push_methods amr ms) \<le> length amr + length ms" "length (push_methods (amr @ [m]) ms) \<le> Suc (length amr) + length ms"
    using Cons.IH [of amr] Cons.IH [of "amr @ [m]"] by simp_all
  then show ?case by simp
qed simp

lemma stated_methods_bounded: "length (stated_methods claim) \<le> 16 \<and> (\<forall>m \<in> set (stated_methods claim). m \<noteq> [] \<and> length m \<le> 64)"
  by (auto simp: stated_methods_def Let_def split: option.splits json.splits dest: in_set_takeD)

lemma stated_assurance_bounded: "stated_assurance claim = Some v \<Longrightarrow> v \<noteq> [] \<and> length v \<le> 512"
  by (auto simp: stated_assurance_def split: option.splits if_splits)

subsection \<open>Flows\<close>

text \<open>What the callback asks of the adapter, and how it answers.\<close>

definition callback_of :: "provider_runtime \<Rightarrow> oauth_challenge \<Rightarrow> callback_query \<Rightarrow> oauth_like_callback" where
  "callback_of runtime flow query = \<lparr>cb_authorization_code = cq_code query, cb_redirect_uri = prt_callback_url runtime,
     cb_client_id = prt_client_id runtime, cb_client_secret = prt_client_secret runtime, cb_nonce = och_nonce flow,
     cb_pkce_verifier = och_pkce_verifier flow\<rparr>"

definition callback_reply ::
  "(string \<Rightarrow> string option) \<Rightarrow> oauth_challenge \<Rightarrow> issued_authentication \<Rightarrow> (api_error, login_reply) result" where
  "callback_reply header_of flow issued =
     (let response = login_response_new issued (och_return_uri flow)
      in if och_redirect_after_login flow then into_redirect header_of response else Inr (login_into_response header_of response))"

lemma oauth_callback_Inr:
  assumes "oauth_callback h header_of e d c provider query = (Inr reply, d', c')"
  obtains flow runtime identity issued where
    "consume_json (oh_challenges h) (oh_codec h) (rq_cache_now e) oauth_challenge_purpose (cq_state query) c = (Inr (Some flow), c')"
    "och_provider flow = provider" "map_of (oh_providers h) provider = Some runtime"
    "pa_authenticate (prt_adapter runtime) (callback_of runtime flow query) = Inr identity"
    "(case och_link_principal_id flow of
        Some n \<Rightarrow> pipeline_link (oh_pipeline h) d (rq_now e) n (provider_authentication identity (prt_protocol runtime) (rq_at e))
      | None \<Rightarrow> pipeline_login (oh_pipeline h) d (rq_now e) (provider_authentication identity (prt_protocol runtime) (rq_at e))
          User (rq_principal e)) = (Inr issued, d')"
    "callback_reply header_of flow issued = Inr reply"
proof -
  from assms obtain flow where f: "consume_json (oh_challenges h) (oh_codec h) (rq_cache_now e) oauth_challenge_purpose (cq_state query) c =
      (Inr (Some flow), c')" "och_provider flow = provider"
    by (auto simp: oauth_callback_def Let_def split: prod.splits sum.splits option.splits if_splits)
  with assms obtain runtime where r: "map_of (oh_providers h) provider = Some runtime"
    by (auto simp: oauth_callback_def split: option.splits)
  with assms f obtain identity where i: "pa_authenticate (prt_adapter runtime) (callback_of runtime flow query) = Inr identity"
    by (auto simp: oauth_callback_def callback_of_def split: sum.splits)
  from assms f r i obtain issued where
    "(case och_link_principal_id flow of
        Some n \<Rightarrow> pipeline_link (oh_pipeline h) d (rq_now e) n (provider_authentication identity (prt_protocol runtime) (rq_at e))
      | None \<Rightarrow> pipeline_login (oh_pipeline h) d (rq_now e) (provider_authentication identity (prt_protocol runtime) (rq_at e))
          User (rq_principal e)) = (Inr issued, d')" "callback_reply header_of flow issued = Inr reply"
    by (auto simp: oauth_callback_def callback_of_def callback_reply_def Let_def split: prod.splits sum.splits)
  with f r i show thesis by (rule that)
qed

section \<open>An example service\<close>

definition open_libs :: provider_libs where
  "open_libs = \<lparr>pb_urls = \<lparr>ul_parse = (\<lambda>s. Some (app_url ''/'')), ul_append_pair = (\<lambda>u n v. u), ul_standard_encode = (\<lambda>x. x)\<rparr>,
     pb_discovery = \<lparr>od_parse_url = (\<lambda>s. Some (app_url ''/'')), od_issuer_url = (\<lambda>s. True), od_redirect_url = (\<lambda>s. True),
       od_http = Inr (oi_http corporate_oidc), od_discover = (\<lambda>i http. Inr (\<lambda>client_id secret redirect. oi_client corporate_oidc))\<rparr>,
     pb_http = Inr (\<lambda>r. Inr \<lparr>hr_status = 200, hr_json = Inr (if hq_url r = ''https://forge/user'' then JObject [(''id'', JNumber ''7'')]
       else JObject [(''access_token'', JString ''t'')])\<rparr>)\<rparr>"

definition forge_providers :: "(string \<times> provider_properties) list" where
  "forge_providers = [(''corporate'', OidcProperties (oi_config corporate_oidc)), (''forge'', OAuth2LikeProperties forge_config)]"

definition forge_flow :: oauth_challenge where
  "forge_flow = \<lparr>och_provider = ''forge'', och_return_uri = [], och_redirect_after_login = False, och_nonce = None, och_pkce_verifier = None,
     och_link_principal_id = None\<rparr>"

text \<open>The handler on any cache; the codec writes nothing and reads the flow above.\<close>

definition forge_handler :: "'c challenge_cache \<Rightarrow> (authn_database, 'c, string, string) oauth2_handler" where
  "forge_handler cache = \<lparr>oh_providers = (case build_providers open_libs forge_providers of Inr ps \<Rightarrow> ps | Inl _ \<Rightarrow> []), oh_challenges = cache,
     oh_pipeline = plain_pipeline, oh_challenge_ttl = from_secs 60,
     oh_codec = \<lparr>co_to_vec = (\<lambda>flow. if flow = forge_flow then Some [] else None), co_from_slice = (\<lambda>s. Some forge_flow), co_sha256_hex = (\<lambda>x. x)\<rparr>,
     oh_random_id = (\<lambda>x. x)\<rparr>"

definition always_pending :: "unit challenge_cache" where
  "always_pending = \<lparr>cc_put_if_absent = (\<lambda>t t' k v ttl c. (Inr True, ())), cc_take = (\<lambda>t k c. (Inr (Some []), ()))\<rparr>"

definition forge_query :: callback_query where
  "forge_query = \<lparr>cq_code = ''c1'', cq_state = ''h1''\<rparr>"

lemma forge_built: "build_providers open_libs forge_providers = Inr (oh_providers (forge_handler cache))"
proof -
  have "case build_providers open_libs forge_providers of Inl _ \<Rightarrow> False | Inr _ \<Rightarrow> True" by code_simp
  then show ?thesis by (auto simp: forge_handler_def split: sum.splits)
qed

lemma forge_linking: "als_repository (pl_linking (oh_pipeline (forge_handler cache))) = authn_identity_repository"
  by (simp add: forge_handler_def plain_pipeline_def)

section \<open>Properties\<close>

text \<open>
  Claim C13. A federated login is bound to its flow and to its provider: a callback succeeds only with a state that was
  pending for the same provider; the identity is what the configured adapter authenticates with the nonce and
  the PKCE verifier of that flow, it carries the name and the configured issuer of the provider, and the
  response is for the active principal that this identity is bound to. Where the flow is a link, the identity
  was unbound before and the principal is the one that started the flow, which already held an identity.
\<close>

theorem federated_login_is_bound:
  assumes "build_providers libs config = Inr (oh_providers h)" "authn_ok ad"
    and "als_repository (pl_linking (oh_pipeline h)) = authn_identity_repository"
    and "oauth_callback h header_of e ad c provider query = (Inr reply, ad', c')"
  shows "\<exists>flow properties runtime identity k p issued.
    consume_json (oh_challenges h) (oh_codec h) (rq_cache_now e) oauth_challenge_purpose (cq_state query) c = (Inr (Some flow), c') \<and>
    och_provider flow = provider \<and> map_of config provider = Some properties \<and> map_of (oh_providers h) provider = Some runtime \<and>
    pa_authenticate (prt_adapter runtime) (callback_of runtime flow query) = Inr identity \<and>
    external_identity_key_of identity = Inr k \<and> ek_provider k = provider \<and> ek_issuer k = configured_issuer properties \<and>
    sqlite_bound (ad_tables ad') k = Some p \<and> pi_status p = Active \<and>
    ap_principal_id (ia_principal issued) = pi_id p \<and> callback_reply header_of flow issued = Inr reply \<and>
    (\<forall>n. och_link_principal_id flow = Some n \<longrightarrow> pi_id p = n \<and> sqlite_bound (ad_tables ad) k = None \<and>
      (\<exists>k' q. sqlite_bound (ad_tables ad) k' = Some q \<and> pi_id q = n))"
proof -
  from assms(4) obtain flow runtime identity issued where
    f: "consume_json (oh_challenges h) (oh_codec h) (rq_cache_now e) oauth_challenge_purpose (cq_state query) c = (Inr (Some flow), c')"
      "och_provider flow = provider" "map_of (oh_providers h) provider = Some runtime"
      "pa_authenticate (prt_adapter runtime) (callback_of runtime flow query) = Inr identity" and
    l: "(case och_link_principal_id flow of
        Some n \<Rightarrow> pipeline_link (oh_pipeline h) ad (rq_now e) n (provider_authentication identity (prt_protocol runtime) (rq_at e))
      | None \<Rightarrow> pipeline_login (oh_pipeline h) ad (rq_now e) (provider_authentication identity (prt_protocol runtime) (rq_at e))
          User (rq_principal e)) = (Inr issued, ad')" and
    r: "callback_reply header_of flow issued = Inr reply" by (rule oauth_callback_Inr)
  from built_provider [OF assms(1) f(3)] obtain properties where
    p: "map_of config provider = Some properties" "identity_provider (prt_adapter runtime) provider (configured_issuer properties)" by blast
  from identity_bindings.pipeline_binds [OF authn_link.identity_bindings_axioms assms(2,3) l] obtain k q where
    k: "external_identity_key_of identity = Inr k" "sqlite_bound (ad_tables ad') k = Some q" "pi_status q = Active"
      "ap_principal_id (ia_principal issued) = pi_id q"
      "\<forall>n. och_link_principal_id flow = Some n \<longrightarrow> pi_id q = n \<and> sqlite_bound (ad_tables ad) k = None \<and>
        (\<exists>k' q'. sqlite_bound (ad_tables ad) k' = Some q' \<and> pi_id q' = n)"
    unfolding provider_authentication_identity by (elim conjE exE)
  from identity_provider.callback_key [OF p(2) f(4) k(1)] f p(1) k r show ?thesis by blast
qed

theorem federated_login_is_bound_witness:
  "\<exists>reply (ad' :: authn_database) k p. fst (oauth_callback (forge_handler always_pending) Some (plain_env ''1'') empty_authn () ''forge'' forge_query) = Inr reply \<and>
     sqlite_bound (ad_tables ad') k = Some p \<and> ek_provider k = ''forge'' \<and> ek_issuer k = ''https://forge''"
proof -
  let ?c = "oauth_callback (forge_handler always_pending) Some (plain_env ''1'') empty_authn () ''forge'' forge_query"
  have "case ?c of (Inl _, _) \<Rightarrow> False | (Inr _, _) \<Rightarrow> True" by code_simp
  then obtain reply ad' c' where r: "?c = (Inr reply, ad', c')" by (cases ?c; cases "fst ?c"; cases "snd ?c") auto
  from federated_login_is_bound [OF forge_built empty_authn_ok forge_linking r] obtain properties k p where
    "map_of forge_providers ''forge'' = Some properties" "ek_provider k = ''forge''" "ek_issuer k = configured_issuer properties"
    "sqlite_bound (ad_tables ad') k = Some p" by blast
  moreover have "configured_issuer (OAuth2LikeProperties forge_config) = ''https://forge''" by (simp add: forge_config_def)
  ultimately show ?thesis using r by (simp add: forge_providers_def) blast
qed

text \<open>
  Claim C24. Every configured provider yields identities of its own: whatever the adapter of a configured provider authenticates,
  from a callback or from a bearer token, carries the name of the provider and its configured issuer, a subject
  that is not empty, not padded and at most 512 bytes long, and claims in the order of their names without repetition.
\<close>

theorem configured_identities_are_well_formed:
  assumes "build_providers libs config = Inr providers" "map_of providers provider = Some runtime"
    and "pa_authenticate (prt_adapter runtime) callback = Inr e \<or> pa_authenticate_bearer (prt_adapter runtime) token kind = Inr e"
  shows "\<exists>properties. map_of config provider = Some properties \<and> ei_provider e = provider \<and> ei_issuer e = configured_issuer properties \<and>
    ei_subject e \<noteq> [] \<and> trim (ei_subject e) = ei_subject e \<and> length (ei_subject e) \<le> 512 \<and> sorted_wrt (<) (map fst (ei_claims e))"
proof -
  from built_provider [OF assms(1,2)] obtain properties where
    p: "map_of config provider = Some properties" "identity_provider (prt_adapter runtime) provider (configured_issuer properties)" by blast
  have "identity_of provider (configured_issuer properties) e"
    using assms(3) identity_provider.callback_identity [OF p(2)] identity_provider.bearer_identity [OF p(2)] by blast
  with p(1) show ?thesis by (auto simp: identity_of_def stable_subject_def btree_def)
qed

theorem configured_identities_are_well_formed_witness:
  "\<exists>runtime e. map_of (oh_providers (forge_handler always_pending)) ''corporate'' = Some runtime \<and>
     pa_authenticate_bearer (prt_adapter runtime) ''t'' Workload = Inr e \<and> ei_issuer e = ''https://id''"
proof -
  have "case map_of (oh_providers (forge_handler always_pending)) ''corporate'' of None \<Rightarrow> False
      | Some runtime \<Rightarrow> (case pa_authenticate_bearer (prt_adapter runtime) ''t'' Workload of Inl _ \<Rightarrow> False | Inr e \<Rightarrow> True)" by code_simp
  then obtain runtime e where r: "map_of (oh_providers (forge_handler always_pending)) ''corporate'' = Some runtime"
    "pa_authenticate_bearer (prt_adapter runtime) ''t'' Workload = Inr e" by (auto split: option.splits sum.splits)
  have "configured_issuer (OidcProperties (oi_config corporate_oidc)) = ''https://id''" by (simp add: corporate_oidc_def)
  then show ?thesis
    using configured_identities_are_well_formed [OF forge_built r(1), OF disjI2, OF r(2)] r by (auto simp: forge_providers_def)
qed

text \<open>
  An exchanged bearer token is for the identity it authenticates: an exchange succeeds only for a configured
  provider whose adapter authenticates the token, never for a group, and its response is for the active
  principal that the identity of that provider and issuer is bound to.
\<close>

theorem exchanged_token_is_bound:
  assumes "build_providers libs config = Inr (oh_providers h)" "authn_ok ad"
    and "als_repository (pl_linking (oh_pipeline h)) = authn_identity_repository"
    and "token_exchange h e ad provider request = (Inr response, ad')"
  shows "\<exists>properties runtime identity k p. bx_kind request \<noteq> Group \<and>
    map_of config provider = Some properties \<and> map_of (oh_providers h) provider = Some runtime \<and>
    pa_authenticate_bearer (prt_adapter runtime) (bx_subject_token request) (bx_kind request) = Inr identity \<and>
    external_identity_key_of identity = Inr k \<and> ek_provider k = provider \<and> ek_issuer k = configured_issuer properties \<and>
    sqlite_bound (ad_tables ad') k = Some p \<and> pi_status p = Active \<and> ap_principal_id (lr_principal response) = pi_id p"
proof -
  from assms(4) obtain runtime where r: "map_of (oh_providers h) provider = Some runtime" "bx_kind request \<noteq> Group"
    by (auto simp: token_exchange_def split: if_splits option.splits)
  with assms(4) obtain identity where i: "pa_authenticate_bearer (prt_adapter runtime) (bx_subject_token request) (bx_kind request) = Inr identity"
    by (auto simp: token_exchange_def split: if_splits sum.splits)
  with r assms(4) obtain issued where
    l: "pipeline_login (oh_pipeline h) ad (rq_now e) (provider_authentication identity (prt_protocol runtime) (rq_at e))
      (bx_kind request) (rq_principal e) = (Inr issued, ad')" "response = login_response_new issued []"
    by (auto simp: token_exchange_def split: if_splits sum.splits prod.splits)
  from built_provider [OF assms(1) r(1)] obtain properties where
    p: "map_of config provider = Some properties" "identity_provider (prt_adapter runtime) provider (configured_issuer properties)" by blast
  from identity_bindings.pipeline_login_binds [OF authn_link.identity_bindings_axioms assms(2,3) l(1)] obtain k q where
    k: "external_identity_key_of identity = Inr k" "sqlite_bound (ad_tables ad') k = Some q" "pi_status q = Active"
      "ap_principal_id (ia_principal issued) = pi_id q"
    unfolding provider_authentication_identity by (elim conjE exE)
  from identity_provider.bearer_key [OF p(2) i k(1)] r i p(1) k l(2) show ?thesis by (auto simp: login_response_new_def)
qed

text \<open>
  What a provider states about the authentication is bounded and transient: an OAuth login always counts as
  the one method \<open>oauth2\<close> without an assurance level; an OpenID Connect login has between one and sixteen methods
  of at most 64 bytes and an assurance level of at most 512; and the identity keeps every claim but \<open>amr\<close> and \<open>acr\<close>.
\<close>

theorem provider_evidence_is_bounded:
  "let a = provider_authentication identity protocol now in
     length (res_amr a) \<le> 16 \<and> res_amr a \<noteq> [] \<and> list_all (\<lambda>m. m \<noteq> [] \<and> length m \<le> 64) (res_amr a) \<and> distinct (res_amr a) \<and>
     pred_option (\<lambda>v. v \<noteq> [] \<and> length v \<le> 512) (res_acr a) \<and>
     map_of (ei_claims (res_external_identity a)) = (map_of (ei_claims identity))(''amr'' := None, ''acr'' := None) \<and>
     (case protocol of OAuth2Protocol \<Rightarrow> res_amr a = [''oauth2''] \<and> res_acr a = None | OidcProtocol \<Rightarrow> res_authenticated_at a = now)"
proof (cases protocol)
  case OAuth2Protocol
  then show ?thesis
    by (simp add: provider_authentication_def authentication_result_new_def Let_def remove_claim_lookup fun_eq_iff)
next
  case OidcProtocol
  let ?methods = "stated_methods (map_of (ei_claims identity) ''amr'')"
  have "?methods \<noteq> []" by (auto simp: stated_methods_def Let_def split: option.splits json.splits)
  moreover have "set (push_methods [] ?methods) = set ?methods" by (simp add: push_methods_set)
  moreover have "length (push_methods [] ?methods) \<le> 16" using push_methods_length [of "[]" ?methods] stated_methods_bounded [of "map_of (ei_claims identity) ''amr''"] by simp
  moreover have "distinct (push_methods [] ?methods)" by (simp add: push_methods_distinct)
  ultimately show ?thesis
    using OidcProtocol stated_methods_bounded [of "map_of (ei_claims identity) ''amr''"] stated_assurance_bounded
    by (auto simp: provider_authentication_def authentication_result_new_def Let_def remove_claim_lookup fun_eq_iff list_all_iff option.pred_set)
qed

text \<open>
  A started flow is kept as it was started: until its deadline the state in the redirect answers, once, with
  the provider, the validated destination, the nonce and verifier of the very authorization that the redirect
  carries, and the principal of a link.
\<close>

theorem started_flow_is_kept:
  assumes "oh_challenges h = memory_challenges" "distinct_values c"
    and "\<forall>x bytes. co_to_vec (oh_codec h) x = Some bytes \<longrightarrow> co_from_slice (oh_codec h) bytes = Some x"
    and "prepare_authorization h a e seed c provider return_uri redirect_after_login link = (Inr url, c')"
    and "rq_cache_now e \<le> t" "t < expires_at c (rq_cache_later e) (oh_challenge_ttl h)"
  shows "\<exists>runtime authorization destination c''. let state = oh_random_id h (rq_challenge e) in
    map_of (oh_providers h) provider = Some runtime \<and>
    pa_authorize (prt_adapter runtime) seed (prt_client_id runtime) (prt_callback_url runtime) state = Inr authorization \<and>
    url = pz_url authorization \<and>
    (if redirect_after_login then validate_return_to a return_uri else validate_response_return_uri a return_uri) = Inr destination \<and>
    consume_json memory_challenges (oh_codec h) t oauth_challenge_purpose state c' =
      (Inr (Some \<lparr>och_provider = provider, och_return_uri = destination, och_redirect_after_login = redirect_after_login,
        och_nonce = pz_nonce authorization, och_pkce_verifier = pz_pkce_verifier authorization, och_link_principal_id = link\<rparr>), c'') \<and>
    (\<forall>t' \<ge> t. fst (consume_json memory_challenges (oh_codec h) t' oauth_challenge_purpose state c'') = Inr None)"
proof -
  let ?state = "oh_random_id h (rq_challenge e)"
  from assms(4) obtain destination where d: "(if redirect_after_login then validate_return_to a return_uri else validate_response_return_uri a return_uri) = Inr destination"
    by (auto simp: prepare_authorization_def split: sum.splits)
  with assms(4) obtain runtime where r: "map_of (oh_providers h) provider = Some runtime"
    by (auto simp: prepare_authorization_def split: option.splits)
  with assms(4) d obtain authorization where z: "pa_authorize (prt_adapter runtime) seed (prt_client_id runtime) (prt_callback_url runtime) ?state = Inr authorization"
    by (auto simp: prepare_authorization_def Let_def split: sum.splits)
  let ?flow = "\<lparr>och_provider = provider, och_return_uri = destination, och_redirect_after_login = redirect_after_login,
        och_nonce = pz_nonce authorization, och_pkce_verifier = pz_pkce_verifier authorization, och_link_principal_id = link\<rparr>"
  from assms(1,4) d r z have p: "put_json memory_challenges (oh_codec h) (rq_cache_now e) (rq_cache_later e) oauth_challenge_purpose ?state ?flow
      (oh_challenge_ttl h) c = (Inr (), c')" and u: "url = pz_url authorization"
    by (auto simp: prepare_authorization_def Let_def split: prod.splits sum.splits)
  have once: "\<exists>c''. consume_json memory_challenges (oh_codec h) t oauth_challenge_purpose ?state c' = (Inr (Some ?flow), c'') \<and>
      fst (consume_json memory_challenges (oh_codec h) t' oauth_challenge_purpose ?state c'') = Inr None" if "t \<le> t'" for t'
    by (rule memory_once [OF assms(2) p _ assms(5,6) that]) (use assms(3) in blast)
  from once [of t] obtain c'' where c: "consume_json memory_challenges (oh_codec h) t oauth_challenge_purpose ?state c' = (Inr (Some ?flow), c'')" by blast
  have "\<forall>t' \<ge> t. fst (consume_json memory_challenges (oh_codec h) t' oauth_challenge_purpose ?state c'') = Inr None"
    using once c by auto
  with r z u d c show ?thesis unfolding Let_def by blast
qed

end
