(* ===== verification/Wallet.thy ===== *)
theory Wallet
  imports Standalone
begin

text \<open>
  Wallets: CAIP-10 account identifiers, the challenges and proofs of the Ethereum, Solana and Bitcoin namespaces
  (\<open>authn/src/provider/wallet/\<close>) and their handlers (\<open>authn/src/handler/wallet.rs\<close>). The crates \<open>siwx\<close>, its
  Ethereum and Solana verifiers, \<open>bitcoin\<close> and \<open>bip322\<close> are parameters. The lemmas show that account
  identifiers round-trip, which verifier stands behind the method a proof is recorded with, and what a wallet
  login needs.
\<close>

section \<open>Accounts\<close>

record evm_wallet_chain_properties =
  ew_rpc :: "string option"

record bitcoin_wallet_chain_properties =
  bw_network :: string

record wallet_chains_properties =
  wch_eip155 :: "(string \<times> evm_wallet_chain_properties) list"
  wch_solana :: "string list"
  wch_bip122 :: "(string \<times> bitcoin_wallet_chain_properties) list"

record wallet_authn_properties =
  wa_enabled :: bool
  wa_domain :: string
  wa_uri :: string
  wa_statement :: string
  wa_rpc_timeout :: duration
  wa_chains :: wallet_chains_properties

datatype wallet_provider_error =
    InvalidAccount
  | ChainNotConfigured
  | UnsupportedNamespace
  | SignatureTooLarge
  | InvalidSignatureEncoding
  | WalletBackend
  | ContractVerificationNotConfigured
  | VerificationMethodMismatch
  | VerificationFailure

record caip_account =
  ca_namespace :: string
  ca_reference :: string
  ca_address :: string

definition caip_namespace_char :: "char \<Rightarrow> bool" where
  "caip_namespace_char c \<longleftrightarrow> 97 \<le> code c \<and> code c \<le> 122 \<or> is_ascii_digit c \<or> c = CHR ''-''"

definition caip_component :: "char \<Rightarrow> bool" where
  "caip_component c \<longleftrightarrow> is_ascii_alphanumeric c \<or> c = CHR ''-'' \<or> c = CHR ''_''"

definition caip_address :: "char \<Rightarrow> bool" where
  "caip_address c \<longleftrightarrow> is_ascii_alphanumeric c \<or> c = CHR ''-'' \<or> c = CHR ''.'' \<or> c = CHR ''_'' \<or> c = CHR ''%''"

text \<open>\<open>Iterator::next\<close> with \<open>unwrap_or_default\<close>, by position.\<close>

definition component_at :: "nat \<Rightarrow> string list \<Rightarrow> string" where
  "component_at i components = (if i < length components then components ! i else [])"

definition caip_parse :: "string \<Rightarrow> (wallet_provider_error, caip_account) result" where
  "caip_parse v =
     (let components = split_on CHR '':'' v;
          namespace = component_at 0 components;
          reference = component_at 1 components;
          address = component_at 2 components
      in if length components > 3 \<or> namespace = [] \<or> reference = [] \<or> address = [] \<or>
            \<not> (3 \<le> length namespace \<and> length namespace \<le> 8) \<or> length reference > 32 \<or> length address > 128 \<or>
            \<not> list_all caip_namespace_char namespace \<or> \<not> list_all caip_component reference \<or> \<not> list_all caip_address address
         then Inl InvalidAccount
         else Inr \<lparr>ca_namespace = namespace, ca_reference = reference, ca_address = address\<rparr>)"

definition caip_canonical :: "caip_account \<Rightarrow> string" where
  "caip_canonical a = ca_namespace a @ '':'' @ ca_reference a @ '':'' @ ca_address a"

section \<open>Verifiers\<close>

datatype siwx_error =
    SiwxBackend
  | SiwxInvalidAddress string
  | SiwxInvalidChainId
  | SiwxInvalidSignature string
  | SiwxVerificationFailed string
  | SiwxOther string

text \<open>The trait \<open>Verifier\<close> of \<open>siwx\<close> on messages, and the options that a proof is checked against.\<close>

record 'm siwx_verifier =
  sv_validate_address :: "string \<Rightarrow> (siwx_error, unit) result"
  sv_validate_chain_id :: "string \<Rightarrow> (siwx_error, unit) result"
  sv_verify :: "'m \<Rightarrow> string \<Rightarrow> string \<Rightarrow> (siwx_error, unit) result"

record auth_opts =
  ao_domain :: string
  ao_nonce :: string
  ao_uri :: string
  ao_chain_id :: string
  ao_request_id :: string
  ao_max_issued_age :: int

datatype bitcoin_network = BitcoinMainnet | BitcoinTestnet | BitcoinSignet | BitcoinRegtest

text \<open>
  The crates: building and formatting messages, \<open>siwx::authenticate\<close> with a verifier, the checks of addresses, the Ethereum verifier without
  and with its RPC endpoints, the Solana verifier, hexadecimal and base58, Bitcoin addresses and the four
  proof formats of \<open>bip322\<close> (whether the result is valid), UTF-8, and RFC 3339 times.
\<close>

record ('m, 'a) wallet_lib =
  sx_message_new :: "string \<Rightarrow> string \<Rightarrow> string \<Rightarrow> string \<Rightarrow> string \<Rightarrow> (siwx_error, 'm) result"
  sx_with_statement :: "'m \<Rightarrow> string \<Rightarrow> (siwx_error, 'm) result"
  sx_with_issued_at :: "'m \<Rightarrow> int \<Rightarrow> (siwx_error, 'm) result"
  sx_with_expiration_time :: "'m \<Rightarrow> int \<Rightarrow> (siwx_error, 'm) result"
  sx_with_request_id :: "'m \<Rightarrow> string \<Rightarrow> (siwx_error, 'm) result"
  sx_address :: "'m \<Rightarrow> string"
  sx_format_evm :: "'m \<Rightarrow> string"
  sx_format_svm :: "'m \<Rightarrow> string"
  sx_format_bitcoin :: "'m \<Rightarrow> string"
  sx_authenticate :: "'m siwx_verifier \<Rightarrow> string \<Rightarrow> string \<Rightarrow> auth_opts \<Rightarrow> (siwx_error, 'm) result"
  sx_evm_validate_address :: "string \<Rightarrow> (siwx_error, unit) result"
  sx_svm_validate_address :: "string \<Rightarrow> (siwx_error, unit) result"
  sx_evm_new :: "'m siwx_verifier"
  sx_evm_with_rpc :: "(u64 \<times> string) list \<Rightarrow> duration \<Rightarrow> 'm siwx_verifier"
  sx_svm_new :: "'m siwx_verifier"
  sx_hex_decode :: "string \<Rightarrow> string option"
  sx_bs58_decode :: "string \<Rightarrow> string option"
  sx_btc_address :: "string \<Rightarrow> (string, 'a) result"
  sx_btc_require_network :: "'a \<Rightarrow> bitcoin_network \<Rightarrow> (string, unit) result"
  sx_from_utf8 :: "string \<Rightarrow> string option"
  sx_verify_simple :: "string \<Rightarrow> string \<Rightarrow> string \<Rightarrow> (string, bool) result"
  sx_verify_full :: "string \<Rightarrow> string \<Rightarrow> string \<Rightarrow> (string, bool) result"
  sx_verify_pof :: "string \<Rightarrow> string \<Rightarrow> string \<Rightarrow> (string, bool) result"
  sx_verify_legacy :: "string \<Rightarrow> string \<Rightarrow> string \<Rightarrow> (string, unit) result"
  sx_rfc3339 :: "int \<Rightarrow> string option"

subsection \<open>Bitcoin\<close>

definition parse_network :: "string \<Rightarrow> bitcoin_network option" where
  "parse_network v =
     (if v \<in> {''bitcoin'', ''bitcoin-mainnet''} then Some BitcoinMainnet
      else if v \<in> {''testnet'', ''bitcoin-testnet''} then Some BitcoinTestnet
      else if v \<in> {''signet'', ''bitcoin-signet''} then Some BitcoinSignet
      else if v \<in> {''regtest'', ''bitcoin-regtest''} then Some BitcoinRegtest
      else None)"

definition conclusive :: "(string, bool) result \<Rightarrow> (siwx_error, bool) result" where
  "conclusive outcome = map_err SiwxInvalidSignature outcome"

definition verify_bip322 :: "('m, 'a) wallet_lib \<Rightarrow> string \<Rightarrow> string \<Rightarrow> string \<Rightarrow> (siwx_error, unit) result" where
  "verify_bip322 lib address message signature =
     and_then
       (if List.take 3 signature = ''smp'' then conclusive (sx_verify_simple lib address message signature)
        else if List.take 3 signature = ''ful'' then conclusive (sx_verify_full lib address message signature)
        else if List.take 3 signature = ''pof'' then conclusive (sx_verify_pof lib address message signature)
        else case sx_verify_simple lib address message signature of
          Inr outcome \<Rightarrow> conclusive (Inr outcome)
        | Inl _ \<Rightarrow> and_then (map_err SiwxInvalidSignature (sx_verify_legacy lib address message signature)) (\<lambda>_. Inr True)) (\<lambda>verified.
       if verified then Inr () else Inl (SiwxVerificationFailed ''BIP-322 verifier returned an inconclusive result''))"

definition bitcoin_validate_address :: "('m, 'a) wallet_lib \<Rightarrow> string \<Rightarrow> (siwx_error, unit) result" where
  "bitcoin_validate_address lib address = and_then (map_err SiwxInvalidAddress (sx_btc_address lib address)) (\<lambda>_. Inr ())"

definition bitcoin_validate_chain_id :: "string \<Rightarrow> (siwx_error, unit) result" where
  "bitcoin_validate_chain_id chain_id =
     (if chain_id = [] \<or> length chain_id > 64 \<or> \<not> list_all (\<lambda>c. is_ascii_alphanumeric c \<or> c = CHR ''-'' \<or> c = CHR ''_'') chain_id
      then Inl SiwxInvalidChainId else Inr ())"

definition bitcoin_verify :: "('m, 'a) wallet_lib \<Rightarrow> bitcoin_network \<Rightarrow> 'm \<Rightarrow> string \<Rightarrow> string \<Rightarrow> (siwx_error, unit) result" where
  "bitcoin_verify lib network message raw_message signature =
     and_then (map_err SiwxInvalidAddress (sx_btc_address lib (sx_address lib message))) (\<lambda>address.
     and_then (map_err SiwxInvalidAddress (sx_btc_require_network lib address network)) (\<lambda>_.
     and_then (ok_or (SiwxInvalidSignature ''BIP-322 signature must be UTF-8 encoded'') (sx_from_utf8 lib signature)) (\<lambda>decoded.
       verify_bip322 lib (sx_address lib message) raw_message decoded)))"

definition bitcoin_verifier :: "('m, 'a) wallet_lib \<Rightarrow> bitcoin_network \<Rightarrow> 'm siwx_verifier" where
  "bitcoin_verifier lib network = \<lparr>sv_validate_address = bitcoin_validate_address lib,
     sv_validate_chain_id = bitcoin_validate_chain_id, sv_verify = bitcoin_verify lib network\<rparr>"

subsection \<open>Ethereum\<close>

datatype wallet_verification_method = AutoMethod | EoaMethod | Erc1271Method | Erc6492Method

datatype evm_verification_error =
    EvmContractNotConfigured
  | EvmMethodMismatch
  | EvmVerification siwx_error

definition erc6492_magic :: string where
  "erc6492_magic = concat (replicate 16 [CHR 0x64, CHR 0x92])"

definition has_erc6492_suffix :: "string \<Rightarrow> bool" where
  "has_erc6492_suffix signature = (strip_suffix erc6492_magic signature \<noteq> None)"

definition verify_contract ::
  "('m, 'a) wallet_lib \<Rightarrow> 'm siwx_verifier option \<Rightarrow> string \<Rightarrow> string \<Rightarrow> auth_opts \<Rightarrow> string \<Rightarrow> (evm_verification_error, string) result" where
  "verify_contract lib contract_verifier raw_message signature opts used =
     and_then (ok_or EvmContractNotConfigured contract_verifier) (\<lambda>verifier.
     and_then (map_err EvmVerification (sx_authenticate lib verifier raw_message signature opts)) (\<lambda>_. Inr used))"

definition evm_verify ::
  "('m, 'a) wallet_lib \<Rightarrow> 'm siwx_verifier option \<Rightarrow> string \<Rightarrow> string \<Rightarrow> auth_opts \<Rightarrow> wallet_verification_method \<Rightarrow>
   (evm_verification_error, string) result" where
  "evm_verify lib contract_verifier raw_message signature opts requested_method =
     (if has_erc6492_suffix signature then
        if requested_method \<notin> {AutoMethod, Erc6492Method} then Inl EvmMethodMismatch
        else verify_contract lib contract_verifier raw_message signature opts ''erc6492''
      else if requested_method = Erc6492Method then Inl EvmMethodMismatch
      else case sx_authenticate lib (sx_evm_new lib) raw_message signature opts of
        Inr _ \<Rightarrow> if requested_method \<noteq> Erc1271Method then Inr ''eoa'' else Inl EvmMethodMismatch
      | Inl eoa_error \<Rightarrow>
          if requested_method = EoaMethod then Inl (EvmVerification eoa_error)
          else (case contract_verifier of
              None \<Rightarrow> if requested_method = Erc1271Method then Inl EvmContractNotConfigured else Inl (EvmVerification eoa_error)
            | Some verifier \<Rightarrow>
                and_then (map_err EvmVerification (sx_authenticate lib verifier raw_message signature opts)) (\<lambda>_. Inr ''erc1271'')))"

section \<open>Provider\<close>

record 'm wallet_provider =
  wv_config :: wallet_authn_properties
  wv_evm :: "'m siwx_verifier"
  wv_challenge_ttl :: duration

record wallet_challenge =
  wc_account_id :: string
  wc_namespace :: string
  wc_reference :: string
  wc_nonce :: string
  wc_raw_message :: string

record prepared_wallet_challenge =
  pc_account_id :: string
  pc_message :: string
  pc_expires_at :: string
  pc_signature_encoding :: string
  pc_verification_methods :: "string list"
  pc_state :: wallet_challenge

definition protocol_error :: "siwx_error \<Rightarrow> wallet_provider_error" where
  "protocol_error e = InvalidAccount"

definition verification_error :: "siwx_error \<Rightarrow> wallet_provider_error" where
  "verification_error e = (if e = SiwxBackend then WalletBackend else VerificationFailure)"

fun evm_error :: "evm_verification_error \<Rightarrow> wallet_provider_error" where
  "evm_error EvmContractNotConfigured = ContractVerificationNotConfigured"
| "evm_error EvmMethodMismatch = VerificationMethodMismatch"
| "evm_error (EvmVerification e) = verification_error e"

text \<open>\<open>str::parse::<u64>\<close>, which accepts a leading plus sign.\<close>

definition parse_u64 :: "string \<Rightarrow> u64 option" where
  "parse_u64 s = map_option of_int (parse_below (2 ^ 64) s)"

text \<open>The chains that have an RPC endpoint, by number; a chain that is no number is a startup error.\<close>

definition rpc_map :: "(string \<times> evm_wallet_chain_properties) list \<Rightarrow> (u64 \<times> string) list option" where
  "rpc_map configured = those (List.map_filter (\<lambda>(chain, properties).
     map_option (\<lambda>rpc. map_option (\<lambda>n. (n, rpc)) (parse_u64 chain)) (ew_rpc properties)) configured)"

definition wallet_provider_new :: "('m, 'a) wallet_lib \<Rightarrow> wallet_authn_properties \<Rightarrow> duration \<Rightarrow> 'm wallet_provider option" where
  "wallet_provider_new lib config challenge_ttl =
     map_option (\<lambda>rpcs. \<lparr>wv_config = config, wv_evm = sx_evm_with_rpc lib rpcs (wa_rpc_timeout config), wv_challenge_ttl = challenge_ttl\<rparr>)
       (rpc_map (wch_eip155 (wa_chains config)))"

definition validate_account :: "('m, 'a) wallet_lib \<Rightarrow> 'm wallet_provider \<Rightarrow> caip_account \<Rightarrow> (wallet_provider_error, string) result" where
  "validate_account lib p account =
     (let configured = wa_chains (wv_config p)
      in if ca_namespace account = ''eip155'' \<and> map_of (wch_eip155 configured) (ca_reference account) \<noteq> None then
           and_then (map_err verification_error (sx_evm_validate_address lib (ca_address account))) (\<lambda>_. Inr ''hex'')
         else if ca_namespace account = ''solana'' \<and> ca_reference account \<in> set (wch_solana configured) then
           and_then (map_err verification_error (sx_svm_validate_address lib (ca_address account))) (\<lambda>_. Inr ''base58'')
         else if ca_namespace account = ''bip122'' \<and> map_of (wch_bip122 configured) (ca_reference account) \<noteq> None then
           and_then (map_err verification_error (bitcoin_validate_address lib (ca_address account))) (\<lambda>_. Inr ''bip322'')
         else if ca_namespace account \<in> {''eip155'', ''solana'', ''bip122''} then Inl ChainNotConfigured
         else Inl UnsupportedNamespace)"

definition verification_methods :: "'m wallet_provider \<Rightarrow> caip_account \<Rightarrow> string list" where
  "verification_methods p account =
     (if ca_namespace account = ''eip155'' then
        if Option.bind (map_of (wch_eip155 (wa_chains (wv_config p))) (ca_reference account)) ew_rpc \<noteq> None
        then [''eoa'', ''erc1271'', ''erc6492''] else [''eoa'']
      else if ca_namespace account = ''solana'' then [''solana'']
      else if ca_namespace account = ''bip122'' then [''bip322'']
      else [])"

text \<open>\<open>i64::try_from\<close> of the seconds, or the largest; times are nanoseconds since the epoch. The source panics
  where the time of expiry lies beyond the year 9999, which takes a configured lifetime of thousands of years; the
  model has no bound on times.\<close>

definition ttl_seconds :: "duration \<Rightarrow> int" where
  "ttl_seconds ttl = (if uint (as_secs ttl) < 2 ^ 63 then uint (as_secs ttl) else 2 ^ 63 - 1)"

definition challenge_message ::
  "('m, 'a) wallet_lib \<Rightarrow> 'm wallet_provider \<Rightarrow> caip_account \<Rightarrow> string \<Rightarrow> string \<Rightarrow> int \<Rightarrow> (siwx_error, 'm) result" where
  "challenge_message lib p account challenge_id nonce now =
     and_then (sx_message_new lib (wa_domain (wv_config p)) (ca_address account) (wa_uri (wv_config p)) (ca_reference account) nonce) (\<lambda>m0.
     and_then (if wa_statement (wv_config p) \<noteq> [] then sx_with_statement lib m0 (wa_statement (wv_config p)) else Inr m0) (\<lambda>m1.
     and_then (sx_with_issued_at lib m1 now) (\<lambda>m2.
     and_then (sx_with_expiration_time lib m2 (now + ttl_seconds (wv_challenge_ttl p) * 10 ^ 9)) (\<lambda>m3.
       sx_with_request_id lib m3 challenge_id))))"

definition format_for :: "('m, 'a) wallet_lib \<Rightarrow> string \<Rightarrow> 'm \<Rightarrow> (wallet_provider_error, string) result" where
  "format_for lib namespace message =
     (if namespace = ''eip155'' then Inr (sx_format_evm lib message)
      else if namespace = ''solana'' then Inr (sx_format_svm lib message)
      else if namespace = ''bip122'' then Inr (sx_format_bitcoin lib message)
      else Inl UnsupportedNamespace)"

definition prepare_challenge ::
  "('m, 'a) wallet_lib \<Rightarrow> 'm wallet_provider \<Rightarrow> string \<Rightarrow> string \<Rightarrow> string \<Rightarrow> int \<Rightarrow> (wallet_provider_error, prepared_wallet_challenge) result" where
  "prepare_challenge lib p account_id challenge_id nonce now =
     and_then (caip_parse account_id) (\<lambda>account.
     and_then (validate_account lib p account) (\<lambda>signature_encoding.
     and_then (map_err protocol_error (challenge_message lib p account challenge_id nonce now)) (\<lambda>message.
     and_then (format_for lib (ca_namespace account) message) (\<lambda>raw_message.
     and_then (ok_or WalletBackend (sx_rfc3339 lib (now + ttl_seconds (wv_challenge_ttl p) * 10 ^ 9))) (\<lambda>expires.
       Inr \<lparr>pc_account_id = caip_canonical account, pc_message = raw_message, pc_expires_at = expires,
            pc_signature_encoding = signature_encoding, pc_verification_methods = verification_methods p account,
            pc_state = \<lparr>wc_account_id = caip_canonical account, wc_namespace = ca_namespace account,
              wc_reference = ca_reference account, wc_nonce = nonce, wc_raw_message = raw_message\<rparr>\<rparr>)))))"

definition decode_signature :: "('m, 'a) wallet_lib \<Rightarrow> string \<Rightarrow> string \<Rightarrow> (wallet_provider_error, string) result" where
  "decode_signature lib namespace signature =
     (if int (length signature) > 262144 then Inl SignatureTooLarge
      else if namespace = ''eip155'' then
        ok_or InvalidSignatureEncoding (sx_hex_decode lib (case strip_prefix ''0x'' signature of Some rest \<Rightarrow> rest | None \<Rightarrow> signature))
      else if namespace = ''solana'' then ok_or InvalidSignatureEncoding (sx_bs58_decode lib signature)
      else if namespace = ''bip122'' then Inr signature
      else Inl UnsupportedNamespace)"

definition proof_opts :: "'m wallet_provider \<Rightarrow> wallet_challenge \<Rightarrow> string \<Rightarrow> auth_opts" where
  "proof_opts p challenge challenge_id = \<lparr>ao_domain = wa_domain (wv_config p), ao_nonce = wc_nonce challenge, ao_uri = wa_uri (wv_config p),
     ao_chain_id = wc_reference challenge, ao_request_id = challenge_id, ao_max_issued_age = ttl_seconds (wv_challenge_ttl p)\<rparr>"

definition verified_method ::
  "('m, 'a) wallet_lib \<Rightarrow> 'm wallet_provider \<Rightarrow> wallet_challenge \<Rightarrow> string \<Rightarrow> auth_opts \<Rightarrow> wallet_verification_method \<Rightarrow>
   (wallet_provider_error, string) result" where
  "verified_method lib p challenge signature opts requested_method =
     (if wc_namespace challenge = ''eip155'' then
        map_err evm_error (evm_verify lib
          (map_option (\<lambda>_. wv_evm p) (Option.bind (map_of (wch_eip155 (wa_chains (wv_config p))) (wc_reference challenge)) ew_rpc))
          (wc_raw_message challenge) signature opts requested_method)
      else if wc_namespace challenge = ''solana'' then
        if requested_method \<noteq> AutoMethod then Inl VerificationMethodMismatch
        else and_then (map_err verification_error (sx_authenticate lib (sx_svm_new lib) (wc_raw_message challenge) signature opts)) (\<lambda>_.
          Inr ''solana'')
      else if wc_namespace challenge = ''bip122'' then
        if requested_method \<noteq> AutoMethod then Inl VerificationMethodMismatch
        else and_then (ok_or ChainNotConfigured (Option.bind (map_of (wch_bip122 (wa_chains (wv_config p))) (wc_reference challenge))
            (\<lambda>chain. parse_network (bw_network chain)))) (\<lambda>network.
          and_then (map_err verification_error (sx_authenticate lib (bitcoin_verifier lib network) (wc_raw_message challenge) signature opts)) (\<lambda>_.
            Inr ''bitcoin''))
      else Inl UnsupportedNamespace)"

definition wallet_provider_verify ::
  "('m, 'a) wallet_lib \<Rightarrow> 'm wallet_provider \<Rightarrow> wallet_challenge \<Rightarrow> string \<Rightarrow> string \<Rightarrow> wallet_verification_method \<Rightarrow> int \<Rightarrow>
   (wallet_provider_error, authentication_result) result" where
  "wallet_provider_verify lib p challenge challenge_id encoded requested_method now =
     and_then (decode_signature lib (wc_namespace challenge) encoded) (\<lambda>signature.
     and_then (verified_method lib p challenge signature (proof_opts p challenge challenge_id) requested_method) (\<lambda>used.
       Inr (authentication_result_new \<lparr>ei_provider = ''wallet'', ei_issuer = ''caip-122'', ei_subject = wc_account_id challenge, ei_claims = []\<rparr>
         [''wallet'', ''siwx'', used] (Some ''urn:authguard:acr:wallet-possession'') now)))"

section \<open>Handlers\<close>

record ('d, 'c, 'k, 'p, 'm, 'a) wallet_handler =
  wh_provider :: "'m wallet_provider"
  wh_challenges :: "'c challenge_cache"
  wh_pipeline :: "('d, 'k, 'p) authentication_pipeline"
  wh_challenge_ttl :: duration
  wh_lib :: "('m, 'a) wallet_lib"
  wh_codec :: "wallet_challenge challenge_codec"
  wh_random_id :: "string \<Rightarrow> string"

record wallet_challenge_response =
  wr_challenge_id :: string
  wr_account_id :: string
  wr_message :: string
  wr_expires_at :: string
  wr_signature_encoding :: string
  wr_verification_methods :: "string list"

record wallet_verify_request =
  wq_challenge_id :: string
  wq_signature :: string
  wq_verification_method :: wallet_verification_method
  wq_return_to :: string

datatype wallet_open_error = WalletChainRejected | WalletCacheRequired

definition wallet_open ::
  "('m, 'a) wallet_lib \<Rightarrow> wallet_authn_properties \<Rightarrow> duration \<Rightarrow> 'c challenge_cache option \<Rightarrow> ('d, 'k, 'p) authentication_pipeline \<Rightarrow>
   wallet_challenge challenge_codec \<Rightarrow> (string \<Rightarrow> string) \<Rightarrow> (wallet_open_error, ('d, 'c, 'k, 'p, 'm, 'a) wallet_handler option) result" where
  "wallet_open lib config challenge_ttl challenges pipeline codec_of random =
     (if \<not> wa_enabled config then Inr None
      else and_then (ok_or WalletChainRejected (wallet_provider_new lib config challenge_ttl)) (\<lambda>provider.
        and_then (ok_or WalletCacheRequired challenges) (\<lambda>cache.
          Inr (Some \<lparr>wh_provider = provider, wh_challenges = cache, wh_pipeline = pipeline, wh_challenge_ttl = challenge_ttl,
                     wh_lib = lib, wh_codec = codec_of, wh_random_id = random\<rparr>))))"

definition wallet_purpose :: string where
  "wallet_purpose = ''wallet-siwx''"

fun wallet_error :: "wallet_provider_error \<Rightarrow> api_error" where
  "wallet_error InvalidAccount = bad_request ''invalid CAIP-10 account id''"
| "wallet_error ChainNotConfigured = bad_request ''wallet chain is not configured''"
| "wallet_error UnsupportedNamespace = bad_request ''unsupported CAIP namespace''"
| "wallet_error SignatureTooLarge = bad_request ''wallet signature is too large''"
| "wallet_error InvalidSignatureEncoding = bad_request ''wallet signature encoding is invalid''"
| "wallet_error WalletBackend = unavailable ''wallet verification service is unavailable''"
| "wallet_error ContractVerificationNotConfigured =
     not_implemented ''contract_wallet_not_supported'' ''contract-wallet verification is not configured for this chain''"
| "wallet_error VerificationMethodMismatch = unauthorized ''wallet verification method does not match the proof''"
| "wallet_error VerificationFailure = unauthorized ''wallet signature verification failed''"

definition verify_challenge ::
  "('d, 'c, 'k, 'p, 'm, 'a) wallet_handler \<Rightarrow> request_env \<Rightarrow> 'c \<Rightarrow> wallet_verify_request \<Rightarrow> (api_error, authentication_result) result \<times> 'c" where
  "verify_challenge h e c request =
     (case consume_json (wh_challenges h) (wh_codec h) (rq_cache_now e) wallet_purpose (wq_challenge_id request) c of
        (Inl err, c') \<Rightarrow> (Inl (api_challenge err), c')
      | (Inr None, c') \<Rightarrow> (Inl (bad_request ''invalid or expired wallet challenge''), c')
      | (Inr (Some challenge), c') \<Rightarrow>
          (map_err wallet_error (wallet_provider_verify (wh_lib h) (wh_provider h) challenge (wq_challenge_id request) (wq_signature request)
             (wq_verification_method request) (rq_at e)), c'))"

definition wallet_challenge_start ::
  "('d, 'c, 'k, 'p, 'm, 'a) wallet_handler \<Rightarrow> request_env \<Rightarrow> int \<Rightarrow> 'c \<Rightarrow> string \<Rightarrow> (api_error, wallet_challenge_response) result \<times> 'c" where
  "wallet_challenge_start h e now_nanos c account_id =
     (let challenge_id = wh_random_id h (rq_challenge e) in
      case prepare_challenge (wh_lib h) (wh_provider h) account_id challenge_id (rq_nonce e) now_nanos of
        Inl err \<Rightarrow> (Inl (wallet_error err), c)
      | Inr prepared \<Rightarrow>
          (case put_json (wh_challenges h) (wh_codec h) (rq_cache_now e) (rq_cache_later e) wallet_purpose challenge_id (pc_state prepared)
              (wh_challenge_ttl h) c of
             (Inl err, c') \<Rightarrow> (Inl (api_challenge err), c')
           | (Inr _, c') \<Rightarrow> (Inr \<lparr>wr_challenge_id = challenge_id, wr_account_id = pc_account_id prepared, wr_message = pc_message prepared,
               wr_expires_at = pc_expires_at prepared, wr_signature_encoding = pc_signature_encoding prepared,
               wr_verification_methods = pc_verification_methods prepared\<rparr>, c')))"

definition wallet_verify ::
  "('d, 'c, 'k, 'p, 'm, 'a) wallet_handler \<Rightarrow> application_resolver \<Rightarrow> request_env \<Rightarrow> 'd \<Rightarrow> 'c \<Rightarrow> wallet_verify_request \<Rightarrow>
   (api_error, login_response) result \<times> 'd \<times> 'c" where
  "wallet_verify h a e d c request =
     (case validate_return_to a (wq_return_to request) of
        Inl err \<Rightarrow> (Inl err, d, c)
      | Inr return_to \<Rightarrow>
     (case verify_challenge h e c request of
        (Inl err, c') \<Rightarrow> (Inl err, d, c')
      | (Inr authentication, c') \<Rightarrow>
     (case pipeline_login (wh_pipeline h) d (rq_now e) authentication User (rq_principal e) of
        (Inl err, d') \<Rightarrow> (Inl (api_pipeline err), d', c')
      | (Inr issued, d') \<Rightarrow> (Inr (login_response_new issued return_to), d', c'))))"

definition wallet_link ::
  "('d, 'c, 'k, 'p, 'm, 'a) wallet_handler \<Rightarrow> request_env \<Rightarrow> 'd \<Rightarrow> 'c \<Rightarrow> headers \<Rightarrow> wallet_verify_request \<Rightarrow>
   (api_error, login_response) result \<times> 'd \<times> 'c" where
  "wallet_link h e d c hs request =
     (case authenticate_token (wh_pipeline h) (rq_now e) hs of
        Inl err \<Rightarrow> (Inl (api_token err), d, c)
      | Inr principal_id \<Rightarrow>
     (case verify_challenge h e c request of
        (Inl err, c') \<Rightarrow> (Inl err, d, c')
      | (Inr authentication, c') \<Rightarrow>
     (case pipeline_link (wh_pipeline h) d (rq_now e) principal_id authentication of
        (Inl err, d') \<Rightarrow> (Inl (api_pipeline err), d', c')
      | (Inr issued, d') \<Rightarrow> (Inr (login_response_new issued []), d', c'))))"

section \<open>Lemmas\<close>

subsection \<open>Account identifiers\<close>

definition valid_caip :: "caip_account \<Rightarrow> bool" where
  "valid_caip a \<longleftrightarrow> 3 \<le> length (ca_namespace a) \<and> length (ca_namespace a) \<le> 8 \<and> ca_reference a \<noteq> [] \<and> length (ca_reference a) \<le> 32 \<and>
     ca_address a \<noteq> [] \<and> length (ca_address a) \<le> 128 \<and> list_all caip_namespace_char (ca_namespace a) \<and>
     list_all caip_component (ca_reference a) \<and> list_all caip_address (ca_address a)"

lemma no_colon: "\<not> caip_namespace_char CHR '':''" "\<not> caip_component CHR '':''" "\<not> caip_address CHR '':''"
  by code_simp+

lemma valid_caip_colon: "valid_caip a \<Longrightarrow> \<forall>s \<in> set [ca_namespace a, ca_reference a, ca_address a]. CHR '':'' \<notin> set s"
  using no_colon by (auto simp: valid_caip_def list_all_iff)

lemma caip_canonical_join: "caip_canonical a = join '':'' [ca_namespace a, ca_reference a, ca_address a]"
  by (simp add: caip_canonical_def)

lemma caip_parse_canonical: "valid_caip a \<Longrightarrow> caip_parse (caip_canonical a) = Inr a"
proof -
  assume a: "valid_caip a"
  have "split_on CHR '':'' (caip_canonical a) = [ca_namespace a, ca_reference a, ca_address a]"
    unfolding caip_canonical_join by (rule split_on_join) (use valid_caip_colon [OF a] in auto)
  with a show ?thesis by (auto simp: caip_parse_def component_at_def valid_caip_def Let_def)
qed

lemma caip_parse_Inr:
  assumes "caip_parse s = Inr a"
  shows "valid_caip a \<and> caip_canonical a = s"
proof -
  let ?cs = "split_on CHR '':'' s"
  have v: "length ?cs \<le> 3" "component_at 2 ?cs \<noteq> []" "valid_caip a"
    "a = \<lparr>ca_namespace = component_at 0 ?cs, ca_reference = component_at 1 ?cs, ca_address = component_at 2 ?cs\<rparr>"
    using assms by (auto simp: caip_parse_def Let_def valid_caip_def split: if_splits)
  then have "length ?cs = 3" by (auto simp: component_at_def split: if_splits)
  then obtain x y z where "?cs = [x, y, z]" by (auto simp: numeral_3_eq_3 length_Suc_conv)
  with v(3,4) join_split_on [of "CHR '':''" s] show ?thesis by (simp add: caip_canonical_join component_at_def)
qed

subsection \<open>Proofs\<close>

text \<open>Which verifier accepted a proof, by the method it is recorded with.\<close>

definition accepted_proof ::
  "('m, 'a) wallet_lib \<Rightarrow> 'm wallet_provider \<Rightarrow> wallet_challenge \<Rightarrow> string \<Rightarrow> auth_opts \<Rightarrow> wallet_verification_method \<Rightarrow> string \<Rightarrow> bool" where
  "accepted_proof lib p challenge signature opts requested used \<longleftrightarrow>
     (\<exists>verifier message. sx_authenticate lib verifier (wc_raw_message challenge) signature opts = Inr message \<and>
       (wc_namespace challenge = ''eip155'' \<and> used = ''eoa'' \<and> verifier = sx_evm_new lib \<and> requested \<in> {AutoMethod, EoaMethod} \<and>
          \<not> has_erc6492_suffix signature \<or>
        wc_namespace challenge = ''eip155'' \<and> verifier = wv_evm p \<and>
          Option.bind (map_of (wch_eip155 (wa_chains (wv_config p))) (wc_reference challenge)) ew_rpc \<noteq> None \<and>
          (used = ''erc1271'' \<and> requested \<in> {AutoMethod, Erc1271Method} \<and> \<not> has_erc6492_suffix signature \<or>
           used = ''erc6492'' \<and> requested \<in> {AutoMethod, Erc6492Method} \<and> has_erc6492_suffix signature) \<or>
        wc_namespace challenge = ''solana'' \<and> used = ''solana'' \<and> verifier = sx_svm_new lib \<and> requested = AutoMethod \<or>
        wc_namespace challenge = ''bip122'' \<and> used = ''bitcoin'' \<and> requested = AutoMethod \<and>
          (\<exists>chain network. map_of (wch_bip122 (wa_chains (wv_config p))) (wc_reference challenge) = Some chain \<and>
             parse_network (bw_network chain) = Some network \<and> verifier = bitcoin_verifier lib network)))"

lemma evm_verify_Inr:
  assumes "evm_verify lib contract raw signature opts requested = Inr used"
  shows "(\<exists>message. sx_authenticate lib (sx_evm_new lib) raw signature opts = Inr message) \<and> used = ''eoa'' \<and>
      requested \<in> {AutoMethod, EoaMethod} \<and> \<not> has_erc6492_suffix signature \<or>
    (\<exists>verifier message. contract = Some verifier \<and> sx_authenticate lib verifier raw signature opts = Inr message) \<and>
      (used = ''erc1271'' \<and> requested \<in> {AutoMethod, Erc1271Method} \<and> \<not> has_erc6492_suffix signature \<or>
       used = ''erc6492'' \<and> requested \<in> {AutoMethod, Erc6492Method} \<and> has_erc6492_suffix signature)"
proof (cases "has_erc6492_suffix signature")
  case True
  with assms show ?thesis by (auto simp: evm_verify_def verify_contract_def result_simps split: if_splits)
next
  case False
  show ?thesis
  proof (cases "sx_authenticate lib (sx_evm_new lib) raw signature opts")
    case (Inl e)
    with False assms show ?thesis
      by (cases requested; cases contract) (simp_all add: evm_verify_def result_simps)
  next
    case (Inr m)
    with False assms show ?thesis by (cases requested) (auto simp: evm_verify_def)
  qed
qed

lemma verified_method_Inr:
  assumes "verified_method lib p challenge signature opts requested = Inr used"
  shows "accepted_proof lib p challenge signature opts requested used"
proof -
  consider (evm) "wc_namespace challenge = ''eip155''" | (solana) "wc_namespace challenge = ''solana''" | (bitcoin) "wc_namespace challenge = ''bip122''"
    using assms by (auto simp: verified_method_def split: if_splits)
  then show ?thesis
  proof cases
    case evm
    then have "evm_verify lib (map_option (\<lambda>_. wv_evm p)
        (Option.bind (map_of (wch_eip155 (wa_chains (wv_config p))) (wc_reference challenge)) ew_rpc))
        (wc_raw_message challenge) signature opts requested = Inr used"
      using assms by (simp add: verified_method_def result_simps)
    from evm_verify_Inr [OF this] show ?thesis
    proof (elim disjE conjE exE)
      fix message
      assume "sx_authenticate lib (sx_evm_new lib) (wc_raw_message challenge) signature opts = Inr message" "used = ''eoa''"
        "requested \<in> {AutoMethod, EoaMethod}" "\<not> has_erc6492_suffix signature"
      with evm show ?thesis unfolding accepted_proof_def by (intro exI [of _ "sx_evm_new lib"] exI [of _ message]) simp
    next
      fix verifier message
      assume "map_option (\<lambda>_. wv_evm p) (Option.bind (map_of (wch_eip155 (wa_chains (wv_config p))) (wc_reference challenge)) ew_rpc) = Some verifier"
        "sx_authenticate lib verifier (wc_raw_message challenge) signature opts = Inr message"
        "used = ''erc1271''" "requested \<in> {AutoMethod, Erc1271Method}" "\<not> has_erc6492_suffix signature"
      with evm show ?thesis unfolding accepted_proof_def by (intro exI [of _ verifier] exI [of _ message]) auto
    next
      fix verifier message
      assume "map_option (\<lambda>_. wv_evm p) (Option.bind (map_of (wch_eip155 (wa_chains (wv_config p))) (wc_reference challenge)) ew_rpc) = Some verifier"
        "sx_authenticate lib verifier (wc_raw_message challenge) signature opts = Inr message"
        "used = ''erc6492''" "requested \<in> {AutoMethod, Erc6492Method}" "has_erc6492_suffix signature"
      with evm show ?thesis unfolding accepted_proof_def by (intro exI [of _ verifier] exI [of _ message]) auto
    qed
  next
    case solana
    with assms show ?thesis by (auto simp: verified_method_def accepted_proof_def result_simps split: if_splits)
  next
    case bitcoin
    with assms show ?thesis
      by (auto simp: verified_method_def accepted_proof_def result_simps bind_eq_Some_conv split: if_splits)
  qed
qed

lemma wallet_provider_verify_Inr:
  "wallet_provider_verify lib p challenge i encoded requested now = Inr a \<longleftrightarrow>
   (\<exists>signature used. decode_signature lib (wc_namespace challenge) encoded = Inr signature \<and>
     verified_method lib p challenge signature (proof_opts p challenge i) requested = Inr used \<and>
     a = authentication_result_new \<lparr>ei_provider = ''wallet'', ei_issuer = ''caip-122'', ei_subject = wc_account_id challenge, ei_claims = []\<rparr>
       [''wallet'', ''siwx'', used] (Some ''urn:authguard:acr:wallet-possession'') now)"
  by (auto simp: wallet_provider_verify_def result_simps)

lemma wallet_identity_key:
  "external_identity_key_of (res_external_identity (authentication_result_new
     \<lparr>ei_provider = ''wallet'', ei_issuer = ''caip-122'', ei_subject = s, ei_claims = []\<rparr> ms acr now)) = Inr k \<Longrightarrow>
   k = \<lparr>ek_provider = ''wallet'', ek_issuer = ''caip-122'', ek_subject = s\<rparr>"
  by (auto simp: authentication_result_new_def external_identity_key_of_def external_identity_key_new_def result_simps)

text \<open>What a challenge that verifies needs.\<close>

definition proven_challenge ::
  "('d, 'c, 'k, 'p, 'm, 'a) wallet_handler \<Rightarrow> request_env \<Rightarrow> 'c \<Rightarrow> wallet_verify_request \<Rightarrow> 'c \<Rightarrow> wallet_challenge \<Rightarrow> bool" where
  "proven_challenge h e c request c' challenge \<longleftrightarrow>
     consume_json (wh_challenges h) (wh_codec h) (rq_cache_now e) wallet_purpose (wq_challenge_id request) c = (Inr (Some challenge), c') \<and>
     (\<exists>signature used. decode_signature (wh_lib h) (wc_namespace challenge) (wq_signature request) = Inr signature \<and>
       accepted_proof (wh_lib h) (wh_provider h) challenge signature (proof_opts (wh_provider h) challenge (wq_challenge_id request))
         (wq_verification_method request) used)"

lemma verify_challenge_Inr:
  assumes "verify_challenge h e c request = (Inr a, c')"
  obtains challenge where "proven_challenge h e c request c' challenge"
    "\<And>k. external_identity_key_of (res_external_identity a) = Inr k \<Longrightarrow>
       k = \<lparr>ek_provider = ''wallet'', ek_issuer = ''caip-122'', ek_subject = wc_account_id challenge\<rparr>"
proof -
  from assms obtain challenge where
    "consume_json (wh_challenges h) (wh_codec h) (rq_cache_now e) wallet_purpose (wq_challenge_id request) c = (Inr (Some challenge), c')"
    "wallet_provider_verify (wh_lib h) (wh_provider h) challenge (wq_challenge_id request) (wq_signature request)
      (wq_verification_method request) (rq_at e) = Inr a"
    by (auto simp: verify_challenge_def result_simps split: prod.splits sum.splits option.splits)
  then show thesis using that
    by (auto simp: proven_challenge_def wallet_provider_verify_Inr intro: verified_method_Inr dest!: wallet_identity_key)
qed

section \<open>An example wallet\<close>

text \<open>Messages are their addresses, and a signature is accepted that repeats the message.\<close>

definition echo_verifier :: "string siwx_verifier" where
  "echo_verifier = \<lparr>sv_validate_address = (\<lambda>a. Inr ()), sv_validate_chain_id = (\<lambda>i. Inr ()),
     sv_verify = (\<lambda>m raw s. if s = raw then Inr () else Inl (SiwxVerificationFailed []))\<rparr>"

definition echo_lib :: "(string, string) wallet_lib" where
  "echo_lib = \<lparr>sx_message_new = (\<lambda>domain address uri chain nonce. Inr address), sx_with_statement = (\<lambda>m x. Inr m), sx_with_issued_at = (\<lambda>m x. Inr m),
     sx_with_expiration_time = (\<lambda>m x. Inr m), sx_with_request_id = (\<lambda>m x. Inr m), sx_address = (\<lambda>m. m), sx_format_evm = (\<lambda>m. m),
     sx_format_svm = (\<lambda>m. m), sx_format_bitcoin = (\<lambda>m. m),
     sx_authenticate = (\<lambda>v raw s opts. and_then (sv_verify v raw raw s) (\<lambda>_. Inr raw)), sx_evm_validate_address = (\<lambda>a. Inr ()),
     sx_svm_validate_address = (\<lambda>a. Inr ()), sx_evm_new = echo_verifier,
     sx_evm_with_rpc = (\<lambda>rpcs timeout. echo_verifier), sx_svm_new = echo_verifier, sx_hex_decode = Some, sx_bs58_decode = Some,
     sx_btc_address = Inr, sx_btc_require_network = (\<lambda>a n. Inr ()), sx_from_utf8 = Some, sx_verify_simple = (\<lambda>a m s. Inr (s = m)),
     sx_verify_full = (\<lambda>a m s. Inr (s = m)), sx_verify_pof = (\<lambda>a m s. Inr (s = m)), sx_verify_legacy = (\<lambda>a m s. Inl []), sx_rfc3339 = (\<lambda>t. Some [])\<rparr>"

definition echo_provider :: "string wallet_provider" where
  "echo_provider = \<lparr>wv_config = \<lparr>wa_enabled = True, wa_domain = ''a'', wa_uri = ''https://a'', wa_statement = [], wa_rpc_timeout = from_secs 5,
       wa_chains = \<lparr>wch_eip155 = [(''1'', \<lparr>ew_rpc = None\<rparr>)], wch_solana = [], wch_bip122 = []\<rparr>\<rparr>,
     wv_evm = echo_verifier, wv_challenge_ttl = from_secs 60\<rparr>"

definition echo_challenge :: wallet_challenge where
  "echo_challenge = \<lparr>wc_account_id = ''eip155:1:0xab'', wc_namespace = ''eip155'', wc_reference = ''1'', wc_nonce = ''n'', wc_raw_message = ''ab''\<rparr>"

text \<open>The pipeline lets a wallet join an account that holds a password, and reads every token as Ann's.\<close>

definition echo_handler :: "(authn_database, unit, string, string, string, string) wallet_handler" where
  "echo_handler = \<lparr>wh_provider = echo_provider,
     wh_challenges = \<lparr>cc_put_if_absent = (\<lambda>t t' k v ttl c. (Inr True, ())), cc_take = (\<lambda>t k c. (Inr (Some []), ()))\<rparr>,
     wh_pipeline = plain_pipeline\<lparr>pl_linking := \<lparr>als_policy = \<lparr>al_strategy = FirstLogin, al_authoritative_providers = [],
         al_allow_link = [(''standalone'', [''wallet''])]\<rparr>, als_repository = authn_identity_repository, als_b64_encode = (\<lambda>x. x)\<rparr>,
       pl_lib := \<lparr>il_rsa = text_rsa\<lparr>rsa_sign := (\<lambda>k m. ''s''), rsa_verify := (\<lambda>p m s. True), jwt_b64_encode := (\<lambda>x. x), jwt_b64_decode := Some\<rparr>,
         il_tokens = \<lparr>url_safe_no_pad_decode = Some, url_safe_decode = (\<lambda>s. None),
           json_from_slice = (\<lambda>s. Some (JObject [(''principal_id'', JString ''P_p1''), (''sub'', JString ''P_p1''), (''iss'', JString ''authguard''),
             (''aud'', JString ''apps''), (''exp'', JNumber ''2000''), (''principal_kind'', JString ''USER'')]))\<rparr>,
         il_claims_to_vec = (\<lambda>m. Some ''c'')\<rparr>\<rparr>,
     wh_challenge_ttl = from_secs 60, wh_lib = echo_lib,
     wh_codec = \<lparr>co_to_vec = (\<lambda>x. Some []), co_from_slice = (\<lambda>s. Some echo_challenge), co_sha256_hex = (\<lambda>x. x)\<rparr>, wh_random_id = (\<lambda>x. x)\<rparr>"

definition echo_request :: wallet_verify_request where
  "echo_request = \<lparr>wq_challenge_id = ''h1'', wq_signature = ''0xab'', wq_verification_method = AutoMethod, wq_return_to = []\<rparr>"

lemma echo_linking: "als_repository (pl_linking (wh_pipeline echo_handler)) = authn_identity_repository"
  by (simp add: echo_handler_def)

section \<open>Properties\<close>

text \<open>
  Account identifiers have one spelling: the parser accepts exactly the printed forms of accounts whose
  namespace, reference and address keep the CAIP-10 alphabets and lengths, and prints them back unchanged, so two
  identifiers that are accepted name the same account only where they are equal.
\<close>

theorem caip_parse_print_inverse: "caip_parse s = Inr a \<longleftrightarrow> valid_caip a \<and> caip_canonical a = s"
  using caip_parse_Inr caip_parse_canonical by blast

text \<open>
  Claim C14. A wallet login is backed by a proof of possession: it succeeds only for a pending challenge, with a signature
  over the message of that challenge which the verifier of its chain accepted for the configured domain and URI
  and for the nonce, chain and identifier of the challenge; a contract wallet needs a configured RPC endpoint,
  the method recorded is the one that verified, a requested method is honoured, and the response is for the active principal that the account is bound to.
\<close>

theorem wallet_login_is_proven:
  assumes "authn_ok ad" "als_repository (pl_linking (wh_pipeline h)) = authn_identity_repository"
    and "wallet_verify h a e ad c request = (Inr response, ad', c')"
  shows "\<exists>challenge p. proven_challenge h e c request c' challenge \<and>
    sqlite_bound (ad_tables ad') \<lparr>ek_provider = ''wallet'', ek_issuer = ''caip-122'', ek_subject = wc_account_id challenge\<rparr> = Some p \<and>
    pi_status p = Active \<and> ap_principal_id (lr_principal response) = pi_id p"
proof -
  from assms(3) obtain authentication issued where v: "verify_challenge h e c request = (Inr authentication, c')"
    "pipeline_login (wh_pipeline h) ad (rq_now e) authentication User (rq_principal e) = (Inr issued, ad')" "lr_principal response = ia_principal issued"
    by (auto simp: wallet_verify_def login_response_new_def split: prod.splits sum.splits)
  from v(1) obtain challenge where "proven_challenge h e c request c' challenge"
    "\<And>k. external_identity_key_of (res_external_identity authentication) = Inr k \<Longrightarrow>
       k = \<lparr>ek_provider = ''wallet'', ek_issuer = ''caip-122'', ek_subject = wc_account_id challenge\<rparr>" by (rule verify_challenge_Inr) blast
  with identity_bindings.pipeline_login_binds [OF authn_link.identity_bindings_axioms assms(1,2) v(2)] v(3) show ?thesis by metis
qed

theorem wallet_login_is_proven_witness:
  "\<exists>response (ad' :: authn_database) p. fst (wallet_verify echo_handler example_resolver (plain_env ''2'') empty_authn () echo_request) = Inr response \<and>
     sqlite_bound (ad_tables ad') \<lparr>ek_provider = ''wallet'', ek_issuer = ''caip-122'', ek_subject = ''eip155:1:0xab''\<rparr> = Some p \<and>
     ap_principal_id (lr_principal response) = pi_id p"
proof -
  let ?v = "wallet_verify echo_handler example_resolver (plain_env ''2'') empty_authn () echo_request"
  have "case ?v of (Inl _, _) \<Rightarrow> False | (Inr _, _) \<Rightarrow> True" by code_simp
  then obtain response ad' c' where r: "?v = (Inr response, ad', c')" by (cases ?v; cases "fst ?v"; cases "snd ?v") auto
  from wallet_login_is_proven [OF empty_authn_ok echo_linking r] obtain challenge p where
    p: "proven_challenge echo_handler (plain_env ''2'') () echo_request c' challenge"
    "sqlite_bound (ad_tables ad') \<lparr>ek_provider = ''wallet'', ek_issuer = ''caip-122'', ek_subject = wc_account_id challenge\<rparr> = Some p"
    "ap_principal_id (lr_principal response) = pi_id p" by blast
  from p(1) have "challenge = echo_challenge" by (simp add: proven_challenge_def echo_handler_def consume_json_def)
  with p(2,3) r show ?thesis by (auto simp: echo_challenge_def)
qed

text \<open>
  A wallet joins the account of its caller only: a link succeeds for a proven challenge whose account was not
  bound before, and binds it to the very principal that the bearer token of the request authenticates.
\<close>

theorem wallet_joins_callers_account:
  assumes "authn_ok ad" "als_repository (pl_linking (wh_pipeline h)) = authn_identity_repository"
    and "wallet_link h e ad c hs request = (Inr response, ad', c')"
  shows "\<exists>n challenge p. authenticate_token (wh_pipeline h) (rq_now e) hs = Inr n \<and> proven_challenge h e c request c' challenge \<and>
    sqlite_bound (ad_tables ad) \<lparr>ek_provider = ''wallet'', ek_issuer = ''caip-122'', ek_subject = wc_account_id challenge\<rparr> = None \<and>
    sqlite_bound (ad_tables ad') \<lparr>ek_provider = ''wallet'', ek_issuer = ''caip-122'', ek_subject = wc_account_id challenge\<rparr> = Some p \<and>
    pi_status p = Active \<and> pi_id p = n \<and> ap_principal_id (lr_principal response) = n"
proof -
  from assms(3) obtain n authentication issued where v: "authenticate_token (wh_pipeline h) (rq_now e) hs = Inr n"
    "verify_challenge h e c request = (Inr authentication, c')"
    "pipeline_link (wh_pipeline h) ad (rq_now e) n authentication = (Inr issued, ad')" "lr_principal response = ia_principal issued"
    by (auto simp: wallet_link_def login_response_new_def split: prod.splits sum.splits)
  from v(2) obtain challenge where "proven_challenge h e c request c' challenge"
    "\<And>k. external_identity_key_of (res_external_identity authentication) = Inr k \<Longrightarrow>
       k = \<lparr>ek_provider = ''wallet'', ek_issuer = ''caip-122'', ek_subject = wc_account_id challenge\<rparr>" by (rule verify_challenge_Inr) blast
  with identity_bindings.pipeline_link_binds [OF authn_link.identity_bindings_axioms assms(1,2) v(3)] v(1,4) show ?thesis by metis
qed

text \<open>
  A challenge is made for the account it names: it is prepared only for a well-formed account on a configured
  chain, its message is built from the configured domain and URI and the address, chain and nonce of that account, in
  the format of its namespace, and whoever answers the challenge authenticates as exactly the requested account identifier.
\<close>

theorem wallet_challenge_names_its_account:
  assumes "prepare_challenge lib p account_id challenge_id nonce now = Inr prepared"
  shows "\<exists>account message. let configured = wa_chains (wv_config p); state = pc_state prepared in
    valid_caip account \<and> caip_canonical account = account_id \<and>
    (case ca_namespace account of
       namespace \<Rightarrow> namespace = ''eip155'' \<and> map_of (wch_eip155 configured) (ca_reference account) \<noteq> None \<or>
         namespace = ''solana'' \<and> ca_reference account \<in> set (wch_solana configured) \<or>
         namespace = ''bip122'' \<and> map_of (wch_bip122 configured) (ca_reference account) \<noteq> None) \<and>
    challenge_message lib p account challenge_id nonce now = Inr message \<and>
    format_for lib (ca_namespace account) message = Inr (pc_message prepared) \<and> wc_raw_message state = pc_message prepared \<and>
    wc_nonce state = nonce \<and> wc_reference state = ca_reference account \<and>
    (\<forall>i s requested at a. wallet_provider_verify lib p state i s requested at = Inr a \<longrightarrow>
       res_external_identity a = \<lparr>ei_provider = ''wallet'', ei_issuer = ''caip-122'', ei_subject = account_id, ei_claims = []\<rparr>)"
proof -
  from assms obtain account encoding message raw expires where
    a: "caip_parse account_id = Inr account" "validate_account lib p account = Inr encoding"
      "challenge_message lib p account challenge_id nonce now = Inr message" "format_for lib (ca_namespace account) message = Inr raw" and
    s: "prepared = \<lparr>pc_account_id = caip_canonical account, pc_message = raw, pc_expires_at = expires,
            pc_signature_encoding = encoding, pc_verification_methods = verification_methods p account,
            pc_state = \<lparr>wc_account_id = caip_canonical account, wc_namespace = ca_namespace account,
              wc_reference = ca_reference account, wc_nonce = nonce, wc_raw_message = raw\<rparr>\<rparr>"
    by (auto simp: prepare_challenge_def result_simps)
  have chain: "ca_namespace account = ''eip155'' \<and> map_of (wch_eip155 (wa_chains (wv_config p))) (ca_reference account) \<noteq> None \<or>
      ca_namespace account = ''solana'' \<and> ca_reference account \<in> set (wch_solana (wa_chains (wv_config p))) \<or>
      ca_namespace account = ''bip122'' \<and> map_of (wch_bip122 (wa_chains (wv_config p))) (ca_reference account) \<noteq> None"
    using a(2) by (simp only: validate_account_def Let_def split: if_splits) auto
  have subject: "wallet_provider_verify lib p (pc_state prepared) i sig requested at = Inr b \<Longrightarrow>
      res_external_identity b = \<lparr>ei_provider = ''wallet'', ei_issuer = ''caip-122'', ei_subject = caip_canonical account, ei_claims = []\<rparr>"
    for i sig requested at b
    unfolding wallet_provider_verify_Inr authentication_result_new_def s by (elim exE conjE) simp
  note c = caip_parse_Inr [OF a(1)]
  show ?thesis unfolding Let_def
    by (rule exI [of _ account], rule exI [of _ message], intro conjI allI impI; (rule c [THEN conjunct1] c [THEN conjunct2] chain a(3))?)
      (use a(4) c subject in \<open>simp_all only: s prepared_wallet_challenge.select_convs wallet_challenge.select_convs\<close>)
qed

theorem wallet_challenge_names_its_account_witness:
  "\<exists>prepared account. prepare_challenge echo_lib echo_provider ''eip155:1:0xab'' ''h1'' ''n'' 7 = Inr prepared \<and> valid_caip account \<and>
     caip_canonical account = ''eip155:1:0xab''"
proof -
  have "case prepare_challenge echo_lib echo_provider ''eip155:1:0xab'' ''h1'' ''n'' 7 of Inl _ \<Rightarrow> False | Inr _ \<Rightarrow> True" by code_simp
  then obtain prepared where p: "prepare_challenge echo_lib echo_provider ''eip155:1:0xab'' ''h1'' ''n'' 7 = Inr prepared" by (auto split: sum.splits)
  with wallet_challenge_names_its_account [OF p] show ?thesis unfolding Let_def by blast
qed

end
