(* ===== verification/Scim.thy ===== *)
theory Scim
  imports Principals
begin

text \<open>
  SCIM 2.0 provisioning: the resources and their serialization (\<open>authz/src/principal/scim/model.rs\<close>), the
  normalization of provisioning requests, PATCH, filters and pages (\<open>authz/src/principal/scim/scim.rs\<close>), and the
  handler that applies them to the stored principals (\<open>authz/src/handler/scim.rs\<close>). The locale \<open>scim_store\<close>
  extends \<open>principal_directory\<close>; the lemmas show what a provisioning request does to the directory, that the
  loop of a listing ends with every resource, and that a PATCH of a disabled group enables it.
\<close>

section \<open>Resources\<close>

record scim_email =
  se_value :: string
  se_primary :: bool

record scim_meta =
  sm_resource_type :: string
  sm_created :: "string option"
  sm_last_modified :: "string option"
  sm_version :: "string option"
  sm_location :: string

record scim_user_resource =
  su_schemas :: "string list"
  su_id :: "string option"
  su_external_id :: "string option"
  su_user_name :: string
  su_display_name :: "string option"
  su_active :: "bool option"
  su_emails :: "scim_email list"
  su_meta :: "scim_meta option"
  su_attributes :: "(string \<times> json) list"

record scim_group_member =
  gm_value :: string
  gm_reference :: "string option"
  gm_kind :: "string option"

record scim_group_resource =
  sg_schemas :: "string list"
  sg_id :: "string option"
  sg_external_id :: "string option"
  sg_display_name :: string
  sg_members :: "scim_group_member list"
  sg_meta :: "scim_meta option"
  sg_attributes :: "(string \<times> json) list"

datatype scim_resource = ScimUser scim_user_resource | ScimGroup scim_group_resource

datatype scim_patch_verb = PatchAdd | PatchRemove | PatchReplace

record scim_patch_operation =
  po_op :: scim_patch_verb
  po_path :: "string option"
  po_value :: json

record scim_patch_request =
  pq_schemas :: "string list"
  pq_operations :: "scim_patch_operation list"

record scim_list_query =
  slq_start_index :: nat
  slq_count :: nat
  slq_filter :: "string option"

record scim_list_response =
  slr_schemas :: "string list"
  slr_total_results :: nat
  slr_start_index :: nat
  slr_items_per_page :: nat
  slr_resources :: "scim_resource list"

definition user_schema :: string where
  "user_schema = ''urn:ietf:params:scim:schemas:core:2.0:User''"

definition group_schema :: string where
  "group_schema = ''urn:ietf:params:scim:schemas:core:2.0:Group''"

definition patch_schema :: string where
  "patch_schema = ''urn:ietf:params:scim:api:messages:2.0:PatchOp''"

definition list_schema :: string where
  "list_schema = ''urn:ietf:params:scim:api:messages:2.0:ListResponse''"

fun resource_kind :: "scim_resource \<Rightarrow> principal_kind" where
  "resource_kind (ScimUser _) = User"
| "resource_kind (ScimGroup _) = Group"

fun resource_location :: "scim_resource \<Rightarrow> string option" where
  "resource_location (ScimUser u) = map_option sm_location (su_meta u)"
| "resource_location (ScimGroup g) = map_option sm_location (sg_meta g)"

section \<open>Serialization\<close>

text \<open>
  What \<open>serde\<close> derives. Members are written in the order of their names; an absent optional member and an empty list
  are left out; the attributes are flattened into the object. Structures without flattened members are also
  read from arrays of their fields.
\<close>

definition object_of :: "(string \<times> json) list \<Rightarrow> json" where
  "object_of ms = JObject (fold (\<lambda>(k, v). btree_insert k v) ms [])"

definition optional_member :: "string \<Rightarrow> ('v \<Rightarrow> json) \<Rightarrow> 'v option \<Rightarrow> (string \<times> json) list" where
  "optional_member name f x = (case x of Some v \<Rightarrow> [(name, f v)] | None \<Rightarrow> [])"

definition list_member :: "string \<Rightarrow> ('v \<Rightarrow> json) \<Rightarrow> 'v list \<Rightarrow> (string \<times> json) list" where
  "list_member name f xs = (if xs = [] then [] else [(name, JArray (map f xs))])"

definition email_to_value :: "scim_email \<Rightarrow> json" where
  "email_to_value m = object_of [(''value'', JString (se_value m)), (''primary'', JBool (se_primary m))]"

definition meta_to_value :: "scim_meta \<Rightarrow> json" where
  "meta_to_value m = object_of ([(''resourceType'', JString (sm_resource_type m))] @ optional_member ''created'' JString (sm_created m) @
     optional_member ''lastModified'' JString (sm_last_modified m) @ optional_member ''version'' JString (sm_version m) @
     [(''location'', JString (sm_location m))])"

definition member_to_value :: "scim_group_member \<Rightarrow> json" where
  "member_to_value m = object_of ([(''value'', JString (gm_value m))] @ optional_member ''$ref'' JString (gm_reference m) @
     optional_member ''type'' JString (gm_kind m))"

definition user_fields :: "scim_user_resource \<Rightarrow> (string \<times> json) list" where
  "user_fields u = [(''schemas'', JArray (map JString (su_schemas u)))] @ optional_member ''id'' JString (su_id u) @
     optional_member ''externalId'' JString (su_external_id u) @ [(''userName'', JString (su_user_name u))] @
     optional_member ''displayName'' JString (su_display_name u) @ optional_member ''active'' JBool (su_active u) @
     list_member ''emails'' email_to_value (su_emails u) @ optional_member ''meta'' meta_to_value (su_meta u)"

definition group_fields :: "scim_group_resource \<Rightarrow> (string \<times> json) list" where
  "group_fields g = [(''schemas'', JArray (map JString (sg_schemas g)))] @ optional_member ''id'' JString (sg_id g) @
     optional_member ''externalId'' JString (sg_external_id g) @ [(''displayName'', JString (sg_display_name g))] @
     list_member ''members'' member_to_value (sg_members g) @ optional_member ''meta'' meta_to_value (sg_meta g)"

definition user_to_value :: "scim_user_resource \<Rightarrow> json" where
  "user_to_value u = object_of (user_fields u @ su_attributes u)"

definition group_to_value :: "scim_group_resource \<Rightarrow> json" where
  "group_to_value g = object_of (group_fields g @ sg_attributes g)"

fun resource_to_value :: "scim_resource \<Rightarrow> json" where
  "resource_to_value (ScimUser u) = user_to_value u"
| "resource_to_value (ScimGroup g) = group_to_value g"

fun read_optional :: "(json \<Rightarrow> 'v option) \<Rightarrow> json option \<Rightarrow> 'v option option" where
  "read_optional f None = Some None"
| "read_optional f (Some JNull) = Some None"
| "read_optional f (Some v) = map_option Some (f v)"

fun read_list :: "(json \<Rightarrow> 'v option) \<Rightarrow> json option \<Rightarrow> 'v list option" where
  "read_list f None = Some []"
| "read_list f (Some (JArray vs)) = those (map f vs)"
| "read_list f (Some _) = None"

fun json_as_bool :: "json \<Rightarrow> bool option" where
  "json_as_bool (JBool b) = Some b"
| "json_as_bool _ = None"

definition read_default_bool :: "json option \<Rightarrow> bool option" where
  "read_default_bool v = (case v of None \<Rightarrow> Some False | Some x \<Rightarrow> json_as_bool x)"

fun email_of_value :: "json \<Rightarrow> scim_email option" where
  "email_of_value (JObject ms) =
     Option.bind (Option.bind (map_of ms ''value'') json_as_str) (\<lambda>v.
     Option.bind (read_default_bool (map_of ms ''primary'')) (\<lambda>p. Some \<lparr>se_value = v, se_primary = p\<rparr>))"
| "email_of_value (JArray [v]) = map_option (\<lambda>v. \<lparr>se_value = v, se_primary = False\<rparr>) (json_as_str v)"
| "email_of_value (JArray [v, p]) =
     Option.bind (json_as_str v) (\<lambda>v. map_option (\<lambda>p. \<lparr>se_value = v, se_primary = p\<rparr>) (json_as_bool p))"
| "email_of_value _ = None"

definition meta_of_members :: "json option \<Rightarrow> json option \<Rightarrow> json option \<Rightarrow> json option \<Rightarrow> json option \<Rightarrow> scim_meta option" where
  "meta_of_members kind created modified version location =
     Option.bind (Option.bind kind json_as_str) (\<lambda>k.
     Option.bind (read_optional json_as_str created) (\<lambda>c.
     Option.bind (read_optional json_as_str modified) (\<lambda>m.
     Option.bind (read_optional json_as_str version) (\<lambda>v.
     Option.bind (Option.bind location json_as_str) (\<lambda>l.
       Some \<lparr>sm_resource_type = k, sm_created = c, sm_last_modified = m, sm_version = v, sm_location = l\<rparr>)))))"

fun meta_of_value :: "json \<Rightarrow> scim_meta option" where
  "meta_of_value (JObject ms) =
     meta_of_members (map_of ms ''resourceType'') (map_of ms ''created'') (map_of ms ''lastModified'') (map_of ms ''version'') (map_of ms ''location'')"
| "meta_of_value (JArray [k, c, m, v, l]) = meta_of_members (Some k) (Some c) (Some m) (Some v) (Some l)"
| "meta_of_value _ = None"

definition member_of_members :: "json option \<Rightarrow> json option \<Rightarrow> json option \<Rightarrow> scim_group_member option" where
  "member_of_members v reference kind =
     Option.bind (Option.bind v json_as_str) (\<lambda>v.
     Option.bind (read_optional json_as_str reference) (\<lambda>r.
     Option.bind (read_optional json_as_str kind) (\<lambda>k. Some \<lparr>gm_value = v, gm_reference = r, gm_kind = k\<rparr>)))"

fun member_of_value :: "json \<Rightarrow> scim_group_member option" where
  "member_of_value (JObject ms) = member_of_members (map_of ms ''value'') (map_of ms ''$ref'') (map_of ms ''type'')"
| "member_of_value (JArray [v]) = member_of_members (Some v) None None"
| "member_of_value (JArray [v, r]) = member_of_members (Some v) (Some r) None"
| "member_of_value (JArray [v, r, k]) = member_of_members (Some v) (Some r) (Some k)"
| "member_of_value _ = None"

definition user_members :: "string set" where
  "user_members = {''schemas'', ''id'', ''externalId'', ''userName'', ''displayName'', ''active'', ''emails'', ''meta''}"

definition group_members :: "string set" where
  "group_members = {''schemas'', ''id'', ''externalId'', ''displayName'', ''members'', ''meta''}"

definition user_of_value :: "json \<Rightarrow> scim_user_resource option" where
  "user_of_value v =
     Option.bind (json_as_object v) (\<lambda>ms.
     Option.bind (read_list json_as_str (map_of ms ''schemas'')) (\<lambda>schemas.
     Option.bind (read_optional json_as_str (map_of ms ''id'')) (\<lambda>i.
     Option.bind (read_optional json_as_str (map_of ms ''externalId'')) (\<lambda>external.
     Option.bind (Option.bind (map_of ms ''userName'') json_as_str) (\<lambda>name.
     Option.bind (read_optional json_as_str (map_of ms ''displayName'')) (\<lambda>display.
     Option.bind (read_optional json_as_bool (map_of ms ''active'')) (\<lambda>enabled.
     Option.bind (read_list email_of_value (map_of ms ''emails'')) (\<lambda>emails.
     Option.bind (read_optional meta_of_value (map_of ms ''meta'')) (\<lambda>meta.
       Some \<lparr>su_schemas = schemas, su_id = i, su_external_id = external, su_user_name = name, su_display_name = display,
             su_active = enabled, su_emails = emails, su_meta = meta,
             su_attributes = filter (\<lambda>(k, _). k \<notin> user_members) ms\<rparr>)))))))))"

definition group_of_value :: "json \<Rightarrow> scim_group_resource option" where
  "group_of_value v =
     Option.bind (json_as_object v) (\<lambda>ms.
     Option.bind (read_list json_as_str (map_of ms ''schemas'')) (\<lambda>schemas.
     Option.bind (read_optional json_as_str (map_of ms ''id'')) (\<lambda>i.
     Option.bind (read_optional json_as_str (map_of ms ''externalId'')) (\<lambda>external.
     Option.bind (Option.bind (map_of ms ''displayName'') json_as_str) (\<lambda>display.
     Option.bind (read_list member_of_value (map_of ms ''members'')) (\<lambda>members.
     Option.bind (read_optional meta_of_value (map_of ms ''meta'')) (\<lambda>meta.
       Some \<lparr>sg_schemas = schemas, sg_id = i, sg_external_id = external, sg_display_name = display, sg_members = members,
             sg_meta = meta, sg_attributes = filter (\<lambda>(k, _). k \<notin> group_members) ms\<rparr>)))))))"

section \<open>Discovery\<close>

record scim_principal_discovery =
  sd_discovery_id :: string
  sd_issuer :: string

datatype scim_provisioning_request =
    UpsertUser string scim_user_resource
  | UpsertGroup string scim_group_resource
  | ScimDelete string

datatype scim_projection_event =
    UpsertEvent string principal_projection
  | DeleteEvent string

record scim_stored_resource =
  ss_principal :: iam_principal_info
  ss_claims :: json

fun into_upsert :: "scim_resource \<Rightarrow> string \<Rightarrow> scim_provisioning_request" where
  "into_upsert (ScimUser u) i = UpsertUser i u"
| "into_upsert (ScimGroup g) i = UpsertGroup i g"

definition require_identifier :: "string \<Rightarrow> string \<Rightarrow> (principal_discovery_error, unit) result" where
  "require_identifier name v =
     (if trim v = [] \<or> trim v \<noteq> v \<or> length v > 512 then Inl (InvalidQuery (name @ '' must contain 1 to 512 canonical bytes'')) else Inr ())"

definition require_schema :: "string list \<Rightarrow> string \<Rightarrow> (principal_discovery_error, unit) result" where
  "require_schema schemas expected =
     (if expected \<in> set schemas then Inr () else Inl (InvalidQuery (''SCIM resource requires schema `'' @ expected @ ''`'')))"

definition scim_new :: "string \<Rightarrow> string \<Rightarrow> (principal_discovery_error, scim_principal_discovery) result" where
  "scim_new discovery_id issuer =
     and_then (require_identifier ''SCIM discovery id'' discovery_id) (\<lambda>_.
     and_then (require_identifier ''SCIM issuer'' issuer) (\<lambda>_. Inr \<lparr>sd_discovery_id = discovery_id, sd_issuer = issuer\<rparr>))"

definition strip_group :: "string \<Rightarrow> string" where
  "strip_group external_id = (case strip_prefix ''group:'' external_id of Some rest \<Rightarrow> rest | None \<Rightarrow> external_id)"

definition missing_external_id :: "string \<Rightarrow> principal_discovery_error" where
  "missing_external_id kind = InvalidQuery (''SCIM '' @ kind @ '' externalId is required as the stable external subject'')"

fun upsert_subject :: "scim_provisioning_request \<Rightarrow> (principal_discovery_error, string) result" where
  "upsert_subject (UpsertUser _ u) = ok_or (missing_external_id ''User'') (su_external_id u)"
| "upsert_subject (UpsertGroup _ g) =
     and_then (ok_or (missing_external_id ''Group'') (sg_external_id g)) (\<lambda>external_id. Inr (''group:'' @ strip_group external_id))"
| "upsert_subject (ScimDelete _) = Inl (InvalidQuery ''SCIM deletion has no external identity'')"

definition upsert_identity_key ::
  "scim_principal_discovery \<Rightarrow> scim_provisioning_request \<Rightarrow> (principal_discovery_error, external_identity_key) result" where
  "upsert_identity_key s request =
     and_then (upsert_subject request) (\<lambda>subject. Inr \<lparr>ek_provider = sd_discovery_id s, ek_issuer = sd_issuer s, ek_subject = subject\<rparr>)"

definition with_schema :: "string \<Rightarrow> string list \<Rightarrow> string list" where
  "with_schema schema schemas = (if schema \<in> set schemas then schemas else schema # schemas)"

definition resource_meta :: "string \<Rightarrow> string \<Rightarrow> scim_meta" where
  "resource_meta kind location = \<lparr>sm_resource_type = kind, sm_created = None, sm_last_modified = None, sm_version = None, sm_location = location\<rparr>"

text \<open>The text of a deserialization error, which only reaches the caller.\<close>

definition malformed :: principal_discovery_error where
  "malformed = InvalidQuery ''malformed SCIM resource''"

definition restore_resource :: "scim_stored_resource \<Rightarrow> (principal_discovery_error, scim_resource) result" where
  "restore_resource stored_resource =
     (let p = ss_principal stored_resource in
      case pi_kind p of
        User \<Rightarrow> and_then (ok_or malformed (user_of_value (ss_claims stored_resource))) (\<lambda>u.
          Inr (ScimUser (u\<lparr>su_id := Some (pi_id p), su_schemas := with_schema user_schema (su_schemas u),
            su_active := Some (pi_status p = Active), su_meta := Some (resource_meta ''User'' (''/scim/v2/Users/'' @ pi_id p))\<rparr>)))
      | Group \<Rightarrow> and_then (ok_or malformed (group_of_value (ss_claims stored_resource))) (\<lambda>g.
          Inr (ScimGroup (g\<lparr>sg_id := Some (pi_id p), sg_schemas := with_schema group_schema (sg_schemas g),
            sg_meta := Some (resource_meta ''Group'' (''/scim/v2/Groups/'' @ pi_id p))\<rparr>)))
      | Workload \<Rightarrow> Inl (InvalidQuery ''SCIM User/Group endpoint cannot project a WORKLOAD Principal''))"

fun json_object_members :: "json \<Rightarrow> (string \<times> json) list option" where
  "json_object_members (JObject ms) = Some ms"
| "json_object_members _ = None"

definition apply_patch_operation :: "json \<Rightarrow> scim_patch_operation \<Rightarrow> (principal_discovery_error, json) result" where
  "apply_patch_operation resource operation =
     and_then (ok_or (InvalidQuery ''SCIM PATCH target must be an object'') (json_object_members resource)) (\<lambda>object.
     and_then (ok_or (InvalidQuery ''SCIM PATCH operations require a top-level attribute path'') (po_path operation)) (\<lambda>path.
       if \<not> list_all (\<lambda>c. is_ascii_alphanumeric c \<or> c = CHR ''$'') path
       then Inl (InvalidQuery ''complex SCIM PATCH paths are not supported'')
       else Inr (JObject (case po_op operation of
           PatchRemove \<Rightarrow> filter (\<lambda>(k, _). k \<noteq> path) object
         | _ \<Rightarrow> btree_insert path (po_value operation) object))))"

fun apply_patch_operations :: "json \<Rightarrow> scim_patch_operation list \<Rightarrow> (principal_discovery_error, json) result" where
  "apply_patch_operations v [] = Inr v"
| "apply_patch_operations v (operation # rest) = and_then (apply_patch_operation v operation) (\<lambda>v. apply_patch_operations v rest)"

definition scim_patch :: "scim_resource \<Rightarrow> scim_patch_request \<Rightarrow> (principal_discovery_error, scim_resource) result" where
  "scim_patch resource patch =
     (if pq_schemas patch \<noteq> [patch_schema] then Inl (InvalidQuery ''SCIM PATCH requires the PatchOp schema'')
      else and_then (apply_patch_operations (resource_to_value resource) (pq_operations patch)) (\<lambda>v.
        case resource of
          ScimUser _ \<Rightarrow> and_then (ok_or malformed (user_of_value v)) (\<lambda>u. Inr (ScimUser u))
        | ScimGroup _ \<Rightarrow> and_then (ok_or malformed (group_of_value v)) (\<lambda>g. Inr (ScimGroup g))))"

definition invalid_filter :: principal_discovery_error where
  "invalid_filter = InvalidQuery ''SCIM filter must be externalId, userName, or displayName eq a quoted string''"

definition parse_filter :: "string \<Rightarrow> (principal_discovery_error, string \<times> string) result" where
  "parse_filter expression =
     and_then (ok_or invalid_filter (split_once_at '' eq '' expression)) (\<lambda>(attribute, expected).
       if attribute \<notin> {''externalId'', ''userName'', ''displayName''} then Inl invalid_filter
       else and_then (ok_or invalid_filter (Option.bind (strip_prefix [CHR 0x22] expected) (strip_suffix [CHR 0x22]))) (\<lambda>v. Inr (attribute, v)))"

definition scim_list_page :: "scim_resource list \<Rightarrow> scim_list_query \<Rightarrow> (principal_discovery_error, scim_list_response) result" where
  "scim_list_page resources query =
     and_then (case slq_filter query of
         None \<Rightarrow> Inr resources
       | Some expression \<Rightarrow> and_then (parse_filter expression) (\<lambda>(attribute, expected).
           Inr (filter (\<lambda>r. Option.bind (Option.bind (json_as_object (resource_to_value r)) (\<lambda>ms. map_of ms attribute)) json_as_str = Some expected) resources)))
       (\<lambda>kept.
         let start_index = max (slq_start_index query) 1;
             page = take (min (slq_count query) 100) (drop (start_index - 1) kept)
         in Inr \<lparr>slr_schemas = [list_schema], slr_total_results = length kept, slr_start_index = start_index,
                 slr_items_per_page = length page, slr_resources = page\<rparr>)"

definition principal_id_or_new :: "(string \<Rightarrow> string) \<Rightarrow> string \<Rightarrow> string \<Rightarrow> (principal_discovery_error, string) result" where
  "principal_id_or_new b64_encode random v =
     (if v \<noteq> [] then and_then (require_identifier ''canonical Principal ID'' v) (\<lambda>_. Inr v) else Inr (''P_'' @ b64_encode random))"

definition primary_email :: "scim_email list \<Rightarrow> string option" where
  "primary_email emails =
     map_option se_value (case find se_primary emails of Some m \<Rightarrow> Some m | None \<Rightarrow> (case emails of [] \<Rightarrow> None | m # _ \<Rightarrow> Some m))"

fun resource_claims :: "json \<Rightarrow> (principal_discovery_error, (string \<times> json) list) result" where
  "resource_claims v = ok_or (InvalidQuery ''SCIM resource must be an object'') (json_object_members v)"

fun scim_discover ::
  "(string \<Rightarrow> string) \<Rightarrow> string \<Rightarrow> scim_principal_discovery \<Rightarrow> scim_provisioning_request \<Rightarrow>
   (principal_discovery_error, scim_projection_event) result" where
  "scim_discover b64_encode random s (UpsertUser requested u) =
     and_then (principal_id_or_new b64_encode random requested) (\<lambda>principal_id.
     and_then (require_schema (su_schemas u) user_schema) (\<lambda>_.
     and_then (require_identifier ''SCIM userName'' (su_user_name u)) (\<lambda>_.
     and_then (ok_or (missing_external_id ''User'') (su_external_id u)) (\<lambda>external_id.
     and_then (require_identifier ''SCIM User externalId'' external_id) (\<lambda>_.
       let display_name = (case su_display_name u of Some n \<Rightarrow> if trim n = [] then su_user_name u else n | None \<Rightarrow> su_user_name u);
           resource = u\<lparr>su_id := None, su_meta := None\<rparr>
       in and_then (resource_claims (user_to_value resource)) (\<lambda>claims.
         Inr (UpsertEvent principal_id \<lparr>pj_reference = \<lparr>er_provider_id = sd_discovery_id s, er_issuer = sd_issuer s, er_external_id = external_id\<rparr>,
           pj_kind = User, pj_display_name = display_name, pj_username = Some (su_user_name u), pj_email = primary_email (su_emails u),
           pj_enabled = (case su_active u of Some b \<Rightarrow> b | None \<Rightarrow> True), pj_attributes = claims\<rparr>)))))))"
| "scim_discover b64_encode random s (UpsertGroup requested g) =
     and_then (principal_id_or_new b64_encode random requested) (\<lambda>principal_id.
     and_then (require_schema (sg_schemas g) group_schema) (\<lambda>_.
     and_then (require_identifier ''SCIM Group displayName'' (sg_display_name g)) (\<lambda>_.
     and_then (ok_or (missing_external_id ''Group'') (sg_external_id g)) (\<lambda>external_id.
     and_then (require_identifier ''SCIM Group externalId'' (strip_group external_id)) (\<lambda>_.
     and_then (resource_claims (group_to_value (g\<lparr>sg_id := None, sg_meta := None\<rparr>))) (\<lambda>claims.
       Inr (UpsertEvent principal_id \<lparr>pj_reference = \<lparr>er_provider_id = sd_discovery_id s, er_issuer = sd_issuer s,
           er_external_id = ''group:'' @ strip_group external_id\<rparr>,
         pj_kind = Group, pj_display_name = sg_display_name g, pj_username = None, pj_email = None, pj_enabled = True,
         pj_attributes = claims\<rparr>)))))))"
| "scim_discover b64_encode random s (ScimDelete principal_id) =
     and_then (require_identifier ''canonical Principal ID'' principal_id) (\<lambda>_. Inr (DeleteEvent principal_id))"

section \<open>Handler\<close>

text \<open>
  The principal handler with its SCIM adapter, the methods of the repository that only this part calls, and the
  encoder of random identifiers.
\<close>

record 'd scim_handler =
  sc_principals :: "'d principal_handler"
  sc_scim :: "scim_principal_discovery option"
  sc_upsert :: "'d \<Rightarrow> iam_principal_info \<Rightarrow> (storage_error, iam_principal_info) result \<times> 'd"
  sc_find_by_identity :: "'d \<Rightarrow> external_identity_key \<Rightarrow> (storage_error, iam_principal_info option) result"
  sc_get_identity :: "'d \<Rightarrow> string \<Rightarrow> string \<Rightarrow> (storage_error, iam_principal_identity_info option) result"
  sc_b64_encode :: "string \<Rightarrow> string"

definition scim_deleted :: "iam_principal_info \<Rightarrow> bool" where
  "scim_deleted p \<longleftrightarrow> map_of (pi_authorization_state p) ''scimDeleted'' = Some (JBool True)"

fun apply_scim_projection ::
  "'d scim_handler \<Rightarrow> 'd \<Rightarrow> scim_projection_event \<Rightarrow> (principal_handler_error, iam_principal_info option) result \<times> 'd" where
  "apply_scim_projection h d (UpsertEvent principal_id projection) =
     (case upsert_external (sc_principals h) d principal_id projection of
        (Inl e, d') \<Rightarrow> (Inl e, d')
      | (Inr p, d') \<Rightarrow> (Inr (Some p), d'))"
| "apply_scim_projection h d (DeleteEvent principal_id) =
     (case handler_get (sc_principals h) d principal_id of
        Inl e \<Rightarrow> (Inl e, d)
      | Inr None \<Rightarrow> (Inr None, d)
      | Inr (Some p) \<Rightarrow>
          (case sc_upsert h d (p\<lparr>pi_status := Disabled,
              pi_authorization_state := btree_insert ''scimDeleted'' (JBool True) (pi_authorization_state p)\<rparr>) of
             (Inl e, d') \<Rightarrow> (Inl (PrincipalStorage e), d')
           | (Inr q, d') \<Rightarrow> (Inr (Some q), d')))"

fun with_request_id :: "string \<Rightarrow> scim_provisioning_request \<Rightarrow> scim_provisioning_request" where
  "with_request_id i (UpsertUser _ u) = UpsertUser i u"
| "with_request_id i (UpsertGroup _ g) = UpsertGroup i g"
| "with_request_id i (ScimDelete j) = ScimDelete j"

fun principal_id_missing :: "scim_provisioning_request \<Rightarrow> bool" where
  "principal_id_missing (UpsertUser i _) = (i = [])"
| "principal_id_missing (UpsertGroup i _) = (i = [])"
| "principal_id_missing (ScimDelete _) = False"

text \<open>The identifier of a new resource: the principal its identity is bound to, unless that is provisioned already.\<close>

definition adopt_identity ::
  "'d scim_handler \<Rightarrow> 'd \<Rightarrow> scim_principal_discovery \<Rightarrow> scim_provisioning_request \<Rightarrow> (principal_handler_error, scim_provisioning_request) result" where
  "adopt_identity h d s request =
     (if \<not> principal_id_missing request then Inr request
      else and_then (map_err Discovery (upsert_identity_key s request)) (\<lambda>key.
        and_then (map_err PrincipalStorage (sc_find_by_identity h d key)) (\<lambda>found.
          case found of
            None \<Rightarrow> Inr request
          | Some p \<Rightarrow>
              and_then (map_err PrincipalStorage (sc_get_identity h d (pi_id p) (ek_provider key))) (\<lambda>binding.
                let already_scim_managed = (case binding of
                    Some b \<Rightarrow> Option.bind (json_as_object (ii_claims b)) (\<lambda>ms. map_of ms ''schemas'') \<noteq> None | None \<Rightarrow> False)
                in if already_scim_managed \<and> \<not> scim_deleted p then Inl IdentityConflict
                   else Inr (with_request_id (pi_id p) request)))))"

definition provision_scim ::
  "'d scim_handler \<Rightarrow> string \<Rightarrow> 'd \<Rightarrow> scim_provisioning_request \<Rightarrow> (principal_handler_error, iam_principal_info option) result \<times> 'd" where
  "provision_scim h random d request =
     (case sc_scim h of
        None \<Rightarrow> (Inl ProviderUnavailable, d)
      | Some s \<Rightarrow>
     (case adopt_identity h d s request of
        Inl e \<Rightarrow> (Inl e, d)
      | Inr adopted \<Rightarrow>
     (case scim_discover (sc_b64_encode h) random s adopted of
        Inl e \<Rightarrow> (Inl (Discovery e), d)
      | Inr event \<Rightarrow> apply_scim_projection h d event)))"

definition get_scim :: "'d scim_handler \<Rightarrow> 'd \<Rightarrow> string \<Rightarrow> principal_kind \<Rightarrow> (principal_handler_error, scim_resource) result" where
  "get_scim h d principal_id expected_kind =
     and_then (ok_or ProviderUnavailable (sc_scim h)) (\<lambda>s.
     and_then (handler_get (sc_principals h) d principal_id) (\<lambda>found.
     and_then (ok_or (PrincipalNotFound principal_id) found) (\<lambda>p.
       if scim_deleted p \<or> pi_kind p \<noteq> expected_kind then Inl (PrincipalNotFound principal_id)
       else and_then (map_err PrincipalStorage (sc_get_identity h d principal_id (sd_discovery_id s))) (\<lambda>bound.
         and_then (ok_or (PrincipalNotFound principal_id) bound) (\<lambda>identity.
           map_err Discovery (restore_resource \<lparr>ss_principal = p, ss_claims = ii_claims identity\<rparr>))))))"

definition upsert_scim ::
  "'d scim_handler \<Rightarrow> string \<Rightarrow> 'd \<Rightarrow> string \<Rightarrow> scim_resource \<Rightarrow> bool \<Rightarrow> (principal_handler_error, scim_resource) result \<times> 'd" where
  "upsert_scim h random d principal_id resource replace =
     (case (if replace then and_then (get_scim h d principal_id (resource_kind resource)) (\<lambda>_. Inr ()) else Inr ()) of
        Inl e \<Rightarrow> (Inl e, d)
      | Inr _ \<Rightarrow>
     (case provision_scim h random d (into_upsert resource principal_id) of
        (Inl e, d') \<Rightarrow> (Inl e, d')
      | (Inr None, d') \<Rightarrow> (Inl (PrincipalNotFound ''SCIM resource''), d')
      | (Inr (Some p), d') \<Rightarrow> (get_scim h d' (pi_id p) (resource_kind resource), d')))"

definition delete_scim ::
  "'d scim_handler \<Rightarrow> string \<Rightarrow> 'd \<Rightarrow> string \<Rightarrow> principal_kind \<Rightarrow> (principal_handler_error, unit) result \<times> 'd" where
  "delete_scim h random d principal_id kind =
     (case get_scim h d principal_id kind of
        Inl e \<Rightarrow> (Inl e, d)
      | Inr _ \<Rightarrow>
     (case provision_scim h random d (ScimDelete principal_id) of
        (Inl e, d') \<Rightarrow> (Inl e, d')
      | (Inr _, d') \<Rightarrow> (Inr (), d')))"

definition patch_scim ::
  "'d scim_handler \<Rightarrow> string \<Rightarrow> 'd \<Rightarrow> string \<Rightarrow> principal_kind \<Rightarrow> scim_patch_request \<Rightarrow>
   (principal_handler_error, scim_resource) result \<times> 'd" where
  "patch_scim h random d principal_id expected_kind patch =
     (if sc_scim h = None then (Inl ProviderUnavailable, d)
      else case get_scim h d principal_id expected_kind of
        Inl e \<Rightarrow> (Inl e, d)
      | Inr current \<Rightarrow>
     (case scim_patch current patch of
        Inl e \<Rightarrow> (Inl (Discovery e), d)
      | Inr patched \<Rightarrow>
     (case provision_scim h random d (into_upsert patched principal_id) of
        (Inl e, d') \<Rightarrow> (Inl e, d')
      | (Inr _, d') \<Rightarrow> (get_scim h d' principal_id expected_kind, d'))))"

text \<open>One page of a listing: what is not provisioned is passed over, any other error ends it.\<close>

fun page_resources ::
  "'d scim_handler \<Rightarrow> 'd \<Rightarrow> principal_kind \<Rightarrow> iam_principal_info list \<Rightarrow> (principal_handler_error, scim_resource list) result" where
  "page_resources h d kind [] = Inr []"
| "page_resources h d kind (p # ps) =
     (if pi_kind p \<noteq> kind then page_resources h d kind ps
      else case get_scim h d (pi_id p) kind of
        Inr r \<Rightarrow> and_then (page_resources h d kind ps) (\<lambda>rs. Inr (r # rs))
      | Inl (PrincipalNotFound _) \<Rightarrow> page_resources h d kind ps
      | Inl e \<Rightarrow> Inl e)"

text \<open>The loop over the pages, for at most as many rounds as it is given; \<open>None\<close> is a loop that has not ended.\<close>

fun scim_pages ::
  "nat \<Rightarrow> 'd scim_handler \<Rightarrow> 'd \<Rightarrow> principal_kind \<Rightarrow> string option \<Rightarrow> (principal_handler_error, scim_resource list) result option" where
  "scim_pages 0 h d kind after = None"
| "scim_pages (Suc n) h d kind after =
     (case pr_list (pn_repository (sc_principals h)) d [] after 100 of
        Inl e \<Rightarrow> Some (Inl (PrincipalStorage e))
      | Inr page \<Rightarrow>
          if page = [] then Some (Inr [])
          else case page_resources h d kind page of
            Inl e \<Rightarrow> Some (Inl e)
          | Inr rs \<Rightarrow>
              if length page < 100 then Some (Inr rs)
              else map_option (\<lambda>r. and_then r (\<lambda>more. Inr (rs @ more))) (scim_pages n h d kind (Some (pi_id (last page)))))"

definition list_scim ::
  "nat \<Rightarrow> 'd scim_handler \<Rightarrow> 'd \<Rightarrow> principal_kind \<Rightarrow> scim_list_query \<Rightarrow> (principal_handler_error, scim_list_response) result option" where
  "list_scim rounds h d kind query =
     (if sc_scim h = None then Some (Inl ProviderUnavailable)
      else map_option (\<lambda>r. and_then r (\<lambda>resources. map_err Discovery (scim_list_page resources query))) (scim_pages rounds h d kind None))"

section \<open>Lemmas\<close>

subsection \<open>Serialization\<close>

text \<open>The members of an object in the order of a map, none of them with a name of the structure.\<close>

definition flattened :: "string set \<Rightarrow> (string \<times> json) list \<Rightarrow> bool" where
  "flattened names ms \<longleftrightarrow> btree ms \<and> fst ` set ms \<inter> names = {}"

lemma object_of_members:
  obtains m where "object_of ms = JObject m" "btree m" "map_of m = map_of (rev ms)"
proof
  have "fold (\<lambda>(k, v). btree_insert k v) ms [] = fold (\<lambda>e. btree_insert (fst e) (snd e)) ms []"
    by (simp add: case_prod_beta')
  then show "object_of ms = JObject (fold (\<lambda>e. btree_insert (fst e) (snd e)) ms [])" by (simp add: object_of_def)
  show "btree (fold (\<lambda>e. btree_insert (fst e) (snd e)) ms [])" by (rule fold_insert_map_of(1)) simp
  show "map_of (fold (\<lambda>e. btree_insert (fst e) (snd e)) ms []) = map_of (rev ms)"
    by (simp add: fold_insert_map_of(2))
qed

lemma object_of_not_null [simp]: "object_of ms \<noteq> JNull"
  by (simp add: object_of_def)

lemma lookup_append: "map_of (rev (xs @ ys)) k = (if map_of (rev ys) k = None then map_of (rev xs) k else map_of (rev ys) k)"
  by (simp add: map_add_def split: option.split)

lemma optional_kept:
  "(if x = None then None else map_option f x) = map_option f x" "(if xs = [] then None else if xs \<noteq> [] then Some v else None) = (if xs \<noteq> [] then Some v else None)"
  by simp_all

lemma lookup_single: "map_of (rev [(n, v)]) k = (if k = n then Some v else None)"
  by simp

lemma lookup_optional: "map_of (rev (optional_member n f x)) k = (if k = n then map_option f x else None)"
  by (simp add: optional_member_def split: option.split)

lemma lookup_list: "map_of (rev (list_member n f xs)) k = (if k = n \<and> xs \<noteq> [] then Some (JArray (map f xs)) else None)"
  by (simp add: list_member_def)

lemmas lookup = lookup_append lookup_single lookup_optional lookup_list

lemma read_optional_map:
  assumes "\<And>v. g v \<noteq> JNull \<and> f (g v) = Some v"
  shows "read_optional f (map_option g x) = Some x"
proof (cases x)
  case (Some v)
  have "read_optional f (Some y) = map_option Some (f y)" if "y \<noteq> JNull" for y using that by (cases y) simp_all
  then show ?thesis using assms [of v] by (simp add: Some)
qed simp

lemma read_list_map:
  assumes "\<And>v. f (g v) = Some v"
  shows "read_list f (if xs \<noteq> [] then Some (JArray (map g xs)) else None) = Some xs" "those (map f (map g xs)) = Some xs"
proof -
  show "those (map f (map g xs)) = Some xs" using assms by (induction xs) simp_all
  then show "read_list f (if xs \<noteq> [] then Some (JArray (map g xs)) else None) = Some xs" by simp
qed

lemma texts_roundtrip:
  "read_optional json_as_str (map_option JString x) = Some x" "read_optional json_as_bool (map_option JBool y) = Some y"
  "read_list json_as_str (Some (JArray (map JString xs))) = Some xs"
  using read_list_map(2) [of json_as_str JString xs] by (auto intro!: read_optional_map)

lemma email_roundtrip: "email_of_value (email_to_value m) = Some m"
proof -
  obtain ms where ms: "email_to_value m = JObject ms"
    "map_of ms = map_of (rev [(''value'', JString (se_value m)), (''primary'', JBool (se_primary m))])"
    unfolding email_to_value_def by (rule object_of_members)
  then show ?thesis by (simp add: read_default_bool_def)
qed

lemma meta_roundtrip: "meta_of_value (meta_to_value m) = Some m"
proof -
  obtain ms where ms: "meta_to_value m = JObject ms"
    "map_of ms = map_of (rev ([(''resourceType'', JString (sm_resource_type m))] @ optional_member ''created'' JString (sm_created m) @
      optional_member ''lastModified'' JString (sm_last_modified m) @ optional_member ''version'' JString (sm_version m) @
      [(''location'', JString (sm_location m))]))"
    unfolding meta_to_value_def by (rule object_of_members)
  show ?thesis unfolding ms(1) meta_of_value.simps ms(2) lookup by (simp add: meta_of_members_def texts_roundtrip optional_kept)
qed

lemma optional_meta_roundtrip: "read_optional meta_of_value (map_option meta_to_value x) = Some x"
  by (rule read_optional_map) (simp add: meta_roundtrip, simp add: meta_to_value_def)

lemma member_roundtrip: "member_of_value (member_to_value m) = Some m"
proof -
  obtain ms where ms: "member_to_value m = JObject ms"
    "map_of ms = map_of (rev ([(''value'', JString (gm_value m))] @ optional_member ''$ref'' JString (gm_reference m) @
      optional_member ''type'' JString (gm_kind m)))"
    unfolding member_to_value_def by (rule object_of_members)
  show ?thesis unfolding ms(1) member_of_value.simps ms(2) lookup by (simp add: member_of_members_def texts_roundtrip optional_kept)
qed

text \<open>Reading a flattened structure back: its own members, and the others as its attributes.\<close>

lemma flattened_members:
  assumes "flattened names extra" "fst ` set fs \<subseteq> names"
  obtains ms where "object_of (fs @ extra) = JObject ms" "\<And>k. k \<in> names \<Longrightarrow> map_of ms k = map_of (rev fs) k"
    and "filter (\<lambda>(k, _). k \<notin> names) ms = extra"
proof -
  obtain ms where ms: "object_of (fs @ extra) = JObject ms" "btree ms" "map_of ms = map_of (rev (fs @ extra))"
    by (rule object_of_members)
  have "map_of (rev extra) = map_of extra"
    using assms(1) by (intro map_of_inject_set [THEN iffD2]) (auto simp: flattened_def rev_map [symmetric] dest: btree_distinct)
  then have at: "map_of ms k = (if map_of extra k = None then map_of (rev fs) k else map_of extra k)" for k
    by (simp only: ms(3) lookup_append)
  have own: "map_of extra k = None" if "k \<in> names" for k
    using assms(1) that by (auto simp: flattened_def map_of_eq_None_iff)
  have other: "map_of (rev fs) k = None" if "k \<notin> names" for k
    using assms(2) that by (auto simp: map_of_eq_None_iff)
  have "map_of (filter (\<lambda>(k, _). k \<notin> names) ms) k = map_of extra k" for k
  proof (cases "k \<in> names")
    case True
    then have "map_of (filter (\<lambda>(k, _). k \<notin> names) ms) k = None" by (auto simp: map_of_eq_None_iff)
    then show ?thesis using own [OF True] by simp
  next
    case False
    then have "map_of (filter (\<lambda>(k, _). k \<notin> names) ms) k = map_of ms k" by (induction ms) auto
    then show ?thesis using at [of k] other [OF False] by simp
  qed
  moreover have "btree (filter (\<lambda>(k, _). k \<notin> names) ms)"
    using ms(2) by (induction ms) (auto simp: btree_def)
  ultimately have "filter (\<lambda>(k, _). k \<notin> names) ms = extra"
    using assms(1) by (intro btree_unique) (auto simp: flattened_def)
  moreover have "map_of ms k = map_of (rev fs) k" if "k \<in> names" for k using at [of k] own [OF that] by simp
  ultimately show ?thesis using that ms(1) by blast
qed

lemma user_fields_names: "fst ` set (user_fields u) \<subseteq> user_members"
  by (auto simp: user_fields_def user_members_def optional_member_def list_member_def split: option.splits if_splits)

lemma group_fields_names: "fst ` set (group_fields g) \<subseteq> group_members"
  by (auto simp: group_fields_def group_members_def optional_member_def list_member_def split: option.splits if_splits)

lemma user_roundtrip:
  assumes "flattened user_members (su_attributes u)"
  shows "user_of_value (user_to_value u) = Some u"
proof -
  obtain ms where ms: "user_to_value u = JObject ms" "\<And>k. k \<in> user_members \<Longrightarrow> map_of ms k = map_of (rev (user_fields u)) k"
    "filter (\<lambda>(k, _). k \<notin> user_members) ms = su_attributes u"
    unfolding user_to_value_def using flattened_members [OF assms user_fields_names [of u]] by blast
  have names: "''schemas'' \<in> user_members" "''id'' \<in> user_members" "''externalId'' \<in> user_members" "''userName'' \<in> user_members"
    "''displayName'' \<in> user_members" "''active'' \<in> user_members" "''emails'' \<in> user_members" "''meta'' \<in> user_members"
    by (simp_all add: user_members_def)
  note emails = read_list_map(1) [of email_of_value email_to_value, OF email_roundtrip]
  have at: "map_of ms ''schemas'' = Some (JArray (map JString (su_schemas u)))"
    "map_of ms ''id'' = map_option JString (su_id u)"
    "map_of ms ''externalId'' = map_option JString (su_external_id u)"
    "map_of ms ''userName'' = Some (JString (su_user_name u))"
    "map_of ms ''displayName'' = map_option JString (su_display_name u)"
    "map_of ms ''active'' = map_option JBool (su_active u)"
    "map_of ms ''emails'' = (if su_emails u \<noteq> [] then Some (JArray (map email_to_value (su_emails u))) else None)"
    "map_of ms ''meta'' = map_option meta_to_value (su_meta u)"
    unfolding names [THEN ms(2)] user_fields_def lookup by simp_all
  show ?thesis
    by (simp add: user_of_value_def ms(1,3) at texts_roundtrip optional_meta_roundtrip emails del: read_list.simps map_map)
qed

lemma group_value:
  assumes "flattened group_members (sg_attributes g)"
  obtains ms where "group_to_value g = JObject ms" "btree ms"
    and "map_of ms ''members'' = (if sg_members g \<noteq> [] then Some (JArray (map member_to_value (sg_members g))) else None)"
    and "\<And>m members. map_of m ''members'' = members \<Longrightarrow> (\<And>k. k \<noteq> ''members'' \<Longrightarrow> map_of m k = map_of ms k) \<Longrightarrow>
      filter (\<lambda>(k, _). k \<notin> group_members) m = filter (\<lambda>(k, _). k \<notin> group_members) ms \<Longrightarrow>
      group_of_value (JObject m) = map_option (\<lambda>new. g\<lparr>sg_members := new\<rparr>) (read_list member_of_value members)"
proof -
  obtain ms where ms: "group_to_value g = JObject ms" "\<And>k. k \<in> group_members \<Longrightarrow> map_of ms k = map_of (rev (group_fields g)) k"
    "filter (\<lambda>(k, _). k \<notin> group_members) ms = sg_attributes g"
    unfolding group_to_value_def using flattened_members [OF assms group_fields_names [of g]] by blast
  have names: "''schemas'' \<in> group_members" "''id'' \<in> group_members" "''externalId'' \<in> group_members"
    "''displayName'' \<in> group_members" "''members'' \<in> group_members" "''meta'' \<in> group_members"
    by (simp_all add: group_members_def)
  have at: "map_of ms ''schemas'' = Some (JArray (map JString (sg_schemas g)))"
    "map_of ms ''id'' = map_option JString (sg_id g)"
    "map_of ms ''externalId'' = map_option JString (sg_external_id g)"
    "map_of ms ''displayName'' = Some (JString (sg_display_name g))"
    "map_of ms ''members'' = (if sg_members g \<noteq> [] then Some (JArray (map member_to_value (sg_members g))) else None)"
    "map_of ms ''meta'' = map_option meta_to_value (sg_meta g)"
    unfolding names [THEN ms(2)] group_fields_def lookup by simp_all
  have "btree ms" using ms(1) by (auto simp: group_to_value_def intro: object_of_members [of "group_fields g @ sg_attributes g"])
  then show ?thesis using at(5)
  proof (rule that [OF ms(1)])
    fix m members
    assume m: "map_of m ''members'' = members" "\<And>k. k \<noteq> ''members'' \<Longrightarrow> map_of m k = map_of ms k"
      "filter (\<lambda>(k, _). k \<notin> group_members) m = filter (\<lambda>(k, _). k \<notin> group_members) ms"
    show "group_of_value (JObject m) = map_option (\<lambda>new. g\<lparr>sg_members := new\<rparr>) (read_list member_of_value members)"
      by (cases "read_list member_of_value members")
        (simp_all add: group_of_value_def m at(1-4,6) ms(3) texts_roundtrip optional_meta_roundtrip del: read_list.simps map_map)
  qed
qed

lemma group_roundtrip:
  assumes "flattened group_members (sg_attributes g)"
  shows "group_of_value (group_to_value g) = Some g"
proof -
  note members = read_list_map(1) [of member_of_value member_to_value, OF member_roundtrip]
  show ?thesis using assms by (rule group_value) (simp add: members del: read_list.simps)
qed

text \<open>An insertion under one name.\<close>

lemma filter_btree_insert:
  "k \<in> names \<Longrightarrow> filter (\<lambda>(k, _). k \<notin> names) (btree_insert k v m) = filter (\<lambda>(k, _). k \<notin> names) m"
  by (induction k v m rule: btree_insert.induct) auto

lemma group_members_replaced:
  assumes "flattened group_members (sg_attributes g)"
  shows "\<exists>ms. group_to_value g = JObject ms \<and>
    group_of_value (JObject (btree_insert ''members'' v ms)) = map_option (\<lambda>new. g\<lparr>sg_members := new\<rparr>) (read_list member_of_value (Some v))"
  using assms
proof (rule group_value)
  fix ms
  assume ms: "group_to_value g = JObject ms" "btree ms"
    and read: "\<And>m members. map_of m ''members'' = members \<Longrightarrow> (\<And>k. k \<noteq> ''members'' \<Longrightarrow> map_of m k = map_of ms k) \<Longrightarrow>
      filter (\<lambda>(k, _). k \<notin> group_members) m = filter (\<lambda>(k, _). k \<notin> group_members) ms \<Longrightarrow>
      group_of_value (JObject m) = map_option (\<lambda>new. g\<lparr>sg_members := new\<rparr>) (read_list member_of_value members)"
  have "''members'' \<in> group_members" by (simp add: group_members_def)
  moreover have "map_of (btree_insert ''members'' v ms) k = (if k = ''members'' then Some v else map_of ms k)" for k
    by (simp only: map_of_btree_insert [OF ms(2)] fun_upd_apply)
  ultimately show ?thesis using ms(1) by (intro exI [of _ ms] conjI read) (simp_all only: filter_btree_insert if_True if_False simp_thms)
qed

subsection \<open>Requests\<close>

lemma require_identifier_Inr [result_simps]: "require_identifier name v = Inr u \<longleftrightarrow> trim v \<noteq> [] \<and> trim v = v \<and> length v \<le> 512"
  by (auto simp: require_identifier_def)

lemma require_schema_Inr [result_simps]: "require_schema schemas expected = Inr u \<longleftrightarrow> expected \<in> set schemas"
  by (auto simp: require_schema_def)

lemma btree_insert_same: "map_of (btree_insert k v m) k = Some v"
  by (induction k v m rule: btree_insert.induct) auto

lemma user_to_value_object: "\<exists>ms. user_to_value u = JObject ms" "\<exists>ms. group_to_value g = JObject ms"
  by (simp_all add: user_to_value_def group_to_value_def object_of_def)

text \<open>What the projection of a resource says of its principal and of the identity it is bound to.\<close>

fun resource_enabled :: "scim_resource \<Rightarrow> bool" where
  "resource_enabled (ScimUser u) = (su_active u \<noteq> Some False)"
| "resource_enabled (ScimGroup g) = True"

fun resource_subject :: "scim_resource \<Rightarrow> string option" where
  "resource_subject (ScimUser u) = su_external_id u"
| "resource_subject (ScimGroup g) = map_option (\<lambda>x. ''group:'' @ strip_group x) (sg_external_id g)"

fun stored_claims :: "scim_resource \<Rightarrow> json" where
  "stored_claims (ScimUser u) = user_to_value (u\<lparr>su_id := None, su_meta := None\<rparr>)"
| "stored_claims (ScimGroup g) = group_to_value (g\<lparr>sg_id := None, sg_meta := None\<rparr>)"

fun resource_schema :: "scim_resource \<Rightarrow> bool" where
  "resource_schema (ScimUser u) = (user_schema \<in> set (su_schemas u))"
| "resource_schema (ScimGroup g) = (group_schema \<in> set (sg_schemas g))"

lemma scim_discover_upsert:
  assumes "scim_discover enc random s (into_upsert resource i) = Inr event"
  obtains pid e where "event = UpsertEvent pid e" "i \<noteq> [] \<longrightarrow> pid = i" "pj_kind e = resource_kind resource"
    and "pj_enabled e = resource_enabled resource" "Some (er_external_id (pj_reference e)) = resource_subject resource"
    and "er_provider_id (pj_reference e) = sd_discovery_id s" "er_issuer (pj_reference e) = sd_issuer s"
    and "JObject (pj_attributes e) = stored_claims resource" "resource_schema resource"
proof (cases resource)
  case (ScimUser u)
  obtain ms where "user_to_value (u\<lparr>su_id := None, su_meta := None\<rparr>) = JObject ms" using user_to_value_object by blast
  then show ?thesis using assms that unfolding ScimUser
    by (auto simp: principal_id_or_new_def Let_def result_simps split: if_splits option.splits)
next
  case (ScimGroup g)
  obtain ms where "group_to_value (g\<lparr>sg_id := None, sg_meta := None\<rparr>) = JObject ms" using user_to_value_object by blast
  then show ?thesis using assms that unfolding ScimGroup
    by (auto simp: principal_id_or_new_def Let_def result_simps split: if_splits option.splits)
qed

lemma adopt_identity_upsert:
  assumes "adopt_identity h d s (into_upsert resource i) = Inr request"
  obtains j where "request = into_upsert resource j" "i \<noteq> [] \<longrightarrow> j = i"
  using assms by (cases resource)
    (auto simp: adopt_identity_def Let_def result_simps split: if_splits option.splits)

text \<open>A resource that is stored and read again.\<close>

fun flattened_resource :: "scim_resource \<Rightarrow> bool" where
  "flattened_resource (ScimUser u) = flattened user_members (su_attributes u)"
| "flattened_resource (ScimGroup g) = flattened group_members (sg_attributes g)"

fun returned_resource :: "string \<Rightarrow> scim_resource \<Rightarrow> scim_resource" where
  "returned_resource i (ScimUser u) = ScimUser (u\<lparr>su_id := Some i, su_active := Some (su_active u \<noteq> Some False),
     su_meta := Some (resource_meta ''User'' (''/scim/v2/Users/'' @ i))\<rparr>)"
| "returned_resource i (ScimGroup g) = ScimGroup (g\<lparr>sg_id := Some i,
     sg_meta := Some (resource_meta ''Group'' (''/scim/v2/Groups/'' @ i))\<rparr>)"

lemma restore_stored:
  assumes "flattened_resource resource" "resource_schema resource" "pi_kind p = resource_kind resource"
    and "pi_status p = Active \<longleftrightarrow> resource_enabled resource"
  shows "restore_resource \<lparr>ss_principal = p, ss_claims = stored_claims resource\<rparr> = Inr (returned_resource (pi_id p) resource)"
  using assms by (cases resource)
    (simp_all add: restore_resource_def Let_def user_roundtrip group_roundtrip with_schema_def)

subsection \<open>The store of the resources\<close>

text \<open>
  What the handler relies on beyond \<open>principal_directory\<close>: a principal written alone is the only entry that changes, the
  identity read for a provider is one of those the principal is bound to (\<open>bound\<close>), and the identity written with a principal is
  the only one for its provider, unless the principal was bound to another subject of that provider.
\<close>

locale scim_store = principal_directory "pn_repository (sc_principals h)" ok at selected
  for h :: "'d scim_handler" and ok :: "'d \<Rightarrow> bool" and at :: "'d \<Rightarrow> string \<Rightarrow> iam_principal_info option"
    and selected :: "'d \<Rightarrow> string \<Rightarrow> iam_principal_info list" +
  fixes s :: scim_principal_discovery
    and bound :: "'d \<Rightarrow> string \<Rightarrow> string \<Rightarrow> iam_principal_identity_info set"
  assumes adapter: "sc_scim h = Some s"
    and write_principal: "ok d \<Longrightarrow> sc_upsert h d p = (written, d') \<Longrightarrow> ok d' \<and>
      (case written of Inl e \<Rightarrow> d' = d | Inr q \<Rightarrow> q = p \<and> at d' = (at d)(pi_id p \<mapsto> p))"
    and identity_read: "ok d \<Longrightarrow> \<exists>found. sc_get_identity h d i v = Inr found \<and>
      (case found of None \<Rightarrow> bound d i v = {} | Some b \<Rightarrow> b \<in> bound d i v)"
    and identity_written: "ok d \<Longrightarrow> pr_upsert_with_identity (pn_repository (sc_principals h)) d p ident = (Inr q, d') \<Longrightarrow>
      ii_principal_id ident = pi_id p \<Longrightarrow>
      (\<And>b. b \<in> bound d (pi_id p) (ii_provider ident) \<Longrightarrow> ii_issuer b = ii_issuer ident \<and> ii_subject b = ii_subject ident) \<Longrightarrow>
      bound d' (pi_id p) (ii_provider ident) = {ident}"
begin

lemma get_scim_eq:
  assumes "ok d"
  shows "get_scim h d i kind =
    (case at d i of
       None \<Rightarrow> Inl (PrincipalNotFound i)
     | Some p \<Rightarrow>
         if scim_deleted p \<or> pi_kind p \<noteq> kind then Inl (PrincipalNotFound i)
         else case projr (sc_get_identity h d i (sd_discovery_id s)) of
           None \<Rightarrow> Inl (PrincipalNotFound i)
         | Some b \<Rightarrow> map_err Discovery (restore_resource \<lparr>ss_principal = p, ss_claims = ii_claims b\<rparr>))"
proof -
  obtain found where "sc_get_identity h d i (sd_discovery_id s) = Inr found" using identity_read [OF assms] by blast
  then show ?thesis by (simp add: get_scim_def adapter handler_get_def get [OF assms] split: option.split)
qed

lemma identity_read_one: "ok d \<Longrightarrow> bound d i v = {b} \<Longrightarrow> sc_get_identity h d i v = Inr (Some b)"
  using identity_read [of d i v] by (auto split: option.splits)

lemma upsert_external_Inr:
  assumes "ok d" "upsert_external (sc_principals h) d i e = (Inr p, d')"
  shows "ok d'" "pi_id p = i" "pi_kind p = pj_kind e" "pi_status p = Active \<longleftrightarrow> pj_enabled e" "pi_authorization_state p = []"
    and "at d' = (at d)(i \<mapsto> p)"
    and "(\<And>b. b \<in> bound d i (er_provider_id (pj_reference e)) \<Longrightarrow>
        ii_issuer b = er_issuer (pj_reference e) \<and> ii_subject b = er_external_id (pj_reference e)) \<Longrightarrow>
      \<exists>b. bound d' i (er_provider_id (pj_reference e)) = {b} \<and> ii_claims b = JObject (pj_attributes e)"
proof -
  define q where "q = \<lparr>pi_id = i, pi_kind = pj_kind e, pi_display_name = pj_display_name e,
    pi_status = (if pj_enabled e then Active else Disabled), pi_authorization_state = []\<rparr>"
  define ident where "ident = \<lparr>ii_principal_id = i, ii_provider = er_provider_id (pj_reference e),
    ii_issuer = er_issuer (pj_reference e), ii_subject = er_external_id (pj_reference e),
    ii_claims = JObject (pj_attributes e)\<rparr>"
  have run: "pr_upsert_with_identity (pn_repository (sc_principals h)) d q ident = (Inr p, d')"
    using assms(2) by (auto simp: upsert_external_def Let_def q_def ident_def result_simps split: prod.splits)
  from upsert [OF assms(1) run] have "ok d'" "p = q" "at d' = (at d)(pi_id q \<mapsto> q)" by auto
  then show "ok d'" "pi_id p = i" "pi_kind p = pj_kind e" "pi_status p = Active \<longleftrightarrow> pj_enabled e"
    "pi_authorization_state p = []" "at d' = (at d)(i \<mapsto> p)"
    by (auto simp: q_def)
  show "\<exists>b. bound d' i (er_provider_id (pj_reference e)) = {b} \<and> ii_claims b = JObject (pj_attributes e)"
    if "\<And>b. b \<in> bound d i (er_provider_id (pj_reference e)) \<Longrightarrow>
      ii_issuer b = er_issuer (pj_reference e) \<and> ii_subject b = er_external_id (pj_reference e)"
    using identity_written [OF assms(1) run] that by (simp add: q_def ident_def)
qed

lemma provision_upsert:
  assumes "ok d" "provision_scim h random d (into_upsert resource i) = (Inr r, d')"
  obtains p where "r = Some p" "i \<noteq> [] \<longrightarrow> pi_id p = i" "ok d'" "at d' = (at d)(pi_id p \<mapsto> p)"
    and "pi_kind p = resource_kind resource" "pi_status p = Active \<longleftrightarrow> resource_enabled resource" "\<not> scim_deleted p"
    and "resource_schema resource"
    and "(\<forall>b. b \<in> bound d (pi_id p) (sd_discovery_id s) \<longrightarrow>
        ii_issuer b = sd_issuer s \<and> Some (ii_subject b) = resource_subject resource) \<longrightarrow>
      (\<exists>b. bound d' (pi_id p) (sd_discovery_id s) = {b} \<and> ii_claims b = stored_claims resource)"
proof -
  obtain request where request: "adopt_identity h d s (into_upsert resource i) = Inr request"
    using assms(2) by (auto simp: provision_scim_def adapter split: sum.splits)
  then obtain j where j: "request = into_upsert resource j" "i \<noteq> [] \<longrightarrow> j = i" by (rule adopt_identity_upsert)
  obtain event where event: "scim_discover (sc_b64_encode h) random s (into_upsert resource j) = Inr event"
    and run: "apply_scim_projection h d event = (Inr r, d')"
    using assms(2) by (auto simp: provision_scim_def adapter request j(1) split: sum.splits)
  obtain pid e where e: "event = UpsertEvent pid e" "j \<noteq> [] \<longrightarrow> pid = j" "pj_kind e = resource_kind resource"
    "pj_enabled e = resource_enabled resource" "Some (er_external_id (pj_reference e)) = resource_subject resource"
    "er_provider_id (pj_reference e) = sd_discovery_id s" "er_issuer (pj_reference e) = sd_issuer s"
    "JObject (pj_attributes e) = stored_claims resource" "resource_schema resource"
    using event by (rule scim_discover_upsert)
  obtain p where p: "r = Some p" "upsert_external (sc_principals h) d pid e = (Inr p, d')"
    using run by (auto simp: e(1) split: prod.splits sum.splits)
  note u = upsert_external_Inr [OF assms(1) p(2)]
  show ?thesis
  proof (rule that)
    show "r = Some p" "ok d'" "at d' = (at d)(pi_id p \<mapsto> p)" "pi_kind p = resource_kind resource" "resource_schema resource"
      "pi_status p = Active \<longleftrightarrow> resource_enabled resource" "\<not> scim_deleted p"
      using p(1) u(1-6) e(3,4,9) by (auto simp: scim_deleted_def)
    show "i \<noteq> [] \<longrightarrow> pi_id p = i" using j(2) e(2) u(2) by simp
    show "(\<forall>b. b \<in> bound d (pi_id p) (sd_discovery_id s) \<longrightarrow>
        ii_issuer b = sd_issuer s \<and> Some (ii_subject b) = resource_subject resource) \<longrightarrow>
      (\<exists>b. bound d' (pi_id p) (sd_discovery_id s) = {b} \<and> ii_claims b = stored_claims resource)"
      using u(7) unfolding e(6-8) u(2) by (simp flip: e(5))
  qed
qed

lemma upsert_scim_stores:
  assumes "ok d" "flattened_resource resource" "upsert_scim h random d i resource replace = (Inr res, d')"
  shows "\<exists>p. (i \<noteq> [] \<longrightarrow> pi_id p = i) \<and> pi_kind p = resource_kind resource \<and> (pi_status p = Active \<longleftrightarrow> resource_enabled resource) \<and>
    at d' = (at d)(pi_id p \<mapsto> p) \<and>
    ((\<forall>b. b \<in> bound d (pi_id p) (sd_discovery_id s) \<longrightarrow> ii_issuer b = sd_issuer s \<and> Some (ii_subject b) = resource_subject resource) \<longrightarrow>
      res = returned_resource (pi_id p) resource)"
proof -
  obtain r where run: "provision_scim h random d (into_upsert resource i) = (Inr r, d')"
    and res: "\<And>p. r = Some p \<Longrightarrow> get_scim h d' (pi_id p) (resource_kind resource) = Inr res"
    using assms(3) by (auto simp: upsert_scim_def split: sum.splits prod.splits option.splits if_splits)
  obtain p where p: "r = Some p" "i \<noteq> [] \<longrightarrow> pi_id p = i" "ok d'" "at d' = (at d)(pi_id p \<mapsto> p)"
    "pi_kind p = resource_kind resource" "pi_status p = Active \<longleftrightarrow> resource_enabled resource" "\<not> scim_deleted p" "resource_schema resource"
    "(\<forall>b. b \<in> bound d (pi_id p) (sd_discovery_id s) \<longrightarrow>
        ii_issuer b = sd_issuer s \<and> Some (ii_subject b) = resource_subject resource) \<longrightarrow>
      (\<exists>b. bound d' (pi_id p) (sd_discovery_id s) = {b} \<and> ii_claims b = stored_claims resource)"
    using assms(1) run by (rule provision_upsert)
  have "res = returned_resource (pi_id p) resource"
    if same: "\<forall>b. b \<in> bound d (pi_id p) (sd_discovery_id s) \<longrightarrow>
        ii_issuer b = sd_issuer s \<and> Some (ii_subject b) = resource_subject resource"
  proof -
    obtain b where b: "bound d' (pi_id p) (sd_discovery_id s) = {b}" "ii_claims b = stored_claims resource"
      using p(9) same by blast
    show ?thesis using res [OF p(1)] restore_stored [OF assms(2) p(8,5,6)]
      by (simp add: get_scim_eq [OF p(3)] p(4,5,7) b(2) identity_read_one [OF p(3) b(1)])
  qed
  then show ?thesis using p(2,4-6) by blast
qed

lemma group_update_enables:
  assumes "ok d" "i \<noteq> []"
    and "patch_scim h random d i Group patch = (Inr res, d') \<or> upsert_scim h random d i (ScimGroup g) True = (Inr res, d')"
  shows "\<exists>p. at d' i = Some p \<and> pi_kind p = Group \<and> pi_status p = Active"
proof -
  have group: "\<exists>g. resource = ScimGroup g" if "get_scim h d i Group = Inr resource" for resource
    using that by (auto simp: get_scim_eq [OF assms(1)] restore_resource_def Let_def result_simps split: option.splits if_splits)
  have patched: "\<exists>g. resource' = ScimGroup g" if "scim_patch (ScimGroup g) patch = Inr resource'" for g resource'
    using that by (auto simp: scim_patch_def result_simps split: if_splits)
  obtain g r where "provision_scim h random d (into_upsert (ScimGroup g) i) = (Inr r, d')"
    using assms(3) group patched
    by (fastforce simp: patch_scim_def upsert_scim_def split: sum.splits prod.splits option.splits if_splits)
  with assms(1) obtain p where "i \<noteq> [] \<longrightarrow> pi_id p = i" "at d' = (at d)(pi_id p \<mapsto> p)" "pi_kind p = Group" "pi_status p = Active"
    by (rule provision_upsert) auto
  then show ?thesis using assms(2) by auto
qed

lemma delete_scim_effect:
  assumes "ok d" "delete_scim h random d i kind = (Inr u, d')"
  shows "ok d'" "\<exists>p. at d' = (at d)(i \<mapsto> p) \<and> pi_status p = Disabled \<and> scim_deleted p"
proof -
  obtain p where p: "at d i = Some p"
    using assms by (auto simp: delete_scim_def get_scim_eq [OF assms(1)] split: sum.splits option.splits)
  let ?q = "p\<lparr>pi_status := Disabled, pi_authorization_state := btree_insert ''scimDeleted'' (JBool True) (pi_authorization_state p)\<rparr>"
  obtain r where "provision_scim h random d (ScimDelete i) = (Inr r, d')"
    using assms(2) by (auto simp: delete_scim_def split: sum.splits prod.splits)
  then obtain q where "sc_upsert h d ?q = (Inr q, d')"
    by (auto simp: provision_scim_def adapter adopt_identity_def handler_get_def get [OF assms(1)] p result_simps
      split: sum.splits prod.splits if_splits)
  from write_principal [OF assms(1) this] at_id [OF assms(1) p]
  have "ok d'" "at d' = (at d)(i \<mapsto> ?q)" by auto
  moreover have "scim_deleted ?q" by (simp add: scim_deleted_def btree_insert_same)
  ultimately show "ok d'" "\<exists>p. at d' = (at d)(i \<mapsto> p) \<and> pi_status p = Disabled \<and> scim_deleted p" by (auto intro!: exI [of _ ?q])
qed

lemma page_resources_append:
  "page_resources h d kind (ps @ qs) =
     and_then (page_resources h d kind ps) (\<lambda>rs. and_then (page_resources h d kind qs) (\<lambda>more. Inr (rs @ more)))"
proof (induction ps)
  case Nil
  then show ?case by (cases "page_resources h d kind qs") simp_all
next
  case (Cons p ps)
  then show ?case
    by (cases "page_resources h d kind ps"; cases "page_resources h d kind qs") (auto split: sum.splits principal_handler_error.splits)
qed

lemma scim_pages_rest:
  assumes "ok d"
  shows "length (rest d [] after) < n \<Longrightarrow> scim_pages n h d kind after = Some (page_resources h d kind (rest d [] after))"
proof (induction n arbitrary: after)
  case (Suc n)
  let ?xs = "rest d [] after"
  have page: "pr_list (pn_repository (sc_principals h)) d [] after 100 = Inr (take 100 ?xs)" by (simp add: list [OF assms])
  show ?case
  proof (cases "100 \<le> length ?xs")
    case True
    let ?c = "Some (pi_id (last (take 100 ?xs)))"
    have drop: "rest d [] ?c = drop 100 ?xs" using rest_cursor [OF assms _ True] by simp
    have "length (rest d [] ?c) < n" unfolding drop using True Suc.prems by simp
    from Suc.IH [OF this] have next_pages: "scim_pages n h d kind ?c = Some (page_resources h d kind (drop 100 ?xs))" by (simp only: drop)
    have "page_resources h d kind ?xs = and_then (page_resources h d kind (take 100 ?xs))
        (\<lambda>rs. and_then (page_resources h d kind (drop 100 ?xs)) (\<lambda>more. Inr (rs @ more)))"
      using page_resources_append [of d kind "take 100 ?xs" "drop 100 ?xs"] by simp
    moreover have "take 100 ?xs \<noteq> []" "\<not> length (take 100 ?xs) < 100" using True by auto
    ultimately show ?thesis using next_pages
      by (simp add: page del: take_eq_Nil length_take split: sum.split)
  next
    case False
    then show ?thesis by (simp add: page split: sum.split)
  qed
qed simp

lemma list_scim_eq:
  assumes "ok d" "length (selected d []) < n"
  shows "list_scim n h d kind query =
    Some (and_then (page_resources h d kind (selected d [])) (\<lambda>resources. map_err Discovery (scim_list_page resources query)))"
proof -
  have "rest d [] None = selected d []" using selected_ids [OF assms(1)] by (auto simp: filter_id_conv nonempty_above)
  then show ?thesis using scim_pages_rest [OF assms(1), of None n kind] assms(2) by (simp add: list_scim_def adapter)
qed

end

section \<open>The handler over SQLite\<close>

definition sqlite_scim_handler ::
  "search_provider list \<Rightarrow> scim_principal_discovery \<Rightarrow> (string \<Rightarrow> string) \<Rightarrow> (identity_row list \<Rightarrow> nat) \<Rightarrow>
   database scim_handler" where
  "sqlite_scim_handler vs s enc choice = \<lparr>sc_principals = sqlite_principal_handler vs, sc_scim = Some s, sc_upsert = principal_upsert,
     sc_find_by_identity = principal_find_by_identity,
     sc_get_identity = (\<lambda>db i provider. Inr (principal_get_identity choice db i provider)), sc_b64_encode = enc\<rparr>"

lemma sqlite_scim_directory:
  "principal_directory (pn_repository (sc_principals (sqlite_scim_handler vs s enc choice))) readable_db sqlite_at sqlite_selected"
  using sqlite_dir.principal_directory_axioms by (simp add: sqlite_scim_handler_def)

interpretation sqlite_scim: scim_store "sqlite_scim_handler vs s enc choice" readable_db sqlite_at sqlite_selected s sqlite_bindings
  for vs s enc choice
proof (intro scim_store.intro scim_store_axioms.intro sqlite_scim_directory)
  fix db p ident q db'
  assume "pr_upsert_with_identity (pn_repository (sc_principals (sqlite_scim_handler vs s enc choice))) db p ident = (Inr q, db')"
  then have "principal_upsert_with_identity db p ident = (Inr q, db')"
    by (simp add: sqlite_scim_handler_def sqlite_principal_repository_def)
  moreover assume "ii_principal_id ident = pi_id p"
    and "\<And>b. b \<in> sqlite_bindings db (pi_id p) (ii_provider ident) \<Longrightarrow>
      ii_issuer b = ii_issuer ident \<and> ii_subject b = ii_subject ident"
  ultimately show "sqlite_bindings db' (pi_id p) (ii_provider ident) = {ident}" by (rule sqlite_identity)
qed (use sqlite_upsert_principal principal_get_identity_binding in \<open>simp_all add: sqlite_scim_handler_def\<close>)

section \<open>Example resources\<close>

definition sample_scim :: scim_principal_discovery where
  "sample_scim = \<lparr>sd_discovery_id = ''scim'', sd_issuer = ''corp''\<rparr>"

definition sample_scim_user :: scim_user_resource where
  "sample_scim_user = \<lparr>su_schemas = [user_schema], su_id = None, su_external_id = Some ''7'', su_user_name = ''ann'',
     su_display_name = None, su_active = Some True, su_emails = [\<lparr>se_value = ''a@x'', se_primary = True\<rparr>], su_meta = None,
     su_attributes = [(''title'', JString ''dev'')]\<rparr>"

definition sample_scim_directory :: database where
  "sample_scim_directory = empty_db\<lparr>db_principals := [principal_to_row (directory_principal ''ops'' Group Disabled)],
     db_identities := [\<lparr>ti_principal_id = ''ops'', ti_provider = ''scim'', ti_issuer = ''corp'', ti_subject = ''group:9'',
       ti_claims = JObject [(''displayName'', JString ''Ops''), (''externalId'', JString ''9''), (''schemas'', JArray [JString group_schema])]\<rparr>]\<rparr>"

definition sample_rename :: scim_patch_request where
  "sample_rename = \<lparr>pq_schemas = [patch_schema],
     pq_operations = [\<lparr>po_op = PatchReplace, po_path = Some ''displayName'', po_value = JString ''Operations''\<rparr>]\<rparr>"

lemma readable_sample_scim_directory: "readable_db sample_scim_directory"
  by (simp add: readable_db_def valid_db_def sample_scim_directory_def empty_db_def principal_to_row_def directory_principal_def
    principal_checks_def sql_trim_def)

section \<open>Properties\<close>

text \<open>
  Claim C16. What is provisioned is stored and read back: a successful creation or replacement of a User or Group writes the one
  principal of the resource, of its kind and active unless the resource says otherwise, leaves every other principal as
  it was; and if the principal was bound to no other subject of the provider, the answer is the given resource under its canonical
  identifier and location.
\<close>

theorem scim_resource_is_stored:
  assumes "readable_db db" "flattened_resource resource"
    and "upsert_scim (sqlite_scim_handler vs s enc choice) random db i resource replace = (Inr answer, db')"
  shows "\<exists>p. (i \<noteq> [] \<longrightarrow> pi_id p = i) \<and> pi_kind p = resource_kind resource \<and> (pi_status p = Active \<longleftrightarrow> resource_enabled resource) \<and>
    sqlite_at db' = (sqlite_at db)(pi_id p \<mapsto> p) \<and>
    ((\<forall>b \<in> sqlite_bindings db (pi_id p) (sd_discovery_id s).
        ii_issuer b = sd_issuer s \<and> Some (ii_subject b) = resource_subject resource) \<longrightarrow>
      answer = returned_resource (pi_id p) resource)"
  unfolding Ball_def using assms by (rule sqlite_scim.upsert_scim_stores)

lemma flattened_sample_scim_user: "flattened_resource (ScimUser sample_scim_user)"
  by (simp add: sample_scim_user_def flattened_def btree_def user_members_def)

theorem scim_resource_is_stored_witness:
  "\<exists>(p :: iam_principal_info) db'. pi_kind p = User \<and> pi_status p = Active \<and>
     upsert_scim (sqlite_scim_handler [] sample_scim id length) ''r'' empty_db [] (ScimUser sample_scim_user) False =
       (Inr (returned_resource (pi_id p) (ScimUser sample_scim_user)), db')"
proof -
  let ?run = "upsert_scim (sqlite_scim_handler [] sample_scim id length) ''r'' empty_db [] (ScimUser sample_scim_user) False"
  have "case ?run of (Inl _, _) \<Rightarrow> False | (Inr _, _) \<Rightarrow> True" by code_simp
  then obtain answer db' where run: "?run = (Inr answer, db')" by (cases ?run; cases "fst ?run") auto
  have "readable_db empty_db" by (simp add: readable_db_def valid_db_def empty_db_def)
  moreover have "resource_enabled (ScimUser sample_scim_user)" by (simp add: sample_scim_user_def)
  moreover have "sqlite_bindings empty_db j v = {}" for j v by (simp add: sqlite_bindings_def provider_rows_def empty_db_def)
  ultimately have "\<exists>p. pi_kind p = User \<and> pi_status p = Active \<and> sqlite_at db' = (sqlite_at empty_db)(pi_id p \<mapsto> p) \<and>
      answer = returned_resource (pi_id p) (ScimUser sample_scim_user)"
    using scim_resource_is_stored [OF _ flattened_sample_scim_user run] by (simp del: returned_resource.simps resource_enabled.simps)
  then obtain p :: iam_principal_info where "pi_kind p = User" "pi_status p = Active" "answer = returned_resource (pi_id p) (ScimUser sample_scim_user)"
    by (elim exE conjE)
  with run show ?thesis by (intro exI [of _ p] exI [of _ db'] conjI) simp_all
qed

text \<open>
  Claim C17. Deleting a resource takes effect at once: it is no longer found, whatever kind is asked for, every request of its principal
  is refused as disabled, and every other principal is left as it was.
\<close>

theorem scim_deletion_takes_effect:
  assumes "readable_db db" "delete_scim (sqlite_scim_handler vs s enc choice) random db i kind = (Inr u, db')"
  shows "get_scim (sqlite_scim_handler vs s enc choice) db' i any_kind = Inl (PrincipalNotFound i) \<and>
    (ap_principal_id identity = i \<longrightarrow> resolve_request (sqlite_principal_handler vs) db' identity = Inl (PrincipalDisabled i)) \<and>
    (\<forall>j. j \<noteq> i \<longrightarrow> sqlite_at db' j = sqlite_at db j)"
proof -
  note effect = sqlite_scim.delete_scim_effect [OF assms]
  obtain p where p: "sqlite_at db' = (sqlite_at db)(i \<mapsto> p)" "pi_status p = Disabled" "scim_deleted p" using effect(2) by blast
  show ?thesis
    using p by (auto simp: sqlite_scim.get_scim_eq [OF effect(1)] sqlite_dir.resolve_request_eq [OF effect(1) sqlite_principal_handler_simps(1)])
qed

theorem scim_deletion_takes_effect_witness:
  "get_scim (sqlite_scim_handler [] sample_scim id length)
     (snd (delete_scim (sqlite_scim_handler [] sample_scim id length) [] sample_scim_directory ''ops'' Group)) ''ops'' Group =
   Inl (PrincipalNotFound ''ops'')"
proof -
  let ?run = "delete_scim (sqlite_scim_handler [] sample_scim id length) [] sample_scim_directory ''ops'' Group"
  have "fst ?run = Inr ()" by code_simp
  then have "?run = (Inr (), snd ?run)" by (metis prod.collapse)
  from scim_deletion_takes_effect [OF readable_sample_scim_directory this] show ?thesis by blast
qed

text \<open>
  Claim C34. A listing ends: within one round more than there are stored principals the loop over the pages stops, with the first error that a
  single pass over all principals in the order of their identifiers meets, or with the requested page of all the resources that pass finds.
\<close>

theorem scim_listing_ends:
  assumes "readable_db db"
  shows "list_scim (Suc (length (db_principals db))) (sqlite_scim_handler vs s enc choice) db kind query =
    Some (and_then (page_resources (sqlite_scim_handler vs s enc choice) db kind (sqlite_selected db []))
      (\<lambda>resources. map_err Discovery (scim_list_page resources query)))"
proof -
  have "length (sqlite_selected db []) \<le> length (db_principals db)"
    by (simp add: sqlite_selected_def)
  then show ?thesis using sqlite_scim.list_scim_eq [OF assms] by simp
qed

theorem scim_listing_ends_witness:
  "\<exists>r. list_scim 2 (sqlite_scim_handler [] sample_scim id length) sample_scim_directory Group
     \<lparr>slq_start_index = 1, slq_count = 10, slq_filter = None\<rparr> = Some r"
proof -
  have "Suc (length (db_principals sample_scim_directory)) = 2" by (simp add: sample_scim_directory_def)
  note ends = scim_listing_ends [OF readable_sample_scim_directory, where kind = Group, unfolded this]
  show ?thesis unfolding ends by (rule exI) (rule refl)
qed

text \<open>
  Claim C38. Every successful PATCH or replacement of a Group leaves its principal active, also when an administrator had disabled it: a
  restored Group does not say whether it is active, and its projection is always enabled.
\<close>

theorem scim_update_enables_group:
  assumes "readable_db db" "i \<noteq> []"
    and "patch_scim (sqlite_scim_handler vs s enc choice) random db i Group changes = (Inr answer, db') \<or>
      upsert_scim (sqlite_scim_handler vs s enc choice) random db i (ScimGroup g) True = (Inr answer, db')"
  shows "\<exists>p. sqlite_at db' i = Some p \<and> pi_kind p = Group \<and> pi_status p = Active"
  using assms by (rule sqlite_scim.group_update_enables)

theorem scim_update_enables_group_witness:
  "(\<exists>p. sqlite_at sample_scim_directory ''ops'' = Some p \<and> pi_status p = Disabled) \<and>
   (\<exists>p. sqlite_at (snd (patch_scim (sqlite_scim_handler [] sample_scim id length) [] sample_scim_directory ''ops'' Group sample_rename)) ''ops'' = Some p \<and>
     pi_status p = Active)"
proof -
  let ?run = "patch_scim (sqlite_scim_handler [] sample_scim id length) [] sample_scim_directory ''ops'' Group sample_rename"
  have "case ?run of (Inl _, _) \<Rightarrow> False | (Inr _, _) \<Rightarrow> True" by code_simp
  then obtain answer db' where run: "?run = (Inr answer, db')" by (cases ?run; cases "fst ?run") auto
  have "sqlite_at sample_scim_directory ''ops'' = Some (directory_principal ''ops'' Group Disabled)" by code_simp
  moreover from scim_update_enables_group [OF readable_sample_scim_directory _ disjI1 [OF run]] run
  have "\<exists>p. sqlite_at (snd ?run) ''ops'' = Some p \<and> pi_status p = Active" by auto
  ultimately show ?thesis by (simp add: directory_principal_def)
qed

text \<open>
  Claim C39. A PATCH that adds members to a Group replaces them: the patched Group has the members of the operation only, and those it
  had before are gone.
\<close>

theorem scim_patch_add_replaces_members:
  assumes "flattened group_members (sg_attributes g)"
  shows "scim_patch (ScimGroup g) \<lparr>pq_schemas = [patch_schema],
      pq_operations = [\<lparr>po_op = PatchAdd, po_path = Some ''members'', po_value = JArray (map member_to_value new)\<rparr>]\<rparr> =
    Inr (ScimGroup (g\<lparr>sg_members := new\<rparr>))"
proof -
  obtain ms where ms: "group_to_value g = JObject ms" and read: "group_of_value (JObject (btree_insert ''members'' (JArray (map member_to_value new)) ms)) =
      map_option (\<lambda>new. g\<lparr>sg_members := new\<rparr>) (read_list member_of_value (Some (JArray (map member_to_value new))))"
    using group_members_replaced [OF assms] by blast
  have "those (map member_of_value (map member_to_value new)) = Some new" by (rule read_list_map(2)) (rule member_roundtrip)
  then have patched: "group_of_value (JObject (btree_insert ''members'' (JArray (map member_to_value new)) ms)) = Some (g\<lparr>sg_members := new\<rparr>)"
    unfolding read by simp
  have path: "is_ascii_alphanumeric CHR ''m''" "is_ascii_alphanumeric CHR ''e''" "is_ascii_alphanumeric CHR ''b''"
    "is_ascii_alphanumeric CHR ''r''" "is_ascii_alphanumeric CHR ''s''" by code_simp+
  have "apply_patch_operation (JObject ms) \<lparr>po_op = PatchAdd, po_path = Some ''members'', po_value = JArray (map member_to_value new)\<rparr> =
      Inr (JObject (btree_insert ''members'' (JArray (map member_to_value new)) ms))"
    by (simp add: apply_patch_operation_def path)
  then show ?thesis by (simp add: scim_patch_def ms patched)
qed

theorem scim_patch_add_replaces_members_witness:
  "\<exists>g. sg_members g = [\<lparr>gm_value = ''a'', gm_reference = None, gm_kind = None\<rparr>] \<and>
     scim_patch (ScimGroup g) \<lparr>pq_schemas = [patch_schema], pq_operations =
       [\<lparr>po_op = PatchAdd, po_path = Some ''members'', po_value = JArray (map member_to_value [\<lparr>gm_value = ''b'', gm_reference = None, gm_kind = None\<rparr>])\<rparr>]\<rparr> =
     Inr (ScimGroup (g\<lparr>sg_members := [\<lparr>gm_value = ''b'', gm_reference = None, gm_kind = None\<rparr>]\<rparr>))"
proof (intro exI conjI)
  let ?g = "\<lparr>sg_schemas = [group_schema], sg_id = None, sg_external_id = Some ''9'', sg_display_name = ''Ops'',
    sg_members = [\<lparr>gm_value = ''a'', gm_reference = None, gm_kind = None\<rparr>], sg_meta = None, sg_attributes = []\<rparr>"
  show "sg_members ?g = [\<lparr>gm_value = ''a'', gm_reference = None, gm_kind = None\<rparr>]" by simp
  have "flattened group_members (sg_attributes ?g)" by (simp add: flattened_def)
  from scim_patch_add_replaces_members [OF this] show "scim_patch (ScimGroup ?g) \<lparr>pq_schemas = [patch_schema], pq_operations =
       [\<lparr>po_op = PatchAdd, po_path = Some ''members'', po_value = JArray (map member_to_value [\<lparr>gm_value = ''b'', gm_reference = None, gm_kind = None\<rparr>])\<rparr>]\<rparr> =
     Inr (ScimGroup (?g\<lparr>sg_members := [\<lparr>gm_value = ''b'', gm_reference = None, gm_kind = None\<rparr>]\<rparr>))" .
qed

end
