(* ===== verification/Spec2Isabelle.thy ===== *)
theory Spec2Isabelle
  imports Adapter Webauthn Federated_Login Wallet Scim
begin

text \<open>
  AuthGuard is an identity and access management server in Rust with three parts. The \<^bold>\<open>authorization\<close>
  service (\<open>src/authz\<close>) holds a policy catalog of actions, roles and role bindings, answers the external
  authorization calls of an Envoy gateway and delivers to the upstream service a signed description of what
  the caller may touch. The \<^bold>\<open>authentication\<close> service (\<open>src/authn\<close>) turns logins into principals and tokens.
  The \<^bold>\<open>adapters\<close> (\<open>src/adapters/rust\<close>) are used inside the services behind the gateway: they verify the
  delivered description and turn it into SQL conditions. Both services share \<open>src/common\<close>: the resource
  names, matchers, storage, caches and codecs.

  \<^bold>\<open>How the parts interact.\<close> The gateway sends a request to \<open>DefaultAuthorizationHandler::check\<close>. The handler
  reads the identity from the gateway token, resolves it against the stored principals, maps the HTTP route to
  an action and a resource URN, asks the compiled policy for a decision and for the resource patterns that
  apply, and returns them either in a signed header or behind a scope token kept in the cache. The adapter
  verifies that header or resolves that token, and compiles the patterns to a \<open>WHERE\<close> clause for the tables of
  its service. The authentication service verifies a login, resolves the external identity to a principal in the
  same database and issues the token that the gateway presents. The policy is changed by commands that compare
  a revision, write the database and then publish the newly compiled policy.

  \<^bold>\<open>Theories, in the order of their imports.\<close>
  \<^item> \<open>Prelude\<close>: results with an error side, Rust string operations, sorted lists without repetition, 64-bit
    integers with saturating and checked arithmetic, durations; locale \<open>codec\<close> for printers and parsers.
  \<^item> \<open>Urn\<close> (\<open>common/src/utils/policy_urn.rs\<close>): resource URNs and patterns, their parsers, printers and matching.
    Parsing and printing are inverse; the index loop of \<open>path_matches\<close> decides the declarative meaning.
  \<^item> \<open>Http_Matcher\<close> (\<open>common/src/utils/http_matcher.rs\<close>): route matchers and URN templates. A request resolves
    exactly if one route matches and no other does; template values cannot move text between URN segments.
  \<^item> \<open>Conditions\<close> (\<open>common/src/utils/context.rs\<close>): conditions of role bindings, failing closed. The crate
    \<open>ipnet\<close> is a parameter.
  \<^item> \<open>Policy\<close> (\<open>authz/src/handler/policy/mod.rs\<close>, \<open>common/src/model\<close>): compilation and evaluation. The decision
    is the one read off the document: an applicable allow and no applicable deny, and the delivered patterns
    decide every resource as the policy does.
  \<^item> \<open>Identity\<close> (\<open>common/src/model/identity.rs\<close>): the identity in the gateway token, canonical and bounded.
  \<^item> \<open>Storage\<close> (\<open>migrations/001_init.ddl.sql\<close>, \<open>common/src/storage\<close>): the tables as lists of rows with the
    constraints of the schema, and the locales \<open>policy_storage\<close> and \<open>principal_directory\<close> that the handlers
    rely on. \<open>Policy_Store\<close> and \<open>Principal_Store\<close> (\<open>role_sqlite.rs\<close>, \<open>principal_sqlite.rs\<close>) model the SQL
    statements of the repositories, with transactions, and interpret the locales on them.
  \<^item> \<open>Policy_Handler\<close> (\<open>authz/src/handler/policy/policy.rs\<close>): opening, reads, the authorization endpoint and every
    command under the write lock, proved over any storage with the laws of \<open>policy_storage\<close>; a step relation
    \<open>handler_reachable\<close> with the invariant that the published policy is the stored one.
  \<^item> \<open>Std_Text\<close>: prefixes and suffixes, decimal numbers and IP addresses as the standard library reads and writes them.
  \<^item> \<open>Principals\<close> (\<open>authz/src/handler/principal.rs\<close>, \<open>common/src/principal/mod.rs\<close>): resolution of requests,
    federated search, materialization and lifecycle of principals; the discovery providers are parameters.
  \<^item> \<open>Scim\<close> (\<open>authz/src/principal/scim\<close>, \<open>authz/src/handler/scim.rs\<close>): SCIM resources with their serialization, and
    the provisioning of Users and Groups over the locale \<open>scim_store\<close>, which extends \<open>principal_directory\<close>. What is
    provisioned is read back, a deletion takes effect, and a listing ends. Which of several subjects of one provider a query
    returns is a parameter, as the statement names no order.
  \<^item> \<open>Access_Context\<close> (\<open>common/src/utils/context.rs\<close>, \<open>jwt.rs\<close>): delivered contexts, their signatures and
    lifetimes, and compact JWTs, over the locales \<open>base64url\<close>, \<open>context_codec\<close> and \<open>rsa_scheme\<close>.
  \<^item> \<open>Memory_Cache\<close> (\<open>common/src/cache/memory.rs\<close>): one-time values (locale \<open>one_time_cache\<close>) and the table of
    scopes with least-recently-used eviction.
  \<^item> \<open>Ext_Authz\<close> (\<open>authz/src/handler/authorization.rs\<close>): the whole \<open>Check\<close> call and the resolution of scope
    tokens, over the locale \<open>scope_cache\<close>.
  \<^item> \<open>Sql_Scope\<close> (\<open>common/src/utils/sql.rs\<close>): compilation of patterns to SQL, with the meaning of the clauses
    under any \<open>LIKE\<close> operator with the laws of \<open>prefix_like\<close> and \<open>stored_like\<close>, interpreted on those of PostgreSQL and SQLite. A clause
    selects what the patterns match where they push down; on SQLite it may select more, when only the case differs.
  \<^item> \<open>Adapter\<close> (\<open>adapters/rust/src\<close>): resolvers, filter and scopes of a request.
  \<^item> \<open>Account_Linking\<close> (\<open>authn/src/principal/jit.rs\<close>): from a verified external identity to one principal, over the
    locale \<open>identity_bindings\<close>, interpreted on the repository of \<open>Principal_Store\<close>. Logins are stable, accounts never
    merge and links are guarded.
  \<^item> \<open>Authentication\<close> (\<open>authn/src/authentication\<close>, \<open>authn/src/handler/authentication.rs\<close>): the canonical token, the
    pipeline of all protocols with step-up, and one-time challenges. What is issued is what the readers accept,
    over the locale \<open>issuer_codec\<close>.
  \<^item> \<open>Credentials\<close> (\<open>common/src/model/credential.rs\<close>, \<open>storage/authn/credential_sqlite.rs\<close>): the credential table and
    its repository, with the locale \<open>credential_storage\<close>; counters of one-time passwords only grow.
  \<^item> \<open>Hosted_Login\<close> (\<open>authn/src/handler/error.rs\<close>, \<open>mod.rs\<close>, \<open>authn/src/route/application.rs\<close>): errors and responses
    of the login interface and the validation of the destination after a login.
  \<^item> \<open>Standalone\<close> (\<open>authn/src/handler/standalone.rs\<close>, \<open>provider/standalone\<close>): passwords, one-time passwords,
    registration, login and enrollment over the locale \<open>standalone_store\<close>, which joins the two repositories; a step
    relation \<open>standalone_run\<close> with the schema as its invariant.
  \<^item> \<open>Webauthn\<close> (\<open>authn/src/handler/webauthn.rs\<close>): the four passkey ceremonies.
  \<^item> \<open>Providers\<close> (\<open>authn/src/provider\<close>): the configuration-driven OAuth adapter with its normalization of identities,
    its variants, and OpenID Connect, under the locale \<open>identity_provider\<close>, interpreted on all six adapters.
  \<^item> \<open>Federated_Login\<close> (\<open>authn/src/handler/oauth2.rs\<close>): construction of the configured providers, authorization and
    link flows, callbacks and token exchange. A completed callback belongs to a pending flow of the same provider.
  \<^item> \<open>Wallet\<close> (\<open>authn/src/provider/wallet\<close>, \<open>authn/src/handler/wallet.rs\<close>): CAIP accounts, challenges and the proofs of
    the Ethereum, Solana and Bitcoin namespaces.
  \<^item> This theory composes them: the rows a service returns are the rows the policy document allows.

  \<^bold>\<open>How the code is translated.\<close> Structures are records, enumerations are datatypes with the constructors of
  the source, \<open>Result\<close> is a sum with the error on the left and \<open>?\<close> is \<open>and_then\<close>. Operations that change state
  take and return it: the database, the handler state, the cache, the thread-local access. Loops are structural
  recursions or have a termination proof; no definition needs fuel except the page walker of a client in
  \<open>Principals\<close> and the loop over the pages in \<open>Scim\<close>, which are given the number of stored principals (and one more),
  and theorems show that this is enough.
  Integers that may overflow are words of their width. Time is an argument: every reading of the clock in an
  operation is a parameter of its own, in program order. A \<open>HashMap\<close> whose order can be observed is an
  association list.

  \<^bold>\<open>Parameters and their hypotheses.\<close> Third-party crates are records of functions: \<open>ipnet\<close>, \<open>serde_json\<close>,
  \<open>base64\<close>, \<open>hmac\<close>, \<open>rsa\<close>, \<open>http\<close>, \<open>argon2\<close>, \<open>totp-rs\<close>, \<open>webauthn-rs\<close>, \<open>openidconnect\<close>, \<open>siwx\<close>, \<open>bip322\<close>. Where a theorem needs what they document (decoding inverts encoding, a
  signature verifies under its public key, a document is read back as written), the locale or predicate that
  says so is a hypothesis, and a concrete instance satisfies it.

  \<^bold>\<open>Simplifications.\<close> Tracing and metrics have no effect on results and are left out. Asynchronous calls run
  to completion: a check reads one state of the database and of the published policy, although the source
  reads them one after the other and a command may come in between. Commands are serialized by the write lock
  of the source, so their sequences are the interleavings. A SQL statement is its effect on the rows; columns
  of mapped tables are not null.

  \<^bold>\<open>Not modelled.\<close> The configuration loader, the HTTP routers and servers, telemetry and the command line are
  wiring without authorization logic. The PostgreSQL and Redis twins run the same statements against another
  server; they would interpret the same locales. The directory adapters (Keycloak, LDAP, custom) are HTTP
  and LDAP clients behind the modelled discovery contract.
\<close>

section \<open>From the policy to the query of a service\<close>

lemma urn_covers_single: "urn_covers t [u] \<longleftrightarrow> (\<exists>p. pattern_from_str t = Inr p \<and> pattern_matches p u)"
  by (auto simp: urn_covers_def matches_any_def split: sum.splits)

lemma scope_decides_rows:
  assumes "policy_compile net document n = Inr cp" "ar_parent_urns request = []"
    and "scoped = policy_scope net cp (ar_principal_id request) (ar_group_principal_ids request) (ar_action request) (ar_context request)"
  shows "(\<exists>t \<in> set (as_allow_resource_urns scoped). \<exists>p. pattern_from_str t = Inr p \<and> pattern_matches p (ar_resource_urn request)) \<and>
      \<not> (\<exists>t \<in> set (as_deny_resource_urns scoped). \<exists>p. pattern_from_str t = Inr p \<and> pattern_matches p (ar_resource_urn request)) \<longleftrightarrow>
    document_binds net document Allow request \<and> \<not> document_binds net document Deny request"
proof -
  have "ad_allowed (policy_authorize net cp request) \<longleftrightarrow>
      document_binds net document Allow request \<and> \<not> document_binds net document Deny request"
    by (simp add: policy_authorize_def evaluator_authorize_allowed policy_compile_binds [OF assms(1)])
  moreover have "ad_allowed (policy_authorize net cp request) \<longleftrightarrow>
      (\<exists>t \<in> set (as_allow_resource_urns scoped). urn_covers t [ar_resource_urn request]) \<and>
      \<not> (\<exists>t \<in> set (as_deny_resource_urns scoped). urn_covers t [ar_resource_urn request])"
    using scope_agrees [of "cp_evaluator cp" scoped net request] policy_compile_wf [OF assms(1)] assms(2,3)
    by (simp add: policy_authorize_def policy_scope_def)
  ultimately show ?thesis unfolding urn_covers_single by simp
qed

text \<open>The compiled scope of a request selects the rows whose resource the document allows to it.\<close>

lemma scope_selects_allowed_rows:
  assumes "policy_compile net document n = Inr cp" "scoped = policy_scope net cp pid groups action ctx"
    and "scope_for_action access action m = Inr s" "ra_action access = action"
    and "ar_principal_id request = pid" "ar_group_principal_ids request = groups" "ar_action request = action" "ar_context request = ctx"
    and "gs_allow_resource_urns (ra_grants access) = as_allow_resource_urns scoped"
      "gs_deny_resource_urns (ra_grants access) = as_deny_resource_urns scoped"
    and "\<forall>t \<in> set (as_allow_resource_urns scoped @ as_deny_resource_urns scoped).
      \<forall>p. pattern_from_str t = Inr p \<longrightarrow> pushes_down plain (sm_path m) (up_path p)"
    and "stored_like like plain exact"
  shows "\<exists>q. where_clause s = render q \<and> params s = binds q \<and>
    (\<forall>row. stored_row exact row \<longrightarrow> (selects like q row \<longleftrightarrow>
      document_binds net document Allow (request\<lparr>ar_resource_urn := row_urn m row, ar_parent_urns := []\<rparr>) \<and>
      \<not> document_binds net document Deny (request\<lparr>ar_resource_urn := row_urn m row, ar_parent_urns := []\<rparr>)))"
proof -
  have "compile_scope_strs m (as_allow_resource_urns scoped) (as_deny_resource_urns scoped) = Inr s"
    using assms(3,4,9,10) by (simp add: scope_for_action_def adapter_compile_scope_strs result_simps)
  from stored_like.stored_scope_meaning [OF assms(12) this] assms(11)
  obtain q where q: "where_clause s = render q" "params s = binds q" "\<And>row. stored_row exact row \<Longrightarrow> selects like q row \<longleftrightarrow>
      (\<exists>t \<in> set (as_allow_resource_urns scoped). \<exists>p. pattern_from_str t = Inr p \<and> pattern_matches p (row_urn m row)) \<and>
      \<not> (\<exists>t \<in> set (as_deny_resource_urns scoped). \<exists>p. pattern_from_str t = Inr p \<and> pattern_matches p (row_urn m row))"
    by blast
  have "selects like q row \<longleftrightarrow>
      document_binds net document Allow (request\<lparr>ar_resource_urn := row_urn m row, ar_parent_urns := []\<rparr>) \<and>
      \<not> document_binds net document Deny (request\<lparr>ar_resource_urn := row_urn m row, ar_parent_urns := []\<rparr>)" if "stored_row exact row" for row
    using scope_decides_rows [OF assms(1), of "request\<lparr>ar_resource_urn := row_urn m row, ar_parent_urns := []\<rparr>" scoped] assms(2,5-8)
    unfolding q(3) [OF that] by simp
  then show ?thesis using q(1,2) by blast
qed

lemma entered_context:
  assumes "context_codec lib" "context_encode lib (context_new i t ttl) = Some payload" "sign_encoded lib signer payload = Inr v"
    and "unat t \<le> unat now + 30 \<and> now < - 1 \<and> t < - 1 \<and> 0 < as_secs ttl \<and> unat now < unat t + unat (as_secs ttl)"
    and "forwarded access_context_header = Some v" "forwarded scope_token_header = None"
  shows "enter [header_access_context_resolver lib err signer now] forwarded = Inr (Some (access_from_context (context_new i t ttl)))"
proof -
  have "context_verify lib signer v = Inr payload" using context_codec.verify_encoded [OF assms(1-3)] .
  moreover have "context_decode lib now payload = Inr (context_new i t ttl)"
    using context_codec.decode_alive [OF assms(1,2,4)] .
  moreover have "v \<noteq> []" using assms(3) by (auto simp: sign_encoded_def result_simps Let_def)
  ultimately show ?thesis
    using assms(5,6) by (simp add: enter_def header_access_context_resolver_def resolve_header_def nonempty_header_def)
qed

text \<open>
  Claim C1. From the policy document to the rows a service returns: when a check is allowed with a direct
  context, a service that holds the same key and receives the forwarded headers while the context lives enters
  the request, and the SQL scope it compiles for the action of the route selects exactly the rows whose
  resource the published document allows to the caller, with its groups and under the conditions of the
  checked request. This holds for every mapping of the columns into which the patterns of the scope push down, and for every
  engine among the rows whose values its \<open>LIKE\<close> operator compares exactly: all rows on PostgreSQL, those without upper-case
  letters on SQLite.
\<close>

theorem rows_served_are_rows_allowed:
  assumes "context_codec (az_access h)"
    and "policy_compile (ph_net (az_policy h)) (catalog hs) n = Inr (hs_current hs)"
    and "check h hs ck bytes request cache = (rsp, cache')" "rsp_http rsp = OkHttp ok" "(access_context_header, v) \<in> set (ok_headers ok)"
    and "unat (ck_allowed ck) \<le> unat now + 30 \<and> now < - 1 \<and> ck_allowed ck < - 1 \<and> 0 < as_secs (sd_context_ttl (az_scope_delivery h)) \<and>
      unat now < unat (ck_allowed ck) + unat (as_secs (sd_context_ttl (az_scope_delivery h)))"
    and "forwarded access_context_header = Some v" "forwarded scope_token_header = None"
    and "stored_like like plain exact"
  shows "\<exists>input identity resolved route access. workload_try_from (az_ext h) request = Inr input \<and>
    request_identity h input = Inr identity \<and> resolve_request (az_principals h) (hs_storage hs) identity = Inr resolved \<and>
    resolve_http_route (hs_current hs) (wr_method input) (wr_host input) (wr_path input) (ap_trusted_claims identity) = Inr route \<and>
    enter [header_access_context_resolver (az_access h) err (az_signer h) now] forwarded = Inr (Some access) \<and>
    (\<forall>m s. scope_for_action access (rr_action route) m = Inr s \<and>
       (\<forall>t \<in> set (gs_allow_resource_urns (ra_grants access) @ gs_deny_resource_urns (ra_grants access)).
         \<forall>p. pattern_from_str t = Inr p \<longrightarrow> pushes_down plain (sm_path m) (up_path p)) \<longrightarrow>
      (\<exists>q. where_clause s = render q \<and> params s = binds q \<and>
        (\<forall>row. let asked = (authorization_request_of input identity resolved route)\<lparr>ar_resource_urn := row_urn m row, ar_parent_urns := []\<rparr>
          in stored_row exact row \<longrightarrow> (selects like q row \<longleftrightarrow> document_binds (ph_net (az_policy h)) (catalog hs) Allow asked \<and>
             \<not> document_binds (ph_net (az_policy h)) (catalog hs) Deny asked))))"
proof -
  have code: "rsp_code (fst (check h hs ck bytes request cache)) = GrpcOk"
    using ok_http_cases [of h hs ck bytes request cache ok] assms(3,4) by simp
  show ?thesis
  proof (rule check_ok_cases [OF code])
    fix input identity source_exp resolved route scoped resigned d
    assume run: "workload_try_from (az_ext h) request = Inr input" "request_identity h input = Inr identity"
      "resolve_request (az_principals h) (hs_storage hs) identity = Inr resolved"
      "resolve_http_route (hs_current hs) (wr_method input) (wr_host input) (wr_path input) (ap_trusted_claims identity) = Inr route"
      and scoped: "scoped = policy_scope (ph_net (az_policy h)) (hs_current hs) (rp_principal_id resolved)
         (rp_group_principal_ids resolved) (rr_action route) (evaluation_context_of input identity)"
      and delivery: "prepare_delivery h ck bytes (direct_context_of h ck (evaluation_of h hs input identity source_exp resolved route) scoped)
         (length (as_allow_resource_urns scoped) + length (as_deny_resource_urns scoped)) (ck_allowed ck) cache =
         (Inr d, snd (check h hs ck bytes request cache))"
      and out: "rsp_http (fst (check h hs ck bytes request cache)) = OkHttp (allowed_http_response h d resigned)"
    let ?e = "evaluation_of h hs input identity source_exp resolved route"
    let ?c = "context_new (context_input_of ?e scoped) (ck_allowed ck) (sd_context_ttl (az_scope_delivery h))"
    let ?access = "access_from_context ?c"
    let ?ask = "\<lambda>u. (authorization_request_of input identity resolved route)\<lparr>ar_resource_urn := u, ar_parent_urns := []\<rparr>"
    have "ok = allowed_http_response h d resigned" using out assms(3,4) by simp
    with assms(5) have "d = Direct v" using delivered_header(1) by blast
    with delivery obtain payload where "context_encode (az_access h) ?c = Some payload"
      "sign_encoded (az_access h) (az_signer h) payload = Inr v"
      unfolding direct_context_of_def by (elim prepare_delivery_cases) auto
    then have entered: "enter [header_access_context_resolver (az_access h) err (az_signer h) now] forwarded = Inr (Some ?access)"
      using entered_context [OF assms(1)] assms(6-8) by blast
    have grants: "gs_allow_resource_urns (ra_grants ?access) = as_allow_resource_urns scoped"
      "gs_deny_resource_urns (ra_grants ?access) = as_deny_resource_urns scoped" "ra_action ?access = rr_action route"
      by (simp_all add: access_from_context_def grants_from_context_def grants_new_def context_new_def context_input_of_def
        evaluation_of_def Let_def)
    have "\<exists>q. where_clause s = render q \<and> params s = binds q \<and>
        (\<forall>row. stored_row exact row \<longrightarrow> (selects like q row \<longleftrightarrow>
           document_binds (ph_net (az_policy h)) (catalog hs) Allow (?ask (row_urn m row)) \<and>
           \<not> document_binds (ph_net (az_policy h)) (catalog hs) Deny (?ask (row_urn m row))))"
      if "scope_for_action ?access (rr_action route) m = Inr s"
        and "\<forall>t \<in> set (as_allow_resource_urns scoped @ as_deny_resource_urns scoped).
          \<forall>p. pattern_from_str t = Inr p \<longrightarrow> pushes_down plain (sm_path m) (up_path p)" for m s
      using scope_selects_allowed_rows [OF assms(2) scoped, of ?access m s "authorization_request_of input identity resolved route"] grants that assms(9)
      by (simp add: authorization_request_of_def)
    then show ?thesis using run entered
      by (intro exI [of _ input] exI [of _ identity] exI [of _ resolved] exI [of _ route] exI [of _ ?access]) (simp add: grants Let_def)
  qed
qed

definition job_mapping :: resource_sql_mapping where
  "job_mapping = \<lparr>sm_partition = MapConst ''prod'', sm_service = MapConst ''cg'', sm_region = MapConst ''global'',
     sm_tenant = MapColumn ''tenant'', sm_path = [PathLiteral ''job'', RemainderColumn ''id'']\<rparr>"

definition job_scope :: sql_scope where
  "job_scope = \<lparr>where_clause = ''(tenant = ?) AND NOT (tenant = ? AND id = ?)'', params = [''acme'', ''acme'', ''2'']\<rparr>"

definition eve_access :: request_access where
  "eve_access = access_from_context (context_new eve_input 1000 (from_secs 60))"

lemma eve_scope_compiled: "scope_for_action eve_access ''job.read'' job_mapping = Inr job_scope"
  by code_simp

lemma eve_pushes_down:
  assumes "t \<in> set (gs_allow_resource_urns (ra_grants eve_access) @ gs_deny_resource_urns (ra_grants eve_access))" "pattern_from_str t = Inr p"
  shows "pushes_down sqlite_plain (sm_path job_mapping) (up_path p)"
proof -
  have "list_all (\<lambda>t. case pattern_from_str t of Inl _ \<Rightarrow> True | Inr p \<Rightarrow> pushes_down sqlite_plain (sm_path job_mapping) (up_path p))
      (gs_allow_resource_urns (ra_grants eve_access) @ gs_deny_resource_urns (ra_grants eve_access))" by code_simp
  with assms show ?thesis unfolding list_all_iff by (metis sum.case(2))
qed

lemma eve_route:
  assumes "request_identity (eve_handler n) eve_workload = Inr identity"
    and "resolve_http_route (hs_current sample_state) (wr_method eve_workload) (wr_host eve_workload) (wr_path eve_workload)
      (ap_trusted_claims identity) = Inr route"
  shows "rr_action route = ''job.read''"
proof -
  have "case request_identity (eve_handler 0) eve_workload of Inl _ \<Rightarrow> False | Inr identity \<Rightarrow>
      (case resolve_http_route (hs_current sample_state) (wr_method eve_workload) (wr_host eve_workload) (wr_path eve_workload)
        (ap_trusted_claims identity) of Inl _ \<Rightarrow> False | Inr route \<Rightarrow> rr_action route = ''job.read'')" by code_simp
  moreover have "request_identity (eve_handler n) = request_identity (eve_handler 0)"
    by (simp add: request_identity_def eve_handler_def fun_eq_iff)
  ultimately show ?thesis using assms by simp
qed

theorem rows_served_are_rows_allowed_witness:
  "enter [header_access_context_resolver (az_access (eve_handler 2)) (\<lambda>e. []) (az_signer (eve_handler 2)) 1059]
     [access_context_header \<mapsto> eve_header] = Inr (Some eve_access) \<and>
   scope_for_action eve_access ''job.read'' job_mapping = Inr job_scope \<and>
   (\<exists>identity resolved route q. request_identity (eve_handler 2) eve_workload = Inr identity \<and>
     resolve_request (az_principals (eve_handler 2)) (hs_storage sample_state) identity = Inr resolved \<and>
     where_clause job_scope = render q \<and> params job_scope = binds q \<and>
     (\<forall>row. let asked = (authorization_request_of eve_workload identity resolved route)
           \<lparr>ar_resource_urn := row_urn job_mapping row, ar_parent_urns := []\<rparr>
       in stored_row sqlite_stored row \<longrightarrow> (selects sqlite_like q row \<longleftrightarrow>
         document_binds (ph_net (az_policy (eve_handler 2))) (catalog sample_state) Allow asked \<and>
         \<not> document_binds (ph_net (az_policy (eve_handler 2))) (catalog sample_state) Deny asked)))"
proof -
  obtain rsp cache' ok where run: "check (eve_handler 2) sample_state eve_clock [] eve_request small_cache = (rsp, cache')"
    "rsp_http rsp = OkHttp ok" "(access_context_header, eve_header) \<in> set (ok_headers ok)"
    by (rule eve_response [of 2 "[]"]) auto
  have codec: "context_codec (az_access (eve_handler 2))" by (simp add: eve_handler_def table_codec)
  have alive: "unat (1000 :: u64) \<le> unat (1059 :: u64) + 30 \<and> (1059 :: u64) < - 1 \<and> (1000 :: u64) < - 1 \<and>
      0 < (60 :: u64) \<and> unat (1059 :: u64) < unat (1000 :: u64) + unat (60 :: u64)" by simp
  then have live: "unat (ck_allowed eve_clock) \<le> unat (1059 :: u64) + 30 \<and> (1059 :: u64) < - 1 \<and> ck_allowed eve_clock < - 1 \<and>
      0 < as_secs (sd_context_ttl (az_scope_delivery (eve_handler 2))) \<and>
      unat (1059 :: u64) < unat (ck_allowed eve_clock) + unat (as_secs (sd_context_ttl (az_scope_delivery (eve_handler 2))))"
    unfolding eve_fields eve_clock_def clock.simps scope_delivery_properties.simps as_secs_from_secs .
  let ?forwarded = "[access_context_header \<mapsto> eve_header]"
  have headers: "?forwarded access_context_header = Some eve_header" "?forwarded scope_token_header = None"
    by simp_all
  have entered: "enter [header_access_context_resolver (az_access (eve_handler 2)) (\<lambda>e. []) (az_signer (eve_handler 2)) 1059] ?forwarded = Inr (Some eve_access)"
    unfolding eve_access_def by (rule entered_context [OF codec eve_codec(1) _ _ headers]) (use alive eve_codec(3) in \<open>simp_all add: eve_header_def as_secs_from_secs\<close>)
  from rows_served_are_rows_allowed [OF codec eve_published run live headers sqlite.stored_like_axioms, of "\<lambda>e. []"]
  obtain identity resolved route where found: "request_identity (eve_handler 2) eve_workload = Inr identity"
    "resolve_request (az_principals (eve_handler 2)) (hs_storage sample_state) identity = Inr resolved"
    "resolve_http_route (hs_current sample_state) (wr_method eve_workload) (wr_host eve_workload) (wr_path eve_workload)
      (ap_trusted_claims identity) = Inr route"
    and rows: "\<forall>m s. scope_for_action eve_access (rr_action route) m = Inr s \<and>
       (\<forall>t \<in> set (gs_allow_resource_urns (ra_grants eve_access) @ gs_deny_resource_urns (ra_grants eve_access)).
         \<forall>p. pattern_from_str t = Inr p \<longrightarrow> pushes_down sqlite_plain (sm_path m) (up_path p)) \<longrightarrow>
      (\<exists>q. where_clause s = render q \<and> params s = binds q \<and>
        (\<forall>row. let asked = (authorization_request_of eve_workload identity resolved route)\<lparr>ar_resource_urn := row_urn m row, ar_parent_urns := []\<rparr>
          in stored_row sqlite_stored row \<longrightarrow> (selects sqlite_like q row \<longleftrightarrow>
             document_binds (ph_net (az_policy (eve_handler 2))) (catalog sample_state) Allow asked \<and>
             \<not> document_binds (ph_net (az_policy (eve_handler 2))) (catalog sample_state) Deny asked)))"
    unfolding entered eve_workload_parsed by (elim exE conjE) (simp only: sum.inject option.inject)
  have "rr_action route = ''job.read''" using eve_route [OF found(1,3)] .
  with rows [rule_format, of job_mapping job_scope] eve_scope_compiled eve_pushes_down
  obtain q where "where_clause job_scope = render q" "params job_scope = binds q"
    "\<forall>row. let asked = (authorization_request_of eve_workload identity resolved route)
           \<lparr>ar_resource_urn := row_urn job_mapping row, ar_parent_urns := []\<rparr>
       in stored_row sqlite_stored row \<longrightarrow> (selects sqlite_like q row \<longleftrightarrow>
         document_binds (ph_net (az_policy (eve_handler 2))) (catalog sample_state) Allow asked \<and>
         \<not> document_binds (ph_net (az_policy (eve_handler 2))) (catalog sample_state) Deny asked)" by auto
  with entered eve_scope_compiled found(1,2) show ?thesis by blast
qed

end
